(* ===== verification/Go_Base.thy ===== *)
theory Go_Base
  imports Main "HOL-Library.Multiset" "HOL-Library.Char_ord" "HOL-Library.List_Lexorder"
    "HOL-Library.Product_Lexorder" "HOL-Library.AList" "HOL-Library.Sublist"
begin

text \<open>
  The part of the Go language and of its standard library that the modelled packages use:
  errors as values, the \<^verbatim>\<open>strings\<close> package on byte strings, \<^verbatim>\<open>time\<close> instants and
  durations, 64-bit wrap-around, maps as association lists, and \<^verbatim>\<open>sort.SliceStable\<close> with
  the contract a comparison function has to satisfy.
\<close>

section \<open>Errors\<close>

text \<open>
  A Go function that returns \<^verbatim>\<open>(T, error)\<close> returns a sum: \<open>Inl\<close> carries the text of the
  error, \<open>Inr\<close> the value.
\<close>

type_synonym error = string
type_synonym 'a result = "error + 'a"

section \<open>Strings\<close>

text \<open>
  A Go string is a sequence of bytes, here a list of \<^typ>\<open>char\<close>. Case folding and white space
  are those of ASCII: every literal the code compares with is ASCII, and the tags, types and
  status words it handles are.
\<close>

definition byte :: "char \<Rightarrow> nat" where
  "byte c = of_char c"

definition upper_char :: "char \<Rightarrow> char" where
  "upper_char c = (if 97 \<le> byte c \<and> byte c \<le> 122 then char_of (byte c - 32) else c)"

definition lower_char :: "char \<Rightarrow> char" where
  "lower_char c = (if 65 \<le> byte c \<and> byte c \<le> 90 then char_of (byte c + 32) else c)"

definition to_upper :: "string \<Rightarrow> string" where
  "to_upper s = map upper_char s"

definition to_lower :: "string \<Rightarrow> string" where
  "to_lower s = map lower_char s"

definition equal_fold :: "string \<Rightarrow> string \<Rightarrow> bool" where
  "equal_fold s t \<longleftrightarrow> to_lower s = to_lower t"

definition is_space :: "char \<Rightarrow> bool" where
  "is_space c \<longleftrightarrow> byte c \<in> {9, 10, 11, 12, 13, 32}"

definition trim_space :: "string \<Rightarrow> string" where
  "trim_space s = rev (dropWhile is_space (rev (dropWhile is_space s)))"

definition has_prefix :: "string \<Rightarrow> string \<Rightarrow> bool" where
  "has_prefix s p \<longleftrightarrow> take (length p) s = p"

definition has_suffix :: "string \<Rightarrow> string \<Rightarrow> bool" where
  "has_suffix s p \<longleftrightarrow> has_prefix (rev s) (rev p)"

definition trim_suffix :: "string \<Rightarrow> string \<Rightarrow> string" where
  "trim_suffix s p = (if has_suffix s p then take (length s - length p) s else s)"

fun contains :: "string \<Rightarrow> string \<Rightarrow> bool" where
  "contains [] p = (p = [])"
| "contains (c # s) p = (has_prefix (c # s) p \<or> contains s p)"

fun split_on :: "char \<Rightarrow> string \<Rightarrow> string list" where
  "split_on d [] = [[]]"
| "split_on d (c # s) =
     (if c = d then [] # split_on d s
      else (case split_on d s of [] \<Rightarrow> [[c]] | w # ws \<Rightarrow> (c # w) # ws))"

fun join_with :: "string \<Rightarrow> string list \<Rightarrow> string" where
  "join_with sep [] = []"
| "join_with sep [w] = w"
| "join_with sep (w # v # ws) = w @ sep @ join_with sep (v # ws)"

definition is_lower_alnum_dash :: "char \<Rightarrow> bool" where
  "is_lower_alnum_dash c \<longleftrightarrow>
     97 \<le> byte c \<and> byte c \<le> 122 \<or> 48 \<le> byte c \<and> byte c \<le> 57 \<or> c = CHR ''-''"

text \<open>Decimal text of an integer, \<^verbatim>\<open>%d\<close> or \<^verbatim>\<open>strconv.Itoa\<close>.\<close>

fun nat_dec :: "nat \<Rightarrow> string" where
  "nat_dec n = (if n < 10 then [char_of (48 + n)] else nat_dec (n div 10) @ [char_of (48 + n mod 10)])"

declare nat_dec.simps [simp del]

definition int_dec :: "int \<Rightarrow> string" where
  "int_dec i = (if i < 0 then CHR ''-'' # nat_dec (nat (- i)) else nat_dec (nat i))"

section \<open>Machine integers and time\<close>

text \<open>
  \<^verbatim>\<open>int\<close> and \<^verbatim>\<open>int64\<close> are 64 bits wide; \<open>wrap64\<close> is the value a result out of range wraps
  to. Counters that a run cannot bring near the limit are plain \<^typ>\<open>int\<close>.
  A \<^verbatim>\<open>time.Time\<close> is the number of nanoseconds since the zero time of Go (January 1, year 1,
  UTC), so that \<^verbatim>\<open>IsZero\<close> is equality with 0 and \<^verbatim>\<open>UTC()\<close> is the identity.
  A \<^verbatim>\<open>time.Duration\<close> is a number of nanoseconds; \<^verbatim>\<open>Time.Sub\<close> saturates.
\<close>

definition wrap64 :: "int \<Rightarrow> int" where
  "wrap64 x = (x + 2 ^ 63) mod 2 ^ 64 - 2 ^ 63"

type_synonym gotime = int
type_synonym duration = int

abbreviation second :: duration where "second \<equiv> 1000000000"
abbreviation minute :: duration where "minute \<equiv> 60000000000"
abbreviation hour :: duration where "hour \<equiv> 3600000000000"

definition seconds :: "int \<Rightarrow> duration" where
  "seconds n = wrap64 (n * second)"

definition time_sub :: "gotime \<Rightarrow> gotime \<Rightarrow> duration" where
  "time_sub a b = max (- (2 ^ 63)) (min (2 ^ 63 - 1) (a - b))"

text \<open>\<^verbatim>\<open>Time.Truncate(d)\<close> rounds down to a multiple of \<open>d\<close> since the zero time.\<close>

definition time_truncate :: "gotime \<Rightarrow> duration \<Rightarrow> gotime" where
  "time_truncate t d = (if d \<le> 0 then t else t - t mod d)"

definition utc_day :: "gotime \<Rightarrow> gotime" where
  "utc_day t = time_truncate t (24 * hour)"

section \<open>Sorting\<close>

text \<open>
  \<^verbatim>\<open>sort.SliceStable(xs, less)\<close>: the result of a stable sort is the same for every algorithm
  when \<open>less\<close> is a strict weak order, so insertion stands for all of them.
\<close>

fun insert_stable :: "('a \<Rightarrow> 'a \<Rightarrow> bool) \<Rightarrow> 'a \<Rightarrow> 'a list \<Rightarrow> 'a list" where
  "insert_stable lt x [] = [x]"
| "insert_stable lt x (y # ys) =
     (if lt y x then y # insert_stable lt x ys else x # y # ys)"

fun sort_stable :: "('a \<Rightarrow> 'a \<Rightarrow> bool) \<Rightarrow> 'a list \<Rightarrow> 'a list" where
  "sort_stable lt [] = []"
| "sort_stable lt (x # xs) = insert_stable lt x (sort_stable lt xs)"

text \<open>\<^verbatim>\<open>sort.SliceIsSorted(xs, less)\<close>: no element is less than the one before it.\<close>

fun slice_is_sorted :: "('a \<Rightarrow> 'a \<Rightarrow> bool) \<Rightarrow> 'a list \<Rightarrow> bool" where
  "slice_is_sorted lt [] = True"
| "slice_is_sorted lt [x] = True"
| "slice_is_sorted lt (x # y # ys) = (\<not> lt y x \<and> slice_is_sorted lt (y # ys))"

section \<open>The collections the component proofs use\<close>

named_theorems go_string "unfolding of the string operations"
named_theorems go_time "unfolding of the time operations"

declare to_upper_def [go_string] to_lower_def [go_string] upper_char_def [go_string]
  lower_char_def [go_string] equal_fold_def [go_string] byte_def [go_string]
  has_prefix_def [go_string] has_suffix_def [go_string] trim_space_def [go_string]
  trim_suffix_def [go_string] is_space_def [go_string] char_of_def [go_string]

declare wrap64_def [go_time] seconds_def [go_time] time_sub_def [go_time]
  time_truncate_def [go_time] utc_day_def [go_time]

section \<open>Lemmas on strings and time\<close>

lemma equal_fold_refl [simp]: "equal_fold s s"
  by (simp add: equal_fold_def)

lemma equal_fold_sym: "equal_fold s t \<longleftrightarrow> equal_fold t s"
  by (auto simp: equal_fold_def)

lemma equal_fold_trans: "equal_fold s t \<Longrightarrow> equal_fold t u \<Longrightarrow> equal_fold s u"
  by (simp add: equal_fold_def)

lemma equal_fold_distinct:
  "equal_fold s t \<Longrightarrow> \<not> equal_fold t u \<Longrightarrow> \<not> equal_fold s u"
  by (auto simp: equal_fold_def)

lemma has_prefix_append [simp]: "has_prefix (p @ s) p"
  by (simp add: has_prefix_def)

lemma wrap64_id: "- (2 ^ 63) \<le> x \<Longrightarrow> x < 2 ^ 63 \<Longrightarrow> wrap64 x = x"
  by (simp add: wrap64_def)

lemma wrap64_bounds: "- (2 ^ 63) \<le> wrap64 x" "wrap64 x < 2 ^ 63"
  using pos_mod_bound [of "2 ^ 64" "x + 2 ^ 63"] pos_mod_sign [of "2 ^ 64" "x + 2 ^ 63"]
  by (auto simp: wrap64_def)

lemma seconds_small:
  assumes "0 \<le> n" and "n \<le> 9000000000"
  shows "seconds n = n * second"
  using assms unfolding seconds_def by (intro wrap64_id) auto

lemma time_truncate_le: "0 < d \<Longrightarrow> time_truncate t d \<le> t"
  by (simp add: time_truncate_def)

lemma time_truncate_gt: "0 < d \<Longrightarrow> t < time_truncate t d + d"
  using pos_mod_bound [of d t] by (simp add: time_truncate_def)

lemma time_truncate_mono: "0 < d \<Longrightarrow> s \<le> t \<Longrightarrow> time_truncate s d \<le> time_truncate t d"
  using zdiv_mono1 [of s t d] by (simp add: time_truncate_def minus_mod_eq_mult_div)

section \<open>Lemmas on association lists\<close>

lemma map_of_distinct_mem:
  "distinct (map fst m) \<Longrightarrow> (k, v) \<in> set m \<Longrightarrow> map_of m k = Some v"
  by simp

lemma map_of_filter_key:
  "map_of (filter (\<lambda>(k, v). P k) m) k = (if P k then map_of m k else None)"
  by (induction m) auto

lemma map_of_filter:
  assumes "distinct (map fst m)"
  shows "map_of (filter P m) k =
    (case map_of m k of None \<Rightarrow> None | Some v \<Rightarrow> if P (k, v) then Some v else None)"
  using assms
proof (induction m)
  case (Cons x m)
  obtain k' v' where x: "x = (k', v')" by (cases x)
  with Cons.prems have "map_of m k' = None" by (simp add: map_of_eq_None_iff)
  with Cons x show ?case by (auto split: option.splits)
qed simp

lemma distinct_map_filter: "distinct (map f xs) \<Longrightarrow> distinct (map f (filter P xs))"
  by (induction xs) auto

lemma update_length_le: "length (AList.update k v m) \<le> Suc (length m)"
  by (induction m) auto

lemma update_length_present: "k \<in> fst ` set m \<Longrightarrow> length (AList.update k v m) = length m"
  by (induction m) (auto split: if_splits)

lemma delete_length_le: "length (AList.delete k m) \<le> length m"
  by (simp add: AList.delete_eq)

lemma set_update_subset: "set (AList.update k v m) \<subseteq> insert (k, v) (set m)"
  by (induction m) auto

section \<open>Lemmas on sorting\<close>

lemma mset_insert_stable [simp]: "mset (insert_stable lt x ys) = add_mset x (mset ys)"
  by (induction ys) auto

lemma mset_sort_stable [simp]: "mset (sort_stable lt xs) = mset xs"
  by (induction xs) simp_all

lemma set_insert_stable [simp]: "set (insert_stable lt x ys) = insert x (set ys)"
  by (metis mset_insert_stable set_mset_add_mset_insert set_mset_mset)

lemma set_sort_stable [simp]: "set (sort_stable lt xs) = set xs"
  by (metis mset_sort_stable set_mset_mset)

lemma length_sort_stable [simp]: "length (sort_stable lt xs) = length xs"
  by (metis mset_sort_stable size_mset)

lemma sort_stable_Nil_iff [simp]: "sort_stable lt xs = [] \<longleftrightarrow> xs = []"
  by (metis length_0_conv length_sort_stable)

section \<open>The contract of a comparison function\<close>

text \<open>
  What \<^verbatim>\<open>sort\<close> documents of \<open>less\<close>: it is a strict weak order. Every comparison closure of the
  modelled code is an interpretation of this locale.
\<close>

locale go_less =
  fixes lt :: "'a \<Rightarrow> 'a \<Rightarrow> bool"
  assumes less_asym: "lt x y \<Longrightarrow> \<not> lt y x"
    and less_cotrans: "lt x z \<Longrightarrow> lt x y \<or> lt y z"
begin

lemma less_irrefl: "\<not> lt x x"
  using less_asym by blast

lemma less_trans: "lt x y \<Longrightarrow> lt y z \<Longrightarrow> lt x z"
  using less_asym less_cotrans by blast

lemma not_less_trans: "\<not> lt y x \<Longrightarrow> \<not> lt z y \<Longrightarrow> \<not> lt z x"
  using less_cotrans by blast

lemma sorted_insert_stable:
  "sorted_wrt (\<lambda>a b. \<not> lt b a) xs \<Longrightarrow> sorted_wrt (\<lambda>a b. \<not> lt b a) (insert_stable lt x xs)"
proof (induction xs)
  case (Cons y ys)
  then show ?case
    by (auto dest: less_asym less_cotrans)
qed simp

lemma sorted_sort_stable: "sorted_wrt (\<lambda>a b. \<not> lt b a) (sort_stable lt xs)"
  by (induction xs) (simp_all add: sorted_insert_stable)

lemma sort_stable_head:
  assumes "sort_stable lt xs = y # ys" and "x \<in> set xs"
  shows "\<not> lt x y"
proof -
  from assms(1) have "set xs = insert y (set ys)"
    using set_sort_stable [of lt xs] by simp
  moreover have "\<forall>z\<in>set ys. \<not> lt z y"
    using sorted_sort_stable [of xs] assms(1) by simp
  ultimately show ?thesis using assms(2) by (auto simp: less_irrefl)
qed

lemma insert_stable_filter:
  "filter (\<lambda>y. \<not> lt y z \<and> \<not> lt z y) (insert_stable lt x xs) =
   filter (\<lambda>y. \<not> lt y z \<and> \<not> lt z y) (x # xs)"
proof (induction xs)
  case (Cons y ys)
  show ?case
  proof (cases "lt y x")
    case True
    then have "lt y z \<or> lt z x" by (rule less_cotrans)
    with Cons True show ?thesis by auto
  qed simp
qed simp

text \<open>Stability: the elements of one equivalence class keep their order.\<close>

lemma sort_stable_stable:
  "filter (\<lambda>y. \<not> lt y z \<and> \<not> lt z y) (sort_stable lt xs) =
   filter (\<lambda>y. \<not> lt y z \<and> \<not> lt z y) xs"
  by (induction xs) (simp_all add: insert_stable_filter del: filter.simps(2), simp_all)

lemma slice_is_sorted_iff: "slice_is_sorted lt xs \<longleftrightarrow> sorted_wrt (\<lambda>a b. \<not> lt b a) xs"
proof (induction xs rule: induct_list012)
  case (3 x y zs)
  have "transp (\<lambda>a b. \<not> lt b a)"
    by (rule transpI) (rule not_less_trans)
  with 3 show ?case by (simp add: sorted_wrt2 del: sorted_wrt.simps(2))
qed simp_all

end

text \<open>
  A comparison by a key of a linear order satisfies the contract; a chain of tie-breakers is the
  lexicographic order on the tuple of its keys.
\<close>

lemma go_less_key:
  assumes "\<And>x y. lt x y = (key x < (key y :: 'k::linorder))"
  shows "go_less lt"
  by unfold_locales (auto simp: assms)


end
