(* ===== verification/Net_Addr.thy ===== *)
theory Net_Addr
  imports Go_Base "HOL-Library.Word"
begin

text \<open>
  IP addresses: the values of \<^verbatim>\<open>net/netip\<close> as machine words with the predicates of that
  package, the table of special-purpose prefixes of \<^verbatim>\<open>internal/netpolicy\<close>, and the guard
  \<^verbatim>\<open>isUnsafeAddr\<close> of \<^verbatim>\<open>internal/probe/probe.go\<close> that keeps a probe from connecting
  to the router itself or to its local network.
\<close>

unbundle bit_operations_syntax

section \<open>Addresses\<close>

text \<open>
  An IPv4 address is 32 bits wide and an IPv6 address 128; an IPv4-mapped IPv6 address
  (\<^verbatim>\<open>::ffff:a.b.c.d\<close>) is a value of its own, as in \<^verbatim>\<open>netip\<close>. The invalid address is \<open>None\<close> of
  an option. Zones are not modelled.
\<close>

datatype addr = A4 "32 word" | A6 "128 word"

definition is4 :: "addr \<Rightarrow> bool" where
  "is4 a = (case a of A4 _ \<Rightarrow> True | A6 _ \<Rightarrow> False)"

definition is6 :: "addr \<Rightarrow> bool" where
  "is6 a = (case a of A4 _ \<Rightarrow> False | A6 _ \<Rightarrow> True)"

definition unmap :: "addr \<Rightarrow> addr" where
  "unmap a = (case a of A4 w \<Rightarrow> A4 w
     | A6 w \<Rightarrow> if drop_bit 32 w = 0xFFFF then A4 (ucast w) else A6 w)"

definition mapped :: "32 word \<Rightarrow> addr" where
  "mapped w = A6 (push_bit 32 0xFFFF OR ucast w)"

definition octet :: "nat \<Rightarrow> 32 word \<Rightarrow> 32 word" where
  "octet i w = drop_bit (24 - 8 * i) w AND 0xFF"

definition hextet :: "nat \<Rightarrow> 128 word \<Rightarrow> 128 word" where
  "hextet i w = drop_bit (112 - 16 * i) w AND 0xFFFF"

text \<open>The predicates of \<^verbatim>\<open>netip.Addr\<close>; all but \<^verbatim>\<open>IsUnspecified\<close> look through the mapping.\<close>

definition is_loopback :: "addr \<Rightarrow> bool" where
  "is_loopback a = (case unmap a of A4 w \<Rightarrow> octet 0 w = 127 | A6 w \<Rightarrow> w = 1)"

definition is_private :: "addr \<Rightarrow> bool" where
  "is_private a = (case unmap a of
     A4 w \<Rightarrow> octet 0 w = 10 \<or> octet 0 w = 172 \<and> octet 1 w AND 0xF0 = 16 \<or>
             octet 0 w = 192 \<and> octet 1 w = 168
   | A6 w \<Rightarrow> hextet 0 w AND 0xFE00 = 0xFC00)"

definition is_link_local_unicast :: "addr \<Rightarrow> bool" where
  "is_link_local_unicast a = (case unmap a of
     A4 w \<Rightarrow> octet 0 w = 169 \<and> octet 1 w = 254
   | A6 w \<Rightarrow> hextet 0 w AND 0xFFC0 = 0xFE80)"

definition is_link_local_multicast :: "addr \<Rightarrow> bool" where
  "is_link_local_multicast a = (case unmap a of
     A4 w \<Rightarrow> octet 0 w = 224 \<and> octet 1 w = 0 \<and> octet 2 w = 0
   | A6 w \<Rightarrow> hextet 0 w AND 0xFF0F = 0xFF02)"

definition is_multicast :: "addr \<Rightarrow> bool" where
  "is_multicast a = (case unmap a of
     A4 w \<Rightarrow> octet 0 w AND 0xF0 = 0xE0
   | A6 w \<Rightarrow> hextet 0 w AND 0xFF00 = 0xFF00)"

definition is_unspecified :: "addr \<Rightarrow> bool" where
  "is_unspecified a \<longleftrightarrow> a = A4 0 \<or> a = A6 0"

definition is_global_unicast :: "addr \<Rightarrow> bool" where
  "is_global_unicast a =
     (let b = unmap a in b \<noteq> A4 0 \<and> b \<noteq> A4 0xFFFFFFFF \<and> b \<noteq> A6 0 \<and>
        \<not> is_loopback b \<and> \<not> is_multicast b \<and> \<not> is_link_local_unicast b)"

text \<open>\<^verbatim>\<open>netip.Prefix\<close>: a mapped address is in no IPv4 prefix.\<close>

datatype prefix = P4 "32 word" nat | P6 "128 word" nat

definition prefix_contains :: "prefix \<Rightarrow> addr \<Rightarrow> bool" where
  "prefix_contains p a = (case (p, a) of
     (P4 n len, A4 w) \<Rightarrow> drop_bit (32 - len) w = drop_bit (32 - len) n
   | (P6 n len, A6 w) \<Rightarrow> drop_bit (128 - len) w = drop_bit (128 - len) n
   | _ \<Rightarrow> False)"

section \<open>The guards\<close>

definition is_unsafe_addr :: "addr \<Rightarrow> bool" where
  "is_unsafe_addr a \<longleftrightarrow> is_loopback a \<or> is_private a \<or> is_link_local_unicast a \<or>
     is_link_local_multicast a \<or> is_multicast a \<or> is_unspecified a"

definition resolver_bogons :: "prefix list" where
  "resolver_bogons =
     [P4 0x00000000 8, P4 0x0A000000 8, P4 0x64400000 10, P4 0x7F000000 8, P4 0xA9FE0000 16,
      P4 0xAC100000 12, P4 0xC0000000 24, P4 0xC0000200 24, P4 0xC0A80000 16, P4 0xC6120000 15,
      P4 0xC6336400 24, P4 0xCB007100 24, P4 0xE0000000 4, P4 0xF0000000 4,
      P6 0 128, P6 1 128, P6 (push_bit 112 0x100) 64, P6 (push_bit 96 0x20010DB8) 32,
      P6 (push_bit 112 0xFC00) 7, P6 (push_bit 112 0xFE80) 10, P6 (push_bit 112 0xFF00) 8]"

definition public_resolver_addr :: "addr option \<Rightarrow> bool" where
  "public_resolver_addr oa =
     (case oa of None \<Rightarrow> False
      | Some a \<Rightarrow>
          (let b = unmap a in
           if \<not> is_global_unicast b \<or> is_private b \<or> is_loopback b \<or> is_multicast b \<or>
              is_unspecified b \<or> is_link_local_unicast b \<or> is_link_local_multicast b then False
           else list_all (\<lambda>p. \<not> prefix_contains p b) resolver_bogons))"

section \<open>Text forms\<close>

text \<open>
  The parsers and printers of the standard library that read or write the text of an address or
  a URL are the fields of \<open>net_lib\<close>; \<^verbatim>\<open>net.JoinHostPort\<close> and \<^verbatim>\<open>netip.AddrFromSlice\<close> are
  defined.
\<close>

record url =
  ur_scheme :: string
  ur_host :: string
  ur_hostname :: string
  ur_port :: string
  ur_path :: string
  ur_has_user :: bool
  ur_raw_query :: string
  ur_fragment :: string

record net_lib =
  nl_parse_addr :: "string \<Rightarrow> addr option"
  nl_addr_string :: "addr \<Rightarrow> string"
  nl_split_host_port :: "string \<Rightarrow> (string \<times> string) option"
  nl_parse_url :: "string \<Rightarrow> url option"
  nl_parse_request_uri :: "string \<Rightarrow> url option"

definition join_host_port :: "string \<Rightarrow> string \<Rightarrow> string" where
  "join_host_port host port =
     (if CHR '':'' \<in> set host then ''['' @ host @ '']:'' @ port else host @ '':'' @ port)"

definition addr_from_slice :: "8 word list \<Rightarrow> addr option" where
  "addr_from_slice bs =
     (if length bs = 4 then Some (A4 (foldl (\<lambda>acc b. push_bit 8 acc OR ucast b) 0 bs))
      else if length bs = 16 then Some (A6 (foldl (\<lambda>acc b. push_bit 8 acc OR ucast b) 0 bs))
      else None)"

section \<open>Lemmas on bits\<close>

lemma all_less_32: "(\<forall>n<32. P (n::nat)) \<longleftrightarrow>
    P 0 \<and> P 1 \<and> P 2 \<and> P 3 \<and> P 4 \<and> P 5 \<and> P 6 \<and> P 7 \<and> P 8 \<and> P 9 \<and> P 10 \<and> P 11 \<and> P 12 \<and> P 13 \<and>
    P 14 \<and> P 15 \<and> P 16 \<and> P 17 \<and> P 18 \<and> P 19 \<and> P 20 \<and> P 21 \<and> P 22 \<and> P 23 \<and> P 24 \<and> P 25 \<and>
    P 26 \<and> P 27 \<and> P 28 \<and> P 29 \<and> P 30 \<and> P 31"
  by (simp add: eval_nat_numeral All_less_Suc conj_ac)

lemma word32_eq_iff: "(a :: 32 word) = b \<longleftrightarrow> (\<forall>n<32. bit a n = bit b n)"
  by (simp add: bit_eq_iff bit_simps)

lemma bit32_out [simp]: "32 \<le> n \<Longrightarrow> \<not> bit (a :: 32 word) n"
  by (auto dest: bit_imp_le_length)

lemmas bits32 = word32_eq_iff all_less_32 octet_def

lemma octet_prefix8:
  "octet 0 w = 127 \<longleftrightarrow> drop_bit 24 w = 127" "octet 0 w = 10 \<longleftrightarrow> drop_bit 24 w = 10"
  "octet 0 w AND 0xF0 = 0xE0 \<longleftrightarrow> drop_bit 28 w = 14"
  unfolding bits32 by (simp_all add: bit_simps)

lemma octet_prefix16:
  "octet 0 w = 192 \<and> octet 1 w = 168 \<longleftrightarrow> drop_bit 16 w = 0xC0A8"
  "octet 0 w = 169 \<and> octet 1 w = 254 \<longleftrightarrow> drop_bit 16 w = 0xA9FE"
  "octet 0 w = 172 \<and> octet 1 w AND 0xF0 = 16 \<longleftrightarrow> drop_bit 20 w = 0xAC1"
  unfolding bits32 by (simp_all add: bit_simps conj_ac)

lemma all_less_16: "(\<forall>n<16. P (n::nat)) \<longleftrightarrow>
    P 0 \<and> P 1 \<and> P 2 \<and> P 3 \<and> P 4 \<and> P 5 \<and> P 6 \<and> P 7 \<and> P 8 \<and> P 9 \<and> P 10 \<and> P 11 \<and> P 12 \<and> P 13 \<and>
    P 14 \<and> P 15"
  by (simp add: eval_nat_numeral All_less_Suc conj_ac)

lemma mask16: "(0xFFFF :: 128 word) = mask 16"
  by (simp add: mask_eq_exp_minus_1)

lemma low_bits_eq_iff:
  fixes x y :: "128 word"
  assumes "x AND 0xFFFF = x" and "y AND 0xFFFF = y"
  shows "x = y \<longleftrightarrow> (\<forall>n<16. bit x n = bit y n)"
proof
  assume all: "\<forall>n<16. bit x n = bit y n"
  have "take_bit 16 x = x" using assms(1) unfolding mask16 take_bit_eq_mask .
  moreover have "take_bit 16 y = y" using assms(2) unfolding mask16 take_bit_eq_mask .
  moreover have "take_bit 16 x = take_bit 16 y"
  proof (rule bit_word_eqI)
    fix n
    show "bit (take_bit 16 x) n = bit (take_bit 16 y) n"
      using spec [OF all, of n] by (simp only: bit_take_bit_iff) blast
  qed
  ultimately show "x = y" by argo
qed simp

lemma bit128_out [simp]: "128 \<le> n \<Longrightarrow> \<not> bit (a :: 128 word) n"
  by (auto dest: bit_imp_le_length)

lemma high_bits:
  fixes w :: "128 word"
  assumes "112 \<le> k"
  shows "drop_bit k w AND 0xFFFF = drop_bit k w"
proof (rule bit_word_eqI)
  fix n
  have "bit w (k + n) \<Longrightarrow> n < 16" using bit_imp_le_length [of w "k + n"] assms by simp
  then show "bit (drop_bit k w AND 0xFFFF) n = bit (drop_bit k w) n"
    by (auto simp: mask16 bit_and_iff bit_drop_bit_eq bit_mask_iff dest: bit_imp_le_length)
qed

lemma hextet_prefix:
  "hextet 0 w AND 0xFE00 = 0xFC00 \<longleftrightarrow> drop_bit 121 w = 0x7E"
  "hextet 0 w AND 0xFFC0 = 0xFE80 \<longleftrightarrow> drop_bit 118 w = 0x3FA"
  "hextet 0 w AND 0xFF00 = 0xFF00 \<longleftrightarrow> drop_bit 120 w = 0xFF"
proof -
  have d: "drop_bit 121 w AND 0xFFFF = drop_bit 121 w" "drop_bit 118 w AND 0xFFFF = drop_bit 118 w"
    "drop_bit 120 w AND 0xFFFF = drop_bit 120 w"
    by (rule high_bits, simp)+
  show "hextet 0 w AND 0xFE00 = 0xFC00 \<longleftrightarrow> drop_bit 121 w = 0x7E"
    by (subst (1 2) low_bits_eq_iff) (simp_all add: d hextet_def all_less_16 bit_simps and.assoc)
  show "hextet 0 w AND 0xFFC0 = 0xFE80 \<longleftrightarrow> drop_bit 118 w = 0x3FA"
    by (subst (1 2) low_bits_eq_iff) (simp_all add: d hextet_def all_less_16 bit_simps and.assoc)
  show "hextet 0 w AND 0xFF00 = 0xFF00 \<longleftrightarrow> drop_bit 120 w = 0xFF"
    by (subst (1 2) low_bits_eq_iff) (simp_all add: d hextet_def all_less_16 bit_simps and.assoc)
qed

lemma unmap_mapped [simp]: "unmap (mapped w) = A4 w"
proof -
  have "drop_bit 32 (push_bit 32 0xFFFF OR ucast w :: 128 word) = 0xFFFF"
    unfolding mask16 by (rule bit_word_eqI) (auto simp: bit_simps bit_mask_iff)
  moreover have "(ucast (push_bit 32 0xFFFF OR ucast w :: 128 word) :: 32 word) = w"
    unfolding mask16 by (rule bit_word_eqI) (auto simp: bit_simps bit_mask_iff)
  ultimately show ?thesis by (simp add: unmap_def mapped_def)
qed

lemma unmap_idem [simp]: "unmap (unmap a) = unmap a"
  by (auto simp: unmap_def split: addr.splits)

lemma unsafe_mapped:
  "is_loopback (mapped w) = is_loopback (A4 w)" "is_private (mapped w) = is_private (A4 w)"
  "is_multicast (mapped w) = is_multicast (A4 w)"
  "is_link_local_unicast (mapped w) = is_link_local_unicast (A4 w)"
  "is_link_local_multicast (mapped w) = is_link_local_multicast (A4 w)"
proof -
  have "unmap (A4 w) = A4 w" by (simp add: unmap_def)
  then show "is_loopback (mapped w) = is_loopback (A4 w)" "is_private (mapped w) = is_private (A4 w)"
    "is_multicast (mapped w) = is_multicast (A4 w)"
    "is_link_local_unicast (mapped w) = is_link_local_unicast (A4 w)"
    "is_link_local_multicast (mapped w) = is_link_local_multicast (A4 w)"
    by (simp_all add: is_loopback_def is_private_def is_multicast_def is_link_local_unicast_def
        is_link_local_multicast_def)
qed

text \<open>Link-local multicast is multicast.\<close>

lemma multicast_link_local: "is_link_local_multicast a \<Longrightarrow> is_multicast a"
proof (cases "unmap a")
  case (A4 w)
  assume "is_link_local_multicast a"
  with A4 show ?thesis by (simp add: is_link_local_multicast_def is_multicast_def)
next
  case (A6 w)
  assume "is_link_local_multicast a"
  with A6 have h: "hextet 0 w AND 0xFF0F = 0xFF02" by (simp add: is_link_local_multicast_def)
  have "hextet 0 w AND 0xFF00 = (hextet 0 w AND 0xFF0F) AND 0xFF00"
    by (simp add: and.assoc)
  with h A6 show ?thesis by (simp add: is_multicast_def)
qed

text \<open>What the standard predicates reject lies in a prefix of the table.\<close>

lemma bogons_cover:
  assumes "unmap b = b"
    and "is_loopback b \<or> is_private b \<or> is_multicast b \<or> is_unspecified b \<or>
      is_link_local_unicast b \<or> b = A4 0xFFFFFFFF"
  shows "\<exists>p \<in> set resolver_bogons. prefix_contains p b"
proof (cases b)
  case (A4 w)
  from assms(2) [unfolded A4] consider "drop_bit 24 w = 127" | "drop_bit 24 w = 10" | "drop_bit 20 w = 0xAC1"
    | "drop_bit 16 w = 0xC0A8" | "drop_bit 28 w = 14" | "w = 0" | "drop_bit 16 w = 0xA9FE" | "w = 0xFFFFFFFF"
    by (auto simp: is_loopback_def is_private_def is_multicast_def is_unspecified_def unmap_def
        is_link_local_unicast_def octet_prefix8 octet_prefix16 simp del: One_nat_def)
  then show ?thesis unfolding A4 resolver_bogons_def prefix_contains_def by cases simp_all
next
  case (A6 w)
  from assms(2) [unfolded A6] assms(1) [unfolded A6] consider "w = 1" | "drop_bit 121 w = 0x7E" | "drop_bit 120 w = 0xFF" | "w = 0"
    | "drop_bit 118 w = 0x3FA"
    by (auto simp: is_loopback_def is_private_def is_multicast_def is_unspecified_def
        is_link_local_unicast_def hextet_prefix)
  then show ?thesis unfolding A6 resolver_bogons_def prefix_contains_def by cases simp_all
qed

lemma not_unspecified_unmap: "\<not> is_unspecified (unmap a) \<Longrightarrow> \<not> is_unspecified a"
  by (auto simp: is_unspecified_def unmap_def)

lemma public_resolver_bogons:
  "public_resolver_addr (Some a) \<longleftrightarrow> list_all (\<lambda>p. \<not> prefix_contains p (unmap a)) resolver_bogons"
proof
  assume none: "list_all (\<lambda>p. \<not> prefix_contains p (unmap a)) resolver_bogons"
  with bogons_cover [of "unmap a"] have "\<not> (is_loopback (unmap a) \<or> is_private (unmap a) \<or>
      is_multicast (unmap a) \<or> is_unspecified (unmap a) \<or> is_link_local_unicast (unmap a) \<or>
      unmap a = A4 0xFFFFFFFF)"
    by (simp only: unmap_idem list_all_iff) blast
  with none multicast_link_local [of "unmap a"] show "public_resolver_addr (Some a)"
    by (auto simp: public_resolver_addr_def is_global_unicast_def is_unspecified_def Let_def)
qed (simp add: public_resolver_addr_def Let_def split: if_splits)

lemma public_resolver_safe:
  assumes "public_resolver_addr (Some a)"
  shows "\<not> is_unsafe_addr a"
proof -
  have "is_loopback (unmap a) = is_loopback a" "is_private (unmap a) = is_private a"
    "is_multicast (unmap a) = is_multicast a" "is_link_local_unicast (unmap a) = is_link_local_unicast a"
    "is_link_local_multicast (unmap a) = is_link_local_multicast a"
    by (simp_all add: is_loopback_def is_private_def is_multicast_def is_link_local_unicast_def
        is_link_local_multicast_def)
  with assms not_unspecified_unmap [of a] show ?thesis
    by (auto simp: public_resolver_addr_def is_unsafe_addr_def Let_def split: if_splits)
qed


text \<open>The guard of the probes sees through the IPv4 mapping except for one address: of all
  mapped addresses only \<open>::ffff:0.0.0.0\<close>, which the operating system dials as \<open>0.0.0.0\<close>, passes
  although its unmapped form does not.\<close>

theorem unsafe_mapped_iff:
  "is_unsafe_addr (mapped w) \<noteq> is_unsafe_addr (A4 w) \<longleftrightarrow> w = 0"
proof -
  have u: "is_unspecified (mapped w) = False" "is_unspecified (A4 w) \<longleftrightarrow> w = 0"
  proof -
    have "unmap (A6 0) \<noteq> A4 w" by (simp add: unmap_def)
    with unmap_mapped [of w] have "mapped w \<noteq> A6 0" by metis
    moreover have "mapped w \<noteq> A4 0" by (simp add: mapped_def)
    ultimately show "is_unspecified (mapped w) = False" "is_unspecified (A4 w) \<longleftrightarrow> w = 0"
      by (simp_all add: is_unspecified_def)
  qed
  show ?thesis
  proof (cases "w = 0")
    case True
    have "\<not> is_loopback (A4 0)" "\<not> is_private (A4 0)" "\<not> is_multicast (A4 0)"
      "\<not> is_link_local_unicast (A4 0)" "\<not> is_link_local_multicast (A4 0)"
      by (simp_all add: is_loopback_def is_private_def is_multicast_def is_link_local_unicast_def
          is_link_local_multicast_def unmap_def octet_def)
    with True u show ?thesis by (simp add: is_unsafe_addr_def unsafe_mapped)
  qed (use u in \<open>simp add: is_unsafe_addr_def unsafe_mapped\<close>)
qed

end
