(* ===== verification/Dns_Wire.thy ===== *)
theory Dns_Wire
  imports Net_Addr
begin

text \<open>
  DNS messages as bytes (\<^verbatim>\<open>buildDNSQuery\<close>, \<^verbatim>\<open>skipDNSName\<close>, \<^verbatim>\<open>parseDNSResponse\<close> of
  \<^verbatim>\<open>internal/probe/probe.go\<close>) and the validation of decoded answers
  (\<^verbatim>\<open>validateDNSResponse\<close>). An index or slice out of range, which in Go is a panic, is the
  error \<open>go_panic\<close> here, so that its absence can be stated.
\<close>

section \<open>Reading bytes\<close>

definition go_panic :: error where
  "go_panic = ''runtime error: index out of range''"

definition byte_at :: "8 word list \<Rightarrow> nat \<Rightarrow> 8 word result" where
  "byte_at msg off = (if off < length msg then Inr (msg ! off) else Inl go_panic)"

definition slice :: "8 word list \<Rightarrow> nat \<Rightarrow> nat \<Rightarrow> 8 word list result" where
  "slice msg from until =
     (if from \<le> until \<and> until \<le> length msg then Inr (take (until - from) (drop from msg)) else Inl go_panic)"

definition be16 :: "nat \<Rightarrow> 8 word list" where
  "be16 n = [word_of_nat (n div 256), word_of_nat n]"

definition uint16_at :: "8 word list \<Rightarrow> nat \<Rightarrow> nat result" where
  "uint16_at msg off =
     (case slice msg off (off + 2) of
        Inl e \<Rightarrow> Inl e
      | Inr bs \<Rightarrow> Inr (256 * unat (bs ! 0) + unat (bs ! 1)))"

section \<open>Queries and responses\<close>

definition string_bytes :: "string \<Rightarrow> 8 word list" where
  "string_bytes s = map (\<lambda>ch. word_of_nat (byte ch)) s"

fun append_labels :: "string list \<Rightarrow> 8 word list \<Rightarrow> 8 word list result" where
  "append_labels [] msg = Inr msg"
| "append_labels (label # labels) msg =
     (if label = [] \<or> 63 < length label then Inl ''invalid_dns_label''
      else append_labels labels (msg @ word_of_nat (length label) # string_bytes label))"

definition build_dns_query :: "string \<Rightarrow> nat \<Rightarrow> 8 word list result" where
  "build_dns_query host qtype =
     (case append_labels (split_on CHR ''.'' (trim_suffix host ''.''))
             [0x12, word_of_nat qtype, 1, 0, 0, 1, 0, 0, 0, 0, 0, 0] of
        Inl e \<Rightarrow> Inl e
      | Inr msg \<Rightarrow> Inr (msg @ [0] @ be16 qtype @ be16 1))"

function skip_dns_name :: "8 word list \<Rightarrow> nat \<Rightarrow> nat result" where
  "skip_dns_name msg off =
     (if length msg \<le> off then Inl ''dns_name_oob''
      else case byte_at msg off of
        Inl e \<Rightarrow> Inl e
      | Inr b \<Rightarrow>
          (if b = 0 then Inr (off + 1)
           else if b AND 0xC0 = 0xC0 then
             (if length msg \<le> off + 1 then Inl ''dns_pointer_oob'' else Inr (off + 2))
           else skip_dns_name msg (off + 1 + unat b)))"
  by pat_completeness auto
termination
  by (relation "measure (\<lambda>(msg, off). length msg - off)") auto

declare skip_dns_name.simps [simp del]

fun skip_questions :: "8 word list \<Rightarrow> nat \<Rightarrow> nat \<Rightarrow> nat result" where
  "skip_questions msg 0 off = Inr off"
| "skip_questions msg (Suc n) off =
     (case skip_dns_name msg off of
        Inl e \<Rightarrow> Inl e
      | Inr off1 \<Rightarrow>
          (if length msg < off1 + 4 then Inl ''bad_dns_question''
           else skip_questions msg n (off1 + 4)))"

definition rdata_addrs :: "8 word list \<Rightarrow> nat \<Rightarrow> nat \<Rightarrow> nat \<Rightarrow> nat \<Rightarrow> addr list result" where
  "rdata_addrs msg qtype ty off rdlen =
     (if ty = qtype \<and> (ty = 1 \<and> rdlen = 4 \<or> ty = 28 \<and> rdlen = 16) then
        (case slice msg off (off + rdlen) of
           Inl e \<Rightarrow> Inl e
         | Inr bs \<Rightarrow> Inr (case addr_from_slice bs of Some a \<Rightarrow> [a] | None \<Rightarrow> []))
      else Inr [])"

definition read_answer :: "8 word list \<Rightarrow> nat \<Rightarrow> nat \<Rightarrow> (addr list \<times> nat) result" where
  "read_answer msg qtype off0 =
     (case skip_dns_name msg off0 of
        Inl e \<Rightarrow> Inl e
      | Inr off \<Rightarrow>
          (if length msg < off + 10 then Inl ''bad_dns_answer''
           else case (uint16_at msg off, uint16_at msg (off + 8)) of
             (Inr ty, Inr rdlen) \<Rightarrow>
               (if length msg < off + 10 + rdlen then Inl ''bad_dns_rdata''
                else case rdata_addrs msg qtype ty (off + 10) rdlen of
                  Inl e \<Rightarrow> Inl e
                | Inr as \<Rightarrow> Inr (as, off + 10 + rdlen))
           | (Inl e, _) \<Rightarrow> Inl e
           | (_, Inl e) \<Rightarrow> Inl e))"

fun read_answers :: "8 word list \<Rightarrow> nat \<Rightarrow> nat \<Rightarrow> nat \<Rightarrow> addr list \<Rightarrow> addr list result" where
  "read_answers msg qtype 0 off out = Inr out"
| "read_answers msg qtype (Suc n) off out =
     (case read_answer msg qtype off of
        Inl e \<Rightarrow> Inl e
      | Inr (as, off1) \<Rightarrow> read_answers msg qtype n off1 (out @ as))"

definition parse_dns_response :: "8 word list \<Rightarrow> nat \<Rightarrow> addr list result" where
  "parse_dns_response msg qtype =
     (if length msg < 12 then Inl ''short_dns_response''
      else case (uint16_at msg 4, uint16_at msg 6) of
        (Inr qd, Inr an) \<Rightarrow>
          (case skip_questions msg qd 12 of
             Inl e \<Rightarrow> Inl e
           | Inr off \<Rightarrow> read_answers msg qtype an off [])
      | (Inl e, _) \<Rightarrow> Inl e
      | (_, Inl e) \<Rightarrow> Inl e)"

section \<open>Decoded answers\<close>

text \<open>
  What \<^verbatim>\<open>github.com/miekg/dns\<close> decodes a response to, as far as the code looks at it; the
  functions \<^verbatim>\<open>dns.Fqdn\<close> and \<^verbatim>\<open>dns.RcodeToString\<close> are parameters.
\<close>

datatype dns_rr =
    RR_CNAME string string
  | RR_A string "8 word list"
  | RR_AAAA string "8 word list"
  | RR_other

record dns_question =
  dq_name :: string
  dq_qtype :: nat
  dq_qclass :: nat

record dns_msg =
  dm_len :: nat
  dm_id :: nat
  dm_response :: bool
  dm_opcode :: nat
  dm_rcode :: nat
  dm_truncated :: bool
  dm_question :: "dns_question list"
  dm_answer :: "dns_rr list"

record dns_lib =
  dns_fqdn :: "string \<Rightarrow> string"
  dns_rcode_name :: "nat \<Rightarrow> string"

fun collect_cnames :: "dns_rr list \<Rightarrow> (string \<times> string) list \<Rightarrow> (string \<times> string) list result" where
  "collect_cnames [] targets = Inr targets"
| "collect_cnames (RR_CNAME name target # rrs) targets =
     (let owner = to_lower name; t = to_lower target in
      if owner = [] \<or> t = [] \<or> (case map_of targets owner of Some t' \<Rightarrow> t' \<noteq> [] \<and> t' \<noteq> t | None \<Rightarrow> False)
      then Inl ''dns_cname_conflict''
      else collect_cnames rrs (AList.update owner t targets))"
| "collect_cnames (_ # rrs) targets = collect_cnames rrs targets"

text \<open>\<open>n\<close> rounds of the loop are left; in the last one a further target is an error.\<close>

fun chase_cnames :: "nat \<Rightarrow> (string \<times> string) list \<Rightarrow> string \<Rightarrow> string list \<Rightarrow> string list result" where
  "chase_cnames 0 targets current allowed = Inr allowed"
| "chase_cnames (Suc n) targets current allowed =
     (case map_of targets current of
        None \<Rightarrow> Inr allowed
      | Some t \<Rightarrow>
          (if t \<in> set allowed then Inl ''dns_cname_loop''
           else if n = 0 \<and> (case map_of targets t of Some t' \<Rightarrow> t' \<noteq> [] | None \<Rightarrow> False)
           then Inl ''dns_cname_limit''
           else chase_cnames n targets t (t # allowed)))"

definition answer_addr :: "nat \<Rightarrow> (string \<Rightarrow> bool) \<Rightarrow> dns_rr \<Rightarrow> addr option" where
  "answer_addr qtype allowed rr = (case rr of
     RR_A name bs \<Rightarrow> if qtype = 1 \<and> allowed (to_lower name) then addr_from_slice bs else None
   | RR_AAAA name bs \<Rightarrow> if qtype = 28 \<and> allowed (to_lower name) then addr_from_slice bs else None
   | _ \<Rightarrow> None)"

definition is_address_record :: "dns_rr \<Rightarrow> bool" where
  "is_address_record rr = (case rr of RR_A _ _ \<Rightarrow> True | RR_AAAA _ _ \<Rightarrow> True | _ \<Rightarrow> False)"

fun collect_addrs :: "nat \<Rightarrow> (string \<Rightarrow> bool) \<Rightarrow> dns_rr list \<Rightarrow> addr list \<Rightarrow> addr list result" where
  "collect_addrs qtype allowed [] out = Inr out"
| "collect_addrs qtype allowed (rr # rrs) out =
     (if 32 \<le> length out then Inl ''dns_answer_limit''
      else collect_addrs qtype allowed rrs
        (case answer_addr qtype allowed rr of Some a \<Rightarrow> out @ [a] | None \<Rightarrow> out))"

definition validate_dns_response ::
    "dns_lib \<Rightarrow> nat \<Rightarrow> dns_msg option \<Rightarrow> string \<Rightarrow> nat \<Rightarrow> addr list result" where
  "validate_dns_response dl msg_id oresp host qtype =
     (case oresp of
        None \<Rightarrow> Inl ''dns_response_size_limit''
      | Some resp \<Rightarrow>
      if 16 * 1024 < dm_len resp then Inl ''dns_response_size_limit''
      else if dm_id resp \<noteq> msg_id then Inl ''dns_transaction_id_mismatch''
      else if \<not> dm_response resp \<or> dm_opcode resp \<noteq> 0 then Inl ''dns_bad_response_header''
      else if dm_rcode resp \<noteq> 0 then Inl (''dns_rcode_'' @ dns_rcode_name dl (dm_rcode resp))
      else case dm_question resp of
        [q] \<Rightarrow>
          (if \<not> equal_fold (dq_name q) (dns_fqdn dl host) \<or> dq_qtype q \<noteq> qtype \<or> dq_qclass q \<noteq> 1
           then Inl ''dns_question_mismatch''
           else let start = to_lower (dns_fqdn dl host) in
             case collect_cnames (dm_answer resp) [] of
               Inl e \<Rightarrow> Inl e
             | Inr targets \<Rightarrow>
                 (case chase_cnames 8 targets start [start] of
                    Inl e \<Rightarrow> Inl e
                  | Inr allowed \<Rightarrow>
                      (case collect_addrs qtype (\<lambda>n. n \<in> set allowed) (dm_answer resp) [] of
                         Inl e \<Rightarrow> Inl e
                       | Inr out \<Rightarrow>
                           (if list_ex is_address_record (dm_answer resp) \<and> out = []
                            then Inl ''dns_unrelated_answer'' else Inr out))))
      | _ \<Rightarrow> Inl ''dns_question_mismatch'')"

section \<open>Parsing never reads out of range\<close>

lemma unat_byte: "unat (b :: 8 word) < 256"
  by (rule less_le_trans [OF unsigned_less]) simp

lemma slice_Inr: "from \<le> until \<Longrightarrow> until \<le> length msg \<Longrightarrow> slice msg from until = Inr (take (until - from) (drop from msg))"
  by (simp add: slice_def)

lemma uint16_at_Inr:
  "off + 2 \<le> length msg \<Longrightarrow> uint16_at msg off = Inr (256 * unat (msg ! off) + unat (msg ! (off + 1)))"
  by (simp add: uint16_at_def slice_def)

lemma error_not_panic [simp]:
  "''dns_name_oob'' \<noteq> go_panic" "''dns_pointer_oob'' \<noteq> go_panic" "''bad_dns_question'' \<noteq> go_panic"
  "''bad_dns_answer'' \<noteq> go_panic" "''bad_dns_rdata'' \<noteq> go_panic" "''short_dns_response'' \<noteq> go_panic"
  by (simp_all add: go_panic_def)

lemma skip_dns_name_safe:
  "case skip_dns_name msg off of Inl e \<Rightarrow> e \<noteq> go_panic | Inr off' \<Rightarrow> off < off' \<and> off' \<le> length msg"
proof (induction msg off rule: skip_dns_name.induct)
  case (1 msg off)
  show ?case
  proof (cases "length msg \<le> off")
    case False
    then have b: "byte_at msg off = Inr (msg ! off)" by (simp add: byte_at_def)
    have ih: "msg ! off \<noteq> 0 \<Longrightarrow> msg ! off AND 0xC0 \<noteq> 0xC0 \<Longrightarrow>
        case skip_dns_name msg (off + 1 + unat (msg ! off)) of Inl e \<Rightarrow> e \<noteq> go_panic
        | Inr off' \<Rightarrow> off + 1 + unat (msg ! off) < off' \<and> off' \<le> length msg"
      by (rule 1 [OF False b])
    show ?thesis
      by (subst skip_dns_name.simps) (use False b ih in \<open>auto split: sum.splits\<close>)
  qed (simp add: skip_dns_name.simps)
qed

lemma skip_dns_name_cases:
  obtains e where "skip_dns_name msg off = Inl e" "e \<noteq> go_panic"
  | off' where "skip_dns_name msg off = Inr off'" "off < off'" "off' \<le> length msg"
  using skip_dns_name_safe [where msg = msg and off = off] by (cases "skip_dns_name msg off") auto

lemma skip_questions_safe: "skip_questions msg n off \<noteq> Inl go_panic"
proof (induction n arbitrary: off)
  case (Suc n)
  then show ?case by (cases rule: skip_dns_name_cases [of msg off]) auto
qed simp

definition addrs_of_type :: "nat \<Rightarrow> addr list \<Rightarrow> bool" where
  "addrs_of_type qtype as \<longleftrightarrow> list_all (\<lambda>a. is4 a \<and> qtype = 1 \<or> is6 a \<and> qtype = 28) as"

lemma addr_from_slice_family:
  "addr_from_slice bs = Some a \<Longrightarrow> is4 a \<and> length bs = 4 \<or> is6 a \<and> length bs = 16"
  by (auto simp: addr_from_slice_def is4_def is6_def split: if_splits)

lemma rdata_addrs_safe:
  assumes "off + rdlen \<le> length msg"
  obtains as where "rdata_addrs msg qtype ty off rdlen = Inr as" "length as \<le> 1" "addrs_of_type qtype as"
proof -
  let ?bs = "take rdlen (drop off msg)"
  have s: "slice msg off (off + rdlen) = Inr ?bs" using assms by (simp add: slice_def)
  have l: "length ?bs = rdlen" using assms by simp
  show ?thesis
    by (rule that [of "if ty = qtype \<and> (ty = 1 \<and> rdlen = 4 \<or> ty = 28 \<and> rdlen = 16)
          then (case addr_from_slice ?bs of Some a \<Rightarrow> [a] | None \<Rightarrow> []) else []"])
      (use addr_from_slice_family [of ?bs] l in
        \<open>auto simp: rdata_addrs_def s addrs_of_type_def split: option.splits\<close>)
qed

lemma read_answer_safe:
  obtains e where "read_answer msg qtype off = Inl e" "e \<noteq> go_panic"
  | as off' where "read_answer msg qtype off = Inr (as, off')" "length as \<le> 1" "addrs_of_type qtype as"
proof (cases rule: skip_dns_name_cases [of msg off])
  case (1 e)
  then show ?thesis by (intro that(1) [of e]) (simp_all add: read_answer_def)
next
  case (2 off1)
  show ?thesis
  proof (cases "length msg < off1 + 10")
    case True
    with 2 show ?thesis by (intro that(1) [of "''bad_dns_answer''"]) (simp_all add: read_answer_def)
  next
    case False
    then obtain ty rdlen where u: "uint16_at msg off1 = Inr ty" "uint16_at msg (off1 + 8) = Inr rdlen"
      by (simp add: uint16_at_Inr)
    show ?thesis
    proof (cases "length msg < off1 + 10 + rdlen")
      case True
      with 2 u False show ?thesis
        by (intro that(1) [of "''bad_dns_rdata''"]) (simp_all add: read_answer_def)
    next
      case fits: False
      then obtain as where "rdata_addrs msg qtype ty (off1 + 10) rdlen = Inr as" "length as \<le> 1" "addrs_of_type qtype as"
        by (rule_tac rdata_addrs_safe) auto
      with 2 u False fits show ?thesis by (intro that(2)) (simp_all add: read_answer_def)
    qed
  qed
qed

lemma read_answers_safe:
  assumes "addrs_of_type qtype out"
  shows "case read_answers msg qtype n off out of Inl e \<Rightarrow> e \<noteq> go_panic
    | Inr as \<Rightarrow> length as \<le> length out + n \<and> addrs_of_type qtype as"
  using assms
proof (induction n arbitrary: off out)
  case (Suc n)
  show ?case
  proof (cases rule: read_answer_safe [of msg qtype off])
    case (2 as off1)
    then have "addrs_of_type qtype (out @ as)" using Suc.prems by (simp add: addrs_of_type_def)
    from Suc.IH [OF this, of off1] 2 show ?thesis by (auto split: sum.splits)
  qed simp
qed simp



section \<open>Writing and reading agree\<close>

lemma unat_word_of_nat_byte [simp]: "n < 256 \<Longrightarrow> unat (word_of_nat n :: 8 word) = n"
  by (simp add: unat_of_nat)

lemma label_length_byte:
  assumes "0 < n" and "n \<le> 63"
  shows "(word_of_nat n :: 8 word) \<noteq> 0" and "(word_of_nat n :: 8 word) AND 0xC0 \<noteq> 0xC0"
proof -
  have u: "unat (word_of_nat n :: 8 word) = n" using assms by simp
  then show "(word_of_nat n :: 8 word) \<noteq> 0" using assms(1) by (metis unat_0 less_irrefl)
  show "(word_of_nat n :: 8 word) AND 0xC0 \<noteq> 0xC0"
  proof
    assume h: "(word_of_nat n :: 8 word) AND 0xC0 = 0xC0"
    have "bit ((word_of_nat n :: 8 word) AND 0xC0) 6" unfolding h by simp
    then have "bit n 6" by (simp add: bit_simps)
    moreover have "n div 2 ^ 6 = 0" using assms by simp
    ultimately have False by (simp add: bit_iff_odd)
    then show False .
  qed
qed

lemma nth_append_mid [simp]: "(pre @ x # suf) ! length pre = x"
  by simp

lemma byte_at_mid [simp]: "byte_at (pre @ x # suf) (length pre) = Inr x"
  by (simp add: byte_at_def)

lemma append_labels_skip:
  assumes "append_labels labels msg = Inr msg'"
  obtains body where "msg' = msg @ body"
    "\<And>pre suf. skip_dns_name (pre @ body @ 0 # suf) (length pre) = Inr (length pre + length body + 1)"
  using assms
proof (induction labels arbitrary: msg msg' thesis)
  case Nil
  then show ?case
    by (intro Nil(1) [of "[]"]) (simp_all add: skip_dns_name.simps)
next
  case (Cons label labels)
  let ?chunk = "word_of_nat (length label) # string_bytes label"
  from Cons.prems(2) have l: "label \<noteq> []" "length label \<le> 63"
    and rest: "append_labels labels (msg @ ?chunk) = Inr msg'" by (auto split: if_splits)
  from Cons.IH [OF _ rest] obtain body where b: "msg' = (msg @ ?chunk) @ body"
    and skip: "\<And>pre suf. skip_dns_name (pre @ body @ 0 # suf) (length pre) = Inr (length pre + length body + 1)"
    by blast
  have u: "unat (word_of_nat (length label) :: 8 word) = length label" using l by simp
  note lb = label_length_byte [of "length label"]
  show ?case
  proof (rule Cons.prems(1) [of "?chunk @ body"])
    show "msg' = msg @ ?chunk @ body" using b by simp
    fix pre suf
    have "skip_dns_name ((pre @ ?chunk) @ body @ 0 # suf) (length (pre @ ?chunk)) =
        Inr (length (pre @ ?chunk) + length body + 1)" by (rule skip)
    then show "skip_dns_name (pre @ (?chunk @ body) @ 0 # suf) (length pre) =
        Inr (length pre + length (?chunk @ body) + 1)"
      by (subst skip_dns_name.simps) (use l lb u in \<open>simp add: string_bytes_def ac_simps\<close>)
  qed
qed

text \<open>
  A response to a query, as a resolver writes it: the number of answers in the header, and answer
  records whose owner is a pointer to the question name.
\<close>

definition encode_answer :: "nat \<Rightarrow> 8 word list \<Rightarrow> 8 word list" where
  "encode_answer qtype bs =
     [0xC0, 0x0C] @ be16 qtype @ be16 1 @ [0, 0, 0, 60] @ be16 (length bs) @ bs"

definition respond :: "8 word list \<Rightarrow> nat \<Rightarrow> 8 word list list \<Rightarrow> 8 word list" where
  "respond query qtype bss =
     take 6 query @ be16 (length bss) @ drop 8 query @ concat (map (encode_answer qtype) bss)"

lemma be16_value:
  assumes "n < 65536"
  shows "256 * unat (word_of_nat (n div 256) :: 8 word) + unat (word_of_nat n :: 8 word) = n"
proof -
  have "unat (word_of_nat (n div 256) :: 8 word) = n div 256" using assms by simp
  moreover have "unat (word_of_nat n :: 8 word) = n mod 256" by (simp add: unat_of_nat)
  ultimately show ?thesis by simp
qed

lemma uint16_at_be16:
  "n < 65536 \<Longrightarrow> off = length pre \<Longrightarrow> uint16_at (pre @ be16 n @ suf) off = Inr n"
  using be16_value [of n] by (simp add: uint16_at_def slice_def be16_def)

lemma read_answer_encoded:
  assumes "qtype = 1 \<and> length bs = 4 \<or> qtype = 28 \<and> length bs = 16"
  shows "read_answer (pre @ encode_answer qtype bs @ suf) qtype (length pre) =
    Inr (case addr_from_slice bs of Some a \<Rightarrow> [a] | None \<Rightarrow> [], length pre + length (encode_answer qtype bs))"
proof -
  let ?msg = "pre @ encode_answer qtype bs @ suf"
  let ?off = "length pre + 2"
  have q: "qtype < 65536" and l: "length bs < 65536" using assms by auto
  have skip: "skip_dns_name ?msg (length pre) = Inr ?off"
    by (subst skip_dns_name.simps) (simp add: encode_answer_def byte_at_def nth_append)
  have m1: "?msg = (pre @ [0xC0, 0x0C]) @ be16 qtype @ (be16 1 @ [0, 0, 0, 60] @ be16 (length bs) @ bs @ suf)"
    by (simp add: encode_answer_def)
  have ty: "uint16_at ?msg ?off = Inr qtype" unfolding m1 by (rule uint16_at_be16) (simp_all add: q)
  have m2: "?msg = (pre @ [0xC0, 0x0C] @ be16 qtype @ be16 1 @ [0, 0, 0, 60]) @ be16 (length bs) @ (bs @ suf)"
    by (simp add: encode_answer_def)
  have len: "uint16_at ?msg (?off + 8) = Inr (length bs)"
    unfolding m2 by (rule uint16_at_be16) (simp_all add: l be16_def)
  have m3: "?msg = (pre @ [0xC0, 0x0C] @ be16 qtype @ be16 1 @ [0, 0, 0, 60] @ be16 (length bs)) @ (bs @ suf)"
    by (simp add: encode_answer_def)
  have sl: "slice ?msg (?off + 10) (?off + 10 + length bs) = Inr bs"
    unfolding m3 by (simp add: slice_def be16_def)
  have fits: "\<not> length ?msg < ?off + 10" "\<not> length ?msg < ?off + 10 + length bs"
    by (simp_all add: encode_answer_def be16_def)
  have "rdata_addrs ?msg qtype qtype (?off + 10) (length bs) = Inr (case addr_from_slice bs of Some a \<Rightarrow> [a] | None \<Rightarrow> [])"
    using assms sl by (auto simp: rdata_addrs_def)
  with skip ty len fits show ?thesis
    by (simp add: read_answer_def) (simp add: encode_answer_def be16_def)
qed

lemma read_answers_encoded:
  assumes "\<forall>bs \<in> set bss. qtype = 1 \<and> length bs = 4 \<or> qtype = 28 \<and> length bs = 16"
  shows "read_answers (pre @ concat (map (encode_answer qtype) bss)) qtype (length bss) (length pre) out =
    Inr (out @ List.map_filter addr_from_slice bss)"
  using assms
proof (induction bss arbitrary: pre out)
  case (Cons bs bss)
  let ?rest = "concat (map (encode_answer qtype) bss)"
  have "read_answer (pre @ encode_answer qtype bs @ ?rest) qtype (length pre) =
      Inr (case addr_from_slice bs of Some a \<Rightarrow> [a] | None \<Rightarrow> [], length (pre @ encode_answer qtype bs))"
    using read_answer_encoded [of qtype bs pre ?rest] Cons.prems by simp
  with Cons.IH [of "pre @ encode_answer qtype bs"] Cons.prems show ?case
    by (simp add: List.map_filter_simps split: option.splits)
qed (simp add: List.map_filter_simps)

lemma build_dns_query_shape:
  assumes "build_dns_query host qtype = Inr msg"
  obtains body where "msg = [0x12, word_of_nat qtype, 1, 0, 0, 1, 0, 0, 0, 0, 0, 0] @ body @ [0] @ be16 qtype @ be16 1"
    "\<And>pre suf. skip_dns_name (pre @ body @ 0 # suf) (length pre) = Inr (length pre + length body + 1)"
proof -
  from assms obtain msg0 where m: "append_labels (split_on CHR ''.'' (trim_suffix host ''.''))
      [0x12, word_of_nat qtype, 1, 0, 0, 1, 0, 0, 0, 0, 0, 0] = Inr msg0" "msg = msg0 @ [0] @ be16 qtype @ be16 1"
    by (auto simp: build_dns_query_def split: sum.splits)
  from append_labels_skip [OF m(1)] m(2) that show ?thesis by auto
qed

text \<open>C28. The writer of queries and the reader of responses agree on the wire format: a response to
  a query that was built, with any number of answer records of the right size, is parsed to exactly
  the addresses that were put in.\<close>

theorem dns_wire_roundtrip:
  assumes "build_dns_query host qtype = Inr query" and "length bss < 65536"
    and "\<forall>bs \<in> set bss. qtype = 1 \<and> length bs = 4 \<or> qtype = 28 \<and> length bs = 16"
  shows "parse_dns_response (respond query qtype bss) qtype = Inr (List.map_filter addr_from_slice bss)"
proof -
  obtain body where q: "query = [0x12, word_of_nat qtype, 1, 0, 0, 1, 0, 0, 0, 0, 0, 0] @ body @ [0] @ be16 qtype @ be16 1"
    and skip: "\<And>pre suf. skip_dns_name (pre @ body @ 0 # suf) (length pre) = Inr (length pre + length body + 1)"
    by (rule build_dns_query_shape [OF assms(1)]) (rule that)
  let ?hdr = "[0x12, word_of_nat qtype, 1, 0] @ be16 1 @ be16 (length bss) @ [0, 0, 0, 0]"
  let ?tail = "be16 qtype @ be16 1 @ concat (map (encode_answer qtype) bss)"
  have m: "respond query qtype bss = ?hdr @ body @ 0 # ?tail"
    by (simp add: respond_def q be16_def)
  have qd: "uint16_at (respond query qtype bss) 4 = Inr 1"
    using uint16_at_be16 [of 1 4 "[0x12, word_of_nat qtype, 1, 0]" "be16 (length bss) @ [0, 0, 0, 0] @ body @ 0 # ?tail"]
    by (simp add: m)
  have an: "uint16_at (respond query qtype bss) 6 = Inr (length bss)"
    using uint16_at_be16 [OF assms(2), of 6 "[0x12, word_of_nat qtype, 1, 0] @ be16 1" "[0, 0, 0, 0] @ body @ 0 # ?tail"]
    by (simp add: m be16_def)
  have lh: "length ?hdr = 12" by (simp add: be16_def)
  have name: "skip_dns_name (respond query qtype bss) 12 = Inr (12 + length body + 1)"
    using skip [of ?hdr ?tail] unfolding lh m by simp
  let ?pre = "?hdr @ body @ [0] @ be16 qtype @ be16 1"
  have lp: "length ?pre = 12 + length body + 1 + 4" by (simp add: be16_def)
  have pre: "respond query qtype bss = ?pre @ concat (map (encode_answer qtype) bss)" by (simp add: m)
  then have "\<not> length (respond query qtype bss) < 12 + length body + 1 + 4" using lp by simp
  with name have qs: "skip_questions (respond query qtype bss) (Suc 0) 12 = Inr (length ?pre)"
    unfolding lp by simp
  have "\<not> length (respond query qtype bss) < 12" using lp pre by simp
  with qd an qs read_answers_encoded [OF assms(3), of ?pre "[]"] show ?thesis
    unfolding pre [symmetric] by (simp add: parse_dns_response_def)
qed

theorem dns_wire_roundtrip_witness:
  "\<exists>query. build_dns_query ''a.example.com'' 1 = Inr query \<and>
     parse_dns_response (respond query 1 [[1, 2, 3, 4], [10, 0, 0, 1]]) 1 = Inr [A4 0x01020304, A4 0x0A000001]"
proof -
  have "build_dns_query ''a.example.com'' 1 = Inr (projr (build_dns_query ''a.example.com'' 1))" by code_simp
  moreover have "List.map_filter addr_from_slice [[1, 2, 3, 4], [10, 0, 0, 1]] = [A4 0x01020304, A4 0x0A000001]"
    by code_simp
  ultimately show ?thesis
    using dns_wire_roundtrip [of "''a.example.com''" 1 "projr (build_dns_query ''a.example.com'' 1)" "[[1, 2, 3, 4], [10, 0, 0, 1]]"]
    by auto
qed

section \<open>Aliases\<close>

text \<open>The alias relation an answer section states.\<close>

definition cname_rel :: "dns_rr list \<Rightarrow> (string \<times> string) set" where
  "cname_rel rrs = {(to_lower n, to_lower t) | n t. RR_CNAME n t \<in> set rrs}"

definition target_rel :: "(string \<times> string) list \<Rightarrow> (string \<times> string) set" where
  "target_rel targets = {(n, t). map_of targets n = Some t}"

lemma target_rel_update:
  "(case map_of targets owner of Some t' \<Rightarrow> t' = t | None \<Rightarrow> True) \<Longrightarrow>
   target_rel (AList.update owner t targets) = insert (owner, t) (target_rel targets)"
  by (auto simp: target_rel_def update_conv split: option.splits if_splits)

lemma cname_rel_Cons:
  "cname_rel (rr # rrs) = (case rr of RR_CNAME n t \<Rightarrow> {(to_lower n, to_lower t)} | _ \<Rightarrow> {}) \<union> cname_rel rrs"
  by (auto simp: cname_rel_def split: dns_rr.splits)

lemma collect_cnames_rel:
  assumes "collect_cnames rrs targets = Inr ts" and "\<forall>(n, t) \<in> target_rel targets. t \<noteq> []"
  shows "target_rel ts = target_rel targets \<union> cname_rel rrs" and "\<forall>(n, t) \<in> target_rel ts. t \<noteq> []"
proof -
  have both: "target_rel ts = target_rel targets \<union> cname_rel rrs \<and> (\<forall>(n, t) \<in> target_rel ts. t \<noteq> [])"
    using assms
  proof (induction rrs targets rule: collect_cnames.induct)
    case (2 name target rrs targets)
    let ?o = "to_lower name" and ?t = "to_lower target"
    from 2(2) have t: "?t \<noteq> []" and nc: "\<not> (?o = [] \<or> ?t = [] \<or>
        (case map_of targets ?o of Some t' \<Rightarrow> t' \<noteq> [] \<and> t' \<noteq> ?t | None \<Rightarrow> False))"
      and rest: "collect_cnames rrs (AList.update ?o ?t targets) = Inr ts"
      by (simp_all add: Let_def split: if_splits)
    have "case map_of targets ?o of Some t' \<Rightarrow> t' = ?t | None \<Rightarrow> True"
      using nc 2(3) by (auto simp: target_rel_def split: option.splits)
    note upd = target_rel_update [OF this]
    have "\<forall>(n, t) \<in> target_rel (AList.update ?o ?t targets). t \<noteq> []" using 2(3) t by (auto simp: upd)
    from 2(1) [OF refl refl nc rest this] show ?case by (auto simp: upd cname_rel_Cons)
  next
    case (1 targets)
    then show ?case by (simp add: cname_rel_def)
  qed (unfold collect_cnames.simps cname_rel_Cons dns_rr.simps Un_empty_left, blast+)
  show "target_rel ts = target_rel targets \<union> cname_rel rrs" by (rule conjunct1 [OF both])
  show "\<forall>(n, t) \<in> target_rel ts. t \<noteq> []" by (rule conjunct2 [OF both])
qed

text \<open>The names the loop admits are closed under aliases once it stops without an error.\<close>

lemma closed_at_end:
  assumes "map_of targets current = None"
    and "\<forall>a \<in> A - {current}. \<forall>t. map_of targets a = Some t \<longrightarrow> t \<in> A"
  shows "\<forall>a \<in> A. \<forall>t. map_of targets a = Some t \<longrightarrow> t \<in> A"
proof (intro ballI allI impI)
  fix a t
  assume a: "a \<in> A" and t: "map_of targets a = Some t"
  then have "a \<noteq> current" using assms(1) by auto
  with a t assms(2) show "t \<in> A" by blast
qed

lemma chase_cnames_closed:
  assumes "chase_cnames n targets current allowed = Inr names"
    and "n = 0 \<longrightarrow> map_of targets current = None"
    and "\<forall>(k, t) \<in> target_rel targets. t \<noteq> []"
    and "current \<in> set allowed" and "set allowed \<subseteq> {m. (start, m) \<in> (target_rel targets)\<^sup>*}"
    and "\<forall>a \<in> set allowed - {current}. \<forall>t. map_of targets a = Some t \<longrightarrow> t \<in> set allowed"
  shows "set allowed \<subseteq> set names \<and> set names \<subseteq> {m. (start, m) \<in> (target_rel targets)\<^sup>*} \<and>
    (\<forall>a \<in> set names. \<forall>t. map_of targets a = Some t \<longrightarrow> t \<in> set names)"
  using assms
proof (induction n targets current allowed rule: chase_cnames.induct)
  case (2 n targets current allowed)
  show ?case
  proof (cases "map_of targets current")
    case None
    have eq: "names = allowed" using 2(2) None by simp
    with closed_at_end [OF None 2(7)] 2(6) show ?thesis unfolding eq by blast
  next
    case (Some t)
    have nt: "t' \<noteq> []" if "map_of targets k = Some t'" for k t'
      using 2(4) that by (auto simp: target_rel_def)
    from 2(2) Some have fresh: "t \<notin> set allowed"
      and lim: "\<not> (n = 0 \<and> (case map_of targets t of Some t' \<Rightarrow> t' \<noteq> [] | None \<Rightarrow> False))"
      and rest: "chase_cnames n targets t (t # allowed) = Inr names" by (auto split: if_splits)
    have last: "n = 0 \<longrightarrow> map_of targets t = None" using lim nt [of t] by (auto split: option.splits)
    have "(start, current) \<in> (target_rel targets)\<^sup>*" using 2(5,6) by auto
    moreover have "(current, t) \<in> target_rel targets" using Some by (simp add: target_rel_def)
    ultimately have "(start, t) \<in> (target_rel targets)\<^sup>*" by (rule rtrancl_into_rtrancl)
    with 2(6) have sub: "set (t # allowed) \<subseteq> {m. (start, m) \<in> (target_rel targets)\<^sup>*}" by simp
    have "\<forall>a \<in> set (t # allowed) - {t}. \<forall>u. map_of targets a = Some u \<longrightarrow> u \<in> set (t # allowed)"
    proof (intro ballI allI impI)
      fix a u
      assume a: "a \<in> set (t # allowed) - {t}" "map_of targets a = Some u"
      show "u \<in> set (t # allowed)"
      proof (cases "a = current")
        case True
        with Some a show ?thesis by simp
      next
        case False
        with bspec [OF 2(7), of a] a show ?thesis by simp
      qed
    qed
    from 2(1) [OF Some fresh lim rest last 2(4) list.set_intros(1) sub this] show ?thesis
      unfolding list.set by blast
  qed
next
  case (1 targets current allowed)
  have eq: "names = allowed" and none: "map_of targets current = None" using 1(1,2) by simp_all
  with closed_at_end [OF none 1(6)] 1(5) show ?case by blast
qed

lemma chase_cnames_reach:
  assumes "chase_cnames 8 targets start [start] = Inr names" and "\<forall>(k, t) \<in> target_rel targets. t \<noteq> []"
  shows "m \<in> set names \<longleftrightarrow> (start, m) \<in> (target_rel targets)\<^sup>*"
proof
  note c = chase_cnames_closed [OF assms(1) _ assms(2), of start]
  then have names: "start \<in> set names" "set names \<subseteq> {m. (start, m) \<in> (target_rel targets)\<^sup>*}"
    "\<forall>a \<in> set names. \<forall>t. map_of targets a = Some t \<longrightarrow> t \<in> set names" by auto
  then show "m \<in> set names \<Longrightarrow> (start, m) \<in> (target_rel targets)\<^sup>*" by blast
  assume "(start, m) \<in> (target_rel targets)\<^sup>*"
  then show "m \<in> set names"
    by (induction rule: rtrancl_induct) (use names in \<open>auto simp: target_rel_def\<close>)
qed

lemma collect_addrs_filter:
  assumes "collect_addrs qtype allowed rrs out = Inr out'" and "length out \<le> 32"
  shows "out' = out @ List.map_filter (answer_addr qtype allowed) rrs \<and> length out' \<le> 32"
  using assms
proof (induction rrs arbitrary: out)
  case (Cons rr rrs)
  show ?case
  proof (cases "answer_addr qtype allowed rr")
    case None
    with Cons show ?thesis by (simp add: List.map_filter_simps split: if_splits)
  next
    case (Some a)
    have "out' = (out @ [a]) @ List.map_filter (answer_addr qtype allowed) rrs \<and> length out' \<le> 32"
      by (rule Cons.IH) (use Cons.prems Some in \<open>simp_all split: if_splits\<close>)
    moreover have "(out @ [a]) @ List.map_filter (answer_addr qtype allowed) rrs =
        out @ List.map_filter (answer_addr qtype allowed) (rr # rrs)"
      by (simp add: List.map_filter_simps Some)
    ultimately show ?thesis by argo
  qed
qed (simp add: List.map_filter_simps)

text \<open>An accepted answer answers the question that was asked: the transaction matches, there are
  at most 32 addresses, and they are exactly the data of the address records of the queried type
  whose owner is the queried name or can be reached from it over the aliases of the same answer.\<close>

theorem validate_dns_response_sound:
  assumes "validate_dns_response dl msg_id (Some resp) host qtype = Inr out"
  shows "dm_id resp = msg_id \<and> dm_rcode resp = 0 \<and> length out \<le> 32 \<and>
    out = List.map_filter (answer_addr qtype
      (\<lambda>n. (to_lower (dns_fqdn dl host), n) \<in> (cname_rel (dm_answer resp))\<^sup>*)) (dm_answer resp)"
proof -
  let ?start = "to_lower (dns_fqdn dl host)"
  from assms obtain targets names where t: "collect_cnames (dm_answer resp) [] = Inr targets"
    and n: "chase_cnames 8 targets ?start [?start] = Inr names"
    and a: "collect_addrs qtype (\<lambda>n. n \<in> set names) (dm_answer resp) [] = Inr out"
    and hd: "dm_id resp = msg_id" "dm_rcode resp = 0"
    by (auto simp: validate_dns_response_def Let_def split: if_splits list.splits sum.splits)
  have "\<forall>(k, t) \<in> target_rel []. t \<noteq> []" by (simp add: target_rel_def)
  note rel = collect_cnames_rel [OF t this]
  have "target_rel targets = cname_rel (dm_answer resp)" using rel(1) by (simp add: target_rel_def)
  with chase_cnames_reach [OF n rel(2)]
  have eq: "(\<lambda>n. n \<in> set names) = (\<lambda>n. (?start, n) \<in> (cname_rel (dm_answer resp))\<^sup>*)" by auto
  have "out = List.map_filter (answer_addr qtype (\<lambda>n. n \<in> set names)) (dm_answer resp) \<and> length out \<le> 32"
    using collect_addrs_filter [OF a] unfolding append_Nil list.size by blast
  with hd show ?thesis unfolding eq by blast
qed

definition sample_dns_lib :: dns_lib where
  "sample_dns_lib = \<lparr>dns_fqdn = (\<lambda>s. s @ ''.''), dns_rcode_name = (\<lambda>_. ''SERVFAIL'')\<rparr>"

definition sample_response :: dns_msg where
  "sample_response = \<lparr>dm_len = 120, dm_id = 7, dm_response = True, dm_opcode = 0, dm_rcode = 0,
     dm_truncated = False, dm_question = [\<lparr>dq_name = ''A.io.'', dq_qtype = 1, dq_qclass = 1\<rparr>],
     dm_answer = [RR_CNAME ''a.IO.'' ''edge.net.'', RR_A ''other.net.'' [9, 9, 9, 9], RR_A ''Edge.net.'' [1, 2, 3, 4]]\<rparr>"

theorem validate_dns_response_sound_witness:
  "\<exists>out. validate_dns_response sample_dns_lib 7 (Some sample_response) ''a.io'' 1 = Inr out \<and>
     out = [A4 0x01020304] \<and>
     out = List.map_filter (answer_addr 1
       (\<lambda>n. (''a.io.'', n) \<in> (cname_rel (dm_answer sample_response))\<^sup>*)) (dm_answer sample_response)"
proof -
  have v: "validate_dns_response sample_dns_lib 7 (Some sample_response) ''a.io'' 1 = Inr [A4 0x01020304]" by code_simp
  have "to_lower (dns_fqdn sample_dns_lib ''a.io'') = ''a.io.''" by code_simp
  with validate_dns_response_sound [OF v] v show ?thesis by simp
qed

end
