(* ===== verification/Go_Float.thy ===== *)
theory Go_Float
  imports Complex_Main
begin

text \<open>
  Go's \<^verbatim>\<open>float64\<close>: a value is the rational it denotes, and every operation is the exact
  operation followed by rounding to the nearest IEEE 754 binary64 number, ties to even, with
  gradual underflow. Infinities and NaN are not values of the model: the configuration
  validator rejects them and bounds every weight, and no operation of the modelled code divides
  by zero or leaves the finite range. The operations are not fused.
\<close>

section \<open>Rounding to binary64\<close>

type_synonym f64val = rat

definition pow2 :: "int \<Rightarrow> rat" where
  "pow2 k = (if 0 \<le> k then 2 ^ nat k else 1 / 2 ^ nat (- k))"

text \<open>The binary exponent of a positive rational, from the bit lengths of its quotient.\<close>

function bit_len :: "int \<Rightarrow> int" where
  "bit_len n = (if n \<le> 0 then 0 else bit_len (n div 2) + 1)"
  by pat_completeness auto
termination
  by (relation "measure nat") auto

declare bit_len.simps [simp del]

definition rat_log2 :: "rat \<Rightarrow> int" where
  "rat_log2 x = (case quotient_of x of (n, d) \<Rightarrow>
     let k = bit_len n - bit_len d in if pow2 k \<le> x then k else k - 1)"

definition round_even :: "rat \<Rightarrow> int" where
  "round_even r = (let f = \<lfloor>r\<rfloor>; d = r - of_int f in
     if d < 1 / 2 then f else if 1 / 2 < d then f + 1 else if even f then f else f + 1)"

definition ulp_exp :: "rat \<Rightarrow> int" where
  "ulp_exp x = max (rat_log2 x - 52) (- 1074)"

definition round_pos :: "rat \<Rightarrow> rat" where
  "round_pos x = of_int (round_even (x / pow2 (ulp_exp x))) * pow2 (ulp_exp x)"

definition f64 :: "rat \<Rightarrow> f64val" where
  "f64 x = (if x = 0 then 0 else if x < 0 then - round_pos (- x) else round_pos x)"

section \<open>Arithmetic\<close>

definition fadd :: "f64val \<Rightarrow> f64val \<Rightarrow> f64val" where
  "fadd a b = f64 (a + b)"

definition fsub :: "f64val \<Rightarrow> f64val \<Rightarrow> f64val" where
  "fsub a b = f64 (a - b)"

definition fmul :: "f64val \<Rightarrow> f64val \<Rightarrow> f64val" where
  "fmul a b = f64 (a * b)"

definition fdiv :: "f64val \<Rightarrow> f64val \<Rightarrow> f64val" where
  "fdiv a b = f64 (a / b)"

definition of_int64 :: "int \<Rightarrow> f64val" where
  "of_int64 i = f64 (of_int i)"

text \<open>\<^verbatim>\<open>math.Sqrt\<close>: the square root, correctly rounded, through an integer square root.\<close>

function isqrt :: "int \<Rightarrow> int" where
  "isqrt n = (if n \<le> 0 then 0
     else let r = 2 * isqrt (n div 4) in if (r + 1) * (r + 1) \<le> n then r + 1 else r)"
  by pat_completeness auto
termination
  by (relation "measure nat") auto

declare isqrt.simps [simp del]

definition fsqrt :: "f64val \<Rightarrow> f64val" where
  "fsqrt x = (if x \<le> 0 then 0
     else let q = rat_log2 x div 2 - 52; s = x / pow2 (2 * q); r = isqrt \<lfloor>s\<rfloor>;
              h = (of_int r + 1 / 2) * (of_int r + 1 / 2);
              m = (if s < h then r else if h < s then r + 1 else if even r then r else r + 1)
          in of_int m * pow2 q)"

section \<open>Powers of two and the binary exponent\<close>

lemma pow2_pos [simp]: "0 < pow2 k"
  by (simp add: pow2_def)

lemma pow2_nonneg [simp]: "0 \<le> pow2 k"
  by (simp add: pow2_def)

lemma pow2_nonzero [simp]: "pow2 k \<noteq> 0"
  using pow2_pos [of k] by linarith

lemma pow2_powi: "pow2 k = 2 powi k"
  by (simp add: pow2_def power_int_def field_simps)

lemma pow2_add: "pow2 (a + b) = pow2 a * pow2 b"
  by (simp add: pow2_powi power_int_add)

lemma pow2_diff: "pow2 (a - b) = pow2 a / pow2 b"
  by (simp add: pow2_powi power_int_diff)

lemma pow2_mono: "a \<le> b \<Longrightarrow> pow2 a \<le> pow2 b"
  by (simp add: pow2_powi power_int_increasing)

lemma pow2_strict_mono: "a < b \<Longrightarrow> pow2 a < pow2 b"
  by (simp add: pow2_powi power_int_strict_increasing)

lemma pow2_less_iff: "pow2 a < pow2 b \<longleftrightarrow> a < b"
  by (metis linorder_not_less pow2_mono pow2_strict_mono)

lemma pow2_nat: "0 \<le> k \<Longrightarrow> pow2 k = of_int (2 ^ nat k)"
  by (simp add: pow2_def)

lemma bit_len_bounds:
  "0 < n \<Longrightarrow> pow2 (bit_len n - 1) \<le> of_int n \<and> of_int n < pow2 (bit_len n)"
proof (induction n rule: bit_len.induct)
  case (1 n)
  have split: "(of_int n :: rat) = 2 * of_int (n div 2) + of_int (n mod 2)"
    by (metis mult_div_mod_eq of_int_add of_int_mult of_int_numeral)
  have unfold: "bit_len n = bit_len (n div 2) + 1"
    using 1(2) by (simp add: bit_len.simps [of n])
  show ?case
  proof (cases "n div 2 = 0")
    case True
    with 1(2) have "n = 1" by presburger
    moreover have "bit_len n = 1" using unfold True by (simp add: bit_len.simps [of 0])
    ultimately show ?thesis by (simp add: pow2_def)
  next
    case False
    with 1(2) have "0 < n div 2" by simp
    with 1 have IH: "pow2 (bit_len (n div 2) - 1) \<le> of_int (n div 2)"
      "of_int (n div 2) < pow2 (bit_len (n div 2))" by auto
    have d: "pow2 (bit_len (n div 2)) = 2 * pow2 (bit_len (n div 2) - 1)"
      using pow2_add [of "bit_len (n div 2) - 1" 1] by (simp add: pow2_def [of 1])
    have "of_int (n div 2) + 1 \<le> pow2 (bit_len (n div 2))"
    proof -
      have "0 \<le> bit_len (n div 2)"
        using IH \<open>0 < n div 2\<close> pow2_less_iff [of "-1" "bit_len (n div 2)"]
        by (simp add: pow2_def [of "-1"])
      with IH(2) show ?thesis
        by (metis of_int_1 of_int_add of_int_le_iff of_int_less_iff pow2_nat zless_imp_add1_zle)
    qed
    moreover have "(0::rat) \<le> of_int (n mod 2)" "(of_int (n mod 2) :: rat) \<le> 1" by simp_all
    moreover have "pow2 (bit_len (n div 2) + 1) = 2 * pow2 (bit_len (n div 2))"
      using pow2_add [of "bit_len (n div 2)" 1] by (simp add: pow2_def [of 1])
    ultimately show ?thesis using IH(1) d split unfold by simp linarith
  qed
qed

lemma rat_log2_bounds:
  assumes "0 < x"
  shows "pow2 (rat_log2 x) \<le> x" and "x < pow2 (rat_log2 x + 1)"
proof -
  obtain n d where q: "quotient_of x = (n, d)" by (cases "quotient_of x")
  have d: "0 < d" using q quotient_of_denom_pos by blast
  have x: "x = of_int n / of_int d" using q by (rule quotient_of_div)
  with assms d have n: "0 < n" by (simp add: zero_less_divide_iff)
  let ?k = "bit_len n - bit_len d"
  have "x < pow2 (bit_len n) / pow2 (bit_len d - 1)"
    unfolding x using bit_len_bounds [OF n] bit_len_bounds [OF d] n d
    by (intro frac_less) auto
  then have up: "x < pow2 (?k + 1)"
    by (simp add: pow2_diff [symmetric] algebra_simps)
  have "pow2 (bit_len n - 1) / pow2 (bit_len d) \<le> x"
    unfolding x using bit_len_bounds [OF n] bit_len_bounds [OF d] n d
    by (intro frac_le) auto
  then have low: "pow2 (?k - 1) \<le> x"
    by (simp add: pow2_diff [symmetric] algebra_simps)
  show "pow2 (rat_log2 x) \<le> x" "x < pow2 (rat_log2 x + 1)"
    using up low by (auto simp: rat_log2_def q Let_def not_le)
qed

lemma rat_log2_unique:
  assumes "0 < x" and "pow2 k \<le> x" and "x < pow2 (k + 1)"
  shows "rat_log2 x = k"
proof -
  have "pow2 (rat_log2 x) < pow2 (k + 1)" "pow2 k < pow2 (rat_log2 x + 1)"
    using rat_log2_bounds [OF assms(1)] assms by linarith+
  then show ?thesis by (simp add: pow2_less_iff)
qed

lemma rat_log2_mono:
  assumes "0 < x" and "x \<le> y"
  shows "rat_log2 x \<le> rat_log2 y"
proof -
  have "pow2 (rat_log2 x) < pow2 (rat_log2 y + 1)"
    using rat_log2_bounds [of x] rat_log2_bounds [of y] assms by linarith
  then show ?thesis by (simp add: pow2_less_iff)
qed

section \<open>Rounding is monotone and exact on representable numbers\<close>

lemma round_even_of_int [simp]: "round_even (of_int i) = i"
  by (simp add: round_even_def Let_def)

lemma round_even_floor: "round_even r = \<lfloor>r\<rfloor> \<or> round_even r = \<lfloor>r\<rfloor> + 1"
  by (simp add: round_even_def Let_def)

lemma round_even_mono:
  assumes "r \<le> s"
  shows "round_even r \<le> round_even s"
proof (cases "\<lfloor>r\<rfloor> = \<lfloor>s\<rfloor>")
  case True
  with assms show ?thesis by (auto simp: round_even_def Let_def)
next
  case False
  with floor_mono [OF assms] have "\<lfloor>r\<rfloor> + 1 \<le> \<lfloor>s\<rfloor>" by simp
  with round_even_floor [of r] round_even_floor [of s] show ?thesis by auto
qed

lemma round_even_nonneg: "0 \<le> r \<Longrightarrow> 0 \<le> round_even r"
  using round_even_mono [of 0 r] round_even_of_int [of 0] by simp

lemma pow2_quotient: "q \<le> e \<Longrightarrow> pow2 e / pow2 q = of_int (2 ^ nat (e - q))"
  by (metis diff_ge_0_iff_ge pow2_diff pow2_nat)

lemma round_grid_le:
  assumes "x \<le> pow2 e" and "q \<le> e"
  shows "of_int (round_even (x / pow2 q)) * pow2 q \<le> pow2 e"
proof -
  have "x / pow2 q \<le> of_int (2 ^ nat (e - q))"
    using assms by (metis divide_right_mono pow2_nonneg pow2_quotient)
  then have "round_even (x / pow2 q) \<le> 2 ^ nat (e - q)"
    by (metis round_even_mono round_even_of_int)
  then have "of_int (round_even (x / pow2 q)) \<le> pow2 e / pow2 q"
    using assms(2) by (metis of_int_le_iff pow2_quotient)
  then show ?thesis by (simp add: field_simps)
qed

lemma round_grid_ge:
  assumes "pow2 e \<le> x" and "q \<le> e"
  shows "pow2 e \<le> of_int (round_even (x / pow2 q)) * pow2 q"
proof -
  have "of_int (2 ^ nat (e - q)) \<le> x / pow2 q"
    using assms by (metis divide_right_mono pow2_nonneg pow2_quotient)
  then have "2 ^ nat (e - q) \<le> round_even (x / pow2 q)"
    by (metis round_even_mono round_even_of_int)
  then have "pow2 e / pow2 q \<le> of_int (round_even (x / pow2 q))"
    using assms(2) by (metis of_int_le_iff pow2_quotient)
  then show ?thesis by (simp add: field_simps)
qed

lemma round_pos_nonneg: "0 < x \<Longrightarrow> 0 \<le> round_pos x"
  by (simp add: round_pos_def round_even_nonneg)

lemma round_pos_mono:
  assumes "0 < x" and "x \<le> y"
  shows "round_pos x \<le> round_pos y"
proof -
  have q: "ulp_exp x \<le> ulp_exp y"
    using rat_log2_mono [OF assms] by (simp add: ulp_exp_def)
  show ?thesis
  proof (cases "ulp_exp x = ulp_exp y")
    case True
    have "x / pow2 (ulp_exp y) \<le> y / pow2 (ulp_exp y)"
      using assms by (simp add: divide_right_mono)
    then show ?thesis
      by (simp add: round_pos_def True mult_right_mono round_even_mono)
  next
    case False
    with q have lt: "ulp_exp x < ulp_exp y" by simp
    let ?e = "rat_log2 y"
    have e: "ulp_exp y = ?e - 52" "rat_log2 x + 1 \<le> ?e" "ulp_exp x \<le> ?e"
      using lt by (auto simp: ulp_exp_def max_def split: if_splits)
    have "x \<le> pow2 ?e"
      using rat_log2_bounds(2) [OF assms(1)] pow2_mono [OF e(2)] by simp
    then have "round_pos x \<le> pow2 ?e"
      unfolding round_pos_def using e(3) by (rule round_grid_le)
    also have "pow2 ?e \<le> round_pos y"
      unfolding round_pos_def using rat_log2_bounds(1) [of y] assms e(1)
      by (intro round_grid_ge) auto
    finally show ?thesis .
  qed
qed

lemma f64_0 [simp]: "f64 0 = 0"
  by (simp add: f64_def)

lemma f64_nonneg: "0 \<le> x \<Longrightarrow> 0 \<le> f64 x"
  by (simp add: f64_def round_pos_nonneg)

lemma f64_nonpos: "x \<le> 0 \<Longrightarrow> f64 x \<le> 0"
  using round_pos_nonneg [of "- x"] by (simp add: f64_def)

lemma f64_minus: "f64 (- x) = - f64 x"
  by (simp add: f64_def)

lemma f64_mono: "x \<le> y \<Longrightarrow> f64 x \<le> f64 y"
proof -
  assume "x \<le> y"
  consider "0 < x" | "x \<le> 0" "0 \<le> y" | "y < 0" by linarith
  then show ?thesis
  proof cases
    case 1
    with \<open>x \<le> y\<close> show ?thesis by (simp add: f64_def round_pos_mono)
  next
    case 2
    then show ?thesis using f64_nonneg [of y] f64_nonpos [of x] by linarith
  next
    case 3
    with \<open>x \<le> y\<close> show ?thesis by (simp add: f64_def round_pos_mono)
  qed
qed

text \<open>A multiple of a power of two no finer than the grid at its magnitude is exact.\<close>

lemma f64_exact:
  assumes "0 < m" and "ulp_exp (of_int m * pow2 q) \<le> q"
  shows "f64 (of_int m * pow2 q) = of_int m * pow2 q"
proof -
  let ?v = "of_int m * pow2 q" and ?u = "ulp_exp (of_int m * pow2 q)"
  have v: "0 < ?v" using assms(1) by simp
  have "?v / pow2 ?u = of_int (m * 2 ^ nat (q - ?u))"
    using pow2_quotient [OF assms(2)] by (simp add: field_simps)
  then have "round_pos ?v = ?v"
    unfolding round_pos_def by (metis nonzero_eq_divide_eq pow2_nonzero round_even_of_int)
  with v show ?thesis by (simp add: f64_def)
qed

lemma ulp_exp_le:
  assumes "0 < x" and "x < pow2 (e + 1)" and "e - 52 \<le> q" and "- 1074 \<le> q"
  shows "ulp_exp x \<le> q"
proof -
  have "pow2 (rat_log2 x) < pow2 (e + 1)"
    using rat_log2_bounds(1) [OF assms(1)] assms(2) by linarith
  then have "rat_log2 x \<le> e" by (simp add: pow2_less_iff)
  with assms show ?thesis by (simp add: ulp_exp_def)
qed

lemma f64_of_int_exact:
  assumes "\<bar>i\<bar> \<le> 2 ^ 53"
  shows "f64 (of_int i) = of_int i"
proof -
  have pos: "f64 (of_int m) = of_int m" if "0 < m" "m \<le> 2 ^ 53" for m :: int
  proof (cases "m = 2 ^ 53")
    case True
    have "of_int m = of_int 1 * pow2 53" by (simp add: True pow2_def)
    moreover have "ulp_exp (of_int 1 * pow2 53) \<le> 53"
      by (rule ulp_exp_le [where e = 53]) (simp_all add: pow2_def)
    ultimately show ?thesis using f64_exact [of 1 53] by simp
  next
    case False
    with that have m: "0 < m" "m < 2 ^ 53" by auto
    then have "(of_int m :: rat) < of_int (2 ^ 53)" by (simp only: of_int_less_iff)
    with m have "ulp_exp (of_int m * pow2 0) \<le> 0"
      by (intro ulp_exp_le [where e = 52]) (simp_all add: pow2_def)
    then show ?thesis using f64_exact [of m 0] m by (simp add: pow2_def)
  qed
  consider "0 < i" | "i = 0" | "i < 0" by linarith
  then show ?thesis
  proof cases
    case 3
    with assms have "f64 (of_int (- i)) = of_int (- i)" by (intro pos) auto
    then show ?thesis by (simp add: f64_minus)
  qed (use assms pos in auto)
qed

lemma f64_1 [simp]: "f64 1 = 1"
  using f64_of_int_exact [of 1] by simp

lemma round_pos_shape:
  assumes "0 < x"
  obtains m where "round_pos x = of_int m * pow2 (ulp_exp x)" and "0 \<le> m" and "m \<le> 2 ^ 53"
proof -
  let ?q = "ulp_exp x"
  have "x \<le> pow2 (?q + 53)"
    using rat_log2_bounds(2) [OF assms] pow2_mono [of "rat_log2 x + 1" "?q + 53"]
    by (simp add: ulp_exp_def) linarith
  then have "round_pos x \<le> pow2 (?q + 53)"
    unfolding round_pos_def by (rule round_grid_le) simp
  then have "of_int (round_even (x / pow2 ?q)) \<le> pow2 53"
    by (simp add: round_pos_def pow2_add mult.commute)
  then have "round_even (x / pow2 ?q) \<le> 2 ^ 53"
    by (metis of_int_le_iff pow2_nat zero_le_numeral nat_numeral)
  moreover have "0 \<le> round_even (x / pow2 ?q)"
    using assms by (simp add: round_even_nonneg)
  ultimately show ?thesis using that unfolding round_pos_def by blast
qed

lemma f64_round_pos:
  assumes "0 < x"
  shows "f64 (round_pos x) = round_pos x"
proof -
  let ?q = "ulp_exp x"
  obtain m where m: "round_pos x = of_int m * pow2 ?q" "0 \<le> m" "m \<le> 2 ^ 53"
    using round_pos_shape [OF assms] .
  have q: "- 1074 \<le> ?q" by (simp add: ulp_exp_def)
  consider "m = 0" | "0 < m" "m < 2 ^ 53" | "m = 2 ^ 53" using m by linarith
  then show ?thesis
  proof cases
    case 2
    then have "(of_int m :: rat) < of_int (2 ^ 53)" by (simp only: of_int_less_iff)
    then have "of_int m * pow2 ?q < pow2 ((?q + 52) + 1)"
      by (simp add: pow2_add pow2_def [of 53] pow2_def [of 52] pow2_def [of 1])
    then have "ulp_exp (of_int m * pow2 ?q) \<le> ?q"
      using 2 q by (intro ulp_exp_le [where e = "?q + 52"]) auto
    with 2 m(1) f64_exact [of m ?q] show ?thesis by simp
  next
    case 3
    then have v: "round_pos x = of_int 1 * pow2 (?q + 53)"
      using m(1) by (simp add: pow2_add pow2_def [of 53])
    have "ulp_exp (of_int 1 * pow2 (?q + 53)) \<le> ?q + 53"
      using q by (intro ulp_exp_le [where e = "?q + 53"]) (auto intro: pow2_strict_mono)
    with v f64_exact [of 1 "?q + 53"] show ?thesis by simp
  qed (use m in simp)
qed

theorem f64_idem [simp]: "f64 (f64 x) = f64 x"
proof -
  consider "x = 0" | "0 < x" | "x < 0" by linarith
  then show ?thesis
  proof cases
    case 2
    then show ?thesis using f64_round_pos [of x] by (simp add: f64_def [of x])
  next
    case 3
    then have "f64 (- round_pos (- x)) = - round_pos (- x)"
      using f64_round_pos [of "- x"] by (simp add: f64_minus)
    with 3 show ?thesis by (simp add: f64_def [of x])
  qed simp
qed

section \<open>Bounds that survive rounding\<close>

lemma f64_le_rep: "x \<le> y \<Longrightarrow> f64 y = y \<Longrightarrow> f64 x \<le> y"
  using f64_mono [of x y] by simp

lemma f64_ge_rep: "y \<le> x \<Longrightarrow> f64 y = y \<Longrightarrow> y \<le> f64 x"
  using f64_mono [of y x] by simp

lemma f64_op_rep [simp]:
  "f64 (fadd a b) = fadd a b" "f64 (fsub a b) = fsub a b" "f64 (fmul a b) = fmul a b"
  "f64 (fdiv a b) = fdiv a b" "f64 (of_int64 i) = of_int64 i"
  by (simp_all add: fadd_def fsub_def fmul_def fdiv_def of_int64_def)

lemma of_int64_nonneg: "0 \<le> i \<Longrightarrow> 0 \<le> of_int64 i"
  by (simp add: of_int64_def f64_nonneg)

lemma of_int64_mono: "i \<le> j \<Longrightarrow> of_int64 i \<le> of_int64 j"
  by (simp add: of_int64_def f64_mono)

lemma fmul_nonneg: "0 \<le> a \<Longrightarrow> 0 \<le> b \<Longrightarrow> 0 \<le> fmul a b"
  by (simp add: fmul_def f64_nonneg)

lemma fadd_nonneg: "0 \<le> a \<Longrightarrow> 0 \<le> b \<Longrightarrow> 0 \<le> fadd a b"
  by (simp add: fadd_def f64_nonneg)

lemma fdiv_nonneg: "0 \<le> a \<Longrightarrow> 0 \<le> b \<Longrightarrow> 0 \<le> fdiv a b"
  by (simp add: fdiv_def f64_nonneg)

lemma fmul_mono: "0 \<le> a \<Longrightarrow> a \<le> a' \<Longrightarrow> 0 \<le> b \<Longrightarrow> b \<le> b' \<Longrightarrow> fmul a b \<le> fmul a' b'"
  by (simp add: fmul_def f64_mono mult_mono)

lemma fadd_mono: "a \<le> a' \<Longrightarrow> b \<le> b' \<Longrightarrow> fadd a b \<le> fadd a' b'"
  by (simp add: fadd_def f64_mono)

lemma fmul_le_left: "f64 a = a \<Longrightarrow> 0 \<le> a \<Longrightarrow> b \<le> 1 \<Longrightarrow> fmul a b \<le> a"
  unfolding fmul_def by (rule f64_le_rep) (auto simp: mult_left_le)

lemma fmul_ge_left: "f64 a = a \<Longrightarrow> 0 \<le> a \<Longrightarrow> 1 \<le> b \<Longrightarrow> a \<le> fmul a b"
  unfolding fmul_def by (rule f64_ge_rep) (auto simp: mult_le_cancel_left1)

lemma one_le_fadd: "0 \<le> b \<Longrightarrow> 1 \<le> fadd 1 b"
  unfolding fadd_def by (rule f64_ge_rep) auto

lemma fsub_one_le: "0 \<le> b \<Longrightarrow> fsub 1 b \<le> 1"
  unfolding fsub_def by (rule f64_le_rep) auto

section \<open>The square root\<close>

lemma isqrt_correct: "0 \<le> n \<Longrightarrow> 0 \<le> isqrt n \<and> isqrt n * isqrt n \<le> n \<and> n < (isqrt n + 1) * (isqrt n + 1)"
proof (induction n rule: isqrt.induct)
  case (1 n)
  show ?case
  proof (cases "n = 0")
    case True
    then show ?thesis by (simp add: isqrt.simps)
  next
    case False
    define s where "s = isqrt (n div 4)"
    have s: "0 \<le> s" "s * s \<le> n div 4" "n div 4 < (s + 1) * (s + 1)"
      using 1 False by (auto simp: s_def)
    have "4 * (s * s) \<le> n" "n < 4 * ((s + 1) * (s + 1))" using s by linarith+
    then have "(2 * s) * (2 * s) \<le> n" "n < (2 * s + 2) * (2 * s + 2)"
      by (simp_all add: algebra_simps)
    with False 1(2) s(1) show ?thesis
      by (auto simp: isqrt.simps [of n] Let_def s_def [symmetric] algebra_simps)
  qed
qed

lemma fsqrt_nonneg: "0 \<le> fsqrt x"
proof (cases "x \<le> 0")
  case False
  then have "0 \<le> isqrt \<lfloor>x / pow2 (2 * (rat_log2 x div 2 - 52))\<rfloor>"
    by (intro isqrt_correct [THEN conjunct1]) simp
  with False show ?thesis by (auto simp: fsqrt_def Let_def)
qed (simp add: fsqrt_def)

end
