(* ===== verification/Config_Model.thy ===== *)
theory Config_Model
  imports Go_Base Go_Float
begin

text \<open>
  The configuration the planner works on (\<^verbatim>\<open>internal/config/config.go\<close>): its structs, the
  lookups over routes and services, the rule that decides whether a service may use a route, and
  the validation of policy overrides; and the normalisation of domain names
  (\<^verbatim>\<open>internal/tspu/tspu.go\<close>). A Go map is an association list in the order an iteration
  visits it; a theorem that quantifies over the list covers every order. The records hold the
  fields the modelled operations read or write.
\<close>

section \<open>Structs\<close>

record route =
  rt_type :: string
  rt_tag :: string
  rt_priority :: int
  rt_disabled :: bool
  rt_status :: string
  rt_dns_server :: string
  rt_connect_to_resolved_ip :: bool
  rt_socks5 :: string
  rt_http_proxy :: string
  rt_dns_mode :: string
  rt_external_ip_probe :: bool
  rt_requires_adapter :: bool
  rt_adapter_mode :: string
  rt_mark :: string
  rt_forbid_proxy :: bool

definition zero_route :: route where
  "zero_route = \<lparr>rt_type = [], rt_tag = [], rt_priority = 0, rt_disabled = False, rt_status = [],
     rt_dns_server = [], rt_connect_to_resolved_ip = False, rt_socks5 = [], rt_http_proxy = [],
     rt_dns_mode = [], rt_external_ip_probe = False, rt_requires_adapter = False,
     rt_adapter_mode = [], rt_mark = [], rt_forbid_proxy = False\<rparr>"

record probe_check =
  pc_name :: string
  pc_url :: string
  pc_required :: bool
  pc_expected_codes :: "int list"
  pc_body_mode :: string
  pc_success_markers :: "string list"
  pc_regional_block_markers :: "string list"
  pc_block_markers :: "string list"
  pc_allow_unauthenticated :: bool

record service =
  sv_category :: string
  sv_classification_seed :: string
  sv_domains :: "string list"
  sv_allowed_paths :: "string list"
  sv_forbidden_paths :: "string list"
  sv_selected_route_tag :: string
  sv_require_non_ru_egress :: bool
  sv_probe_urls :: "probe_check list"

definition zero_service :: service where
  "zero_service = \<lparr>sv_category = [], sv_classification_seed = [], sv_domains = [],
     sv_allowed_paths = [], sv_forbidden_paths = [], sv_selected_route_tag = [],
     sv_require_non_ru_egress = False, sv_probe_urls = []\<rparr>"

record policy_override =
  ov_id :: string
  ov_scope :: string
  ov_device_mac :: string
  ov_domain :: string
  ov_service :: string
  ov_category :: string
  ov_route_type :: string
  ov_route_tag :: string

record route_selection_weights =
  w_end_to_end_latency :: f64val
  w_availability :: f64val
  w_error_rate :: f64val
  w_privacy :: f64val

record policy =
  po_unknown_domain_first_path :: string
  po_route_selection_strategy :: string
  po_route_selection_hysteresis_percent :: int
  po_route_selection_cooldown_seconds :: int
  po_route_selection_weights :: route_selection_weights
  po_route_hold_seconds :: int
  po_fail_after_consecutive_errors :: int
  po_recover_after_consecutive_success :: int
  po_domain_decision_ttl_seconds :: int
  po_tspu_stale_policy :: string
  po_geo_locked_allow_direct :: bool
  po_geo_locked_allow_zapret :: bool
  po_discovery_mode :: string
  po_discovery_max_new_rules_per_hour :: int
  po_discovery_max_consecutive_rollbacks :: int
  po_inventory_health_interval_seconds :: int
  po_probe_budget :: int
  po_discovery_queue_limit :: int

definition zero_policy :: policy where
  "zero_policy = \<lparr>po_unknown_domain_first_path = [], po_route_selection_strategy = [],
     po_route_selection_hysteresis_percent = 0, po_route_selection_cooldown_seconds = 0,
     po_route_selection_weights = \<lparr>w_end_to_end_latency = 0, w_availability = 0,
       w_error_rate = 0, w_privacy = 0\<rparr>,
     po_route_hold_seconds = 0, po_fail_after_consecutive_errors = 0,
     po_recover_after_consecutive_success = 0, po_domain_decision_ttl_seconds = 0,
     po_tspu_stale_policy = [], po_geo_locked_allow_direct = False,
     po_geo_locked_allow_zapret = False, po_discovery_mode = [],
     po_discovery_max_new_rules_per_hour = 0, po_discovery_max_consecutive_rollbacks = 0,
     po_inventory_health_interval_seconds = 0, po_probe_budget = 0, po_discovery_queue_limit = 0\<rparr>"

record openwrt =
  ow_nft_table :: string
  ow_nft_family :: string
  ow_wan_route_table :: int
  ow_zapret_route_table :: int
  ow_xray_route_table :: int
  ow_direct_mark :: string
  ow_zapret_mark :: string
  ow_xray_mark :: string
  ow_xray_tproxy_mark :: string
  ow_xray_bypass_mark :: string
  ow_drop_mark :: string
  ow_flow_offloading_policy :: string

record storage =
  so_state_dir :: string
  so_runtime_dir :: string
  so_database :: string
  so_max_auto_domains :: int

record xray =
  xr_init_script :: string
  xr_activation_mode :: string
  xr_last_good_config :: string
  xr_probe_dns_resolver :: string
  xr_dns_proxy_base_port :: int
  xr_transparent_port :: int
  xr_outbound_bundle_sha256 :: string

record zapret_scope =
  zs_ipv4 :: string
  zs_mac :: string

record zapret_rule =
  zr_protocol :: string
  zr_ports :: "(int \<times> int) list"
  zr_verdict :: string
  zr_conntrack_first_packets :: int

record zapret_profile =
  zf_id :: string
  zf_scope :: zapret_scope
  zf_queue_num :: int
  zf_strategy :: string
  zf_binary :: string
  zf_active_config :: string
  zf_init_script :: string
  zf_rules :: "zapret_rule list"

record zapret =
  zp_binary :: string
  zp_provider_source :: string
  zp_provider_version :: string
  zp_binary_sha256 :: string
  zp_init_script :: string
  zp_active_config :: string
  zp_activation_mode :: string
  zp_strategy :: string
  zp_queue_num :: int
  zp_adaptive_enabled :: bool
  zp_adaptive_catalog_file :: string
  zp_adaptive_assignments :: "(string \<times> string) list"
  zp_device_profiles :: "zapret_profile list"

record geoip_endpoint =
  ge_name :: string
  ge_provider :: string
  ge_url :: string

record geoip =
  gi_database :: string
  gi_source_url :: string
  gi_max_database_bytes :: int
  gi_max_age_hours :: int
  gi_endpoints :: "geoip_endpoint list"

record tspu_source =
  ts_name :: string
  ts_type :: string
  ts_url :: string
  ts_min_entries :: int
  ts_max_drop_ratio :: f64val

record config =
  cfg_version :: int
  cfg_target :: string
  cfg_storage :: storage
  cfg_policy :: policy
  cfg_xray :: xray
  cfg_zapret :: zapret
  cfg_geoip :: geoip
  cfg_openwrt :: openwrt
  cfg_routes :: "route list"
  cfg_services :: "(string \<times> service) list"
  cfg_overrides :: "policy_override list"
  cfg_telegram_secret_file :: string
  cfg_dedupe_seconds :: int
  cfg_tspu_sources :: "tspu_source list"

section \<open>Lookups\<close>

definition route_enabled :: "route \<Rightarrow> bool" where
  "route_enabled r =
     (if rt_disabled r \<or> rt_status r = ''NOT_CONFIGURED'' then False
      else if rt_type r = ''smart_dns'' \<and>
              (rt_dns_server r = [] \<or> contains (rt_dns_server r) ''PLACEHOLDER'') then False
      else True)"

definition route_by_tag :: "config \<Rightarrow> string \<Rightarrow> route option" where
  "route_by_tag c tag = find (\<lambda>r. rt_tag r = tag) (cfg_routes c)"

definition routes_by_type :: "config \<Rightarrow> string \<Rightarrow> route list" where
  "routes_by_type c ty = filter (\<lambda>r. rt_type r = ty \<and> route_enabled r) (cfg_routes c)"

definition domain_matches :: "string \<Rightarrow> string \<Rightarrow> bool" where
  "domain_matches domain d =
     (let d' = trim_suffix (to_lower d) ''.'' in domain = d' \<or> has_suffix domain (''.'' @ d'))"

text \<open>The empty string stands for "no service", as in the code.\<close>

definition service_for_domain :: "config \<Rightarrow> string \<Rightarrow> string" where
  "service_for_domain c domain =
     (let dom = trim_suffix (to_lower domain) ''.'' in
      case find (\<lambda>(name, svc). list_ex (domain_matches dom) (sv_domains svc)) (cfg_services c) of
        Some (name, _) \<Rightarrow> name
      | None \<Rightarrow> [])"

definition path_allowed :: "service \<Rightarrow> route \<Rightarrow> policy \<Rightarrow> bool" where
  "path_allowed svc r p =
     (if sv_category svc = ''TSPU_RESTRICTED'' \<and> rt_type r = ''direct'' then False
      else if sv_category svc = ''GEO_LOCKED'' \<and>
              (rt_type r = ''direct'' \<and> \<not> po_geo_locked_allow_direct p \<or>
               rt_type r = ''zapret'' \<and> \<not> po_geo_locked_allow_zapret p) then False
      else if sv_category svc = ''DIRECT_ONLY'' \<and> rt_type r \<noteq> ''direct'' then False
      else if rt_type r \<in> set (sv_forbidden_paths svc) then False
      else rt_type r \<in> set (sv_allowed_paths svc))"

section \<open>Vocabularies and defaults\<close>

definition valid_route_type :: "string \<Rightarrow> bool" where
  "valid_route_type ty \<longleftrightarrow>
     ty \<in> {''direct'', ''zapret'', ''smart_dns'', ''external_socks'', ''tg_ws_proxy'', ''vless'', ''drop''}"

definition valid_service_category :: "string \<Rightarrow> bool" where
  "valid_service_category cat \<longleftrightarrow>
     cat \<in> {''GEO_LOCKED'', ''TSPU_RESTRICTED'', ''TELEGRAM'', ''DIRECT_ONLY'', ''DIRECT_PREFERRED'',
            ''BLOCKED''}"

definition mark_for_route_type :: "config \<Rightarrow> string \<Rightarrow> string" where
  "mark_for_route_type c ty =
     (if ty \<in> {''direct'', ''smart_dns''} then ow_direct_mark (cfg_openwrt c)
      else if ty = ''zapret'' then ow_zapret_mark (cfg_openwrt c)
      else if ty \<in> {''vless'', ''external_socks'', ''tg_ws_proxy''} then ow_xray_mark (cfg_openwrt c)
      else if ty = ''drop'' then ow_drop_mark (cfg_openwrt c)
      else [])"

definition table_for_route_type :: "config \<Rightarrow> string \<Rightarrow> int" where
  "table_for_route_type c ty =
     (if ty \<in> {''direct'', ''smart_dns''} then ow_wan_route_table (cfg_openwrt c)
      else if ty = ''zapret'' then ow_zapret_route_table (cfg_openwrt c)
      else if ty \<in> {''vless'', ''external_socks'', ''tg_ws_proxy''} then ow_xray_route_table (cfg_openwrt c)
      else 0)"

definition effective_discovery_mode :: "policy \<Rightarrow> string" where
  "effective_discovery_mode p =
     (if po_discovery_mode p = [] then ''observe_only'' else po_discovery_mode p)"

definition effective_discovery_max_new_rules :: "policy \<Rightarrow> int" where
  "effective_discovery_max_new_rules p =
     (if po_discovery_max_new_rules_per_hour p \<le> 0 then 4
      else po_discovery_max_new_rules_per_hour p)"

definition effective_discovery_max_rollbacks :: "policy \<Rightarrow> int" where
  "effective_discovery_max_rollbacks p =
     (if po_discovery_max_consecutive_rollbacks p \<le> 0 then 3
      else po_discovery_max_consecutive_rollbacks p)"

section \<open>Firewall marks\<close>

definition hex_digit :: "char \<Rightarrow> nat option" where
  "hex_digit ch = (let b = byte ch in
     if 48 \<le> b \<and> b \<le> 57 then Some (b - 48)
     else if 97 \<le> b \<and> b \<le> 102 then Some (b - 87)
     else if 65 \<le> b \<and> b \<le> 70 then Some (b - 55) else None)"

definition firewall_mark_pattern :: "string \<Rightarrow> bool" where
  "firewall_mark_pattern s \<longleftrightarrow> has_prefix s ''0x'' \<and>
     1 \<le> length (drop 2 s) \<and> length (drop 2 s) \<le> 8 \<and> list_all (\<lambda>ch. hex_digit ch \<noteq> None) (drop 2 s)"

definition parse_hex :: "string \<Rightarrow> nat" where
  "parse_hex s = foldl (\<lambda>acc ch. 16 * acc + (case hex_digit ch of Some d \<Rightarrow> d | None \<Rightarrow> 0)) 0 s"

definition parse_firewall_mark :: "string \<Rightarrow> nat result" where
  "parse_firewall_mark s =
     (if \<not> firewall_mark_pattern s
      then Inl ''firewall mark must be 0x followed by 1..8 hex digits''
      else if parse_hex (drop 2 s) = 0 then Inl ''firewall mark must be a non-zero 32-bit value''
      else Inr (parse_hex (drop 2 s)))"

section \<open>Validation of policy overrides\<close>

text \<open>The selector is the key under which an override must be unique.\<close>

definition validate_override_selector ::
    "policy_override \<Rightarrow> (string \<times> service) list \<Rightarrow> string result" where
  "validate_override_selector ov services =
     (if ov_scope ov = ''exact_domain'' then
        (if ov_domain ov = [] \<or> ov_device_mac ov \<noteq> [] \<or> ov_service ov \<noteq> [] \<or> ov_category ov \<noteq> []
         then Inl ''exact_domain requires only domain''
         else Inr (ov_scope ov @ '':'' @ ov_domain ov))
      else if ov_scope ov = ''device_domain'' then
        (if ov_device_mac ov = [] \<or> ov_domain ov = [] \<or> ov_service ov \<noteq> [] \<or> ov_category ov \<noteq> []
         then Inl ''device_domain requires device_mac and domain''
         else Inr (ov_scope ov @ '':'' @ ov_device_mac ov @ '':'' @ ov_domain ov))
      else if ov_scope ov = ''device_service'' then
        (if ov_device_mac ov = [] \<or> ov_service ov = [] \<or> ov_domain ov \<noteq> [] \<or> ov_category ov \<noteq> []
         then Inl ''device_service requires device_mac and service''
         else if map_of services (ov_service ov) = None then Inl ''unknown service''
         else Inr (ov_scope ov @ '':'' @ ov_device_mac ov @ '':'' @ ov_service ov))
      else if ov_scope ov = ''service'' then
        (if ov_service ov = [] \<or> ov_device_mac ov \<noteq> [] \<or> ov_domain ov \<noteq> [] \<or> ov_category ov \<noteq> []
         then Inl ''service scope requires only service''
         else if map_of services (ov_service ov) = None then Inl ''unknown service''
         else Inr (ov_scope ov @ '':'' @ ov_service ov))
      else if ov_scope ov = ''category'' then
        (if \<not> valid_service_category (ov_category ov) \<or> ov_device_mac ov \<noteq> [] \<or> ov_domain ov \<noteq> [] \<or>
            ov_service ov \<noteq> []
         then Inl ''category scope requires only a valid category''
         else Inr (ov_scope ov @ '':'' @ ov_category ov))
      else Inl ''invalid scope'')"

definition affected_services :: "config \<Rightarrow> policy_override \<Rightarrow> service list" where
  "affected_services c ov =
     (if ov_scope ov \<in> {''exact_domain'', ''device_domain''} then
        (let name = service_for_domain c (ov_domain ov) in
         if name = [] then []
         else [case map_of (cfg_services c) name of Some s \<Rightarrow> s | None \<Rightarrow> zero_service])
      else if ov_scope ov \<in> {''device_service'', ''service''} then
        [case map_of (cfg_services c) (ov_service ov) of Some s \<Rightarrow> s | None \<Rightarrow> zero_service]
      else if ov_scope ov = ''category'' then
        filter (\<lambda>s. sv_category s = ov_category ov) (map snd (cfg_services c))
      else [])"

definition violates_category :: "policy \<Rightarrow> service \<Rightarrow> string \<Rightarrow> bool" where
  "violates_category p s target \<longleftrightarrow>
     sv_category s = ''DIRECT_ONLY'' \<and> target \<noteq> ''direct'' \<or>
     sv_category s = ''BLOCKED'' \<and> target \<noteq> ''drop'' \<or>
     sv_category s = ''GEO_LOCKED'' \<and>
       (target = ''direct'' \<and> \<not> po_geo_locked_allow_direct p \<or>
        target = ''zapret'' \<and> \<not> po_geo_locked_allow_zapret p)"

text \<open>Which of the three messages is returned depends on the service met first.\<close>

definition validate_override_safety :: "config \<Rightarrow> policy_override \<Rightarrow> string \<Rightarrow> unit result" where
  "validate_override_safety c ov target =
     (case find (\<lambda>s. violates_category (cfg_policy c) s target) (affected_services c ov) of
        Some s \<Rightarrow> Inl (''override '' @ ov_id ov @ '' violates '' @ sv_category s)
      | None \<Rightarrow> Inr ())"

section \<open>Domain names\<close>

text \<open>
  \<^verbatim>\<open>golang.org/x/net/idna\<close> and \<^verbatim>\<open>golang.org/x/net/publicsuffix\<close> are the two functions of
  \<open>domain_lib\<close>. \<^verbatim>\<open>net.ParseIP\<close> accepts a name of the allowed characters only if it is a dotted
  quad; a name with a colon fails on its characters in any case.
\<close>

record domain_lib =
  dl_to_ascii :: "string \<Rightarrow> string option"
  dl_etld_plus_one :: "string \<Rightarrow> string option"

definition is_digit :: "char \<Rightarrow> bool" where
  "is_digit ch \<longleftrightarrow> 48 \<le> byte ch \<and> byte ch \<le> 57"

definition parse_dec :: "string \<Rightarrow> nat" where
  "parse_dec s = foldl (\<lambda>acc ch. 10 * acc + (byte ch - 48)) 0 s"

definition ipv4_octet :: "string \<Rightarrow> bool" where
  "ipv4_octet s \<longleftrightarrow> s \<noteq> [] \<and> length s \<le> 3 \<and> list_all is_digit s \<and> (length s = 1 \<or> hd s \<noteq> CHR ''0'') \<and>
     parse_dec s \<le> 255"

definition parse_ip_ok :: "string \<Rightarrow> bool" where
  "parse_ip_ok s \<longleftrightarrow> length (split_on CHR ''.'' s) = 4 \<and> list_all ipv4_octet (split_on CHR ''.'' s)"

definition label_error :: "string \<Rightarrow> error option" where
  "label_error l =
     (if l = [] \<or> 63 < length l \<or> hd l = CHR ''-'' \<or> last l = CHR ''-''
      then Some ''invalid domain label''
      else if \<not> list_all is_lower_alnum_dash l then Some ''invalid domain label character''
      else None)"

definition normalize_domain :: "domain_lib \<Rightarrow> string \<Rightarrow> string result" where
  "normalize_domain lib domain =
     (let d = trim_space (trim_suffix domain ''.'') in
      if d = [] \<or> contains d ''*'' then Inl ''invalid domain''
      else case dl_to_ascii lib d of
        None \<Rightarrow> Inl ''invalid IDN domain''
      | Some a \<Rightarrow>
          (let ascii = to_lower (trim_suffix a ''.'') in
           if ascii = [] \<or> 253 < length ascii \<or> parse_ip_ok ascii then Inl ''invalid domain''
           else if length (split_on CHR ''.'' ascii) < 2
           then Inl ''domain must contain a public suffix''
           else case List.map_filter label_error (split_on CHR ''.'' ascii) of
             e # _ \<Rightarrow> Inl e
           | [] \<Rightarrow> Inr ascii))"

definition etld_plus_one :: "domain_lib \<Rightarrow> string \<Rightarrow> string" where
  "etld_plus_one lib domain =
     (case normalize_domain lib domain of
        Inl _ \<Rightarrow> []
      | Inr d \<Rightarrow> (case dl_etld_plus_one lib d of None \<Rightarrow> d | Some base \<Rightarrow> base))"

section \<open>Lemmas\<close>

lemma path_allowed_type: "path_allowed svc r p \<Longrightarrow> rt_type r \<in> set (sv_allowed_paths svc)"
  by (simp add: path_allowed_def split: if_splits)

lemma path_allowed_cong:
  "rt_type r = rt_type r' \<Longrightarrow> path_allowed svc r p = path_allowed svc r' p"
  by (simp only: path_allowed_def)

lemma routes_by_type_member:
  "r \<in> set (routes_by_type c ty) \<Longrightarrow> r \<in> set (cfg_routes c) \<and> rt_type r = ty \<and> route_enabled r"
  by (simp add: routes_by_type_def)

lemma routes_by_type_iff:
  "r \<in> set (routes_by_type c ty) \<longleftrightarrow> r \<in> set (cfg_routes c) \<and> rt_type r = ty \<and> route_enabled r"
  by (auto simp: routes_by_type_def)

lemma find_Some_member: "find P xs = Some x \<Longrightarrow> x \<in> set xs \<and> P x"
  by (induction xs) (auto split: if_splits)

lemma route_by_tag_member:
  "route_by_tag c tag = Some r \<Longrightarrow> r \<in> set (cfg_routes c) \<and> rt_tag r = tag"
  unfolding route_by_tag_def by (rule find_Some_member)

lemma find_distinct:
  assumes "distinct (map f xs)" and "x \<in> set xs"
  shows "find (\<lambda>y. f y = f x) xs = Some x"
  using assms by (induction xs) (auto simp: rev_image_eqI)

lemma route_by_tag_distinct:
  assumes "distinct (map rt_tag (cfg_routes c))" and "r \<in> set (cfg_routes c)"
  shows "route_by_tag c (rt_tag r) = Some r"
  unfolding route_by_tag_def using assms by (rule find_distinct)

lemma service_for_domain_mem:
  assumes "service_for_domain c d = name" and "name \<noteq> []"
  shows "\<exists>svc. (name, svc) \<in> set (cfg_services c) \<and>
    list_ex (domain_matches (trim_suffix (to_lower d) ''.'')) (sv_domains svc)"
  using assms
  by (auto simp: service_for_domain_def Let_def split: option.splits prod.splits
      dest!: find_Some_member)

lemma normalize_domain_labels:
  assumes "normalize_domain lib d = Inr n"
  shows "list_all (\<lambda>l. label_error l = None) (split_on CHR ''.'' n)" and "length n \<le> 253"
    and "2 \<le> length (split_on CHR ''.'' n)" and "n \<noteq> []"
proof -
  have "List.map_filter label_error xs = [] \<Longrightarrow> list_all (\<lambda>l. label_error l = None) xs" for xs
    by (induction xs) (auto simp: List.map_filter_simps split: option.splits)
  then show "list_all (\<lambda>l. label_error l = None) (split_on CHR ''.'' n)"
    using assms by (auto simp: normalize_domain_def Let_def split: if_splits option.splits list.splits)
qed (use assms in \<open>auto simp: normalize_domain_def Let_def
       split: if_splits option.splits list.splits\<close>)

section \<open>The contract of a route ordering\<close>

text \<open>
  The planner asks a provider to order the routes of one type before it takes them as
  candidates. What it relies on is that ordering neither loses, adds nor repeats a route.
\<close>

locale route_ordering =
  fixes order :: "route list \<Rightarrow> route list"
  assumes order_mset: "mset (order rs) = mset rs"
begin

lemma order_set [simp]: "set (order rs) = set rs"
  using order_mset by (metis set_mset_mset)

lemma order_distinct_map [simp]: "distinct (map f (order rs)) = distinct (map f rs)"
  using order_mset by (metis mset_map mset_eq_imp_distinct_iff)

lemma order_Nil [simp]: "order rs = [] \<longleftrightarrow> rs = []"
  using order_mset by (metis mset_zero_iff_right)

lemma order_filter_set [simp]: "set (filter P (order rs)) = set (filter P rs)"
  by simp

end

end
