(* ===== verification/Route_Health.thy ===== *)
theory Route_Health
  imports Config_Model
begin

text \<open>
  The result of a route probe (\<^verbatim>\<open>internal/probe/probe.go\<close>) and the health tracker
  (\<^verbatim>\<open>internal/probe/health.go\<close>): one health record per route tag, updated by every observation,
  and the assignment of the roles selected, standby and quarantined to VLESS routes.
\<close>

section \<open>Probe results\<close>

record check_result =
  ck_name :: string
  ck_url :: string
  ck_required :: bool
  ck_status :: string
  ck_dns_ok :: bool
  ck_dns_resolver :: string
  ck_dns_protocol :: string
  ck_resolved_ips :: "string list"
  ck_connected_ip :: string
  ck_connected_port :: int
  ck_local_ip :: string
  ck_address_family :: string
  ck_transport :: string
  ck_socket_mark :: string
  ck_host_preserved :: bool
  ck_sni_preserved :: bool
  ck_transport_ok :: bool
  ck_tls_ok :: bool
  ck_http_ok :: bool
  ck_content_ok :: bool
  ck_expected_code_matched :: bool
  ck_http_code :: int
  ck_redirects :: int
  ck_regional_block :: bool
  ck_suspected_tspu :: bool
  ck_authentication_required :: bool
  ck_waf_or_rate_limit :: bool
  ck_latency_ms :: int
  ck_route_latency_ms :: int
  ck_route_latency_available :: bool
  ck_end_to_end_latency_ms :: int
  ck_end_to_end_latency_available :: bool
  ck_verification_duration_ms :: int
  ck_reason :: string

record route_result =
  rr_domain :: string
  rr_service :: string
  rr_route :: string
  rr_route_type :: string
  rr_route_priority :: int
  rr_status :: string
  rr_application_status :: string
  rr_path_verified :: bool
  rr_adapter_revision :: string
  rr_candidate_hash :: string
  rr_artifact_manifest_hash :: string
  rr_nft_mark :: string
  rr_conntrack_mark :: string
  rr_ip_rule_priority :: int
  rr_route_table :: int
  rr_interface :: string
  rr_dns_resolver :: string
  rr_resolved_ip :: string
  rr_connected_ip :: string
  rr_connected_port :: int
  rr_local_ip :: string
  rr_socket_mark :: string
  rr_xray_outbound_tag :: string
  rr_evidence_source :: string
  rr_simulation :: bool
  rr_dns_ok :: bool
  rr_transport_ok :: bool
  rr_tls_ok :: bool
  rr_http_ok :: bool
  rr_content_ok :: bool
  rr_service_ok :: bool
  rr_regional_block :: bool
  rr_suspected_tspu :: bool
  rr_authentication_required :: bool
  rr_waf_or_rate_limit :: bool
  rr_external_country :: string
  rr_external_ip_hash :: string
  rr_external_country_sources :: "string list"
  rr_egress_consensus :: bool
  rr_egress_reason :: string
  rr_latency_ms :: int
  rr_route_latency_ms :: int
  rr_route_latency_available :: bool
  rr_end_to_end_latency_ms :: int
  rr_end_to_end_latency_available :: bool
  rr_selection_score :: f64val
  rr_verification_duration_ms :: int
  rr_checks :: "check_result list"
  rr_failure_stage :: string
  rr_reason_code :: string
  rr_reason :: "string option"

definition zero_result :: route_result where
  "zero_result = \<lparr>rr_domain = [], rr_service = [], rr_route = [], rr_route_type = [],
     rr_route_priority = 0, rr_status = [], rr_application_status = [], rr_path_verified = False,
     rr_adapter_revision = [], rr_candidate_hash = [], rr_artifact_manifest_hash = [],
     rr_nft_mark = [], rr_conntrack_mark = [], rr_ip_rule_priority = 0, rr_route_table = 0,
     rr_interface = [], rr_dns_resolver = [], rr_resolved_ip = [], rr_connected_ip = [],
     rr_connected_port = 0, rr_local_ip = [], rr_socket_mark = [], rr_xray_outbound_tag = [],
     rr_evidence_source = [], rr_simulation = False, rr_dns_ok = False, rr_transport_ok = False,
     rr_tls_ok = False, rr_http_ok = False, rr_content_ok = False, rr_service_ok = False,
     rr_regional_block = False, rr_suspected_tspu = False, rr_authentication_required = False,
     rr_waf_or_rate_limit = False, rr_external_country = [], rr_external_ip_hash = [],
     rr_external_country_sources = [], rr_egress_consensus = False, rr_egress_reason = [],
     rr_latency_ms = 0, rr_route_latency_ms = 0, rr_route_latency_available = False,
     rr_end_to_end_latency_ms = 0, rr_end_to_end_latency_available = False,
     rr_selection_score = 0, rr_verification_duration_ms = 0, rr_checks = [],
     rr_failure_stage = [], rr_reason_code = [], rr_reason = None\<rparr>"

section \<open>The health record and the tracker\<close>

record route_health =
  rh_route_tag :: string
  rh_route_type :: string
  rh_state :: string
  rh_role :: string
  rh_score :: int
  rh_consecutive_errors :: int
  rh_consecutive_successes :: int
  rh_checks :: int
  rh_availability_ewma :: f64val
  rh_ewma_latency_ms :: f64val
  rh_last_success_at :: gotime
  rh_last_failure_at :: gotime
  rh_last_checked_at :: gotime
  rh_hold_until :: gotime
  rh_role_hold_until :: gotime
  rh_last_status :: string
  rh_last_reason :: string
  rh_adapter_revision :: string
  rh_candidate_hash :: string
  rh_artifact_manifest_hash :: string
  rh_external_ip_hash :: string
  rh_external_country :: string
  rh_updated_at :: gotime

definition zero_health :: route_health where
  "zero_health = \<lparr>rh_route_tag = [], rh_route_type = [], rh_state = [], rh_role = [], rh_score = 0,
     rh_consecutive_errors = 0, rh_consecutive_successes = 0, rh_checks = 0,
     rh_availability_ewma = 0, rh_ewma_latency_ms = 0, rh_last_success_at = 0,
     rh_last_failure_at = 0, rh_last_checked_at = 0, rh_hold_until = 0, rh_role_hold_until = 0,
     rh_last_status = [], rh_last_reason = [], rh_adapter_revision = [], rh_candidate_hash = [],
     rh_artifact_manifest_hash = [], rh_external_ip_hash = [], rh_external_country = [],
     rh_updated_at = 0\<rparr>"

text \<open>The map \<^verbatim>\<open>HealthTracker.routes\<close>; a read of a missing key gives the zero value.\<close>

type_synonym health_tracker = "(string \<times> route_health) list"

definition health_at :: "health_tracker \<Rightarrow> string \<Rightarrow> route_health" where
  "health_at t tag = (case map_of t tag of Some h \<Rightarrow> h | None \<Rightarrow> zero_health)"

definition new_health_tracker :: "route_health list \<Rightarrow> health_tracker" where
  "new_health_tracker initial =
     foldl (\<lambda>t h. if rh_route_tag h \<noteq> [] then AList.update (rh_route_tag h) h t else t) [] initial"

definition health_get :: "health_tracker \<Rightarrow> string \<Rightarrow> route_health option" where
  "health_get t tag = (if tag = [] then None else map_of t tag)"

section \<open>Observe\<close>

definition fresh_health :: "string \<Rightarrow> string \<Rightarrow> route_health" where
  "fresh_health tag ty = zero_health\<lparr>rh_route_tag := tag, rh_route_type := ty,
     rh_state := ''unknown'', rh_role := ''quarantined'', rh_score := 50\<rparr>"

definition fail_after :: "policy \<Rightarrow> int" where
  "fail_after p = (if po_fail_after_consecutive_errors p \<le> 0 then 3
                   else po_fail_after_consecutive_errors p)"

definition recover_after :: "policy \<Rightarrow> int" where
  "recover_after p = (if po_recover_after_consecutive_success p \<le> 0 then 3
                      else po_recover_after_consecutive_success p)"

definition route_hold :: "policy \<Rightarrow> duration" where
  "route_hold p = (let hold = seconds (po_route_hold_seconds p) in if hold < 0 then 0 else hold)"

definition probe_success :: "route_result \<Rightarrow> bool" where
  "probe_success r \<longleftrightarrow> rr_status r = ''OK'' \<and> rr_path_verified r \<and> rr_service_ok r"

definition keep_unless_empty :: "string \<Rightarrow> string \<Rightarrow> string" where
  "keep_unless_empty new old = (if new \<noteq> [] then new else old)"

definition availability_step :: "bool \<Rightarrow> int \<Rightarrow> f64val \<Rightarrow> f64val" where
  "availability_step success checks a =
     (if checks = 1 then (if success then 1 else a)
      else if success then fadd (fmul a (f64 (8 / 10))) (f64 (2 / 10))
      else fmul a (f64 (8 / 10)))"

definition latency_step :: "int \<Rightarrow> f64val \<Rightarrow> f64val" where
  "latency_step ms l =
     (if 0 < ms then
        (if l = 0 then of_int64 ms
         else fadd (fmul l (f64 (7 / 10))) (fmul (of_int64 ms) (f64 (3 / 10))))
      else l)"

text \<open>The fields written before the code branches on success.\<close>

definition observe_common :: "route_result \<Rightarrow> gotime \<Rightarrow> route_health \<Rightarrow> route_health" where
  "observe_common r now h = h\<lparr>
     rh_checks := rh_checks h + 1,
     rh_last_checked_at := now,
     rh_last_status := rr_status r,
     rh_availability_ewma :=
       availability_step (probe_success r) (rh_checks h + 1) (rh_availability_ewma h),
     rh_adapter_revision := keep_unless_empty (rr_adapter_revision r) (rh_adapter_revision h),
     rh_candidate_hash := keep_unless_empty (rr_candidate_hash r) (rh_candidate_hash h),
     rh_artifact_manifest_hash :=
       keep_unless_empty (rr_artifact_manifest_hash r) (rh_artifact_manifest_hash h),
     rh_external_ip_hash := keep_unless_empty (rr_external_ip_hash r) (rh_external_ip_hash h),
     rh_external_country := keep_unless_empty (rr_external_country r) (rh_external_country h)\<rparr>"

definition observe_success :: "policy \<Rightarrow> route_result \<Rightarrow> gotime \<Rightarrow> route_health \<Rightarrow> route_health" where
  "observe_success p r now h = h\<lparr>
     rh_consecutive_successes := rh_consecutive_successes h + 1,
     rh_consecutive_errors := 0,
     rh_last_success_at := now,
     rh_last_reason := [],
     rh_score := min 100 (rh_score h + 10),
     rh_ewma_latency_ms := latency_step (rr_latency_ms r) (rh_ewma_latency_ms h),
     rh_state :=
       (if (rh_state h = ''unhealthy'' \<or> rh_state h = ''recovering'') \<and>
           (now < rh_hold_until h \<or> rh_consecutive_successes h + 1 < recover_after p)
        then ''recovering'' else ''healthy'')\<rparr>"

definition observe_failure :: "policy \<Rightarrow> route_result \<Rightarrow> gotime \<Rightarrow> route_health \<Rightarrow> route_health" where
  "observe_failure p r now h =
     (let h1 = h\<lparr>
        rh_consecutive_errors := rh_consecutive_errors h + 1,
        rh_consecutive_successes := 0,
        rh_last_failure_at := now,
        rh_last_reason :=
          (if rr_reason_code r = [] then (case rr_reason r of Some s \<Rightarrow> s | None \<Rightarrow> []) else rr_reason_code r),
        rh_score := max 0 (rh_score h - 20)\<rparr>
      in if rr_status r = ''NOT_CONFIGURED'' then h1\<lparr>rh_state := ''not_configured''\<rparr>
         else if fail_after p \<le> rh_consecutive_errors h1
         then h1\<lparr>rh_state := ''unhealthy'', rh_hold_until := now + route_hold p\<rparr>
         else h1)"

definition observe_health :: "policy \<Rightarrow> route_result \<Rightarrow> gotime \<Rightarrow> route_health \<Rightarrow> route_health" where
  "observe_health p r now h =
     (let h0 = (if rh_route_tag h = [] then fresh_health (rr_route r) (rr_route_type r) else h);
          h1 = observe_common r now h0;
          h2 = (if probe_success r then observe_success p r now h1 else observe_failure p r now h1)
      in h2\<lparr>rh_updated_at := now\<rparr>)"

definition health_observe ::
    "health_tracker \<Rightarrow> route_result \<Rightarrow> policy \<Rightarrow> gotime \<Rightarrow> health_tracker \<times> route_health" where
  "health_observe t r p now =
     (if rr_route r = [] then (t, zero_health)
      else let h = observe_health p r now (health_at t (rr_route r))
           in (AList.update (rr_route r) h t, h))"

section \<open>Roles of VLESS routes\<close>

type_synonym role_candidate = "route \<times> route_health"

definition role_candidate_of :: "health_tracker \<Rightarrow> gotime \<Rightarrow> route \<Rightarrow> role_candidate" where
  "role_candidate_of t now r =
     (let h = health_at t (rt_tag r) in
      (r, if rh_route_tag h = []
          then (fresh_health (rt_tag r) (rt_type r))\<lparr>rh_updated_at := now\<rparr> else h))"

definition role_candidates :: "health_tracker \<Rightarrow> gotime \<Rightarrow> route list \<Rightarrow> role_candidate list" where
  "role_candidates t now routes =
     map (role_candidate_of t now) (filter (\<lambda>r. rt_type r = ''vless'' \<and> route_enabled r) routes)"

definition role_held :: "gotime \<Rightarrow> route_health \<Rightarrow> bool" where
  "role_held now h \<longleftrightarrow> rh_role h = ''selected'' \<and> rh_state h = ''healthy'' \<and> now < rh_role_hold_until h"

text \<open>The loop keeps the last candidate whose role is still held.\<close>

definition held_selected :: "gotime \<Rightarrow> role_candidate list \<Rightarrow> string" where
  "held_selected now cs = foldl (\<lambda>cur (r, h). if role_held now h then rt_tag r else cur) [] cs"

definition latency_or_max :: "f64val \<Rightarrow> f64val" where
  "latency_or_max l = (if l = 0 then 1000000000000 else l)"

definition role_less :: "role_candidate \<Rightarrow> role_candidate \<Rightarrow> bool" where
  "role_less left right =
     (let lh = (rh_state (snd left) = ''healthy''); rh = (rh_state (snd right) = ''healthy'');
          ll = latency_or_max (rh_ewma_latency_ms (snd left));
          rl = latency_or_max (rh_ewma_latency_ms (snd right)) in
      if lh \<noteq> rh then lh
      else if rh_score (snd left) \<noteq> rh_score (snd right) then rh_score (snd right) < rh_score (snd left)
      else if ll \<noteq> rl then ll < rl
      else if rt_priority (fst left) \<noteq> rt_priority (fst right)
      then rt_priority (fst left) < rt_priority (fst right)
      else rt_tag (fst left) < rt_tag (fst right))"

definition choose_selected :: "gotime \<Rightarrow> role_candidate list \<Rightarrow> role_candidate list \<times> string" where
  "choose_selected now cs =
     (let cur = held_selected now cs in
      if cur = [] then
        (let sorted = sort_stable role_less cs in
         (sorted, case sorted of
                    [] \<Rightarrow> []
                  | (r, h) # _ \<Rightarrow> if rh_state h = ''healthy'' then rt_tag r else []))
      else (cs, cur))"

definition assign_role :: "policy \<Rightarrow> gotime \<Rightarrow> string \<Rightarrow> role_candidate \<Rightarrow> route_health" where
  "assign_role p now selected c =
     (let h = snd c;
          role = (if rh_state h = ''healthy''
                  then (if rt_tag (fst c) = selected then ''selected'' else ''standby'')
                  else ''quarantined'')
      in if rh_role h \<noteq> role
         then h\<lparr>rh_role := role, rh_updated_at := now,
                rh_role_hold_until := (if role = ''selected'' then now + route_hold p else 0)\<rparr>
         else h)"

definition assign_vless_roles ::
    "health_tracker \<Rightarrow> route list \<Rightarrow> policy \<Rightarrow> gotime \<Rightarrow> health_tracker \<times> route_health list" where
  "assign_vless_roles t routes p now =
     (let (cs, selected) = choose_selected now (role_candidates t now routes);
          hs = map (\<lambda>c. (rt_tag (fst c), assign_role p now selected c)) cs
      in (foldl (\<lambda>m (k, h). AList.update k h m) t hs,
          sort_stable (\<lambda>a b. rh_route_tag a < rh_route_tag b) (map snd hs)))"

section \<open>Snapshot and orders\<close>

definition health_snapshot :: "health_tracker \<Rightarrow> route_health list" where
  "health_snapshot t = sort_stable (\<lambda>a b. rh_route_tag a < rh_route_tag b) (map snd t)"

definition health_rank :: "string \<Rightarrow> int" where
  "health_rank s =
     (if s = ''healthy'' then 0 else if s = ''unknown'' \<or> s = [] then 1
      else if s = ''recovering'' then 2 else if s = ''unhealthy'' then 3
      else if s = ''not_configured'' then 4 else 3)"

definition vless_role_rank :: "route_health \<Rightarrow> int" where
  "vless_role_rank h =
     (if rh_state h = ''healthy'' \<and> rh_role h = ''selected'' then 0
      else if rh_state h = ''healthy'' \<and> rh_role h = ''standby'' then 1
      else health_rank (rh_state h) + 2)"

definition smart_dns_less :: "health_tracker \<Rightarrow> route \<Rightarrow> route \<Rightarrow> bool" where
  "smart_dns_less t a b =
     (let left = health_at t (rt_tag a); right = health_at t (rt_tag b);
          lr = health_rank (rh_state left); rr = health_rank (rh_state right) in
      if lr \<noteq> rr then lr < rr
      else if rh_score left \<noteq> rh_score right then rh_score right < rh_score left
      else if rt_priority a \<noteq> rt_priority b then rt_priority a < rt_priority b
      else rt_tag a < rt_tag b)"

definition order_smart_dns :: "health_tracker \<Rightarrow> route list \<Rightarrow> route list" where
  "order_smart_dns t routes = sort_stable (smart_dns_less t) routes"

definition vless_less :: "health_tracker \<Rightarrow> route \<Rightarrow> route \<Rightarrow> bool" where
  "vless_less t a b =
     (let left = health_at t (rt_tag a); right = health_at t (rt_tag b);
          lr = vless_role_rank left; rr = vless_role_rank right;
          ll = latency_or_max (rh_ewma_latency_ms left);
          rl = latency_or_max (rh_ewma_latency_ms right) in
      if lr \<noteq> rr then lr < rr
      else if rh_score left \<noteq> rh_score right then rh_score right < rh_score left
      else if ll \<noteq> rl then ll < rl
      else if rt_priority a \<noteq> rt_priority b then rt_priority a < rt_priority b
      else rt_tag a < rt_tag b)"

definition order_vless :: "health_tracker \<Rightarrow> route list \<Rightarrow> route list" where
  "order_vless t routes = sort_stable (vless_less t) routes"

section \<open>Runs and the invariant\<close>

text \<open>A run of observations of one route, in the order they are made.\<close>

fun observe_all :: "policy \<Rightarrow> route_health \<Rightarrow> (route_result \<times> gotime) list \<Rightarrow> route_health" where
  "observe_all p h [] = h"
| "observe_all p h ((r, now) # xs) = observe_all p (observe_health p r now h) xs"

definition health_ok :: "string \<Rightarrow> route_health \<Rightarrow> bool" where
  "health_ok tag h \<longleftrightarrow>
     rh_route_tag h = tag \<and> tag \<noteq> [] \<and>
     0 \<le> rh_score h \<and> rh_score h \<le> 100 \<and>
     0 \<le> rh_consecutive_errors h \<and> 0 \<le> rh_consecutive_successes h \<and>
     (rh_consecutive_errors h = 0 \<or> rh_consecutive_successes h = 0) \<and>
     0 \<le> rh_availability_ewma h \<and> rh_availability_ewma h \<le> 1 \<and>
     0 \<le> rh_ewma_latency_ms h \<and>
     rh_state h \<in> {''unknown'', ''healthy'', ''recovering'', ''unhealthy'', ''not_configured''} \<and>
     rh_role h \<in> {''selected'', ''standby'', ''quarantined''}"

definition tracker_ok :: "health_tracker \<Rightarrow> bool" where
  "tracker_ok t \<longleftrightarrow> distinct (map fst t) \<and> (\<forall>(tag, h) \<in> set t. health_ok tag h)"

text \<open>The trackers a controller can hold that starts empty: every call is one step.\<close>

inductive tracker_reachable :: "health_tracker \<Rightarrow> bool" where
  tracker_start: "tracker_reachable (new_health_tracker [])"
| tracker_observe: "tracker_reachable t \<Longrightarrow> tracker_reachable (fst (health_observe t r p now))"
| tracker_assign: "tracker_reachable t \<Longrightarrow> \<forall>r \<in> set routes. rt_tag r \<noteq> [] \<Longrightarrow>
     tracker_reachable (fst (assign_vless_roles t routes p now))"

section \<open>The comparisons are strict weak orders\<close>

interpretation role_order: go_less role_less
  by (rule go_less_key [where key = "\<lambda>c. (rh_state (snd c) \<noteq> ''healthy'', - rh_score (snd c),
        latency_or_max (rh_ewma_latency_ms (snd c)), rt_priority (fst c), rt_tag (fst c))"])
    (auto simp: role_less_def Let_def less_prod_def)

interpretation smart_dns_order: go_less "smart_dns_less t" for t
  by (rule go_less_key [where key = "\<lambda>r. (health_rank (rh_state (health_at t (rt_tag r))),
        - rh_score (health_at t (rt_tag r)), rt_priority r, rt_tag r)"])
    (auto simp: smart_dns_less_def Let_def less_prod_def)

interpretation vless_order: go_less "vless_less t" for t
  by (rule go_less_key [where key = "\<lambda>r. (vless_role_rank (health_at t (rt_tag r)),
        - rh_score (health_at t (rt_tag r)),
        latency_or_max (rh_ewma_latency_ms (health_at t (rt_tag r))), rt_priority r, rt_tag r)"])
    (auto simp: vless_less_def Let_def less_prod_def)

interpretation tag_order: go_less "\<lambda>a b. rh_route_tag a < rh_route_tag b"
  by (rule go_less_key [where key = rh_route_tag]) simp


section \<open>The orders provide what the planner relies on\<close>

interpretation smart_dns_ordering: route_ordering "order_smart_dns t" for t
  by unfold_locales (simp add: order_smart_dns_def)

interpretation vless_ordering: route_ordering "order_vless t" for t
  by unfold_locales (simp add: order_vless_def)

section \<open>Observations keep the invariant\<close>

lemma f64_eight_plus_two: "fadd (f64 (8 / 10)) (f64 (2 / 10)) = 1"
  by code_simp

lemma f64_eight_le_1: "f64 (8 / 10) \<le> 1"
  using f64_mono [of "8 / 10" 1] by simp

lemma availability_step_bounds:
  assumes "0 \<le> a" and "a \<le> 1"
  shows "0 \<le> availability_step b n a" and "availability_step b n a \<le> 1"
proof -
  have m: "0 \<le> fmul a (f64 (8 / 10))" "fmul a (f64 (8 / 10)) \<le> f64 (8 / 10)"
    using assms fmul_mono [of a 1 "f64 (8 / 10)" "f64 (8 / 10)"]
    by (simp_all add: fmul_nonneg f64_nonneg fmul_def)
  then have "fadd (fmul a (f64 (8 / 10))) (f64 (2 / 10)) \<le> 1"
    using fadd_mono [OF m(2), of "f64 (2 / 10)" "f64 (2 / 10)"] f64_eight_plus_two by simp
  moreover have "0 \<le> fadd (fmul a (f64 (8 / 10))) (f64 (2 / 10))"
    using m(1) by (simp add: fadd_nonneg f64_nonneg)
  ultimately show "0 \<le> availability_step b n a" "availability_step b n a \<le> 1"
    using m assms f64_eight_le_1 by (auto simp: availability_step_def)
qed

lemma latency_step_nonneg: "0 \<le> l \<Longrightarrow> 0 \<le> latency_step ms l"
  by (simp add: latency_step_def of_int64_nonneg fadd_nonneg fmul_nonneg f64_nonneg)

lemma fresh_health_ok: "tag \<noteq> [] \<Longrightarrow> health_ok tag (fresh_health tag ty)"
  by (simp add: health_ok_def fresh_health_def zero_health_def)

lemma observe_common_ok: "health_ok tag h \<Longrightarrow> health_ok tag (observe_common r now h)"
  by (simp add: health_ok_def observe_common_def availability_step_bounds)

lemma observe_success_ok: "health_ok tag h \<Longrightarrow> health_ok tag (observe_success p r now h)"
  by (auto simp: health_ok_def observe_success_def latency_step_nonneg)

lemma observe_failure_ok: "health_ok tag h \<Longrightarrow> health_ok tag (observe_failure p r now h)"
  by (auto simp: health_ok_def observe_failure_def Let_def)

lemma health_ok_updated_at [simp]:
  "health_ok tag (h\<lparr>rh_updated_at := now\<rparr>) = health_ok tag h"
  by (simp add: health_ok_def)

lemma observe_health_ok:
  assumes "rr_route r \<noteq> []" and "rh_route_tag h \<noteq> [] \<Longrightarrow> health_ok (rr_route r) h"
  shows "health_ok (rr_route r) (observe_health p r now h)"
  using assms
  by (simp add: observe_health_def Let_def fresh_health_ok observe_common_ok observe_success_ok
      observe_failure_ok)

lemma health_at_ok:
  "tracker_ok t \<Longrightarrow> rh_route_tag (health_at t tag) \<noteq> [] \<Longrightarrow> health_ok tag (health_at t tag)"
  by (auto simp: tracker_ok_def health_at_def zero_health_def split: option.splits dest: map_of_SomeD)

lemma tracker_ok_update: "tracker_ok t \<Longrightarrow> health_ok tag h \<Longrightarrow> tracker_ok (AList.update tag h t)"
  using set_update_subset [of tag h t] by (auto simp: tracker_ok_def distinct_update)

lemma tracker_ok_observe: "tracker_ok t \<Longrightarrow> tracker_ok (fst (health_observe t r p now))"
  by (simp add: health_observe_def Let_def tracker_ok_update observe_health_ok health_at_ok)

section \<open>Role assignment\<close>

lemma role_candidate_ok:
  assumes "tracker_ok t" and "rt_tag r \<noteq> []"
  shows "health_ok (rt_tag r) (snd (role_candidate_of t now r))"
  using assms health_at_ok [of t "rt_tag r"]
  by (simp add: role_candidate_of_def Let_def fresh_health_ok)

lemma assign_role_ok: "health_ok tag (snd c) \<Longrightarrow> health_ok tag (assign_role p now sel c)"
  by (simp add: assign_role_def health_ok_def Let_def)

lemma tracker_ok_updates:
  "tracker_ok t \<Longrightarrow> \<forall>(k, h) \<in> set hs. health_ok k h \<Longrightarrow>
   tracker_ok (foldl (\<lambda>m (k, h). AList.update k h m) t hs)"
  by (induction hs arbitrary: t) (auto simp: tracker_ok_update)

lemma choose_selected_set: "set (fst (choose_selected now cs)) = set cs"
  by (simp add: choose_selected_def Let_def)

lemma tracker_ok_assign:
  assumes "tracker_ok t" and "\<forall>r \<in> set routes. rt_tag r \<noteq> []"
  shows "tracker_ok (fst (assign_vless_roles t routes p now))"
proof -
  obtain cs sel where cs: "choose_selected now (role_candidates t now routes) = (cs, sel)"
    by (cases "choose_selected now (role_candidates t now routes)")
  then have "set cs = set (role_candidates t now routes)"
    using choose_selected_set by (metis fst_conv)
  then have "\<forall>(k, h) \<in> set (map (\<lambda>c. (rt_tag (fst c), assign_role p now sel c)) cs). health_ok k h"
    using assms role_candidate_ok [OF assms(1)]
    by (auto simp: role_candidates_def assign_role_ok role_candidate_of_def Let_def)
  then show ?thesis
    using assms(1) by (simp add: assign_vless_roles_def cs tracker_ok_updates)
qed

lemma map_of_updates:
  "map_of (foldl (\<lambda>m (k, h). AList.update k h m) t hs) = map_of t ++ map_of (rev hs)"
  by (induction hs arbitrary: t)
    (auto simp: update_conv' map_add_def fun_eq_iff split: option.splits)

lemma held_selected_cases:
  "held_selected now cs = [] \<or>
   (\<exists>c \<in> set cs. role_held now (snd c) \<and> rt_tag (fst c) = held_selected now cs)"
proof (induction cs rule: rev_induct)
  case (snoc c cs)
  then show ?case by (cases c) (auto simp: held_selected_def)
qed (simp add: held_selected_def)

lemma held_selected_held:
  "\<exists>c \<in> set cs. role_held now (snd c) \<Longrightarrow> \<forall>c \<in> set cs. rt_tag (fst c) \<noteq> [] \<Longrightarrow>
   \<exists>c \<in> set cs. role_held now (snd c) \<and> rt_tag (fst c) = held_selected now cs"
proof (induction cs rule: rev_induct)
  case (snoc c cs)
  then show ?case by (cases c) (auto simp: held_selected_def)
qed simp

lemma choose_selected_healthy:
  assumes "\<exists>c \<in> set cs. rh_state (snd c) = ''healthy''"
  shows "\<exists>c \<in> set cs. rh_state (snd c) = ''healthy'' \<and> rt_tag (fst c) = snd (choose_selected now cs)"
proof (cases "held_selected now cs = []")
  case True
  from assms obtain c where c: "c \<in> set cs" "rh_state (snd c) = ''healthy''" by blast
  then obtain r h rest where s: "sort_stable role_less cs = (r, h) # rest"
    by (cases "sort_stable role_less cs") auto
  have "\<not> role_less c (r, h)" using s c(1) by (rule role_order.sort_stable_head)
  with c(2) have "rh_state h = ''healthy''" by (auto simp: role_less_def Let_def split: if_splits)
  moreover have "(r, h) \<in> set cs" using s set_sort_stable [of role_less cs] by auto
  ultimately show ?thesis using True s by (force simp: choose_selected_def Let_def)
next
  case False
  with held_selected_cases [of now cs] show ?thesis
    by (auto simp: choose_selected_def Let_def role_held_def)
qed

section \<open>Runs of observations\<close>

lemma observe_all_snoc: "observe_all p h (xs @ [(r, now)]) = observe_health p r now (observe_all p h xs)"
  by (induction xs arbitrary: h) auto

lemma observe_health_tag:
  "rr_route r \<noteq> [] \<Longrightarrow> rh_route_tag (observe_health p r now h) \<noteq> []"
  by (auto simp: observe_health_def Let_def observe_common_def observe_success_def
      observe_failure_def fresh_health_def)

lemma observe_errors:
  assumes "rh_route_tag h \<noteq> []"
  shows "rh_consecutive_errors (observe_health p r now h) =
    (if probe_success r then 0 else rh_consecutive_errors h + 1)"
  using assms by (simp add: observe_health_def Let_def observe_common_def observe_success_def
      observe_failure_def)

lemma observe_successes:
  assumes "rh_route_tag h \<noteq> []"
  shows "rh_consecutive_successes (observe_health p r now h) =
    (if probe_success r then rh_consecutive_successes h + 1 else 0)"
  using assms by (simp add: observe_health_def Let_def observe_common_def observe_success_def
      observe_failure_def)

lemma observe_state_failure:
  assumes "rh_route_tag h \<noteq> []" and "\<not> probe_success r" and "rr_status r \<noteq> ''NOT_CONFIGURED''"
  shows "rh_state (observe_health p r now h) =
    (if fail_after p \<le> rh_consecutive_errors h + 1 then ''unhealthy'' else rh_state h)"
  using assms by (simp add: observe_health_def Let_def observe_common_def observe_failure_def)

lemma observe_state_success:
  assumes "rh_route_tag h \<noteq> []" and "probe_success r"
  shows "rh_state (observe_health p r now h) =
    (if (rh_state h = ''unhealthy'' \<or> rh_state h = ''recovering'') \<and>
        (now < rh_hold_until h \<or> rh_consecutive_successes h + 1 < recover_after p)
     then ''recovering'' else ''healthy'')"
  using assms by (simp add: observe_health_def Let_def observe_common_def observe_success_def)

lemma observe_all_tag:
  "rh_route_tag h \<noteq> [] \<Longrightarrow> \<forall>(r, now) \<in> set xs. rr_route r \<noteq> [] \<Longrightarrow> rh_route_tag (observe_all p h xs) \<noteq> []"
  by (induction xs arbitrary: h) (auto simp: observe_health_tag)

lemma observe_all_errors:
  assumes "rh_route_tag h \<noteq> []" and "\<forall>(r, now) \<in> set xs. rr_route r \<noteq> [] \<and> \<not> probe_success r"
  shows "rh_consecutive_errors (observe_all p h xs) = rh_consecutive_errors h + int (length xs)"
  using assms
  by (induction xs arbitrary: h) (auto simp: observe_errors observe_health_tag)

lemma observe_all_successes:
  assumes "rh_route_tag h \<noteq> []" and "\<forall>(r, now) \<in> set xs. rr_route r \<noteq> []"
    and "rh_consecutive_successes h = 0"
  shows "rh_consecutive_successes (observe_all p h xs) =
    int (length (takeWhile (\<lambda>(r, now). probe_success r) (rev xs)))"
  using assms(2)
proof (induction xs rule: rev_induct)
  case (snoc x xs)
  obtain r now where x: "x = (r, now)" by (cases x)
  have "rh_route_tag (observe_all p h xs) \<noteq> []"
    using assms(1) snoc.prems by (intro observe_all_tag) auto
  with snoc x show ?case by (simp add: observe_all_snoc observe_successes)
qed (simp add: assms(3))

text \<open>The least suffix that explains a count of trailing successes.\<close>

lemma takeWhile_rev_suffix:
  assumes "n \<le> length (takeWhile P (rev xs))"
  shows "\<exists>ys zs. xs = ys @ zs \<and> length zs = n \<and> (\<forall>z \<in> set zs. P z)"
proof -
  have le: "length (takeWhile P (rev xs)) \<le> length xs"
    using length_takeWhile_le [of P "rev xs"] by simp
  let ?zs = "drop (length xs - n) xs"
  have "rev ?zs = take n (rev xs)"
    using assms le by (simp add: rev_drop)
  also have "\<dots> = take n (takeWhile P (rev xs))"
    using assms by (metis takeWhile_eq_take take_take min.absorb1)
  finally have "\<forall>z \<in> set ?zs. P z"
    by (metis set_rev in_set_takeD set_takeWhileD)
  then show ?thesis
    using assms le by (intro exI [of _ "take (length xs - n) xs"] exI [of _ ?zs]) auto
qed

lemma recover_after_pos: "1 \<le> recover_after p"
  by (simp add: recover_after_def)

lemma fail_after_pos: "1 \<le> fail_after p"
  by (simp add: fail_after_def)

lemma recovery_run:
  assumes "rh_route_tag h \<noteq> []" and "rh_state h \<in> {''unhealthy'', ''recovering''}"
    and "rh_consecutive_successes h = 0"
    and "\<forall>(r, now) \<in> set xs. rr_route r \<noteq> [] \<and> rr_status r \<noteq> ''NOT_CONFIGURED''"
  shows "rh_state (observe_all p h xs) \<in> {''unhealthy'', ''recovering''} \<or>
    (\<exists>ys zs ws. xs = ys @ zs @ ws \<and> int (length zs) = recover_after p \<and>
       (\<forall>(r, now) \<in> set zs. probe_success r))"
  using assms(4)
proof (induction xs rule: rev_induct)
  case Nil
  with assms(2) show ?case by simp
next
  case (snoc x xs)
  obtain r now where x: "x = (r, now)" by (cases x)
  let ?h = "observe_all p h xs"
  have tag: "rh_route_tag ?h \<noteq> []"
    using assms(1) snoc.prems by (intro observe_all_tag) auto
  consider "rh_state ?h \<in> {''unhealthy'', ''recovering''}"
    | "\<exists>ys zs ws. xs = ys @ zs @ ws \<and> int (length zs) = recover_after p \<and>
        (\<forall>(r, now) \<in> set zs. probe_success r)"
    using snoc by auto
  then show ?case
  proof cases
    case 1
    have cnt: "rh_consecutive_successes (observe_all p h (xs @ [x])) =
        int (length (takeWhile (\<lambda>(r, now). probe_success r) (rev (xs @ [x]))))"
      using assms(1,3) snoc.prems by (intro observe_all_successes) auto
    have out: "rh_state (observe_all p h (xs @ [x])) \<in> {''unhealthy'', ''recovering''} \<or>
        recover_after p \<le> rh_consecutive_successes (observe_all p h (xs @ [x]))"
      using 1 tag snoc.prems x
      by (cases "probe_success r")
        (auto simp: observe_all_snoc observe_state_success observe_state_failure observe_successes)
    show ?thesis
    proof (cases "recover_after p \<le> rh_consecutive_successes (observe_all p h (xs @ [x]))")
      case True
      then have "nat (recover_after p) \<le>
          length (takeWhile (\<lambda>(r, now). probe_success r) (rev (xs @ [x])))"
        using cnt by linarith
      then obtain ys zs where "xs @ [x] = ys @ zs" "length zs = nat (recover_after p)"
        "\<forall>z \<in> set zs. (\<lambda>(r, now). probe_success r) z"
        using takeWhile_rev_suffix by blast
      then have "xs @ [x] = ys @ zs @ []" "int (length zs) = recover_after p"
        using recover_after_pos [of p] by simp_all
      with \<open>\<forall>z \<in> set zs. _ z\<close> show ?thesis by blast
    next
      case False
      with out show ?thesis by blast
    qed
  next
    case 2
    then obtain ys zs ws where "xs = ys @ zs @ ws" "int (length zs) = recover_after p"
      "\<forall>(r, now) \<in> set zs. probe_success r" by blast
    then have "xs @ [x] = ys @ zs @ (ws @ [x])" by simp
    then show ?thesis
      using \<open>int (length zs) = recover_after p\<close> \<open>\<forall>(r, now) \<in> set zs. probe_success r\<close> by blast
  qed
qed

lemma tracker_reachable_ok: "tracker_reachable t \<Longrightarrow> tracker_ok t"
  by (induction rule: tracker_reachable.induct)
    (auto simp: tracker_ok_observe tracker_ok_assign, simp add: new_health_tracker_def tracker_ok_def)

section \<open>The tracker after an assignment\<close>

lemma assign_role_role:
  "rh_role (assign_role p now sel c) =
    (if rh_state (snd c) = ''healthy''
     then (if rt_tag (fst c) = sel then ''selected'' else ''standby'') else ''quarantined'')"
  by (simp add: assign_role_def Let_def)

lemma assign_role_state [simp]: "rh_state (assign_role p now sel c) = rh_state (snd c)"
  by (simp add: assign_role_def Let_def)

lemma role_candidate_fst [simp]: "fst (role_candidate_of t now r) = r"
  by (simp add: role_candidate_of_def Let_def)

lemma role_candidate_state:
  assumes "tracker_ok t"
  shows "rh_state (snd (role_candidate_of t now r)) = ''healthy'' \<longleftrightarrow>
    rh_state (health_at t (rt_tag r)) = ''healthy''"
  using health_at_ok [OF assms, of "rt_tag r"]
  by (auto simp: role_candidate_of_def Let_def fresh_health_def zero_health_def health_at_def
      health_ok_def tracker_ok_def split: option.splits dest!: map_of_SomeD)
    (use assms in \<open>force simp: tracker_ok_def health_ok_def\<close>)+

text \<open>What the assignment stores for a route it considers.\<close>

lemma health_at_assigned:
  assumes "distinct (map rt_tag routes)" and "r \<in> set routes"
    and "rt_type r = ''vless''" and "route_enabled r"
  shows "health_at (fst (assign_vless_roles t routes p now)) (rt_tag r) =
    assign_role p now (snd (choose_selected now (role_candidates t now routes)))
      (role_candidate_of t now r)"
proof -
  let ?cs = "role_candidates t now routes"
  obtain cs sel where cs: "choose_selected now ?cs = (cs, sel)"
    by (cases "choose_selected now ?cs")
  have m: "mset cs = mset ?cs"
    using cs by (auto simp: choose_selected_def Let_def split: if_splits)
  let ?g = "\<lambda>c. (rt_tag (fst c), assign_role p now sel c)"
  have "distinct (map (\<lambda>c. rt_tag (fst c)) ?cs)"
    using assms(1) by (simp add: role_candidates_def o_def distinct_map_filter)
  then have "distinct (map (\<lambda>c. rt_tag (fst c)) cs)"
    using m by (metis mset_map mset_eq_imp_distinct_iff)
  then have d: "distinct (map fst (rev (map ?g cs)))"
    by (metis (no_types, lifting) distinct_rev fst_conv list.map_comp list.map_cong0 o_apply rev_map)
  have "role_candidate_of t now r \<in> set ?cs"
    using assms by (simp add: role_candidates_def)
  then have "role_candidate_of t now r \<in> set cs"
    using m by (metis set_mset_mset)
  then have "(rt_tag r, assign_role p now sel (role_candidate_of t now r)) \<in> set (rev (map ?g cs))"
    by (force simp: role_candidate_fst)
  with d have "map_of (rev (map ?g cs)) (rt_tag r) =
      Some (assign_role p now sel (role_candidate_of t now r))"
    by (rule map_of_distinct_mem)
  then have "map_of (fst (assign_vless_roles t routes p now)) (rt_tag r) =
      Some (assign_role p now sel (role_candidate_of t now r))"
    by (simp add: assign_vless_roles_def cs map_of_updates map_add_def)
  then show ?thesis by (simp add: health_at_def cs)
qed

section \<open>Properties\<close>

text \<open>C21. The tracker never holds a nonsensical health record: in every tracker that observations
  and role assignments can produce, each entry is filed under its own tag, its score is within
  0..100, at most one of the two streak counters is positive, the availability average computed
  in binary64 arithmetic lies in [0, 1], and state and role are words of their vocabularies.\<close>

theorem tracker_invariant:
  assumes "tracker_reachable t" and "health_get t tag = Some h"
  shows "rh_route_tag h = tag \<and> 0 \<le> rh_score h \<and> rh_score h \<le> 100 \<and>
    (rh_consecutive_errors h = 0 \<or> rh_consecutive_successes h = 0) \<and>
    0 \<le> rh_availability_ewma h \<and> rh_availability_ewma h \<le> 1 \<and>
    rh_state h \<in> {''unknown'', ''healthy'', ''recovering'', ''unhealthy'', ''not_configured''} \<and>
    rh_role h \<in> {''selected'', ''standby'', ''quarantined''}"
proof -
  from assms(2) have "(tag, h) \<in> set t"
    by (auto simp: health_get_def split: if_splits dest: map_of_SomeD)
  with tracker_reachable_ok [OF assms(1)] have "health_ok tag h"
    by (auto simp: tracker_ok_def)
  then show ?thesis by (simp add: health_ok_def)
qed

definition ok_result :: "string \<Rightarrow> route_result" where
  "ok_result tag = zero_result\<lparr>rr_route := tag, rr_route_type := ''vless'', rr_status := ''OK'',
     rr_path_verified := True, rr_service_ok := True, rr_latency_ms := 40\<rparr>"

definition fail_result :: "string \<Rightarrow> route_result" where
  "fail_result tag = zero_result\<lparr>rr_route := tag, rr_route_type := ''vless'', rr_status := ''FAIL''\<rparr>"

theorem tracker_invariant_witness:
  "\<exists>h. health_get (fst (health_observe (new_health_tracker []) (ok_result ''v1'') zero_policy 7)) ''v1'' = Some h \<and>
     rh_score h = 60 \<and> rh_availability_ewma h \<le> 1"
proof -
  let ?t = "fst (health_observe (new_health_tracker []) (ok_result ''v1'') zero_policy 7)"
  have r: "tracker_reachable ?t"
    by (intro tracker_observe tracker_start)
  obtain h where h: "health_get ?t ''v1'' = Some h" and s: "rh_score h = 60"
    by (simp add: health_observe_def health_get_def ok_result_def zero_result_def Let_def
        new_health_tracker_def observe_health_def health_at_def zero_health_def fresh_health_def
        observe_common_def observe_success_def probe_success_def)
  show ?thesis using tracker_invariant [OF r h] h s by blast
qed

text \<open>C23. The failure threshold is exact: a run of failing probes of one route (none of them
  NOT_CONFIGURED), starting from a record without pending errors, leaves the state as it was
  while it is shorter than the threshold and makes the route unhealthy from then on.\<close>

theorem failure_threshold_exact:
  assumes "rh_route_tag h \<noteq> []" and "rh_consecutive_errors h = 0"
    and "\<forall>(r, now) \<in> set xs. rr_route r \<noteq> [] \<and> \<not> probe_success r \<and> rr_status r \<noteq> ''NOT_CONFIGURED''"
  shows "rh_state (observe_all p h xs) =
    (if fail_after p \<le> int (length xs) then ''unhealthy'' else rh_state h)"
  using assms(3)
proof (induction xs rule: rev_induct)
  case Nil
  then show ?case using fail_after_pos [of p] by simp
next
  case (snoc x xs)
  obtain r now where x: "x = (r, now)" by (cases x)
  have tag: "rh_route_tag (observe_all p h xs) \<noteq> []"
    using assms(1) snoc.prems by (intro observe_all_tag) auto
  have "rh_consecutive_errors (observe_all p h xs) = int (length xs)"
    using assms(1,2) snoc.prems by (subst observe_all_errors) auto
  with snoc x tag show ?case
    by (auto simp: observe_all_snoc observe_state_failure)
qed

theorem failure_threshold_exact_witness:
  "rh_state (observe_all zero_policy (fresh_health ''v1'' ''vless'')
     [(fail_result ''v1'', 1), (fail_result ''v1'', 2), (fail_result ''v1'', 3)]) = ''unhealthy''"
  by (subst failure_threshold_exact)
    (simp_all add: fresh_health_def zero_health_def fail_result_def zero_result_def
      probe_success_def fail_after_def zero_policy_def)



text \<open>Role assignment elects at most one VLESS route, only healthy routes are elected, a route
  is elected whenever some considered route is healthy, and the election stays with a holder
  whose hold time has not passed.\<close>

theorem assign_roles_elects:
  assumes "tracker_ok t" and "distinct (map rt_tag routes)" and "\<forall>r \<in> set routes. rt_tag r \<noteq> []"
    and "V = filter (\<lambda>r. rt_type r = ''vless'' \<and> route_enabled r) routes"
    and "t' = fst (assign_vless_roles t routes p now)"
  shows "(\<forall>r \<in> set V. \<forall>r' \<in> set V. rh_role (health_at t' (rt_tag r)) = ''selected'' \<and>
        rh_role (health_at t' (rt_tag r')) = ''selected'' \<longrightarrow> r = r') \<and>
    (\<forall>r \<in> set V. rh_role (health_at t' (rt_tag r)) = ''selected'' \<longrightarrow>
        rh_state (health_at t' (rt_tag r)) = ''healthy'') \<and>
    ((\<exists>r \<in> set V. rh_state (health_at t (rt_tag r)) = ''healthy'') \<longrightarrow>
        (\<exists>r \<in> set V. rh_role (health_at t' (rt_tag r)) = ''selected'')) \<and>
    (\<forall>r \<in> set V. role_held now (health_at t (rt_tag r)) \<longrightarrow>
        (\<exists>r' \<in> set V. role_held now (health_at t (rt_tag r')) \<and>
           rh_role (health_at t' (rt_tag r')) = ''selected''))"
proof -
  define cs where "cs = role_candidates t now routes"
  define sel where "sel = snd (choose_selected now cs)"
  have cs: "cs = map (role_candidate_of t now) V"
    by (simp add: cs_def role_candidates_def assms(4))
  have at: "health_at t' (rt_tag r) = assign_role p now sel (role_candidate_of t now r)"
    if "r \<in> set V" for r
    using that health_at_assigned [OF assms(2), of r t p now]
    by (simp add: assms(4,5) sel_def cs_def)
  have inj: "r = r'" if "r \<in> set V" "r' \<in> set V" "rt_tag r = rt_tag r'" for r r'
    using that assms(2) by (auto simp: assms(4) distinct_map dest: inj_onD)
  have st: "rh_state (snd (role_candidate_of t now r)) = ''healthy'' \<longleftrightarrow>
      rh_state (health_at t (rt_tag r)) = ''healthy''" for r
    by (rule role_candidate_state [OF assms(1)])
  have some: "\<exists>r \<in> set V. rh_role (health_at t' (rt_tag r)) = ''selected''"
    if "\<exists>r \<in> set V. rh_state (health_at t (rt_tag r)) = ''healthy''"
  proof -
    have "\<exists>c \<in> set cs. rh_state (snd c) = ''healthy''" using that by (auto simp: cs st)
    then obtain r where "r \<in> set V" "rh_state (health_at t (rt_tag r)) = ''healthy''" "rt_tag r = sel"
      using choose_selected_healthy [of cs now] by (auto simp: cs st sel_def)
    then have "rh_role (health_at t' (rt_tag r)) = ''selected''"
      unfolding at [OF \<open>r \<in> set V\<close>] assign_role_role st by simp
    with \<open>r \<in> set V\<close> show ?thesis by blast
  qed
  have held: "role_held now (snd (role_candidate_of t now r)) \<longleftrightarrow> role_held now (health_at t (rt_tag r))"
    for r
    by (simp add: role_candidate_of_def role_held_def fresh_health_def Let_def)
      (auto simp: health_at_def zero_health_def tracker_ok_def health_ok_def split: option.splits
        dest!: map_of_SomeD, use assms(1) in \<open>force simp: tracker_ok_def health_ok_def\<close>)
  have keep: "\<exists>r' \<in> set V. role_held now (health_at t (rt_tag r')) \<and>
      rh_role (health_at t' (rt_tag r')) = ''selected''"
    if "r \<in> set V" "role_held now (health_at t (rt_tag r))" for r
  proof -
    have "\<exists>c \<in> set cs. role_held now (snd c)" "\<forall>c \<in> set cs. rt_tag (fst c) \<noteq> []"
      using that assms(3) held by (auto simp: cs assms(4))
    from held_selected_held [OF this] obtain c where c: "c \<in> set cs" "role_held now (snd c)"
      "rt_tag (fst c) = held_selected now cs" by blast
    from c(1) obtain r' where r': "r' \<in> set V" "c = role_candidate_of t now r'"
      unfolding cs by auto
    have h': "role_held now (health_at t (rt_tag r'))" using c(2) held r'(2) by simp
    have "held_selected now cs \<noteq> []" using c(3) r' assms(3) by (auto simp: assms(4))
    then have "rt_tag r' = sel"
      using c(3) r'(2) by (simp add: sel_def choose_selected_def Let_def)
    moreover have "rh_state (snd (role_candidate_of t now r')) = ''healthy''"
      using c(2) r'(2) by (simp add: role_held_def)
    ultimately have "rh_role (health_at t' (rt_tag r')) = ''selected''"
      unfolding at [OF r'(1)] assign_role_role by simp
    with r'(1) h' show ?thesis by blast
  qed
  have tagsel: "rt_tag r = sel" "rh_state (health_at t' (rt_tag r)) = ''healthy''"
    if "r \<in> set V" "rh_role (health_at t' (rt_tag r)) = ''selected''" for r
    using that(2) unfolding at [OF that(1)] by (simp_all add: assign_role_role split: if_splits)
  show ?thesis
  proof (intro conjI ballI impI)
    fix r r'
    assume "r \<in> set V" "r' \<in> set V" and "rh_role (health_at t' (rt_tag r)) = ''selected'' \<and>
      rh_role (health_at t' (rt_tag r')) = ''selected''"
    then show "r = r'" using inj tagsel(1) by metis
  qed (fact tagsel(2) some keep)+
qed

theorem assign_roles_elects_witness:
  "let r1 = zero_route\<lparr>rt_type := ''vless'', rt_tag := ''v1''\<rparr>;
       r2 = zero_route\<lparr>rt_type := ''vless'', rt_tag := ''v2''\<rparr>;
       t = fst (health_observe (new_health_tracker []) (ok_result ''v1'') zero_policy 7);
       t' = fst (assign_vless_roles t [r1, r2] zero_policy 8)
   in \<exists>r \<in> {r1, r2}. rh_role (health_at t' (rt_tag r)) = ''selected''"
proof -
  let ?r1 = "zero_route\<lparr>rt_type := ''vless'', rt_tag := ''v1''\<rparr>"
  let ?r2 = "zero_route\<lparr>rt_type := ''vless'', rt_tag := ''v2''\<rparr>"
  let ?t = "fst (health_observe (new_health_tracker []) (ok_result ''v1'') zero_policy 7)"
  define t where "t = ?t"
  define r1 where "r1 = ?r1"
  define r2 where "r2 = ?r2"
  have ok: "tracker_ok t"
    unfolding t_def by (intro tracker_reachable_ok tracker_observe tracker_start)
  have en: "[r1, r2] = filter (\<lambda>r. rt_type r = ''vless'' \<and> route_enabled r) [r1, r2]"
    by (simp add: r1_def r2_def zero_route_def route_enabled_def)
  have tags: "distinct (map rt_tag [r1, r2])" "\<forall>r \<in> set [r1, r2]. rt_tag r \<noteq> []"
    by (simp_all add: r1_def r2_def zero_route_def)
  have "rh_state (health_at t ''v1'') = ''healthy''"
    by (simp add: t_def health_observe_def ok_result_def zero_result_def Let_def
        new_health_tracker_def observe_health_def health_at_def zero_health_def fresh_health_def
        observe_common_def observe_success_def probe_success_def)
  then have "\<exists>r \<in> set [r1, r2]. rh_state (health_at t (rt_tag r)) = ''healthy''"
    by (simp add: r1_def)
  then have "\<exists>r \<in> set [r1, r2].
      rh_role (health_at (fst (assign_vless_roles t [r1, r2] zero_policy 8)) (rt_tag r)) = ''selected''"
    using assign_roles_elects [OF ok tags en refl, of zero_policy 8] by blast
  then show ?thesis unfolding Let_def r1_def r2_def t_def by (simp only: list.set)
qed

end
