(* ===== verification/Path_Evidence.thy ===== *)
theory Path_Evidence
  imports Route_Health
begin

text \<open>
  How a probe result is tied to the path it took (\<^verbatim>\<open>internal/probe/path.go\<close>): the
  observation that is drawn from the checks, the proof a verifier returns for it
  (\<^verbatim>\<open>evidence.RouteResult\<close>), and \<^verbatim>\<open>finishWithPathProof\<close>, the one place that
  marks a result as path-verified. The verifier is a parameter here. The pointer to the proof
  that the result also carries is not a field of the model: the planner
  and the health tracker read only the fields that are copied into the result.
\<close>

section \<open>Durations\<close>

definition elapsed_milliseconds :: "duration \<Rightarrow> int" where
  "elapsed_milliseconds elapsed = (if elapsed \<le> 0 then 1 else max 1 (elapsed div 1000000))"

definition measured_route_latency :: "duration \<Rightarrow> int \<times> bool" where
  "measured_route_latency elapsed =
     (if elapsed < 0 then (0, False) else (max 1 (elapsed div 1000000), True))"

definition compose_end_to_end_latency :: "int \<Rightarrow> int \<Rightarrow> int \<times> bool" where
  "compose_end_to_end_latency dns_ms attempt_ms =
     (if dns_ms < 0 \<or> attempt_ms < 0 then (0, False) else (max 1 (wrap64 (dns_ms + attempt_ms)), True))"

section \<open>Observations, proofs and errors\<close>

record path_observation =
  ob_domain :: string
  ob_route_tag :: string
  ob_route_type :: string
  ob_dns_resolver :: string
  ob_dns_protocol :: string
  ob_resolved_ips :: "string list"
  ob_connected_ip :: string
  ob_connected_port :: int
  ob_local_ip :: string
  ob_address_family :: string
  ob_transport :: string
  ob_socket_mark :: string
  ob_host_preserved :: bool
  ob_sni_preserved :: bool
  ob_tls_result :: string
  ob_http_result :: string
  ob_content_result :: string
  ob_external_ip_hash :: string
  ob_external_country :: string
  ob_route_latency_ms :: int
  ob_route_latency_available :: bool
  ob_started_at :: gotime
  ob_completed_at :: gotime

record path_proof =
  pv_domain :: string
  pv_route_tag :: string
  pv_route_type :: string
  pv_adapter_revision :: string
  pv_candidate_hash :: string
  pv_artifact_manifest_hash :: string
  pv_nft_mark :: string
  pv_conntrack_mark :: string
  pv_ip_rule_priority :: int
  pv_route_table :: int
  pv_interface :: string
  pv_dns_resolver :: string
  pv_dns_protocol :: string
  pv_dns_response_safe :: bool
  pv_resolved_ip :: string
  pv_connected_ip :: string
  pv_connected_port :: int
  pv_local_ip :: string
  pv_address_family :: string
  pv_transport :: string
  pv_socket_mark :: string
  pv_host_preserved :: bool
  pv_sni_preserved :: bool
  pv_xray_outbound_tag :: string
  pv_socks5_endpoint :: string
  pv_socks5_loopback :: bool
  pv_direct_bypass_xray :: bool
  pv_direct_bypass_zapret :: bool
  pv_inherited_mark_cleared :: bool
  pv_zapret_installed :: bool
  pv_zapret_flow_processed :: bool
  pv_tcp443_verified :: bool
  pv_quic_policy :: string
  pv_proxy_flow_processed :: bool
  pv_ipv4_verified :: bool
  pv_ipv6_verified :: bool
  pv_drop_ipv4_enforced :: bool
  pv_drop_ipv6_enforced :: bool
  pv_drop_dns_enforced :: bool
  pv_external_ip_hash :: string
  pv_external_country :: string
  pv_latency_ms :: int
  pv_route_latency_ms :: int
  pv_route_latency_available :: bool
  pv_verification_duration_ms :: int
  pv_tls_result :: string
  pv_http_result :: string
  pv_content_result :: string
  pv_failure_stage :: string
  pv_reason_code :: string
  pv_status :: string
  pv_evidence_source :: string
  pv_simulation :: bool
  pv_checked_at :: gotime

definition zero_proof :: path_proof where
  "zero_proof = \<lparr>pv_domain = [], pv_route_tag = [], pv_route_type = [], pv_adapter_revision = [],
     pv_candidate_hash = [], pv_artifact_manifest_hash = [], pv_nft_mark = [], pv_conntrack_mark = [],
     pv_ip_rule_priority = 0, pv_route_table = 0, pv_interface = [], pv_dns_resolver = [],
     pv_dns_protocol = [], pv_dns_response_safe = False, pv_resolved_ip = [], pv_connected_ip = [],
     pv_connected_port = 0, pv_local_ip = [], pv_address_family = [], pv_transport = [],
     pv_socket_mark = [], pv_host_preserved = False, pv_sni_preserved = False,
     pv_xray_outbound_tag = [], pv_socks5_endpoint = [], pv_socks5_loopback = False,
     pv_direct_bypass_xray = False, pv_direct_bypass_zapret = False,
     pv_inherited_mark_cleared = False, pv_zapret_installed = False,
     pv_zapret_flow_processed = False, pv_tcp443_verified = False, pv_quic_policy = [],
     pv_proxy_flow_processed = False, pv_ipv4_verified = False, pv_ipv6_verified = False,
     pv_drop_ipv4_enforced = False, pv_drop_ipv6_enforced = False, pv_drop_dns_enforced = False,
     pv_external_ip_hash = [], pv_external_country = [], pv_latency_ms = 0,
     pv_route_latency_ms = 0, pv_route_latency_available = False, pv_verification_duration_ms = 0,
     pv_tls_result = [], pv_http_result = [], pv_content_result = [], pv_failure_stage = [],
     pv_reason_code = [], pv_status = [], pv_evidence_source = [], pv_simulation = False,
     pv_checked_at = 0\<rparr>"

text \<open>
  An error as the code inspects it: its text, the status and code of a
  \<^verbatim>\<open>PathStatusError\<close> in its chain, and whether \<^verbatim>\<open>ErrPathEvidenceUnavailable\<close> is in it.
\<close>

record path_error =
  pe_text :: string
  pe_status_code :: "(string \<times> string) option"
  pe_unavailable :: bool

definition plain_error :: "string \<Rightarrow> path_error" where
  "plain_error s = \<lparr>pe_text = s, pe_status_code = None, pe_unavailable = False\<rparr>"

definition path_status_error :: "string \<Rightarrow> string \<Rightarrow> path_error option \<Rightarrow> path_error" where
  "path_status_error status code cause =
     \<lparr>pe_text = (case cause of None \<Rightarrow> code | Some e \<Rightarrow> code @ '': '' @ pe_text e),
      pe_status_code = Some (status, code),
      pe_unavailable = (case cause of None \<Rightarrow> False | Some e \<Rightarrow> pe_unavailable e)\<rparr>"

record path_session =
  ps_started_at :: gotime
  ps_counter_before :: nat
  ps_begin_error :: string

definition proof_error_code :: "path_error \<Rightarrow> route \<Rightarrow> string" where
  "proof_error_code e r =
     (let lower = to_lower (pe_text e);
          code = map (\<lambda>ch. if ch = CHR '' '' then CHR ''_'' else ch) (takeWhile (\<lambda>ch. ch \<noteq> CHR '':'') lower)
      in case pe_status_code e of
           Some (status, c) \<Rightarrow>
             (if c \<noteq> [] then c
              else if pe_unavailable e
              then (if rt_requires_adapter r then ''route_requires_adapter_evidence'' else ''route_path_evidence_unavailable'')
              else if code = [] then ''route_path_unverified'' else code)
         | None \<Rightarrow>
             (if pe_unavailable e
              then (if rt_requires_adapter r then ''route_requires_adapter_evidence'' else ''route_path_evidence_unavailable'')
              else if code = [] then ''route_path_unverified'' else code))"

definition proof_failure_status :: "path_error \<Rightarrow> string" where
  "proof_failure_status e =
     (case pe_status_code e of
        Some (status, c) \<Rightarrow> if status \<noteq> [] then status else ''UNVERIFIED''
      | None \<Rightarrow> ''UNVERIFIED'')"

section \<open>From checks to an observation\<close>

definition append_unique :: "string list \<Rightarrow> string list \<Rightarrow> string list" where
  "append_unique dst vs = foldl (\<lambda>acc v. if v \<in> set acc then acc else acc @ [v]) dst vs"

definition first_string :: "string list \<Rightarrow> string" where
  "first_string vs = (case vs of [] \<Rightarrow> [] | v # _ \<Rightarrow> v)"

definition observe_check :: "path_observation \<Rightarrow> check_result \<Rightarrow> path_observation" where
  "observe_check ob c =
     (let ob1 = (if ob_dns_resolver ob = []
                 then ob\<lparr>ob_dns_resolver := ck_dns_resolver c, ob_dns_protocol := ck_dns_protocol c\<rparr> else ob);
          ob2 = ob1\<lparr>ob_resolved_ips := append_unique (ob_resolved_ips ob1) (ck_resolved_ips c)\<rparr>;
          ob3 = (if ck_transport c \<noteq> []
                 then ob2\<lparr>ob_transport := ck_transport c, ob_socket_mark := ck_socket_mark c,
                          ob_host_preserved := ck_host_preserved c, ob_sni_preserved := ck_sni_preserved c\<rparr>
                 else ob2);
          ob4 = (if ck_connected_ip c \<noteq> []
                 then ob3\<lparr>ob_connected_ip := ck_connected_ip c, ob_connected_port := ck_connected_port c,
                          ob_local_ip := ck_local_ip c, ob_address_family := ck_address_family c\<rparr>
                 else ob3);
          ob5 = (if ck_http_ok c then ob4\<lparr>ob_http_result := ''OK''\<rparr>
                 else if 0 < ck_http_code c then ob4\<lparr>ob_http_result := ''HTTP_'' @ int_dec (ck_http_code c)\<rparr>
                 else ob4);
          ob6 = (if ck_tls_ok c then ob5\<lparr>ob_tls_result := ''OK''\<rparr>
                 else if ck_transport_ok c then ob5\<lparr>ob_tls_result := ''NOT_APPLICABLE''\<rparr>
                 else ob5)
      in if ck_content_ok c then ob6\<lparr>ob_content_result := ''OK''\<rparr>
         else if ck_http_ok c then ob6\<lparr>ob_content_result := ''FAIL''\<rparr>
         else ob6)"

definition or_fail :: "string \<Rightarrow> string" where
  "or_fail s = (if s = [] then ''FAIL'' else s)"

definition observation_from_result ::
    "route \<Rightarrow> route_result \<Rightarrow> gotime \<Rightarrow> gotime \<Rightarrow> path_observation" where
  "observation_from_result r res started completed =
     (let ob0 = \<lparr>ob_domain = rr_domain res, ob_route_tag = rt_tag r, ob_route_type = rt_type r,
                 ob_dns_resolver = [], ob_dns_protocol = [], ob_resolved_ips = [],
                 ob_connected_ip = [], ob_connected_port = 0, ob_local_ip = [],
                 ob_address_family = [], ob_transport = [], ob_socket_mark = [],
                 ob_host_preserved = False, ob_sni_preserved = False, ob_tls_result = [],
                 ob_http_result = [], ob_content_result = [],
                 ob_external_ip_hash = rr_external_ip_hash res, ob_external_country = rr_external_country res,
                 ob_route_latency_ms = rr_route_latency_ms res,
                 ob_route_latency_available = rr_route_latency_available res,
                 ob_started_at = started, ob_completed_at = completed\<rparr>;
          ob = foldl observe_check ob0 (rr_checks res)
      in ob\<lparr>ob_http_result := or_fail (ob_http_result ob), ob_tls_result := or_fail (ob_tls_result ob),
            ob_content_result := or_fail (ob_content_result ob)\<rparr>)"

section \<open>Matching a stored proof\<close>

text \<open>\<open>parse\<close> is \<^verbatim>\<open>netip.ParseAddr\<close>.\<close>

definition contains_ip :: "(string \<Rightarrow> 'a option) \<Rightarrow> string list \<Rightarrow> string \<Rightarrow> bool" where
  "contains_ip parse vs expected =
     (case parse expected of None \<Rightarrow> False | Some a \<Rightarrow> list_ex (\<lambda>v. parse v = Some a) vs)"

definition match_observation ::
    "(string \<Rightarrow> 'a option) \<Rightarrow> path_proof \<Rightarrow> path_observation \<Rightarrow> error option" where
  "match_observation parse p ob =
     (if pv_domain p = [] \<or> \<not> equal_fold (pv_domain p) (ob_domain ob) then Some ''path_evidence_domain_mismatch''
      else if pv_dns_resolver p \<noteq> ob_dns_resolver ob then Some ''path_evidence_dns_resolver_mismatch''
      else if pv_resolved_ip p \<noteq> [] \<and> \<not> contains_ip parse (ob_resolved_ips ob) (pv_resolved_ip p)
      then Some ''path_evidence_resolved_ip_mismatch''
      else if pv_connected_ip p \<noteq> ob_connected_ip ob then Some ''path_evidence_connected_ip_mismatch''
      else if pv_transport p \<noteq> [] \<and> pv_transport p \<noteq> ob_transport ob then Some ''path_evidence_transport_mismatch''
      else if pv_host_preserved p \<noteq> ob_host_preserved ob \<or> pv_sni_preserved p \<noteq> ob_sni_preserved ob
      then Some ''path_evidence_host_or_sni_mismatch''
      else if pv_tls_result p \<noteq> ob_tls_result ob \<or> pv_http_result p \<noteq> ob_http_result ob \<or>
              pv_content_result p \<noteq> ob_content_result ob
      then Some ''path_evidence_application_mismatch''
      else if ob_external_ip_hash ob \<noteq> [] \<and> pv_external_ip_hash p \<noteq> ob_external_ip_hash ob
      then Some ''path_evidence_external_ip_mismatch''
      else if ob_external_country ob \<noteq> [] \<and> \<not> equal_fold (pv_external_country p) (ob_external_country ob)
      then Some ''path_evidence_external_country_mismatch''
      else None)"

record bound_evidence =
  be_complete :: bool
  be_report :: "path_error + path_proof list"
  be_max_age :: duration
  be_allow_simulation :: bool

text \<open>
  \<open>be_complete\<close>: none of the paths, the revision and the manifest hash is empty; \<open>be_report\<close>: what
  \<^verbatim>\<open>evidence.LoadAndVerify\<close> returned. A \<open>for\<close> loop that returns on the first proof of the tag.
\<close>

definition unavailable_error :: path_error where
  "unavailable_error = \<lparr>pe_text = ''route path evidence unavailable'', pe_status_code = None, pe_unavailable = True\<rparr>"

definition bound_verify ::
    "(string \<Rightarrow> 'a option) \<Rightarrow> gotime \<Rightarrow> bound_evidence \<Rightarrow> route \<Rightarrow> path_observation \<Rightarrow> path_error + path_proof" where
  "bound_verify parse now v r ob =
     (if \<not> be_complete v then Inl unavailable_error
      else case be_report v of
        Inl e \<Rightarrow> Inl (e\<lparr>pe_text := ''bound_evidence_invalid: '' @ pe_text e\<rparr>)
      | Inr proofs \<Rightarrow>
          (let max_age = (if be_max_age v \<le> 0 then 5 * minute else be_max_age v) in
           case find (\<lambda>p. pv_route_tag p = rt_tag r) proofs of
             None \<Rightarrow> Inl (plain_error ''route_path_evidence_missing'')
           | Some p \<Rightarrow>
               (if pv_simulation p \<and> \<not> be_allow_simulation v
                then Inl (plain_error ''simulated_path_evidence_forbidden'')
                else if pv_checked_at p < now - max_age \<or> now + minute < pv_checked_at p
                then Inl (plain_error ''stale_path_evidence'')
                else case match_observation parse p ob of
                  Some e \<Rightarrow> Inl (plain_error e)
                | None \<Rightarrow> Inr p)))"

section \<open>Begin and finish\<close>

text \<open>\<open>starter\<close> is \<open>None\<close> for a verifier that is not a \<^verbatim>\<open>PathProofStarter\<close>.\<close>

definition begin_path_proof ::
    "(string \<Rightarrow> route \<Rightarrow> gotime \<Rightarrow> path_error + path_session) option \<Rightarrow> string \<Rightarrow> route \<Rightarrow> gotime \<Rightarrow> path_session" where
  "begin_path_proof starter domain r started =
     (let session = \<lparr>ps_started_at = started, ps_counter_before = 0, ps_begin_error = []\<rparr> in
      case starter of
        None \<Rightarrow> session
      | Some begin_fn \<Rightarrow>
          (case begin_fn domain r started of
             Inl e \<Rightarrow> session\<lparr>ps_begin_error := pe_text e\<rparr>
           | Inr s \<Rightarrow> (if ps_started_at s = 0 then s\<lparr>ps_started_at := started\<rparr> else s)))"

definition claims_success :: "route_result \<Rightarrow> bool" where
  "claims_success res \<longleftrightarrow> equal_fold (trim_space (rr_status res)) ''OK'' \<or>
     equal_fold (trim_space (rr_status res)) ''DEGRADED'' \<or>
     equal_fold (trim_space (rr_application_status res)) ''DROP''"

definition with_observation :: "route_result \<Rightarrow> path_observation \<Rightarrow> int \<Rightarrow> route_result" where
  "with_observation res ob duration_ms =
     res\<lparr>rr_verification_duration_ms := duration_ms,
         rr_route_latency_ms := (if ob_route_latency_available ob then ob_route_latency_ms ob else rr_route_latency_ms res),
         rr_latency_ms := (if ob_route_latency_available ob then ob_route_latency_ms ob else 0),
         rr_route_latency_available := ob_route_latency_available ob,
         rr_dns_resolver := ob_dns_resolver ob,
         rr_resolved_ip := first_string (ob_resolved_ips ob),
         rr_connected_ip := ob_connected_ip ob,
         rr_connected_port := ob_connected_port ob,
         rr_local_ip := ob_local_ip ob,
         rr_socket_mark := ob_socket_mark ob\<rparr>"

definition fail_path_proof :: "route \<Rightarrow> route_result \<Rightarrow> string \<Rightarrow> path_error \<Rightarrow> route_result" where
  "fail_path_proof r res stage e =
     (let res1 = res\<lparr>rr_path_verified := False, rr_failure_stage := stage,
                     rr_reason_code := proof_error_code e r\<rparr>
      in if claims_success res
         then res1\<lparr>rr_status := proof_failure_status e, rr_reason := Some (proof_error_code e r)\<rparr>
         else res1)"

definition accept_path_proof :: "route_result \<Rightarrow> path_proof \<Rightarrow> route_result" where
  "accept_path_proof res p =
     (let res1 = res\<lparr>rr_path_verified := True, rr_adapter_revision := pv_adapter_revision p,
            rr_candidate_hash := pv_candidate_hash p,
            rr_artifact_manifest_hash := pv_artifact_manifest_hash p,
            rr_nft_mark := pv_nft_mark p, rr_conntrack_mark := pv_conntrack_mark p,
            rr_ip_rule_priority := pv_ip_rule_priority p, rr_route_table := pv_route_table p,
            rr_interface := pv_interface p, rr_dns_resolver := pv_dns_resolver p,
            rr_resolved_ip := pv_resolved_ip p, rr_connected_ip := pv_connected_ip p,
            rr_connected_port := pv_connected_port p, rr_local_ip := pv_local_ip p,
            rr_socket_mark := pv_socket_mark p, rr_xray_outbound_tag := pv_xray_outbound_tag p,
            rr_evidence_source := pv_evidence_source p, rr_simulation := pv_simulation p\<rparr>;
          res2 = (if pv_route_latency_available p
                  then res1\<lparr>rr_route_latency_ms := pv_route_latency_ms p, rr_latency_ms := pv_route_latency_ms p,
                            rr_route_latency_available := True\<rparr>
                  else res1);
          res3 = (if 0 < pv_verification_duration_ms p
                  then res2\<lparr>rr_verification_duration_ms := pv_verification_duration_ms p\<rparr> else res2);
          res4 = res3\<lparr>rr_reason_code := pv_reason_code p\<rparr>
      in if equal_fold (trim_space (rr_application_status res4)) ''DROP''
         then res4\<lparr>rr_status := ''OK'', rr_service_ok := True, rr_reason := Some ''drop_enforced''\<rparr>
         else res4)"

definition finish_with_path_proof ::
    "(route \<Rightarrow> path_observation \<Rightarrow> path_session \<Rightarrow> path_error + path_proof) \<Rightarrow> route \<Rightarrow> route_result \<Rightarrow>
     gotime \<Rightarrow> gotime \<Rightarrow> duration \<Rightarrow> path_session \<Rightarrow> route_result" where
  "finish_with_path_proof verify r res started completed elapsed session =
     (let ob = observation_from_result r res started completed;
          res1 = with_observation res ob (elapsed_milliseconds elapsed)
      in if ps_begin_error session \<noteq> []
         then fail_path_proof r res1 ''path_evidence_begin'' (plain_error (ps_begin_error session))
         else case verify r ob session of
           Inl e \<Rightarrow> fail_path_proof r res1 ''path_evidence'' e
         | Inr p \<Rightarrow> accept_path_proof res1 p)"

end
