(* ===== verification/Probe_Resolve.thy ===== *)
theory Probe_Resolve
  imports Dns_Wire Path_Evidence
begin

text \<open>
  How a probe finds the addresses it connects to (\<^verbatim>\<open>resolveForRoute\<close> and its helpers in
  \<^verbatim>\<open>internal/probe/probe.go\<close>) and how it agrees on the country of an exit
  (\<^verbatim>\<open>probeExternalIP\<close>). What the network answers is a \<open>probe_env\<close>.
\<close>

section \<open>The outside world of a probe\<close>

text \<open>
  One dial inside a request: not made, failed, or made with the local and remote addresses of the
  connection. \<open>hx_outcome\<close> is what \<^verbatim>\<open>client.Do\<close> returned.
\<close>

datatype dial_outcome = Dial_none | Dial_failed | Dial_ok "string option" "string option"

datatype http_outcome = Http_error string | Http_response int string bool

record http_exchange =
  hx_request_ok :: bool
  hx_dial :: dial_outcome
  hx_observed_mark :: nat
  hx_redirects :: int
  hx_elapsed :: duration
  hx_outcome :: http_outcome

text \<open>
  \<open>pe_exchange\<close> and \<open>pe_socks_exchange\<close> are the DNS exchanges over the network named by their first
  argument and through a SOCKS proxy; \<open>pe_http i j\<close> is the exchange with the \<open>j\<close>-th address of
  the \<open>i\<close>-th check; \<open>pe_get\<close> a GET of an egress endpoint; \<open>pe_drop\<close> the socket mark observed by the
  drop probe and its dial error; \<open>pe_begin\<close> and \<open>pe_verify\<close> the path verifier.
\<close>

record probe_env =
  pe_net :: net_lib
  pe_dns :: dns_lib
  pe_query_id :: "string \<Rightarrow> nat \<Rightarrow> nat"
  pe_exchange :: "string \<Rightarrow> string \<Rightarrow> string \<Rightarrow> nat \<Rightarrow> dns_msg option result"
  pe_socks_exchange :: "string \<Rightarrow> string \<Rightarrow> string \<Rightarrow> nat \<Rightarrow> dns_msg option result"
  pe_lookup :: "string \<Rightarrow> addr list result"
  pe_http :: "nat \<Rightarrow> nat \<Rightarrow> route \<Rightarrow> addr \<Rightarrow> http_exchange"
  pe_resolve_elapsed :: "nat \<Rightarrow> duration"
  pe_attempt_elapsed :: "nat \<Rightarrow> nat \<Rightarrow> duration"
  pe_check_elapsed :: "nat \<Rightarrow> duration"
  pe_get :: "route \<Rightarrow> string \<Rightarrow> addr \<Rightarrow> (int \<times> string) result"
  pe_country_is :: "string \<Rightarrow> (string \<times> string) option"
  pe_ipwho_is :: "string \<Rightarrow> (bool \<times> string \<times> string) option"
  pe_geo_lookup :: "string \<Rightarrow> addr \<Rightarrow> int \<Rightarrow> string result"
  pe_hash_ip :: "string \<Rightarrow> string"
  pe_drop :: "route \<Rightarrow> nat \<Rightarrow> nat \<times> error option"
  pe_begin :: "(string \<Rightarrow> route \<Rightarrow> gotime \<Rightarrow> path_error + path_session) option"
  pe_verify :: "route \<Rightarrow> path_observation \<Rightarrow> path_session \<Rightarrow> path_error + path_proof"
  pe_started :: gotime
  pe_completed :: gotime
  pe_elapsed :: duration

definition allow_private_probe :: "config \<Rightarrow> bool" where
  "allow_private_probe c \<longleftrightarrow> cfg_target c = ''test''"

section \<open>Resolution\<close>

definition unique_addrs :: "addr list \<Rightarrow> addr list" where
  "unique_addrs as = foldl (\<lambda>acc a. if a \<in> set acc then acc else acc @ [a]) [] as"

definition prefer_ipv4 :: "addr list \<Rightarrow> addr list" where
  "prefer_ipv4 as = filter is4 as @ filter (\<lambda>a. \<not> is4 a) as"

definition normalize_dns_server :: "net_lib \<Rightarrow> string \<Rightarrow> string" where
  "normalize_dns_server nl server =
     (if nl_split_host_port nl server \<noteq> None then server else join_host_port server ''53'')"

definition query_dns_one :: "probe_env \<Rightarrow> string \<Rightarrow> string \<Rightarrow> nat \<Rightarrow> addr list result \<times> string" where
  "query_dns_one env server host qtype =
     (let validate = (\<lambda>resp. validate_dns_response (pe_dns env) (pe_query_id env host qtype) resp host qtype) in
      case pe_exchange env ''udp'' server host qtype of
        Inl _ \<Rightarrow>
          (case pe_exchange env ''tcp'' server host qtype of
             Inl e \<Rightarrow> (Inl e, ''tcp'')
           | Inr resp \<Rightarrow> (validate resp, ''tcp''))
      | Inr resp \<Rightarrow>
          (if (case resp of Some m \<Rightarrow> dm_truncated m | None \<Rightarrow> False) then
             (case pe_exchange env ''tcp'' server host qtype of
                Inl e \<Rightarrow> (Inl e, ''tcp'')
              | Inr resp2 \<Rightarrow> (validate resp2, ''tcp''))
           else (validate resp, ''udp'')))"

definition addrs_or_none :: "addr list result \<Rightarrow> addr list" where
  "addrs_or_none r = (case r of Inl _ \<Rightarrow> [] | Inr as \<Rightarrow> as)"

definition limit_answers :: "string \<Rightarrow> addr list \<Rightarrow> addr list result" where
  "limit_answers empty_error as =
     (if as = [] then Inl empty_error else if 64 < length as then Inl ''dns_answer_limit'' else Inr as)"

definition query_dns :: "probe_env \<Rightarrow> string \<Rightarrow> string \<Rightarrow> addr list result \<times> string" where
  "query_dns env server0 host =
     (let server = normalize_dns_server (pe_net env) server0;
          (r4, p4) = query_dns_one env server host 1;
          (r6, p6) = query_dns_one env server host 28;
          tcp = (\<lambda>r p. \<not> isl r \<and> p = ''tcp'');
          protocol = (if tcp r4 p4 \<or> tcp r6 p6 then ''tcp'' else ''udp'')
      in (limit_answers ''smart_dns_empty'' (unique_addrs (addrs_or_none r4 @ addrs_or_none r6)), protocol))"

definition socks_query :: "probe_env \<Rightarrow> string \<Rightarrow> string \<Rightarrow> string \<Rightarrow> nat \<Rightarrow> addr list" where
  "socks_query env proxy server host qtype =
     (case pe_socks_exchange env proxy server host qtype of
        Inl _ \<Rightarrow> []
      | Inr resp \<Rightarrow> addrs_or_none (validate_dns_response (pe_dns env) (pe_query_id env host qtype) resp host qtype))"

definition query_dns_tcp_via_socks ::
    "probe_env \<Rightarrow> config \<Rightarrow> string \<Rightarrow> string \<Rightarrow> string \<Rightarrow> addr list result" where
  "query_dns_tcp_via_socks env c proxy server0 host =
     (let server = normalize_dns_server (pe_net env) server0 in
      case nl_split_host_port (pe_net env) server of
        None \<Rightarrow> Inl ''socks_dns_resolver_invalid''
      | Some (resolver_host, resolver_port) \<Rightarrow>
          (if resolver_port \<noteq> ''53'' \<and> \<not> allow_private_probe c then Inl ''socks_dns_resolver_invalid''
           else case nl_parse_addr (pe_net env) resolver_host of
             None \<Rightarrow> Inl ''socks_dns_resolver_unsafe''
           | Some a \<Rightarrow>
               (if \<not> allow_private_probe c \<and> is_unsafe_addr a then Inl ''socks_dns_resolver_unsafe''
                else limit_answers ''socks_dns_empty''
                  (unique_addrs (socks_query env proxy server host 1 @ socks_query env proxy server host 28)))))"

text \<open>Addresses with the resolver and the protocol that gave them.\<close>

definition resolve_for_route ::
    "probe_env \<Rightarrow> config \<Rightarrow> route \<Rightarrow> string \<Rightarrow> (addr list \<times> string \<times> string) result" where
  "resolve_for_route env c r host =
     (if rt_dns_mode r = ''socks_remote'' then
        (if rt_socks5 r = [] \<or> rt_dns_server r = [] then Inl ''socks_dns_not_configured''
         else let resolver = normalize_dns_server (pe_net env) (rt_dns_server r) in
           case query_dns_tcp_via_socks env c (rt_socks5 r) resolver host of
             Inl e \<Rightarrow> Inl e
           | Inr as \<Rightarrow> Inr (prefer_ipv4 as, ''socks5:'' @ resolver, ''socks5_tcp''))
      else if rt_type r = ''smart_dns'' then
        (if rt_dns_server r = [] \<or> contains (rt_dns_server r) ''PLACEHOLDER''
         then Inl ''smart_dns_server_not_configured''
         else if \<not> rt_connect_to_resolved_ip r then Inl ''smart_dns_connect_to_answer_required''
         else case query_dns env (rt_dns_server r) host of
           (Inl e, _) \<Rightarrow> Inl e
         | (Inr as, protocol) \<Rightarrow> Inr (prefer_ipv4 as, normalize_dns_server (pe_net env) (rt_dns_server r), protocol))
      else case pe_lookup env host of
        Inl e \<Rightarrow> Inl e
      | Inr as \<Rightarrow> Inr (prefer_ipv4 as, ''system'', ''system''))"

text \<open>At most \<^verbatim>\<open>maxRouteProbeTargets\<close> addresses of the family that was asked for.\<close>

definition max_route_probe_targets :: nat where
  "max_route_probe_targets = 4"

definition route_probe_targets :: "addr list \<Rightarrow> string \<Rightarrow> addr list" where
  "route_probe_targets ips family =
     take max_route_probe_targets
       (filter (\<lambda>a. \<not> (family = ''ipv4'' \<and> \<not> is4 a \<or> family = ''ipv6'' \<and> \<not> is6 a)) ips)"

section \<open>The country of an exit\<close>

definition parse_geoip_endpoint :: "probe_env \<Rightarrow> string \<Rightarrow> string \<Rightarrow> (addr \<times> string) result" where
  "parse_geoip_endpoint env provider body =
     (let finish = (\<lambda>(ip_text, country).
            case nl_parse_addr (pe_net env) (trim_space ip_text) of
              None \<Rightarrow> Inl ''unsafe_geoip_address''
            | Some a \<Rightarrow>
                (if is_unsafe_addr a then Inl ''unsafe_geoip_address''
                 else let cc = to_upper (trim_space country) in
                   if length cc \<noteq> 2 \<or> \<not> list_all (\<lambda>ch. 65 \<le> byte ch \<and> byte ch \<le> 90) cc
                   then Inl ''invalid_geoip_country'' else Inr (a, cc)))
      in if provider = ''country_is'' then
           (case pe_country_is env body of
              None \<Rightarrow> Inl ''invalid_country_is_response''
            | Some (ip, cc) \<Rightarrow> finish (ip, cc))
         else if provider = ''ipwho_is'' then
           (case pe_ipwho_is env body of
              Some (True, ip, cc) \<Rightarrow> finish (ip, cc)
            | _ \<Rightarrow> Inl ''invalid_ipwho_is_response'')
         else Inl ''unsupported_geoip_provider'')"

definition fetch_text_via_route :: "probe_env \<Rightarrow> config \<Rightarrow> route \<Rightarrow> string \<Rightarrow> string result" where
  "fetch_text_via_route env c r raw_url =
     (case nl_parse_url (pe_net env) raw_url of
        None \<Rightarrow> Inl ''invalid_egress_endpoint''
      | Some u \<Rightarrow>
          (if ur_scheme u \<noteq> ''https'' \<or> ur_host u = [] \<or> ur_has_user u \<or> ur_fragment u \<noteq> []
           then Inl ''invalid_egress_endpoint''
           else case resolve_for_route env c r (ur_hostname u) of
             Inl _ \<Rightarrow> Inl ''egress_endpoint_resolution_failed''
           | Inr (ips, _, _) \<Rightarrow>
               (if ips = [] then Inl ''egress_endpoint_resolution_failed''
                else case find (\<lambda>a. allow_private_probe c \<or> \<not> is_unsafe_addr a) ips of
                  None \<Rightarrow> Inl ''ssrf_private_address_blocked''
                | Some target \<Rightarrow>
                    (case pe_get env r raw_url target of
                       Inl e \<Rightarrow> Inl e
                     | Inr (status, body) \<Rightarrow>
                         (if status \<noteq> 200 then Inl ''egress_endpoint_http_error''
                          else if 16 * 1024 < length body then Inl ''egress_endpoint_response_too_large''
                          else Inr body)))))"

definition lookup_country :: "probe_env \<Rightarrow> config \<Rightarrow> addr \<Rightarrow> string" where
  "lookup_country env c a =
     (let g = cfg_geoip c in
      if gi_database g = [] \<or> gi_max_age_hours g \<le> 0 then ''UNKNOWN''
      else case pe_geo_lookup env (gi_database g) a (gi_max_age_hours g) of
        Inl _ \<Rightarrow> ''UNKNOWN'' | Inr country \<Rightarrow> country)"

definition max_geoip_endpoints :: nat where
  "max_geoip_endpoints = 2"

text \<open>A vote: the address an endpoint saw, its country, and the name of the endpoint.\<close>

definition endpoint_vote :: "probe_env \<Rightarrow> config \<Rightarrow> route \<Rightarrow> geoip_endpoint \<Rightarrow> (addr \<times> string \<times> string) option" where
  "endpoint_vote env c r e =
     (case fetch_text_via_route env c r (ge_url e) of
        Inl _ \<Rightarrow> None
      | Inr body \<Rightarrow>
          (case parse_geoip_endpoint env (ge_provider e) body of
             Inl _ \<Rightarrow> None
           | Inr (a, country) \<Rightarrow> Some (a, country, ge_name e)))"

definition probe_external_ip ::
    "probe_env \<Rightarrow> config \<Rightarrow> route \<Rightarrow> (string \<times> string \<times> string list) result" where
  "probe_external_ip env c r =
     (let endpoints = gi_endpoints (cfg_geoip c) in
      if endpoints = [] then Inl ''egress_country_sources_not_configured''
      else if max_geoip_endpoints < length endpoints
      then Inl (''egress_country_sources_exceed_bound:'' @ nat_dec max_geoip_endpoints)
      else case List.map_filter (endpoint_vote env c r) endpoints of
        [] \<Rightarrow> Inl ''egress_country_sources_unreachable''
      | (a, country, source) # rest \<Rightarrow>
          (let local_country = lookup_country env c a;
               votes = (a, country, source) # rest @
                 (if local_country \<noteq> [] \<and> local_country \<noteq> ''UNKNOWN'' then [(a, local_country, ''local_geoip'')] else [])
           in if length votes < 2 then Inl ''egress_country_consensus_insufficient''
              else if list_ex (\<lambda>(_, cc, _). cc \<noteq> country) votes then Inl ''egress_country_consensus_mismatch''
              else Inr (nl_addr_string (pe_net env) a, country, map (\<lambda>(_, _, s). s) votes)))"

end
