(* ===== verification/Probe_Engine.thy ===== *)
theory Probe_Engine
  imports Probe_Resolve
begin

text \<open>
  The probe engine (\<^verbatim>\<open>internal/probe/probe.go\<close>): one HTTP attempt with the classification
  of its response, the check of one URL over the addresses of its host, and \<^verbatim>\<open>probeRoute\<close>,
  which combines the checks of a service, the agreed exit country and the path proof into the
  result of a route.
\<close>

section \<open>Socket marks\<close>

fun nat_hex :: "nat \<Rightarrow> string" where
  "nat_hex n =
     (let d = (if n mod 16 < 10 then char_of (48 + n mod 16) else char_of (87 + n mod 16)) in
      if n < 16 then [d] else nat_hex (n div 16) @ [d])"

declare nat_hex.simps [simp del]

definition parse_uint32 :: "bool \<Rightarrow> string \<Rightarrow> nat option" where
  "parse_uint32 hex s =
     (if s = [] then None
      else if hex then (if list_all (\<lambda>ch. hex_digit ch \<noteq> None) s \<and> parse_hex s < 2 ^ 32 then Some (parse_hex s) else None)
      else (if list_all is_digit s \<and> parse_dec s < 2 ^ 32 then Some (parse_dec s) else None))"

definition parse_socket_mark :: "string \<Rightarrow> nat option" where
  "parse_socket_mark value =
     (let v = trim_space value in
      if has_prefix v ''0x'' \<or> has_prefix v ''0X'' then parse_uint32 True (drop 2 v) else parse_uint32 False v)"

definition format_socket_mark :: "nat \<Rightarrow> string" where
  "format_socket_mark n = (if n = 0 then [] else ''0x'' @ nat_hex n)"

definition is_system_default_route :: "route \<Rightarrow> bool" where
  "is_system_default_route r \<longleftrightarrow> rt_type r = ''direct'' \<and> rt_tag r = ''system-default'' \<and>
     rt_adapter_mode r = ''system_default'' \<and> \<not> rt_requires_adapter r"

text \<open>Whether a mark is set on the sockets of the route; Linux is assumed.\<close>

definition installs_route_socket_mark :: "config \<Rightarrow> route \<Rightarrow> bool" where
  "installs_route_socket_mark c r =
     (if cfg_target c = ''test'' \<or> rt_socks5 r \<noteq> [] \<or> is_system_default_route r then False
      else let value = (if rt_mark r \<noteq> [] then rt_mark r
                        else if rt_type r \<in> {''direct'', ''smart_dns''} then ow_direct_mark (cfg_openwrt c)
                        else if rt_type r = ''zapret'' then ow_zapret_mark (cfg_openwrt c)
                        else [])
        in case parse_socket_mark value of None \<Rightarrow> False | Some mark \<Rightarrow> mark \<noteq> 0)"

definition exercise_drop_probe :: "probe_env \<Rightarrow> config \<Rightarrow> route \<Rightarrow> error option" where
  "exercise_drop_probe env c r =
     (if cfg_target c = ''test'' then None
      else case parse_socket_mark (if rt_mark r = [] then ow_drop_mark (cfg_openwrt c) else rt_mark r) of
        None \<Rightarrow> Some ''drop_probe_mark_invalid''
      | Some mark \<Rightarrow>
          (if mark = 0 then Some ''drop_probe_mark_invalid''
           else case pe_drop env r mark of
             (observed, dial_error) \<Rightarrow>
               (if observed \<noteq> mark
                then (case dial_error of
                        Some e \<Rightarrow> Some (''drop_probe_socket_mark_failed: '' @ e)
                      | None \<Rightarrow> Some ''drop_probe_socket_mark_mismatch'')
                else None)))"

section \<open>Classification of a response\<close>

definition contains_any :: "string \<Rightarrow> string list \<Rightarrow> bool" where
  "contains_any body markers =
     (let low = to_lower body in list_ex (\<lambda>m. m \<noteq> [] \<and> contains low (to_lower m)) markers)"

definition code_allowed :: "int \<Rightarrow> int list \<Rightarrow> bool" where
  "code_allowed code allowed = list_ex (\<lambda>c. code = c) allowed"

definition body_allowed :: "string \<Rightarrow> string \<Rightarrow> string list \<Rightarrow> bool" where
  "body_allowed body mode markers =
     (if mode = ''empty'' then trim_space body = []
      else if mode = ''optional'' \<or> mode = ''ignored'' then True
      else if mode = ''required'' then
        (if body = [] then False else if markers = [] then True else contains_any body markers)
      else False)"

definition default_regional_markers :: "string list" where
  "default_regional_markers = [''not available in your country'', ''not available in your region'',
     ''unsupported country'', ''country is not supported'', ''geo-blocked'']"

definition default_block_markers :: "string list" where
  "default_block_markers = [''access to the requested resource is restricted'', ''roskomnadzor'', ''tspu'']"

definition classify_transport_error :: "string \<Rightarrow> string" where
  "classify_transport_error text =
     (let msg = to_lower text in
      if contains msg ''no such host'' then ''dns_failed''
      else if contains msg ''tls'' then ''tls_failed''
      else if contains msg ''connection reset'' then ''connection_reset''
      else if contains msg ''timeout'' \<or> contains msg ''deadline'' then ''timeout''
      else ''transport_failed'')"

text \<open>The flags and the verdict of a response: regional, suspected TSPU, authentication required, WAF or rate limit, expected code,
  content, status and reason.\<close>

record verdict =
  vd_regional :: bool
  vd_tspu :: bool
  vd_auth :: bool
  vd_waf :: bool
  vd_expected :: bool
  vd_content :: bool
  vd_status :: string
  vd_reason :: string

definition classify_response :: "probe_check \<Rightarrow> int \<Rightarrow> string \<Rightarrow> verdict" where
  "classify_response check code body =
     (let expected = code_allowed code (pc_expected_codes check);
          content = body_allowed body (pc_body_mode check) (pc_success_markers check);
          regional = contains_any body (pc_regional_block_markers check) \<or>
                     contains_any body default_regional_markers;
          tspu = code = 451 \<or> contains_any body (pc_block_markers check) \<or>
                 contains_any body default_block_markers;
          auth = code = 401;
          waf = (code = 403 \<or> code = 429) \<and> \<not> regional;
          verdict = (\<lambda>a status reason. \<lparr>vd_regional = regional, vd_tspu = tspu, vd_auth = a, vd_waf = waf,
                       vd_expected = expected, vd_content = content, vd_status = status, vd_reason = reason\<rparr>)
      in if regional then verdict auth ''REGION_BLOCK'' ''regional_block_marker''
         else if tspu then verdict auth ''SUSPECTED_TSPU'' ''tspu_or_block_marker''
         else if auth then
           (if pc_allow_unauthenticated check \<and> expected \<and> content then verdict False ''OK'' []
            else verdict auth ''AUTH_REQUIRED'' ''authentication_required'')
         else if waf then verdict auth ''WAF_OR_RATE_LIMIT'' ''waf_or_rate_limit''
         else if \<not> expected then verdict auth ''FAIL'' (''unexpected_http_'' @ int_dec code)
         else if \<not> content then verdict auth ''FAIL'' ''content_check_failed''
         else verdict auth ''OK'' [])"

section \<open>One attempt\<close>

record attempt_result =
  at_status :: string
  at_connected_ip :: string
  at_connected_port :: int
  at_local_ip :: string
  at_address_family :: string
  at_transport :: string
  at_socket_mark :: string
  at_host_preserved :: bool
  at_sni_preserved :: bool
  at_transport_ok :: bool
  at_tls_ok :: bool
  at_http_ok :: bool
  at_content_ok :: bool
  at_expected_code_matched :: bool
  at_http_code :: int
  at_redirects :: int
  at_regional_block :: bool
  at_suspected_tspu :: bool
  at_authentication_required :: bool
  at_waf_or_rate_limit :: bool
  at_response_received :: bool
  at_reason :: string
  at_route_latency_ms :: int
  at_route_latency_available :: bool

definition zero_attempt :: attempt_result where
  "zero_attempt = \<lparr>at_status = [], at_connected_ip = [], at_connected_port = 0, at_local_ip = [],
     at_address_family = [], at_transport = [], at_socket_mark = [], at_host_preserved = False,
     at_sni_preserved = False, at_transport_ok = False, at_tls_ok = False, at_http_ok = False,
     at_content_ok = False, at_expected_code_matched = False, at_http_code = 0, at_redirects = 0,
     at_regional_block = False, at_suspected_tspu = False, at_authentication_required = False,
     at_waf_or_rate_limit = False, at_response_received = False, at_reason = [],
     at_route_latency_ms = 0, at_route_latency_available = False\<rparr>"

definition family_of :: "addr \<Rightarrow> string" where
  "family_of a = (if is4 a then ''ipv4'' else if is6 a then ''ipv6'' else [])"

text \<open>\<^verbatim>\<open>strconv.Atoi\<close> of a port, whose error is ignored: 0 for what is not a number.\<close>

definition port_number :: "string \<Rightarrow> int" where
  "port_number s =
     (if s \<noteq> [] \<and> list_all is_digit s then min (int (parse_dec s)) (2 ^ 63 - 1) else 0)"

text \<open>What the closure \<^verbatim>\<open>DialContext\<close> leaves in its variables.\<close>

definition dialled :: "probe_env \<Rightarrow> config \<Rightarrow> route \<Rightarrow> addr \<Rightarrow> dial_outcome \<Rightarrow> attempt_result" where
  "dialled env c r ip outcome =
     (if outcome = Dial_none \<or> \<not> allow_private_probe c \<and> is_unsafe_addr ip then zero_attempt
      else let text = nl_addr_string (pe_net env) ip;
               a = zero_attempt\<lparr>at_connected_ip := text,
                     at_transport := (if rt_socks5 r \<noteq> [] then ''socks5'' else ''direct'')\<rparr>
        in case outcome of
             Dial_ok local_addr remote_addr \<Rightarrow>
               (let b = a\<lparr>at_local_ip := (case local_addr of Some l \<Rightarrow> l | None \<Rightarrow> [])\<rparr> in
                if rt_socks5 r \<noteq> [] then b\<lparr>at_connected_ip := text, at_address_family := family_of ip\<rparr>
                else case remote_addr of
                  None \<Rightarrow> b
                | Some remote \<Rightarrow> b\<lparr>at_connected_ip := remote,
                    at_address_family := (case nl_parse_addr (pe_net env) remote of Some ra \<Rightarrow> family_of ra | None \<Rightarrow> [])\<rparr>)
           | _ \<Rightarrow> a)"

definition run_http_attempt ::
    "probe_env \<Rightarrow> config \<Rightarrow> route \<Rightarrow> probe_check \<Rightarrow> url \<Rightarrow> string \<Rightarrow> addr \<Rightarrow> http_exchange \<Rightarrow> attempt_result" where
  "run_http_attempt env c r check u port ip hx =
     (if \<not> hx_request_ok hx then zero_attempt\<lparr>at_status := ''FAIL'', at_reason := ''request_create_failed''\<rparr>
      else
        let d = dialled env c r ip (hx_dial hx);
            mark = format_socket_mark (if installs_route_socket_mark c r then hx_observed_mark hx else 0);
            (latency, available) = measured_route_latency (hx_elapsed hx);
            d1 = d\<lparr>at_connected_port := port_number port, at_socket_mark := mark,
                   at_route_latency_ms := latency, at_route_latency_available := available\<rparr>
        in case hx_outcome hx of
             Http_error text \<Rightarrow> d1\<lparr>at_status := ''FAIL'', at_reason := classify_transport_error text\<rparr>
           | Http_response code raw tls \<Rightarrow>
               (let v = classify_response check code (take (512 * 1024) raw) in
                d1\<lparr>at_status := vd_status v, at_host_preserved := True, at_sni_preserved := True,
                   at_transport_ok := True, at_tls_ok := (ur_scheme u = ''https'' \<and> tls),
                   at_http_ok := vd_expected v, at_content_ok := vd_content v,
                   at_expected_code_matched := vd_expected v, at_http_code := code,
                   at_redirects := hx_redirects hx, at_regional_block := vd_regional v,
                   at_suspected_tspu := vd_tspu v, at_authentication_required := vd_auth v,
                   at_waf_or_rate_limit := vd_waf v, at_response_received := True,
                   at_reason := vd_reason v\<rparr>))"

text \<open>
  The redirect policy that the attempt installs in its client. The client applies it before every
  further request of the exchange, \<open>seen\<close> requests into it; where the exchange ends is part of
  \<open>http_exchange\<close>.
\<close>

datatype redirect_verdict = Follow | Use_last_response | Refuse string

definition check_redirect :: "net_lib \<Rightarrow> config \<Rightarrow> string \<Rightarrow> url \<Rightarrow> nat \<Rightarrow> redirect_verdict" where
  "check_redirect lib c host u seen =
     (if 5 \<le> seen then Use_last_response
      else if ur_scheme u \<noteq> ''http'' \<and> ur_scheme u \<noteq> ''https'' then Refuse ''redirect_scheme_blocked''
      else if \<not> equal_fold (ur_hostname u) host then Refuse ''redirect_cross_host_blocked''
      else case nl_parse_addr lib (ur_hostname u) of
        Some a \<Rightarrow> (if \<not> allow_private_probe c \<and> is_unsafe_addr a then Refuse ''redirect_private_address_blocked''
                   else Follow)
      | None \<Rightarrow> Follow)"

lemma check_redirect_Follow:
  assumes "check_redirect lib c host u seen = Follow"
  shows "seen < 5" "equal_fold (ur_hostname u) host" "ur_scheme u \<in> {''http'', ''https''}"
    "nl_parse_addr lib (ur_hostname u) = Some a \<Longrightarrow> \<not> is_unsafe_addr a \<or> allow_private_probe c"
  using assms by (auto simp: check_redirect_def split: if_splits option.splits)

section \<open>One check\<close>

definition new_check_result :: "probe_check \<Rightarrow> check_result" where
  "new_check_result check = \<lparr>ck_name = pc_name check, ck_url = pc_url check, ck_required = pc_required check,
     ck_status = ''FAIL'', ck_dns_ok = False, ck_dns_resolver = [], ck_dns_protocol = [],
     ck_resolved_ips = [], ck_connected_ip = [], ck_connected_port = 0, ck_local_ip = [],
     ck_address_family = [], ck_transport = [], ck_socket_mark = [], ck_host_preserved = False,
     ck_sni_preserved = False, ck_transport_ok = False, ck_tls_ok = False, ck_http_ok = False,
     ck_content_ok = False, ck_expected_code_matched = False, ck_http_code = 0, ck_redirects = 0,
     ck_regional_block = False, ck_suspected_tspu = False, ck_authentication_required = False,
     ck_waf_or_rate_limit = False, ck_latency_ms = 0, ck_route_latency_ms = 0,
     ck_route_latency_available = False, ck_end_to_end_latency_ms = 0,
     ck_end_to_end_latency_available = False, ck_verification_duration_ms = 0, ck_reason = []\<rparr>"

definition keep_nonempty :: "string \<Rightarrow> string \<Rightarrow> string" where
  "keep_nonempty new old = (if new \<noteq> [] then new else old)"

text \<open>What an attempt leaves in the result of its check, before the latencies.\<close>

definition absorb_attempt :: "check_result \<Rightarrow> attempt_result \<Rightarrow> check_result" where
  "absorb_attempt res a =
     res\<lparr>ck_connected_ip := keep_nonempty (at_connected_ip a) (ck_connected_ip res),
         ck_connected_port := (if at_connected_ip a \<noteq> [] then at_connected_port a else ck_connected_port res),
         ck_local_ip := keep_nonempty (at_local_ip a) (ck_local_ip res),
         ck_address_family := keep_nonempty (at_address_family a) (ck_address_family res),
         ck_transport := keep_nonempty (at_transport a) (ck_transport res),
         ck_socket_mark := keep_nonempty (at_socket_mark a) (ck_socket_mark res),
         ck_host_preserved := (ck_host_preserved res \<or> at_host_preserved a),
         ck_sni_preserved := (ck_sni_preserved res \<or> at_sni_preserved a),
         ck_transport_ok := (ck_transport_ok res \<or> at_transport_ok a),
         ck_tls_ok := (ck_tls_ok res \<or> at_tls_ok a),
         ck_http_ok := (ck_http_ok res \<or> at_http_ok a),
         ck_content_ok := (ck_content_ok res \<or> at_content_ok a),
         ck_expected_code_matched := at_expected_code_matched a,
         ck_http_code := at_http_code a,
         ck_redirects := at_redirects a,
         ck_regional_block := at_regional_block a,
         ck_suspected_tspu := at_suspected_tspu a,
         ck_authentication_required := at_authentication_required a,
         ck_waf_or_rate_limit := at_waf_or_rate_limit a\<rparr>"

definition absorb_latency ::
    "int \<times> bool \<Rightarrow> duration \<Rightarrow> check_result \<Rightarrow> attempt_result \<Rightarrow> check_result" where
  "absorb_latency dns elapsed res a =
     (let res1 =
        (if at_response_received a \<and> snd dns \<and> snd (measured_route_latency elapsed) then
           (let (e2e, ok) = compose_end_to_end_latency (fst dns) (fst (measured_route_latency elapsed)) in
            if ok \<and> (\<not> ck_end_to_end_latency_available res \<or> e2e < ck_end_to_end_latency_ms res)
            then res\<lparr>ck_end_to_end_latency_ms := e2e, ck_end_to_end_latency_available := True\<rparr> else res)
         else res)
      in if at_route_latency_available a \<and>
            (\<not> ck_route_latency_available res1 \<or> at_route_latency_ms a < ck_route_latency_ms res1)
         then res1\<lparr>ck_route_latency_ms := at_route_latency_ms a, ck_route_latency_available := True,
                   ck_latency_ms := at_route_latency_ms a\<rparr>
         else res1)"

definition final_attempt_status :: "string \<Rightarrow> bool" where
  "final_attempt_status st \<longleftrightarrow>
     st \<in> {''OK'', ''REGION_BLOCK'', ''SUSPECTED_TSPU'', ''AUTH_REQUIRED'', ''WAF_OR_RATE_LIMIT''}"

text \<open>
  The loop over the addresses: the \<open>i\<close>-th check, from its \<open>j\<close>-th target on; the last component is
  the last reason, the middle one whether the loop returned.
\<close>

fun probe_targets ::
    "probe_env \<Rightarrow> config \<Rightarrow> route \<Rightarrow> probe_check \<Rightarrow> url \<Rightarrow> string \<Rightarrow> int \<times> bool \<Rightarrow> nat \<Rightarrow> nat \<Rightarrow>
     addr list \<Rightarrow> check_result \<Rightarrow> string \<Rightarrow> check_result \<times> bool \<times> string" where
  "probe_targets env c r check u port dns i j [] res reason = (res, False, reason)"
| "probe_targets env c r check u port dns i j (ip # ips) res reason =
     (if \<not> allow_private_probe c \<and> is_unsafe_addr ip
      then probe_targets env c r check u port dns i (Suc j) ips res ''ssrf_private_address_blocked''
      else
        let a = run_http_attempt env c r check u port ip (pe_http env i j r ip);
            res1 = absorb_latency dns (pe_attempt_elapsed env i j) (absorb_attempt res a) a;
            st = to_upper (trim_space (at_status a))
        in if final_attempt_status st
           then (res1\<lparr>ck_status := st, ck_reason := at_reason a\<rparr>, True, at_reason a)
           else probe_targets env c r check u port dns i (Suc j) ips res1 (at_reason a))"

definition finalize_check_result :: "probe_env \<Rightarrow> nat \<Rightarrow> check_result \<Rightarrow> check_result" where
  "finalize_check_result env i res =
     res\<lparr>ck_verification_duration_ms := elapsed_milliseconds (pe_check_elapsed env i)\<rparr>"

definition probe_one ::
    "probe_env \<Rightarrow> config \<Rightarrow> route \<Rightarrow> nat \<Rightarrow> probe_check \<Rightarrow> string \<Rightarrow> check_result" where
  "probe_one env c r i check family =
     (let res = new_check_result check;
          fail = (\<lambda>res reason. finalize_check_result env i (res\<lparr>ck_reason := reason\<rparr>)) in
      case nl_parse_url (pe_net env) (pc_url check) of
        None \<Rightarrow> fail res ''invalid_url''
      | Some u \<Rightarrow>
          (let port = (if ur_port u = [] then (if ur_scheme u = ''https'' then ''443'' else ''80'') else ur_port u) in
           case resolve_for_route env c r (ur_hostname u) of
             Inl e \<Rightarrow> fail res (''dns_failed:'' @ e)
           | Inr (ips, resolver, protocol) \<Rightarrow>
               (let dns = measured_route_latency (pe_resolve_elapsed env i);
                    res1 = res\<lparr>ck_dns_ok := True, ck_dns_resolver := resolver, ck_dns_protocol := protocol,
                               ck_resolved_ips := map (nl_addr_string (pe_net env)) ips\<rparr>
                in if rt_type r = ''smart_dns'' \<and> \<not> allow_private_probe c \<and> list_ex is_unsafe_addr ips
                   then fail res1 ''smart_dns_unsafe_answer''
                   else if ips = [] then fail res1 ''dns_empty''
                   else if route_probe_targets ips family = [] then fail res1 ''dns_address_family_unavailable''
                   else case probe_targets env c r check u port dns i 0 (route_probe_targets ips family) res1 [] of
                     (res2, True, _) \<Rightarrow> finalize_check_result env i res2
                   | (res2, False, reason) \<Rightarrow>
                       (let res3 = finalize_check_result env i res2 in
                        if reason \<noteq> [] then res3\<lparr>ck_reason := reason\<rparr> else res3))))"

section \<open>The result of a route\<close>

definition max_probe_urls_per_service :: nat where
  "max_probe_urls_per_service = 4"

definition finalize_unverified_result :: "probe_env \<Rightarrow> route_result \<Rightarrow> route_result" where
  "finalize_unverified_result env res =
     res\<lparr>rr_verification_duration_ms := elapsed_milliseconds (pe_elapsed env),
         rr_latency_ms := (if rr_route_latency_available res then rr_route_latency_ms res else 0)\<rparr>"

definition merge_check :: "route_result \<Rightarrow> check_result \<Rightarrow> route_result" where
  "merge_check res ck =
     (let res1 = res\<lparr>rr_checks := rr_checks res @ [ck], rr_dns_ok := (rr_dns_ok res \<or> ck_dns_ok ck),
            rr_transport_ok := (rr_transport_ok res \<or> ck_transport_ok ck),
            rr_tls_ok := (rr_tls_ok res \<or> ck_tls_ok ck), rr_http_ok := (rr_http_ok res \<or> ck_http_ok ck),
            rr_content_ok := (rr_content_ok res \<or> ck_content_ok ck),
            rr_regional_block := (rr_regional_block res \<or> ck_regional_block ck),
            rr_suspected_tspu := (rr_suspected_tspu res \<or> ck_suspected_tspu ck)\<rparr>
      in if ck_route_latency_available ck \<and>
            (\<not> rr_route_latency_available res1 \<or> ck_route_latency_ms ck < rr_route_latency_ms res1)
         then res1\<lparr>rr_route_latency_ms := ck_route_latency_ms ck, rr_route_latency_available := True\<rparr>
         else res1)"

definition run_checks ::
    "probe_env \<Rightarrow> config \<Rightarrow> route \<Rightarrow> string \<Rightarrow> probe_check list \<Rightarrow> route_result \<Rightarrow> route_result" where
  "run_checks env c r family checks res =
     (let res1 = foldl (\<lambda>acc (i, check). merge_check acc (probe_one env c r i check family)) res
                   (List.enumerate 0 checks)
      in res1\<lparr>rr_latency_ms := rr_route_latency_ms res1\<rparr>)"

definition probes_egress :: "config \<Rightarrow> service \<Rightarrow> route \<Rightarrow> bool" where
  "probes_egress c svc r \<longleftrightarrow> rt_external_ip_probe r \<or> rt_type r = ''vless'' \<or> sv_require_non_ru_egress svc \<or>
     cfg_target c \<noteq> ''test'' \<and> rt_type r \<in> {''direct'', ''zapret'', ''external_socks''}"

text \<open>\<open>Some\<close> a result is one the code hands to the path proof at once.\<close>

definition judge_egress ::
    "probe_env \<Rightarrow> config \<Rightarrow> service \<Rightarrow> route \<Rightarrow> route_result \<Rightarrow> route_result \<times> bool" where
  "judge_egress env c svc r res =
     (if \<not> probes_egress c svc r then (res, False)
      else
        let probed = probe_external_ip env c r;
            country = (case probed of Inl _ \<Rightarrow> [] | Inr (_, cc, _) \<Rightarrow> cc);
            res1 = (case probed of
                Inr (ip, cc, sources) \<Rightarrow>
                  (if ip \<noteq> [] then res\<lparr>rr_external_ip_hash := pe_hash_ip env ip, rr_external_country := cc,
                                     rr_external_country_sources := sources, rr_egress_consensus := True\<rparr>
                   else res)
              | Inl e \<Rightarrow> res\<lparr>rr_egress_reason := e\<rparr>)
        in if sv_require_non_ru_egress svc \<and> rt_type r \<noteq> ''drop'' then
             (if country = ''RU''
              then (res1\<lparr>rr_application_status := ''RU_EXIT'', rr_status := ''RU_EXIT'',
                         rr_reason := Some ''ru_exit_for_geo_locked''\<rparr>, True)
              else if country = [] \<or> country = ''UNKNOWN''
              then (res1\<lparr>rr_application_status := ''FAIL'', rr_status := ''FAIL'',
                         rr_reason := Some (if rr_egress_reason res1 \<noteq> [] then rr_egress_reason res1
                                            else ''unknown_exit_country_for_geo_locked'')\<rparr>, True)
              else (res1, False))
           else (res1, False))"

definition check_ok :: "check_result \<Rightarrow> bool" where
  "check_ok ck \<longleftrightarrow> to_upper (trim_space (ck_status ck)) = ''OK''"

definition check_status_is :: "string \<Rightarrow> check_result \<Rightarrow> bool" where
  "check_status_is st ck \<longleftrightarrow> to_upper (trim_space (ck_status ck)) = st"

definition first_reason :: "check_result list \<Rightarrow> string" where
  "first_reason cks =
     first_string (filter (\<lambda>s. s \<noteq> []) (map ck_reason (filter (\<lambda>ck. ck_required ck \<and> \<not> check_ok ck) cks)))"

definition judge_checks :: "route_result \<Rightarrow> route_result" where
  "judge_checks res =
     (let cks = rr_checks res;
          required = filter ck_required cks;
          auth = list_ex (\<lambda>ck. ck_authentication_required ck \<or> check_status_is ''AUTH_REQUIRED'' ck) cks;
          waf = list_ex (\<lambda>ck. ck_waf_or_rate_limit ck \<or> check_status_is ''WAF_OR_RATE_LIMIT'' ck) cks;
          required_ok = list_all check_ok required;
          optional_ok = list_ex (\<lambda>ck. \<not> ck_required ck \<and> check_ok ck) cks;
          e2e_available = list_all ck_end_to_end_latency_available required;
          e2e_total = foldl (\<lambda>acc ck. wrap64 (acc + ck_end_to_end_latency_ms ck)) 0
                        (filter ck_end_to_end_latency_available required)
      in if rr_regional_block res
         then res\<lparr>rr_application_status := ''REGION_BLOCK'', rr_status := ''REGION_BLOCK'',
                  rr_reason := Some ''regional_block_marker''\<rparr>
         else if rr_suspected_tspu res
         then res\<lparr>rr_application_status := ''SUSPECTED_TSPU'', rr_status := ''SUSPECTED_TSPU'',
                  rr_reason := Some ''tspu_or_block_marker''\<rparr>
         else let res1 = res\<lparr>rr_authentication_required := auth, rr_waf_or_rate_limit := waf\<rparr> in
           if auth
           then res1\<lparr>rr_application_status := ''AUTH_REQUIRED'', rr_status := ''AUTH_REQUIRED'',
                     rr_reason := Some ''authentication_required''\<rparr>
           else if waf
           then res1\<lparr>rr_application_status := ''WAF_OR_RATE_LIMIT'', rr_status := ''WAF_OR_RATE_LIMIT'',
                     rr_reason := Some ''waf_or_rate_limit''\<rparr>
           else if required \<noteq> [] \<and> required_ok
           then (if e2e_available
                 then res1\<lparr>rr_service_ok := True, rr_end_to_end_latency_ms := e2e_total,
                           rr_end_to_end_latency_available := (0 < e2e_total),
                           rr_application_status := ''OK'', rr_status := ''OK''\<rparr>
                 else res1\<lparr>rr_service_ok := True, rr_application_status := ''OK'', rr_status := ''OK''\<rparr>)
           else if optional_ok
           then res1\<lparr>rr_application_status := ''DEGRADED'', rr_status := ''DEGRADED'',
                     rr_reason := Some ''required_checks_failed_optional_ok''\<rparr>
           else res1\<lparr>rr_application_status := ''FAIL'',
                     rr_reason := Some (if first_reason cks = [] then ''no_required_probe_succeeded'' else first_reason cks)\<rparr>)"

definition start_result :: "string \<Rightarrow> string \<Rightarrow> route \<Rightarrow> route_result" where
  "start_result domain name r = zero_result\<lparr>rr_domain := domain, rr_service := name, rr_route := rt_tag r,
     rr_route_type := rt_type r, rr_route_priority := rt_priority r, rr_status := ''FAIL''\<rparr>"

definition probe_route_family ::
    "probe_env \<Rightarrow> config \<Rightarrow> string \<Rightarrow> string \<Rightarrow> service \<Rightarrow> route \<Rightarrow> string \<Rightarrow> route_result" where
  "probe_route_family env c domain name svc r family =
     (let res = start_result domain name r;
          finish = (\<lambda>res session. finish_with_path_proof (pe_verify env) r res (pe_started env)
                      (pe_completed env) (pe_elapsed env) session)
      in if \<not> route_enabled r
         then finalize_unverified_result env (res\<lparr>rr_status := ''NOT_CONFIGURED'',
                rr_application_status := ''NOT_RUN'', rr_reason_code := ''route_not_configured'',
                rr_reason := Some ''route_not_configured''\<rparr>)
         else if max_probe_urls_per_service < length (sv_probe_urls svc)
         then finalize_unverified_result env (res\<lparr>rr_application_status := ''NOT_RUN'',
                rr_failure_stage := ''preflight'', rr_reason_code := ''probe_urls_exceed_bound'',
                rr_reason := Some ''probe_urls_exceed_bound''\<rparr>)
         else
           let session = begin_path_proof (pe_begin env) domain r (pe_started env) in
           if rt_type r = ''drop'' then
             (let session1 = (if ps_begin_error session = []
                              then (case exercise_drop_probe env c r of
                                      None \<Rightarrow> session | Some e \<Rightarrow> session\<lparr>ps_begin_error := e\<rparr>)
                              else session)
              in finish (res\<lparr>rr_application_status := ''DROP''\<rparr>) session1)
           else if family \<notin> {[], ''ipv4'', ''ipv6''}
           then finalize_unverified_result env (res\<lparr>rr_application_status := ''NOT_RUN'',
                  rr_reason_code := ''unsupported_address_family'',
                  rr_reason := Some ''unsupported_address_family''\<rparr>)
           else case judge_egress env c svc r (run_checks env c r family (sv_probe_urls svc) res) of
             (res1, True) \<Rightarrow> finish res1 session
           | (res1, False) \<Rightarrow> finish (judge_checks res1) session)"

definition probe_route ::
    "probe_env \<Rightarrow> config \<Rightarrow> string \<Rightarrow> string \<Rightarrow> service \<Rightarrow> route \<Rightarrow> route_result" where
  "probe_route env c domain name svc r = probe_route_family env c domain name svc r []"

section \<open>What the steps keep\<close>

lemma status_literals [simp]:
  "\<not> equal_fold ''FAIL'' ''OK''" "\<not> equal_fold ''RU_EXIT'' ''OK''"
  "\<not> equal_fold ''REGION_BLOCK'' ''OK''" "\<not> equal_fold ''SUSPECTED_TSPU'' ''OK''"
  "\<not> equal_fold ''AUTH_REQUIRED'' ''OK''" "\<not> equal_fold ''WAF_OR_RATE_LIMIT'' ''OK''"
  "\<not> equal_fold ''DEGRADED'' ''OK''" "\<not> equal_fold ''NOT_CONFIGURED'' ''OK''"
proof -
  have "list_all (\<lambda>s. \<not> equal_fold s ''OK'') [''FAIL'', ''RU_EXIT'', ''REGION_BLOCK'', ''SUSPECTED_TSPU'',
    ''AUTH_REQUIRED'', ''WAF_OR_RATE_LIMIT'', ''DEGRADED'', ''NOT_CONFIGURED'']" by code_simp
  then show "\<not> equal_fold ''FAIL'' ''OK''" "\<not> equal_fold ''RU_EXIT'' ''OK''"
    "\<not> equal_fold ''REGION_BLOCK'' ''OK''" "\<not> equal_fold ''SUSPECTED_TSPU'' ''OK''"
    "\<not> equal_fold ''AUTH_REQUIRED'' ''OK''" "\<not> equal_fold ''WAF_OR_RATE_LIMIT'' ''OK''"
    "\<not> equal_fold ''DEGRADED'' ''OK''" "\<not> equal_fold ''NOT_CONFIGURED'' ''OK''"
    by simp_all
qed

lemma drop_literals [simp]:
  "equal_fold (trim_space ''DROP'') ''DROP''"
  "\<not> equal_fold (trim_space ''OK'') ''DROP''" "\<not> equal_fold (trim_space ''FAIL'') ''DROP''"
  "\<not> equal_fold (trim_space ''RU_EXIT'') ''DROP''" "\<not> equal_fold (trim_space ''REGION_BLOCK'') ''DROP''"
  "\<not> equal_fold (trim_space ''SUSPECTED_TSPU'') ''DROP''" "\<not> equal_fold (trim_space ''AUTH_REQUIRED'') ''DROP''"
  "\<not> equal_fold (trim_space ''WAF_OR_RATE_LIMIT'') ''DROP''" "\<not> equal_fold (trim_space ''DEGRADED'') ''DROP''"
proof -
  have "list_all (\<lambda>s. \<not> equal_fold (trim_space s) ''DROP'') [''OK'', ''FAIL'', ''RU_EXIT'', ''REGION_BLOCK'',
    ''SUSPECTED_TSPU'', ''AUTH_REQUIRED'', ''WAF_OR_RATE_LIMIT'', ''DEGRADED''] \<and>
    equal_fold (trim_space ''DROP'') ''DROP''" by code_simp
  then show "equal_fold (trim_space ''DROP'') ''DROP''"
    "\<not> equal_fold (trim_space ''OK'') ''DROP''" "\<not> equal_fold (trim_space ''FAIL'') ''DROP''"
    "\<not> equal_fold (trim_space ''RU_EXIT'') ''DROP''" "\<not> equal_fold (trim_space ''REGION_BLOCK'') ''DROP''"
    "\<not> equal_fold (trim_space ''SUSPECTED_TSPU'') ''DROP''" "\<not> equal_fold (trim_space ''AUTH_REQUIRED'') ''DROP''"
    "\<not> equal_fold (trim_space ''WAF_OR_RATE_LIMIT'') ''DROP''" "\<not> equal_fold (trim_space ''DEGRADED'') ''DROP''"
    by simp_all
qed

text \<open>The part of a result that only the judges and the path proof write.\<close>

definition verdict_part :: "route_result \<Rightarrow> (string \<times> string \<times> string \<times> string \<times> string) \<times> bool list \<times> string" where
  "verdict_part res = ((rr_domain res, rr_route res, rr_route_type res, rr_status res, rr_application_status res),
     [rr_path_verified res, rr_service_ok res, rr_simulation res, rr_authentication_required res,
      rr_waf_or_rate_limit res, rr_egress_consensus res], rr_external_country res)"

lemma verdict_part_merge [simp]: "verdict_part (merge_check res ck) = verdict_part res"
  by (simp add: merge_check_def verdict_part_def Let_def)

lemma rr_checks_merge [simp]: "rr_checks (merge_check res ck) = rr_checks res @ [ck]"
  by (simp add: merge_check_def Let_def)

lemma run_checks_fold:
  "verdict_part (foldl (\<lambda>acc (i, check). merge_check acc (probe_one env c r i check family)) res ics) = verdict_part res \<and>
   rr_checks (foldl (\<lambda>acc (i, check). merge_check acc (probe_one env c r i check family)) res ics) =
     rr_checks res @ map (\<lambda>(i, check). probe_one env c r i check family) ics"
  by (induction ics arbitrary: res) (simp_all split: prod.splits)

lemma run_checks_checks:
  "rr_checks (run_checks env c r family checks res) =
     rr_checks res @ map (\<lambda>(i, check). probe_one env c r i check family) (List.enumerate 0 checks)"
  using run_checks_fold [of env c r family res "List.enumerate 0 checks"]
  by (simp add: run_checks_def Let_def)

lemma verdict_part_run_checks [simp]:
  "verdict_part (run_checks env c r family checks res) = verdict_part res"
  using run_checks_fold [of env c r family res "List.enumerate 0 checks"]
  by (simp add: run_checks_def verdict_part_def Let_def)

lemma verdict_partD:
  assumes "verdict_part a = verdict_part b"
  shows "rr_domain a = rr_domain b" "rr_route a = rr_route b" "rr_route_type a = rr_route_type b"
    "rr_status a = rr_status b" "rr_application_status a = rr_application_status b"
    "rr_path_verified a = rr_path_verified b" "rr_service_ok a = rr_service_ok b"
    "rr_simulation a = rr_simulation b" "rr_egress_consensus a = rr_egress_consensus b"
    "rr_external_country a = rr_external_country b"
  using assms by (simp_all add: verdict_part_def)

lemmas run_checks_simps [simp] = verdict_partD [OF verdict_part_run_checks]

lemma judge_egress_simps [simp]:
  "rr_route (fst (judge_egress env c svc r res)) = rr_route res"
  "rr_route_type (fst (judge_egress env c svc r res)) = rr_route_type res"
  "rr_checks (fst (judge_egress env c svc r res)) = rr_checks res"
  "rr_service_ok (fst (judge_egress env c svc r res)) = rr_service_ok res"
  "rr_simulation (fst (judge_egress env c svc r res)) = rr_simulation res"
  by (auto simp: judge_egress_def Let_def split: sum.splits)

lemma judge_checks_simps [simp]:
  "rr_route (judge_checks res) = rr_route res" "rr_route_type (judge_checks res) = rr_route_type res"
  "rr_checks (judge_checks res) = rr_checks res" "rr_simulation (judge_checks res) = rr_simulation res"
  "rr_external_country (judge_checks res) = rr_external_country res"
  "rr_egress_consensus (judge_checks res) = rr_egress_consensus res"
  by (simp_all add: judge_checks_def Let_def)

lemma with_observation_simps [simp]:
  "rr_route (with_observation res ob d) = rr_route res"
  "rr_route_type (with_observation res ob d) = rr_route_type res"
  "rr_status (with_observation res ob d) = rr_status res"
  "rr_application_status (with_observation res ob d) = rr_application_status res"
  "rr_service_ok (with_observation res ob d) = rr_service_ok res"
  "rr_simulation (with_observation res ob d) = rr_simulation res"
  "rr_checks (with_observation res ob d) = rr_checks res"
  "rr_external_country (with_observation res ob d) = rr_external_country res"
  "rr_egress_consensus (with_observation res ob d) = rr_egress_consensus res"
  by (simp_all add: with_observation_def)

lemma fail_path_proof_simps [simp]:
  "rr_route (fail_path_proof r res stage e) = rr_route res"
  "rr_route_type (fail_path_proof r res stage e) = rr_route_type res"
  "rr_path_verified (fail_path_proof r res stage e) = False"
  "rr_application_status (fail_path_proof r res stage e) = rr_application_status res"
  "rr_simulation (fail_path_proof r res stage e) = rr_simulation res"
  by (simp_all add: fail_path_proof_def Let_def)

lemma accept_path_proof_simps [simp]:
  "rr_route (accept_path_proof res p) = rr_route res"
  "rr_route_type (accept_path_proof res p) = rr_route_type res"
  "rr_checks (accept_path_proof res p) = rr_checks res"
  "rr_path_verified (accept_path_proof res p) = True"
  "rr_adapter_revision (accept_path_proof res p) = pv_adapter_revision p"
  "rr_simulation (accept_path_proof res p) = pv_simulation p"
  "rr_application_status (accept_path_proof res p) = rr_application_status res"
  "rr_external_country (accept_path_proof res p) = rr_external_country res"
  "rr_egress_consensus (accept_path_proof res p) = rr_egress_consensus res"
  "rr_status (accept_path_proof res p) =
     (if equal_fold (trim_space (rr_application_status res)) ''DROP'' then ''OK'' else rr_status res)"
  by (simp_all add: accept_path_proof_def Let_def)

lemma finish_with_path_proof_id [simp]:
  "rr_route (finish_with_path_proof verify r res started completed elapsed session) = rr_route res"
  "rr_route_type (finish_with_path_proof verify r res started completed elapsed session) = rr_route_type res"
  by (simp_all add: finish_with_path_proof_def Let_def split: sum.splits)

lemma finish_with_path_proof_cases:
  obtains e stage where "finish_with_path_proof verify r res started completed elapsed session =
      fail_path_proof r (with_observation res (observation_from_result r res started completed)
        (elapsed_milliseconds elapsed)) stage e"
  | p where "ps_begin_error session = []" "verify r (observation_from_result r res started completed) session = Inr p"
      "finish_with_path_proof verify r res started completed elapsed session =
      accept_path_proof (with_observation res (observation_from_result r res started completed)
        (elapsed_milliseconds elapsed)) p"
proof (cases "ps_begin_error session = []")
  case True
  show ?thesis
  proof (cases "verify r (observation_from_result r res started completed) session")
    case (Inl e)
    show ?thesis by (rule that(1) [of "''path_evidence''" e]) (simp add: finish_with_path_proof_def True Inl Let_def)
  next
    case (Inr p)
    show ?thesis by (rule that(2) [OF True Inr]) (simp add: finish_with_path_proof_def True Inr Let_def)
  qed
next
  case False
  show ?thesis
    by (rule that(1) [of "''path_evidence_begin''" "plain_error (ps_begin_error session)"])
      (simp add: finish_with_path_proof_def False Let_def)
qed

lemma start_result_simps [simp]:
  "rr_route (start_result d n r) = rt_tag r" "rr_route_type (start_result d n r) = rt_type r"
  "rr_status (start_result d n r) = ''FAIL''" "rr_application_status (start_result d n r) = []"
  "rr_checks (start_result d n r) = []" "rr_path_verified (start_result d n r) = False"
  "rr_simulation (start_result d n r) = False" "rr_service_ok (start_result d n r) = False"
  by (simp_all add: start_result_def zero_result_def)

lemma finalize_simps [simp]:
  "rr_route (finalize_unverified_result env res) = rr_route res"
  "rr_route_type (finalize_unverified_result env res) = rr_route_type res"
  "rr_path_verified (finalize_unverified_result env res) = rr_path_verified res"
  "rr_status (finalize_unverified_result env res) = rr_status res"
  "rr_application_status (finalize_unverified_result env res) = rr_application_status res"
  by (simp_all add: finalize_unverified_result_def)

text \<open>A result is labelled with the route it was made for.\<close>

lemma probe_route_honest:
  "rr_route (probe_route_family env c d n svc r family) = rt_tag r"
  "rr_route_type (probe_route_family env c d n svc r family) = rt_type r"
proof -
  let ?je = "judge_egress env c svc r (run_checks env c r family (sv_probe_urls svc) (start_result d n r))"
  obtain res1 b where je: "?je = (res1, b)" by (cases ?je)
  have "rr_route res1 = rt_tag r" "rr_route_type res1 = rt_type r"
    using judge_egress_simps(1,2) [of env c svc r "run_checks env c r family (sv_probe_urls svc) (start_result d n r)"]
    by (simp_all add: je)
  then show "rr_route (probe_route_family env c d n svc r family) = rt_tag r"
    "rr_route_type (probe_route_family env c d n svc r family) = rt_type r"
    by (cases b; simp add: probe_route_family_def Let_def je)+
qed

section \<open>The agreed exit country\<close>

lemma endpoint_vote_Some:
  assumes "endpoint_vote env c r e = Some (a, cc, name)"
  shows "\<not> is_unsafe_addr a" "length cc = 2" "list_all (\<lambda>ch. 65 \<le> byte ch \<and> byte ch \<le> 90) cc" "name = ge_name e"
  using assms
  by (auto simp: endpoint_vote_def parse_geoip_endpoint_def Let_def
      split: sum.splits if_splits option.splits prod.splits bool.splits)

lemma map_filter_mem: "y \<in> set (List.map_filter f xs) \<longleftrightarrow> (\<exists>x \<in> set xs. f x = Some y)"
  by (auto simp: List.map_filter_def intro!: rev_image_eqI)

lemma probe_external_sources:
  "probe_external_ip env c r = Inr (ip, country, sources) \<Longrightarrow> 2 \<le> length sources"
  by (auto simp: probe_external_ip_def Let_def Suc_le_eq split: if_splits list.splits)

end
