(* ===== verification/Policy_Override.thy ===== *)
theory Policy_Override
  imports Config_Model
begin

text \<open>
  Manual policy overrides (\<^verbatim>\<open>internal/policy/policy.go\<close>): the search for the override that
  governs a domain, in the order of the scopes, and the choice of the route it forces.
\<close>

section \<open>Device addresses\<close>

text \<open>
  \<^verbatim>\<open>net.ParseMAC\<close> accepts six pairs of hexadecimal digits separated by colons or by hyphens, or
  three groups of four separated by dots; the longer addresses it also accepts are rejected by
  the caller. \<^verbatim>\<open>HardwareAddr.String\<close> prints lower-case pairs separated by colons.
\<close>

definition hex_word :: "nat \<Rightarrow> string \<Rightarrow> bool" where
  "hex_word n w \<longleftrightarrow> length w = n \<and> list_all (\<lambda>ch. hex_digit ch \<noteq> None) w"

definition mac_pairs :: "char \<Rightarrow> string \<Rightarrow> string list option" where
  "mac_pairs sep s = (let ws = split_on sep s in
     if length ws = 6 \<and> list_all (hex_word 2) ws then Some ws else None)"

definition mac_dotted :: "string \<Rightarrow> string list option" where
  "mac_dotted s = (let ws = split_on CHR ''.'' s in
     if length ws = 3 \<and> list_all (hex_word 4) ws
     then Some (concat (map (\<lambda>w. [take 2 w, drop 2 w]) ws)) else None)"

definition parse_mac :: "string \<Rightarrow> string option" where
  "parse_mac s =
     (case mac_pairs CHR '':'' s of
        Some ws \<Rightarrow> Some (to_lower (join_with '':'' ws))
      | None \<Rightarrow>
          (case mac_pairs CHR ''-'' s of
             Some ws \<Rightarrow> Some (to_lower (join_with '':'' ws))
           | None \<Rightarrow> map_option (\<lambda>ws. to_lower (join_with '':'' ws)) (mac_dotted s)))"

definition normalize_device :: "string \<Rightarrow> string result" where
  "normalize_device v =
     (let s = trim_space v in
      if s = [] then Inr []
      else case parse_mac s of None \<Rightarrow> Inl ''invalid device MAC'' | Some m \<Rightarrow> Inr m)"

section \<open>Match\<close>

record match_result =
  mr_override :: policy_override
  mr_source :: string

definition override_scopes :: "string list" where
  "override_scopes = [''exact_domain'', ''device_domain'', ''device_service'', ''service'', ''category'']"

definition override_matches ::
    "string \<Rightarrow> string \<Rightarrow> string \<Rightarrow> string \<Rightarrow> string \<Rightarrow> policy_override \<Rightarrow> bool" where
  "override_matches scope domain device service category ov =
     (ov_scope ov = scope \<and>
      (if scope = ''exact_domain'' then ov_domain ov = domain
       else if scope = ''device_domain''
       then device \<noteq> [] \<and> ov_device_mac ov = device \<and> ov_domain ov = domain
       else if scope = ''device_service''
       then device \<noteq> [] \<and> ov_device_mac ov = device \<and> ov_service ov = service
       else if scope = ''service'' then service \<noteq> [] \<and> ov_service ov = service
       else if scope = ''category'' then category \<noteq> [] \<and> ov_category ov = category
       else False))"

text \<open>The two nested loops: scopes outside, overrides inside, first hit returned.\<close>

fun match_scopes ::
    "string list \<Rightarrow> policy_override list \<Rightarrow> string \<Rightarrow> string \<Rightarrow> string \<Rightarrow> string \<Rightarrow> match_result option" where
  "match_scopes [] ovs domain device service category = None"
| "match_scopes (scope # scopes) ovs domain device service category =
     (case find (override_matches scope domain device service category) ovs of
        Some ov \<Rightarrow> Some \<lparr>mr_override = ov, mr_source = ''manual_override:'' @ scope\<rparr>
      | None \<Rightarrow> match_scopes scopes ovs domain device service category)"

definition policy_match ::
    "domain_lib \<Rightarrow> config \<Rightarrow> string \<Rightarrow> string \<Rightarrow> string \<Rightarrow> string \<Rightarrow> match_result option result" where
  "policy_match lib c domain device_mac service category =
     (case normalize_domain lib domain of
        Inl e \<Rightarrow> Inl e
      | Inr normalized \<Rightarrow>
          (case normalize_device device_mac of
             Inl e \<Rightarrow> Inl e
           | Inr device \<Rightarrow>
               Inr (match_scopes override_scopes (cfg_overrides c) normalized device service category)))"

section \<open>SelectRoute\<close>

definition priority_less :: "route \<Rightarrow> route \<Rightarrow> bool" where
  "priority_less a b =
     (if rt_priority a \<noteq> rt_priority b then rt_priority a < rt_priority b else rt_tag a < rt_tag b)"

definition select_route :: "match_result \<Rightarrow> route list \<Rightarrow> route option" where
  "select_route m routes =
     (let ov = mr_override m in
      if ov_route_tag ov \<noteq> []
      then find (\<lambda>r. rt_tag r = ov_route_tag ov \<and> route_enabled r) routes
      else find (\<lambda>r. rt_type r = ov_route_type ov \<and> route_enabled r)
             (sort_stable priority_less routes))"

definition has_device_overrides :: "config \<Rightarrow> bool" where
  "has_device_overrides c \<longleftrightarrow>
     list_ex (\<lambda>ov. ov_scope ov = ''device_domain'' \<or> ov_scope ov = ''device_service'') (cfg_overrides c)"

section \<open>Lemmas\<close>

interpretation priority_order: go_less priority_less
  by (rule go_less_key [where key = "\<lambda>r. (rt_priority r, rt_tag r)"])
    (auto simp: priority_less_def less_prod_def)

lemma find_None_iff_ball: "find P xs = None \<longleftrightarrow> (\<forall>x \<in> set xs. \<not> P x)"
  by (induction xs) auto

lemma find_sorted_least:
  assumes "sorted_wrt (\<lambda>a b. \<not> lt b a) xs" and "find P xs = Some x" and "y \<in> set xs" and "P y"
    and "\<not> lt x x"
  shows "\<not> lt y x"
  using assms by (induction xs) (auto split: if_splits)

lemma match_scopes_Some:
  assumes "match_scopes scopes ovs d dev svc cat = Some m"
  obtains before scope after where "scopes = before @ scope # after"
    and "mr_source m = ''manual_override:'' @ scope"
    and "find (override_matches scope d dev svc cat) ovs = Some (mr_override m)"
    and "\<forall>s \<in> set before. \<forall>ov \<in> set ovs. \<not> override_matches s d dev svc cat ov"
  using assms
proof (induction scopes arbitrary: thesis)
  case (Cons s scopes)
  show ?case
  proof (cases "find (override_matches s d dev svc cat) ovs")
    case None
    with Cons.prems(2) have "match_scopes scopes ovs d dev svc cat = Some m" by simp
    from Cons.IH [OF _ this] obtain before scope after where
      "scopes = before @ scope # after" "mr_source m = ''manual_override:'' @ scope"
      "find (override_matches scope d dev svc cat) ovs = Some (mr_override m)"
      "\<forall>s \<in> set before. \<forall>ov \<in> set ovs. \<not> override_matches s d dev svc cat ov" by blast
    with None show ?thesis
      by (intro Cons.prems(1) [of "s # before" scope after]) (auto simp: find_None_iff_ball)
  next
    case (Some ov)
    with Cons.prems(2) show ?thesis by (intro Cons.prems(1) [of "[]" s scopes]) auto
  qed
qed simp

lemma match_scopes_None:
  "match_scopes scopes ovs d dev svc cat = None \<longleftrightarrow>
   (\<forall>s \<in> set scopes. \<forall>ov \<in> set ovs. \<not> override_matches s d dev svc cat ov)"
  by (induction scopes)
    (auto simp: find_None_iff_ball split: option.splits dest!: find_Some_member)

lemma select_route_enabled: "select_route m routes = Some r \<Longrightarrow> r \<in> set routes \<and> route_enabled r"
  by (auto simp: select_route_def Let_def split: if_splits dest!: find_Some_member)

section \<open>Properties\<close>

text \<open>An override search is deterministic and ordered by specificity: it fails only if no
  override of any scope matches, and otherwise returns the first matching override of the most
  specific scope that has one, so that an override of a broader scope never shadows it.\<close>

theorem policy_match_most_specific:
  assumes "normalize_domain lib domain = Inr d" and "normalize_device mac = Inr dev"
  shows "(policy_match lib c domain mac svc cat = Inr None \<longleftrightarrow>
      (\<forall>s \<in> set override_scopes. \<forall>ov \<in> set (cfg_overrides c). \<not> override_matches s d dev svc cat ov)) \<and>
    (\<forall>m. policy_match lib c domain mac svc cat = Inr (Some m) \<longrightarrow>
      (\<exists>broader narrower. override_scopes = narrower @ ov_scope (mr_override m) # broader \<and>
        mr_override m \<in> set (cfg_overrides c) \<and>
        override_matches (ov_scope (mr_override m)) d dev svc cat (mr_override m) \<and>
        (\<forall>s \<in> set narrower. \<forall>ov \<in> set (cfg_overrides c). \<not> override_matches s d dev svc cat ov)))"
proof -
  have eq: "policy_match lib c domain mac svc cat =
      Inr (match_scopes override_scopes (cfg_overrides c) d dev svc cat)"
    by (simp add: policy_match_def assms)
  show ?thesis
  proof (intro conjI allI impI)
    fix m assume "policy_match lib c domain mac svc cat = Inr (Some m)"
    then have "match_scopes override_scopes (cfg_overrides c) d dev svc cat = Some m"
      by (simp add: eq)
    then obtain before scope after where *: "override_scopes = before @ scope # after"
      "find (override_matches scope d dev svc cat) (cfg_overrides c) = Some (mr_override m)"
      "\<forall>s \<in> set before. \<forall>ov \<in> set (cfg_overrides c). \<not> override_matches s d dev svc cat ov"
      by (rule match_scopes_Some)
    from find_Some_member [OF *(2)] have "ov_scope (mr_override m) = scope"
      by (auto simp: override_matches_def)
    with * find_Some_member [OF *(2)] show
      "\<exists>broader narrower. override_scopes = narrower @ ov_scope (mr_override m) # broader \<and>
        mr_override m \<in> set (cfg_overrides c) \<and>
        override_matches (ov_scope (mr_override m)) d dev svc cat (mr_override m) \<and>
        (\<forall>s \<in> set narrower. \<forall>ov \<in> set (cfg_overrides c). \<not> override_matches s d dev svc cat ov)"
      by blast
  qed (simp add: eq match_scopes_None)
qed

definition ascii_lib :: domain_lib where
  "ascii_lib = \<lparr>dl_to_ascii = Some,
     dl_etld_plus_one = (\<lambda>d. Some (join_with ''.''
        (rev (take 2 (rev (split_on CHR ''.'' d))))))\<rparr>"

definition base_policy_override :: policy_override where
  "base_policy_override = \<lparr>ov_id = ''o1'', ov_scope = ''exact_domain'', ov_device_mac = [],
     ov_domain = ''a.example.com'', ov_service = [], ov_category = [], ov_route_type = ''vless'',
     ov_route_tag = []\<rparr>"

definition empty_config :: config where
  "empty_config = \<lparr>cfg_version = 2, cfg_target = [],
     cfg_storage = \<lparr>so_state_dir = [], so_runtime_dir = [], so_database = [], so_max_auto_domains = 0\<rparr>,
     cfg_policy = zero_policy,
     cfg_xray = \<lparr>xr_init_script = [], xr_activation_mode = [], xr_last_good_config = [],
       xr_probe_dns_resolver = [], xr_dns_proxy_base_port = 0, xr_transparent_port = 0,
       xr_outbound_bundle_sha256 = []\<rparr>,
     cfg_zapret = \<lparr>zp_binary = [], zp_provider_source = [], zp_provider_version = [],
       zp_binary_sha256 = [], zp_init_script = [], zp_active_config = [], zp_activation_mode = [],
       zp_strategy = [], zp_queue_num = 0, zp_adaptive_enabled = False, zp_adaptive_catalog_file = [],
       zp_adaptive_assignments = [], zp_device_profiles = []\<rparr>,
     cfg_geoip = \<lparr>gi_database = [], gi_source_url = [], gi_max_database_bytes = 0,
       gi_max_age_hours = 0, gi_endpoints = []\<rparr>,
     cfg_openwrt = \<lparr>ow_nft_table = [], ow_nft_family = [], ow_wan_route_table = 100,
       ow_zapret_route_table = 101, ow_xray_route_table = 102, ow_direct_mark = ''0x10'',
       ow_zapret_mark = ''0x20'', ow_xray_mark = ''0x30'', ow_xray_tproxy_mark = ''0x31'',
       ow_xray_bypass_mark = ''0x32'', ow_drop_mark = ''0x40'', ow_flow_offloading_policy = []\<rparr>,
     cfg_routes = [], cfg_services = [], cfg_overrides = [], cfg_telegram_secret_file = [],
     cfg_dedupe_seconds = 0, cfg_tspu_sources = []\<rparr>"

theorem policy_match_most_specific_witness:
  "policy_match ascii_lib (empty_config\<lparr>cfg_overrides := [base_policy_override]\<rparr>)
     ''A.example.com'' [] [] [] \<noteq> Inr None"
proof -
  have d: "normalize_domain ascii_lib ''A.example.com'' = Inr ''a.example.com''" by code_simp
  have m: "normalize_device [] = Inr []" by code_simp
  show ?thesis
    using policy_match_most_specific [OF d m, of "empty_config\<lparr>cfg_overrides := [base_policy_override]\<rparr>"
        "[]" "[]"]
    by (auto simp: override_scopes_def override_matches_def base_policy_override_def)
qed

text \<open>An override that names a route type gets the enabled route of that type with the least
  priority (ties broken by tag), and gets none exactly when no such route is enabled.\<close>

theorem select_route_least_priority:
  assumes "ov_route_tag (mr_override m) = []"
  shows "(select_route m routes = None \<longleftrightarrow>
      (\<forall>r \<in> set routes. rt_type r = ov_route_type (mr_override m) \<longrightarrow> \<not> route_enabled r)) \<and>
    (\<forall>r. select_route m routes = Some r \<longrightarrow>
      r \<in> set routes \<and> rt_type r = ov_route_type (mr_override m) \<and> route_enabled r \<and>
      (\<forall>r' \<in> set routes. rt_type r' = ov_route_type (mr_override m) \<longrightarrow> route_enabled r' \<longrightarrow>
         rt_priority r \<le> rt_priority r' \<and> (rt_priority r = rt_priority r' \<longrightarrow> rt_tag r \<le> rt_tag r')))"
proof -
  let ?P = "\<lambda>r. rt_type r = ov_route_type (mr_override m) \<and> route_enabled r"
  have eq: "select_route m routes = find ?P (sort_stable priority_less routes)"
    by (simp add: select_route_def Let_def assms)
  have least: "\<not> priority_less r' r" if "select_route m routes = Some r" "r' \<in> set routes" "?P r'" for r r'
    using find_sorted_least [OF priority_order.sorted_sort_stable [of routes], of ?P r r'] that
      priority_order.less_irrefl [of r] by (simp add: eq)
  have "rt_priority r \<le> rt_priority r' \<and> (rt_priority r = rt_priority r' \<longrightarrow> rt_tag r \<le> rt_tag r')"
    if "\<not> priority_less r' r" for r r'
    using that by (auto simp: priority_less_def split: if_splits)
  note prio = this
  show ?thesis
  proof (intro conjI allI impI)
    show "select_route m routes = None \<longleftrightarrow>
        (\<forall>r \<in> set routes. rt_type r = ov_route_type (mr_override m) \<longrightarrow> \<not> route_enabled r)"
      by (auto simp: eq find_None_iff_ball)
  next
    fix r assume r: "select_route m routes = Some r"
    with find_Some_member [of ?P "sort_stable priority_less routes" r]
    show "r \<in> set routes" "rt_type r = ov_route_type (mr_override m)" "route_enabled r"
      by (auto simp: eq)
    show "\<forall>r' \<in> set routes. rt_type r' = ov_route_type (mr_override m) \<longrightarrow> route_enabled r' \<longrightarrow>
        rt_priority r \<le> rt_priority r' \<and> (rt_priority r = rt_priority r' \<longrightarrow> rt_tag r \<le> rt_tag r')"
      using least [OF r] prio by blast
  qed
qed

theorem select_route_least_priority_witness:
  "select_route \<lparr>mr_override = base_policy_override, mr_source = ''manual_override:exact_domain''\<rparr>
     [zero_route\<lparr>rt_type := ''vless'', rt_tag := ''v1'', rt_priority := 5\<rparr>] \<noteq> None"
proof -
  let ?m = "\<lparr>mr_override = base_policy_override, mr_source = ''manual_override:exact_domain''\<rparr>"
  have "ov_route_tag (mr_override ?m) = []" by (simp add: base_policy_override_def)
  from select_route_least_priority [OF this,
      of "[zero_route\<lparr>rt_type := ''vless'', rt_tag := ''v1'', rt_priority := 5\<rparr>]"]
  show ?thesis by (simp add: base_policy_override_def zero_route_def route_enabled_def)
qed

end
