(* ===== verification/State_Store.thy ===== *)
theory State_Store
  imports Route_Health
begin

text \<open>
  The durable state of the controller (\<^verbatim>\<open>internal/state/state.go\<close>): named buckets of keys and
  values in a bbolt file, the write operations with their no-op detection and write metrics, the
  bounded in-memory probe ring, the schema migrations and the retention clean-up.

  A bucket is the list of its entries in key order, which is the order of a bbolt cursor. A
  stored value is the value whose JSON text the file holds; two values are the same exactly when
  their texts are, and \<open>len\<close> gives the length of the text. A bbolt transaction either commits or
  leaves the file as it was; \<open>st_io\<close> says which writes the file system refuses, and \<open>st_hook\<close>
  is the fault hook.
\<close>

section \<open>State\<close>

type_synonym 'v bucket = "(string \<times> 'v) list"

record write_metrics =
  wm_persistent_transactions :: nat
  wm_persistent_bytes :: nat
  wm_noop_writes :: nat
  wm_runtime_probe_writes :: nat
  wm_last_persistent_reason :: string

record retention_policy =
  rp_max_probe_results :: nat
  rp_max_events :: nat
  rp_event_retention :: duration
  rp_change_set_retention :: duration
  rp_transaction_retention :: duration

record 'v store =
  st_buckets :: "(string \<times> 'v bucket) list"
  st_retention :: retention_policy
  st_probes :: "route_result list"
  st_metrics :: write_metrics
  st_hook :: "string \<Rightarrow> error option"
  st_io :: "string \<Rightarrow> error option"

record 'v entry =
  en_bucket :: string
  en_key :: string
  en_value :: 'v

definition err_not_found :: error where
  "err_not_found = ''state key not found''"

definition err_key_required :: error where
  "err_key_required = ''bucket and key are required''"

section \<open>Buckets\<close>

fun bucket_put :: "string \<Rightarrow> 'v \<Rightarrow> 'v bucket \<Rightarrow> 'v bucket" where
  "bucket_put k v [] = [(k, v)]"
| "bucket_put k v ((k', v') # b) =
     (if k = k' then (k, v) # b
      else if k < k' then (k, v) # (k', v') # b
      else (k', v') # bucket_put k v b)"

definition bucket_delete :: "string \<Rightarrow> 'v bucket \<Rightarrow> 'v bucket" where
  "bucket_delete k b = filter (\<lambda>(k', v). k' \<noteq> k) b"

definition db_bucket :: "'v store \<Rightarrow> string \<Rightarrow> 'v bucket option" where
  "db_bucket s name = map_of (st_buckets s) name"

definition db_get :: "'v store \<Rightarrow> string \<Rightarrow> string \<Rightarrow> 'v option" where
  "db_get s name k = Option.bind (db_bucket s name) (\<lambda>b. map_of b k)"

text \<open>\<^verbatim>\<open>tx.CreateBucketIfNotExists\<close> followed by \<^verbatim>\<open>bucket.Put\<close>.\<close>

definition put_bucket :: "(string \<times> 'v bucket) list \<Rightarrow> string \<Rightarrow> string \<Rightarrow> 'v \<Rightarrow> (string \<times> 'v bucket) list" where
  "put_bucket bs name k v =
     AList.update name (bucket_put k v (case map_of bs name of Some b \<Rightarrow> b | None \<Rightarrow> [])) bs"

definition create_bucket :: "string \<Rightarrow> (string \<times> 'v bucket) list \<Rightarrow> (string \<times> 'v bucket) list" where
  "create_bucket name bs = (case map_of bs name of Some b \<Rightarrow> bs | None \<Rightarrow> AList.update name [] bs)"

section \<open>Metrics\<close>

definition noop_write :: "'v store \<Rightarrow> 'v store" where
  "noop_write s = s\<lparr>st_metrics := (st_metrics s)\<lparr>wm_noop_writes := wm_noop_writes (st_metrics s) + 1\<rparr>\<rparr>"

definition record_persistent_write :: "string \<Rightarrow> nat \<Rightarrow> 'v store \<Rightarrow> 'v store" where
  "record_persistent_write reason n s = s\<lparr>st_metrics := (st_metrics s)\<lparr>
     wm_persistent_transactions := wm_persistent_transactions (st_metrics s) + 1,
     wm_persistent_bytes := wm_persistent_bytes (st_metrics s) + n,
     wm_last_persistent_reason := reason\<rparr>\<rparr>"

section \<open>Writes and reads\<close>

text \<open>The result of a write is the error returned, if any, and the store after the call.\<close>

definition save_json ::
    "('v \<Rightarrow> nat) \<Rightarrow> 'v store \<Rightarrow> string \<Rightarrow> string \<Rightarrow> 'v \<Rightarrow> error option \<times> 'v store" where
  "save_json len s name k v =
     (if name = [] \<or> k = [] then (Some err_key_required, s)
      else case st_hook s (''save_json:'' @ name) of
        Some e \<Rightarrow> (Some e, s)
      | None \<Rightarrow>
          (if db_get s name k = Some v then (None, noop_write s)
           else case st_io s (''save_json:'' @ name) of
             Some e \<Rightarrow> (Some e, s)
           | None \<Rightarrow> (None, record_persistent_write (''save_json:'' @ name) (len v)
                              (s\<lparr>st_buckets := put_bucket (st_buckets s) name k v\<rparr>))))"

definition put_entries :: "(string \<times> 'v bucket) list \<Rightarrow> 'v entry list \<Rightarrow> (string \<times> 'v bucket) list" where
  "put_entries bs es = foldl (\<lambda>bs e. put_bucket bs (en_bucket e) (en_key e) (en_value e)) bs es"

definition save_batch ::
    "('v \<Rightarrow> nat) \<Rightarrow> 'v store \<Rightarrow> 'v entry list \<Rightarrow> error option \<times> 'v store" where
  "save_batch len s es =
     (if list_ex (\<lambda>e. en_bucket e = [] \<or> en_key e = []) es then (Some err_key_required, s)
      else case st_hook s ''save_batch'' of
        Some e \<Rightarrow> (Some e, s)
      | None \<Rightarrow>
          (if list_all (\<lambda>e. db_get s (en_bucket e) (en_key e) = Some (en_value e)) es
           then (None, noop_write s)
           else case st_io s ''save_batch'' of
             Some e \<Rightarrow> (Some e, s)
           | None \<Rightarrow> (None, record_persistent_write ''save_batch'' (sum_list (map (len \<circ> en_value) es))
                              (s\<lparr>st_buckets := put_entries (st_buckets s) es\<rparr>))))"

definition init_checked_buckets :: "string list" where
  "init_checked_buckets = [''probes'', ''changes'', ''events'', ''revisions'', ''transactions'',
     ''candidates'', ''route_health'', ''backups'']"

definition initialize_if_empty ::
    "('v \<Rightarrow> nat) \<Rightarrow> 'v store \<Rightarrow> 'v entry list \<Rightarrow> bool result \<times> 'v store" where
  "initialize_if_empty len s es =
     (if es = [] then (Inl ''initial state entries are required'', s)
      else if list_ex (\<lambda>e. en_bucket e = [] \<or> en_key e = []) es then (Inl err_key_required, s)
      else if list_ex (\<lambda>name. case db_bucket s name of None \<Rightarrow> False | Some b \<Rightarrow> b \<noteq> []) init_checked_buckets
      then (Inr False, noop_write s)
      else case db_bucket s ''meta'' of
        None \<Rightarrow> (Inl ''meta bucket is missing'', s)
      | Some meta \<Rightarrow>
          (if list_ex (\<lambda>(k, v). k \<noteq> ''schema_version'') meta then (Inr False, noop_write s)
           else case st_io s ''initialize_empty_state'' of
             Some e \<Rightarrow> (Inl e, s)
           | None \<Rightarrow> (Inr True,
               record_persistent_write ''initialize_empty_state'' (sum_list (map (len \<circ> en_value) es))
                 (s\<lparr>st_buckets := put_entries (st_buckets s) es\<rparr>))))"

definition get_raw :: "'v store \<Rightarrow> string \<Rightarrow> string \<Rightarrow> 'v result" where
  "get_raw s name k =
     (if name = [] \<or> k = [] then Inl err_key_required
      else case db_get s name k of None \<Rightarrow> Inl err_not_found | Some v \<Rightarrow> Inr v)"

definition list_raw :: "'v store \<Rightarrow> string \<Rightarrow> 'v list result" where
  "list_raw s name =
     (if name = [] then Inl ''bucket is required''
      else case db_bucket s name of None \<Rightarrow> Inr [] | Some b \<Rightarrow> Inr (map snd b))"

definition store_delete :: "'v store \<Rightarrow> string \<Rightarrow> string \<Rightarrow> error option \<times> 'v store" where
  "store_delete s name k =
     (if name = [] \<or> k = [] then (Some err_key_required, s)
      else case db_get s name k of
        None \<Rightarrow> (None, noop_write s)
      | Some _ \<Rightarrow>
          (case st_io s (''delete:'' @ name) of
             Some e \<Rightarrow> (Some e, s)
           | None \<Rightarrow> (None, record_persistent_write (''delete:'' @ name) 0
               (s\<lparr>st_buckets := AList.update name
                    (bucket_delete k (case db_bucket s name of Some b \<Rightarrow> b | None \<Rightarrow> [])) (st_buckets s)\<rparr>))))"

section \<open>The probe ring\<close>

definition store_probe_result :: "'v store \<Rightarrow> route_result \<Rightarrow> 'v store" where
  "store_probe_result s r =
     (let ps = st_probes s @ [r] in
      s\<lparr>st_probes := drop (length ps - rp_max_probe_results (st_retention s)) ps,
        st_metrics := (st_metrics s)\<lparr>wm_runtime_probe_writes := wm_runtime_probe_writes (st_metrics s) + 1\<rparr>\<rparr>)"

definition list_probe_results :: "'v store \<Rightarrow> int \<Rightarrow> route_result list" where
  "list_probe_results s limit =
     (let m = rp_max_probe_results (st_retention s);
          l = (if limit \<le> 0 \<or> int m < limit then m else nat limit)
      in take (min l (length (st_probes s))) (rev (st_probes s)))"

section \<open>Route health\<close>

text \<open>The fields compared by \<^verbatim>\<open>routeHealthPersistentView\<close>; the others are volatile.\<close>

definition route_health_persistent_view :: "route_health \<Rightarrow> string list \<times> gotime" where
  "route_health_persistent_view h =
     ([rh_route_tag h, rh_route_type h, rh_state h, rh_role h, rh_last_status h, rh_last_reason h,
       rh_adapter_revision h, rh_candidate_hash h, rh_artifact_manifest_hash h,
       rh_external_ip_hash h, rh_external_country h], rh_role_hold_until h)"

definition save_route_health ::
    "(route_health \<Rightarrow> nat) \<Rightarrow> route_health store \<Rightarrow> route_health \<Rightarrow> error option \<times> route_health store" where
  "save_route_health len s h =
     (if rh_route_tag h = [] then (Some ''route health tag is required'', s)
      else case get_raw s ''route_health'' (rh_route_tag h) of
        Inr previous \<Rightarrow>
          (if route_health_persistent_view previous = route_health_persistent_view h
           then (None, noop_write s)
           else save_json len s ''route_health'' (rh_route_tag h) h)
      | Inl e \<Rightarrow>
          (if e \<noteq> err_not_found then (Some e, s)
           else save_json len s ''route_health'' (rh_route_tag h) h))"

definition list_route_health :: "route_health store \<Rightarrow> route_health list result" where
  "list_route_health s =
     (case list_raw s ''route_health'' of
        Inl e \<Rightarrow> (if e = err_not_found then Inr [] else Inl e)
      | Inr hs \<Rightarrow>
          (if list_ex (\<lambda>h. rh_route_tag h = []) hs then Inl ''invalid persisted route health''
           else Inr (sort_stable (\<lambda>a b. rh_route_tag a < rh_route_tag b) hs)))"

section \<open>Schema migrations\<close>

text \<open>
  \<open>enc\<close> and \<open>dec\<close> are the JSON text of a schema version and its parse. The loop runs while the
  version is below the current one, so it takes as many rounds as versions are missing.
\<close>

definition current_schema_version :: nat where
  "current_schema_version = 3"

definition schema_buckets :: "nat \<Rightarrow> string list" where
  "schema_buckets v =
     (if v = 1 then [''probes'', ''changes'', ''events'', ''revisions'', ''transactions'', ''candidates'', ''meta'']
      else if v = 2 then [''route_health'']
      else if v = 3 then [''backups'']
      else [])"

function migrate :: "(nat \<Rightarrow> 'v) \<Rightarrow> nat \<Rightarrow> (string \<times> 'v bucket) list \<Rightarrow> (string \<times> 'v bucket) list" where
  "migrate enc version bs =
     (if version < current_schema_version
      then migrate enc (version + 1)
             (put_bucket (fold create_bucket (schema_buckets (version + 1)) bs)
                ''meta'' ''schema_version'' (enc (version + 1)))
      else bs)"
  by pat_completeness auto
termination
  by (relation "measure (\<lambda>(enc, version, bs). current_schema_version - version)") auto

declare migrate.simps [simp del]

definition all_buckets :: "string list" where
  "all_buckets = [''probes'', ''changes'', ''events'', ''revisions'', ''transactions'', ''candidates'',
     ''meta'', ''route_health'', ''backups'']"

definition stored_version :: "('v \<Rightarrow> nat option) \<Rightarrow> 'v store \<Rightarrow> nat result" where
  "stored_version dec s =
     (case db_get s ''meta'' ''schema_version'' of
        None \<Rightarrow> Inr 0
      | Some raw \<Rightarrow> (case dec raw of None \<Rightarrow> Inl ''invalid schema version'' | Some v \<Rightarrow> Inr v))"

definition store_init ::
    "(nat \<Rightarrow> 'v) \<Rightarrow> ('v \<Rightarrow> nat option) \<Rightarrow> 'v store \<Rightarrow> error option \<times> 'v store" where
  "store_init enc dec s =
     (case stored_version dec s of
        Inl e \<Rightarrow> (Some e, s)
      | Inr version \<Rightarrow>
          (if db_bucket s ''meta'' \<noteq> None \<and> version = current_schema_version \<and>
              list_all (\<lambda>name. db_bucket s name \<noteq> None) all_buckets
           then (None, s)
           else case st_io s ''init'' of
             Some e \<Rightarrow> (Some e, s)
           | None \<Rightarrow> (None, s\<lparr>st_buckets := migrate enc version (create_bucket ''meta'' (st_buckets s))\<rparr>)))"

section \<open>Retention\<close>

text \<open>
  What the clean-up reads of a stored value: whether its text is a JSON object, its string field
  \<^verbatim>\<open>state\<close>, and the instant a string field denotes under RFC 3339.
\<close>

record 'v json_view =
  jv_object :: "'v \<Rightarrow> bool"
  jv_state :: "'v \<Rightarrow> string"
  jv_time :: "'v \<Rightarrow> string \<Rightarrow> gotime option"

record cleanup_stats =
  cs_probes :: nat
  cs_events :: nat
  cs_change_sets :: nat
  cs_transactions :: nat

definition zero_stats :: cleanup_stats where
  "zero_stats = \<lparr>cs_probes = 0, cs_events = 0, cs_change_sets = 0, cs_transactions = 0\<rparr>"

definition terminal_states :: "string list" where
  "terminal_states = [''committed'', ''rolled_back'', ''failed'', ''rollback_failed'', ''expired'',
     ''requires_device'']"

definition state_selected :: "'v json_view \<Rightarrow> string list option \<Rightarrow> 'v \<Rightarrow> bool" where
  "state_selected vw terminal v =
     (case terminal of None \<Rightarrow> True | Some states \<Rightarrow> jv_state vw v \<in> set states)"

text \<open>\<^verbatim>\<open>hasExpired\<close>: some listed field of a selected object lies before the cutoff.\<close>

definition value_has_expired ::
    "'v json_view \<Rightarrow> gotime \<Rightarrow> string list \<Rightarrow> string list option \<Rightarrow> 'v \<Rightarrow> bool" where
  "value_has_expired vw cutoff fs terminal v \<longleftrightarrow>
     jv_object vw v \<and> state_selected vw terminal v \<and>
     list_ex (\<lambda>f. case jv_time vw v f of None \<Rightarrow> False | Some t \<Rightarrow> t < cutoff) fs"

definition has_expired ::
    "'v json_view \<Rightarrow> gotime \<Rightarrow> string list \<Rightarrow> string list option \<Rightarrow> 'v bucket option \<Rightarrow> bool" where
  "has_expired vw cutoff fs terminal b =
     (case b of None \<Rightarrow> False | Some es \<Rightarrow> list_ex (\<lambda>(k, v). value_has_expired vw cutoff fs terminal v) es)"

text \<open>\<^verbatim>\<open>deleteExpired\<close>: the first listed field that parses is the stamp; the zero time never
  expires.\<close>

definition first_stamp :: "'v json_view \<Rightarrow> string list \<Rightarrow> 'v \<Rightarrow> gotime" where
  "first_stamp vw fs v =
     (case List.map_filter (jv_time vw v) fs of [] \<Rightarrow> 0 | t # _ \<Rightarrow> t)"

definition value_deletable ::
    "'v json_view \<Rightarrow> gotime \<Rightarrow> string list \<Rightarrow> string list option \<Rightarrow> 'v \<Rightarrow> bool" where
  "value_deletable vw cutoff fs terminal v \<longleftrightarrow>
     state_selected vw terminal v \<and>
     (let stamp = first_stamp vw fs v in stamp \<noteq> 0 \<and> stamp < cutoff)"

definition delete_expired ::
    "'v json_view \<Rightarrow> gotime \<Rightarrow> string list \<Rightarrow> string list option \<Rightarrow> 'v bucket option \<Rightarrow>
     ('v bucket option \<times> nat) result" where
  "delete_expired vw cutoff fs terminal b =
     (case b of
        None \<Rightarrow> Inr (None, 0)
      | Some es \<Rightarrow>
          (if list_ex (\<lambda>(k, v). \<not> jv_object vw v) es then Inl ''invalid JSON object''
           else let kept = filter (\<lambda>(k, v). \<not> value_deletable vw cutoff fs terminal v) es
                in Inr (Some kept, length es - length kept)))"

definition trim_bucket :: "nat \<Rightarrow> 'v bucket option \<Rightarrow> 'v bucket option" where
  "trim_bucket m b =
     (case b of None \<Rightarrow> None | Some es \<Rightarrow> Some (if m = 0 then es else drop (length es - m) es))"

definition bucket_count :: "'v bucket option \<Rightarrow> nat" where
  "bucket_count b = (case b of None \<Rightarrow> 0 | Some es \<Rightarrow> length es)"

definition has_orphan_candidates :: "'v bucket option \<Rightarrow> 'v bucket option \<Rightarrow> bool" where
  "has_orphan_candidates cands changes =
     (case (cands, changes) of
        (Some cs, Some ch) \<Rightarrow> list_ex (\<lambda>(k, v). map_of ch k = None) cs
      | _ \<Rightarrow> False)"

definition delete_orphans :: "'v bucket option \<Rightarrow> 'v bucket option \<Rightarrow> 'v bucket option" where
  "delete_orphans cands changes =
     (case (cands, changes) of
        (Some cs, Some ch) \<Rightarrow> Some (filter (\<lambda>(k, v). map_of ch k \<noteq> None) cs)
      | _ \<Rightarrow> cands)"

definition set_bucket :: "string \<Rightarrow> 'v bucket option \<Rightarrow> (string \<times> 'v bucket) list \<Rightarrow> (string \<times> 'v bucket) list" where
  "set_bucket name b bs = (case b of None \<Rightarrow> bs | Some es \<Rightarrow> AList.update name es bs)"

definition cleanup_needed :: "'v json_view \<Rightarrow> 'v store \<Rightarrow> gotime \<Rightarrow> bool" where
  "cleanup_needed vw s now =
     (let rp = st_retention s; bkt = db_bucket s in
      rp_max_probe_results rp < bucket_count (bkt ''probes'') \<or>
      rp_max_events rp < bucket_count (bkt ''events'') \<or>
      has_expired vw (now - rp_event_retention rp) [''time''] None (bkt ''events'') \<or>
      has_expired vw (now - rp_change_set_retention rp) [''updated_at''] (Some terminal_states) (bkt ''changes'') \<or>
      has_expired vw (now - rp_transaction_retention rp) [''completed_at'', ''updated_at'']
        (Some terminal_states) (bkt ''transactions'') \<or>
      has_orphan_candidates (bkt ''candidates'') (bkt ''changes''))"

text \<open>The body of the write transaction: the new buckets and the counts, or an error.\<close>

definition cleanup_buckets ::
    "'v json_view \<Rightarrow> 'v store \<Rightarrow> gotime \<Rightarrow> ((string \<times> 'v bucket) list \<times> cleanup_stats) result" where
  "cleanup_buckets vw s now =
     (let rp = st_retention s;
          probes = trim_bucket (rp_max_probe_results rp) (db_bucket s ''probes'');
          n_probes = bucket_count (db_bucket s ''probes'') - bucket_count probes
      in case delete_expired vw (now - rp_event_retention rp) [''time''] None (db_bucket s ''events'') of
        Inl e \<Rightarrow> Inl e
      | Inr (events, n_ev) \<Rightarrow>
          (let events' = trim_bucket (rp_max_events rp) events;
               n_ev' = n_ev + (bucket_count events - bucket_count events')
           in case delete_expired vw (now - rp_change_set_retention rp) [''updated_at''] (Some terminal_states)
                     (db_bucket s ''changes'') of
             Inl e \<Rightarrow> Inl e
           | Inr (changes, n_ch) \<Rightarrow>
               (case delete_expired vw (now - rp_transaction_retention rp) [''completed_at'', ''updated_at'']
                       (Some terminal_states) (db_bucket s ''transactions'') of
                  Inl e \<Rightarrow> Inl e
                | Inr (txs, n_tx) \<Rightarrow>
                    Inr (set_bucket ''transactions'' txs
                           (set_bucket ''candidates'' (delete_orphans (db_bucket s ''candidates'') changes)
                             (set_bucket ''changes'' changes
                               (set_bucket ''events'' events'
                                 (set_bucket ''probes'' probes (st_buckets s))))),
                         \<lparr>cs_probes = n_probes, cs_events = n_ev', cs_change_sets = n_ch,
                          cs_transactions = n_tx\<rparr>))))"

definition cleanup :: "'v json_view \<Rightarrow> 'v store \<Rightarrow> gotime \<Rightarrow> cleanup_stats result \<times> 'v store" where
  "cleanup vw s now =
     (if \<not> cleanup_needed vw s now then (Inr zero_stats, noop_write s)
      else case cleanup_buckets vw s now of
        Inl e \<Rightarrow> (Inl e, s)
      | Inr (bs, stats) \<Rightarrow>
          (case st_io s ''retention_cleanup'' of
             Some e \<Rightarrow> (Inl e, s)
           | None \<Rightarrow> (Inr stats, record_persistent_write ''retention_cleanup'' 0 (s\<lparr>st_buckets := bs\<rparr>))))"

section \<open>The contract of a key-value store\<close>

text \<open>
  What the packages above the store rely on (\<^verbatim>\<open>domaincache.Store\<close>, the health service, the
  API): a write that reports no error is visible to every later read and touches nothing else; a
  write that reports an error has no effect on the data.
\<close>

locale kv_store =
  fixes put :: "'s \<Rightarrow> string \<Rightarrow> string \<Rightarrow> 'v \<Rightarrow> error option \<times> 's"
    and del :: "'s \<Rightarrow> string \<Rightarrow> string \<Rightarrow> error option \<times> 's"
    and get :: "'s \<Rightarrow> string \<Rightarrow> string \<Rightarrow> 'v option"
    and wf :: "'s \<Rightarrow> bool"
  assumes put_ok: "wf s \<Longrightarrow> put s b k v = (None, s') \<Longrightarrow>
      wf s' \<and> get s' = (\<lambda>b' k'. if b' = b \<and> k' = k then Some v else get s b' k')"
    and put_err: "put s b k v = (Some e, s') \<Longrightarrow> s' = s"
    and del_ok: "wf s \<Longrightarrow> del s b k = (None, s') \<Longrightarrow>
      wf s' \<and> get s' = (\<lambda>b' k'. if b' = b \<and> k' = k then None else get s b' k')"
    and del_err: "del s b k = (Some e, s') \<Longrightarrow> s' = s"
begin

lemma put_cases:
  obtains (ok) s' where "put s b k v = (None, s')" | (err) e where "put s b k v = (Some e, s)"
  by (cases "put s b k v"; cases "fst (put s b k v)") (use put_err in fastforce)+

lemma del_cases:
  obtains (ok) s' where "del s b k = (None, s')" | (err) e where "del s b k = (Some e, s)"
  by (cases "del s b k"; cases "fst (del s b k)") (use del_err in fastforce)+

lemma put_wf: "wf s \<Longrightarrow> wf (snd (put s b k v))"
  by (cases rule: put_cases [of s b k v]) (auto simp: put_ok)

lemma del_wf: "wf s \<Longrightarrow> wf (snd (del s b k))"
  by (cases rule: del_cases [of s b k]) (auto simp: del_ok)

lemma put_get: "wf s \<Longrightarrow> put s b k v = (None, s') \<Longrightarrow> get s' b k = Some v"
  by (simp add: put_ok)

lemma put_other: "wf s \<Longrightarrow> b' \<noteq> b \<or> k' \<noteq> k \<Longrightarrow> get (snd (put s b k v)) b' k' = get s b' k'"
  by (cases rule: put_cases [of s b k v]) (auto simp: put_ok)

lemma del_get: "wf s \<Longrightarrow> del s b k = (None, s') \<Longrightarrow> get s' b k = None"
  by (simp add: del_ok)

lemma del_other: "wf s \<Longrightarrow> b' \<noteq> b \<or> k' \<noteq> k \<Longrightarrow> get (snd (del s b k)) b' k' = get s b' k'"
  by (cases rule: del_cases [of s b k]) (auto simp: del_ok)

lemma put_then_del:
  assumes "wf s" and "get s b k = None"
    and "put s b k v = (None, s1)" and "del s1 b k = (None, s2)"
  shows "get s2 = get s"
proof -
  have s1: "wf s1" "get s1 = (\<lambda>b' k'. if b' = b \<and> k' = k then Some v else get s b' k')"
    using put_ok [OF assms(1,3)] by simp_all
  then show ?thesis using del_ok [OF s1(1) assms(4)] assms(2) by (auto simp: fun_eq_iff)
qed

end

section \<open>The store satisfies it\<close>

definition store_wf :: "'v store \<Rightarrow> bool" where
  "store_wf s \<longleftrightarrow> distinct (map fst (st_buckets s)) \<and>
     (\<forall>(name, b) \<in> set (st_buckets s). sorted_wrt (<) (map fst b))"

lemma map_of_bucket_put: "map_of (bucket_put k v b) = (map_of b)(k \<mapsto> v)"
  by (induction k v b rule: bucket_put.induct) (auto simp: fun_eq_iff)

lemma bucket_put_keys: "fst ` set (bucket_put k v b) = insert k (fst ` set b)"
  by (induction k v b rule: bucket_put.induct) auto

lemma bucket_put_sorted:
  "sorted_wrt (<) (map fst b) \<Longrightarrow> sorted_wrt (<) (map fst (bucket_put k v b))"
proof (induction k v b rule: bucket_put.induct)
  case (2 k v k' v' b)
  have "set (map fst (bucket_put k v b)) = insert k (set (map fst b))"
    using bucket_put_keys [of k v b] by simp
  with 2 show ?case by auto
qed simp

lemma map_of_bucket_delete: "map_of (bucket_delete k b) = (map_of b)(k := None)"
  unfolding bucket_delete_def by (induction b) (auto simp: fun_eq_iff)

lemma bucket_filter_sorted:
  "sorted_wrt (<) (map fst b) \<Longrightarrow> sorted_wrt (<) (map fst (filter P b))"
  by (induction b) auto

lemma bucket_drop_sorted: "sorted_wrt (<) (map fst b) \<Longrightarrow> sorted_wrt (<) (map fst (drop n b))"
  by (simp add: drop_map [symmetric] sorted_wrt_drop)

lemma store_wf_update_bucket:
  assumes "store_wf s" and "sorted_wrt (<) (map fst b)"
  shows "store_wf (s\<lparr>st_buckets := AList.update name b (st_buckets s)\<rparr>)"
  using assms set_update_subset [of name b "st_buckets s"]
  by (auto simp: store_wf_def distinct_update)

lemma store_wf_bucket: "store_wf s \<Longrightarrow> db_bucket s name = Some b \<Longrightarrow> sorted_wrt (<) (map fst b)"
  by (auto simp: store_wf_def db_bucket_def dest: map_of_SomeD)

lemma store_wf_metrics [simp]:
  "store_wf (noop_write s) = store_wf s" "store_wf (record_persistent_write r n s) = store_wf s"
  by (simp_all add: store_wf_def noop_write_def record_persistent_write_def)

lemma db_get_metrics [simp]:
  "db_get (noop_write s) = db_get s" "db_get (record_persistent_write r n s) = db_get s"
  "db_bucket (noop_write s) = db_bucket s" "db_bucket (record_persistent_write r n s) = db_bucket s"
  by (simp_all add: db_get_def db_bucket_def noop_write_def record_persistent_write_def fun_eq_iff)

lemma db_get_put:
  "db_get (s\<lparr>st_buckets := put_bucket (st_buckets s) b k v\<rparr>) =
   (\<lambda>b' k'. if b' = b \<and> k' = k then Some v else db_get s b' k')"
  by (auto simp: fun_eq_iff db_get_def db_bucket_def put_bucket_def update_conv' map_of_bucket_put
      split: option.splits)

lemma store_wf_put:
  assumes "store_wf s"
  shows "store_wf (s\<lparr>st_buckets := put_bucket (st_buckets s) b k v\<rparr>)"
  unfolding put_bucket_def using assms store_wf_bucket [OF assms, of b]
  by (intro store_wf_update_bucket) (auto simp: db_bucket_def intro!: bucket_put_sorted split: option.splits)

lemma save_json_ok:
  assumes "store_wf s" and "save_json len s b k v = (None, s')"
  shows "store_wf s' \<and> db_get s' = (\<lambda>b' k'. if b' = b \<and> k' = k then Some v else db_get s b' k')"
proof -
  consider "db_get s b k = Some v" "s' = noop_write s"
    | n r where "s' = record_persistent_write r n (s\<lparr>st_buckets := put_bucket (st_buckets s) b k v\<rparr>)"
    using assms(2) by (auto simp: save_json_def split: if_splits option.splits)
  then show ?thesis
    by cases (auto simp: assms(1) store_wf_put db_get_put fun_eq_iff)
qed

lemma store_delete_ok:
  assumes "store_wf s" and "store_delete s b k = (None, s')"
  shows "store_wf s' \<and> db_get s' = (\<lambda>b' k'. if b' = b \<and> k' = k then None else db_get s b' k')"
proof -
  let ?b = "bucket_delete k (case db_bucket s b of Some b \<Rightarrow> b | None \<Rightarrow> [])"
  have g: "db_get (s\<lparr>st_buckets := AList.update b ?b (st_buckets s)\<rparr>) =
      (\<lambda>b' k'. if b' = b \<and> k' = k then None else db_get s b' k')"
    by (auto simp: fun_eq_iff db_get_def db_bucket_def update_conv' map_of_bucket_delete
        split: option.splits)
  have w: "store_wf (s\<lparr>st_buckets := AList.update b ?b (st_buckets s)\<rparr>)"
    using assms(1) store_wf_bucket [OF assms(1), of b]
    by (intro store_wf_update_bucket)
      (auto simp: bucket_delete_def intro!: bucket_filter_sorted split: option.splits)
  consider "db_get s b k = None" "s' = noop_write s"
    | n r where "s' = record_persistent_write r n (s\<lparr>st_buckets := AList.update b ?b (st_buckets s)\<rparr>)"
    using assms(2) by (auto simp: store_delete_def split: if_splits option.splits)
  then show ?thesis
    by cases (auto simp: assms(1) g w fun_eq_iff)
qed

interpretation db: kv_store "save_json len" store_delete db_get store_wf for len
proof unfold_locales
  show "save_json len s b k v = (Some e, s') \<Longrightarrow> s' = s" for s s' :: "'a store" and b k v e
    by (auto simp: save_json_def split: if_splits option.splits)
  show "store_delete s b k = (Some e, s') \<Longrightarrow> s' = s" for s s' :: "'a store" and b k e
    by (auto simp: store_delete_def split: if_splits option.splits)
qed (fact save_json_ok store_delete_ok)+

section \<open>Batches\<close>

text \<open>The abstract effect of a batch on the contents of the store.\<close>

definition put_contents ::
    "(string \<Rightarrow> string \<Rightarrow> 'v option) \<Rightarrow> 'v entry list \<Rightarrow> string \<Rightarrow> string \<Rightarrow> 'v option" where
  "put_contents g es = foldl (\<lambda>g e b k. if b = en_bucket e \<and> k = en_key e then Some (en_value e) else g b k) g es"

lemma put_entries_contents:
  assumes "store_wf s"
  shows "store_wf (s\<lparr>st_buckets := put_entries (st_buckets s) es\<rparr>) \<and>
    db_get (s\<lparr>st_buckets := put_entries (st_buckets s) es\<rparr>) = put_contents (db_get s) es"
  using assms
proof (induction es arbitrary: s)
  case (Cons e es)
  let ?s = "s\<lparr>st_buckets := put_bucket (st_buckets s) (en_bucket e) (en_key e) (en_value e)\<rparr>"
  from Cons.IH [OF store_wf_put [OF Cons.prems]] show ?case
    by (simp add: put_entries_def put_contents_def db_get_put)
qed (simp add: put_entries_def put_contents_def)

lemma put_contents_identical:
  "list_all (\<lambda>e. g (en_bucket e) (en_key e) = Some (en_value e)) es \<Longrightarrow> put_contents g es = g"
proof (induction es)
  case (Cons e es)
  then have "(\<lambda>b k. if b = en_bucket e \<and> k = en_key e then Some (en_value e) else g b k) = g"
    by (auto simp: fun_eq_iff)
  with Cons show ?case by (simp add: put_contents_def)
qed (simp add: put_contents_def)

section \<open>Migrations\<close>

lemma map_of_create_bucket:
  "map_of (create_bucket name bs) n =
    (if n = name \<and> map_of bs name = None then Some [] else map_of bs n)"
  by (auto simp: create_bucket_def update_conv' split: option.splits)

lemma map_of_create_buckets:
  "map_of (fold create_bucket names bs) n =
    (if n \<in> set names \<and> map_of bs n = None then Some [] else map_of bs n)"
  by (induction names arbitrary: bs) (auto simp: map_of_create_bucket)

definition contents :: "(string \<times> 'v bucket) list \<Rightarrow> string \<Rightarrow> string \<Rightarrow> 'v option" where
  "contents bs b k = Option.bind (map_of bs b) (\<lambda>es. map_of es k)"

lemma contents_put_bucket:
  "contents (put_bucket bs b k v) b' k' = (if b' = b \<and> k' = k then Some v else contents bs b' k')"
  by (auto simp: contents_def put_bucket_def update_conv' map_of_bucket_put split: option.splits)

lemma contents_create [simp]: "contents (fold create_bucket names bs) = contents bs"
  by (auto simp: contents_def fun_eq_iff map_of_create_buckets)

lemma put_bucket_exists: "map_of bs n \<noteq> None \<Longrightarrow> map_of (put_bucket bs b k v) n \<noteq> None"
  by (simp add: put_bucket_def update_conv')

lemma migrate_spec:
  assumes "version \<le> current_schema_version"
  shows "contents (migrate enc version bs) b k =
      (if b = ''meta'' \<and> k = ''schema_version'' \<and> version < current_schema_version
       then Some (enc current_schema_version) else contents bs b k) \<and>
    (\<forall>n. map_of bs n \<noteq> None \<longrightarrow> map_of (migrate enc version bs) n \<noteq> None) \<and>
    (\<forall>v n. version < v \<longrightarrow> v \<le> current_schema_version \<longrightarrow> n \<in> set (schema_buckets v) \<longrightarrow>
       map_of (migrate enc version bs) n \<noteq> None)"
  using assms
proof (induction enc version bs rule: migrate.induct)
  case (1 enc version bs)
  show ?case
  proof (cases "version < current_schema_version")
    case False
    then have "migrate enc version bs = bs" by (subst migrate.simps) simp
    with False 1(2) show ?thesis by auto
  next
    case True
    let ?bs = "put_bucket (fold create_bucket (schema_buckets (version + 1)) bs)
                ''meta'' ''schema_version'' (enc (version + 1))"
    have step: "migrate enc version bs = migrate enc (version + 1) ?bs"
      using True by (simp add: migrate.simps [of enc version bs])
    note IH = 1(1) [OF True]
    have ex: "map_of ?bs n \<noteq> None" if "n \<in> set (schema_buckets (version + 1)) \<or> map_of bs n \<noteq> None" for n
      using that by (intro put_bucket_exists) (auto simp: map_of_create_buckets)
    have "version + 1 \<le> current_schema_version" using True by simp
    from IH [OF this] have
      c: "contents (migrate enc (version + 1) ?bs) b k =
        (if b = ''meta'' \<and> k = ''schema_version'' \<and> version + 1 < current_schema_version
         then Some (enc current_schema_version) else contents ?bs b k)" and
      e: "\<forall>n. map_of ?bs n \<noteq> None \<longrightarrow> map_of (migrate enc (version + 1) ?bs) n \<noteq> None" and
      f: "\<forall>v n. version + 1 < v \<longrightarrow> v \<le> current_schema_version \<longrightarrow> n \<in> set (schema_buckets v) \<longrightarrow>
        map_of (migrate enc (version + 1) ?bs) n \<noteq> None" by blast+
    have last: "\<not> Suc version < current_schema_version \<Longrightarrow> enc (Suc version) = enc current_schema_version"
      using True by (metis Suc_lessI)
    have "contents (migrate enc version bs) b k =
        (if b = ''meta'' \<and> k = ''schema_version'' \<and> version < current_schema_version
         then Some (enc current_schema_version) else contents bs b k)"
      unfolding step c contents_put_bucket contents_create using True last by auto
    moreover have "map_of (migrate enc version bs) n \<noteq> None" if "map_of bs n \<noteq> None" for n
      using that e ex unfolding step by blast
    moreover have "map_of (migrate enc version bs) n \<noteq> None"
      if "version < v" "v \<le> current_schema_version" "n \<in> set (schema_buckets v)" for v n
      unfolding step
    proof (cases "v = version + 1")
      case True
      with that ex e show "map_of (migrate enc (version + 1) ?bs) n \<noteq> None" by blast
    next
      case False
      with that have "version + 1 < v" by simp
      with that f show "map_of (migrate enc (version + 1) ?bs) n \<noteq> None" by blast
    qed
    ultimately show ?thesis by blast
  qed
qed

section \<open>Retention\<close>

lemma first_stamp_cases:
  "first_stamp vw fs v = 0 \<or> (\<exists>f \<in> set fs. jv_time vw v f = Some (first_stamp vw fs v))"
proof (induction fs)
  case (Cons f fs)
  then show ?case
    by (cases "jv_time vw v f") (auto simp: first_stamp_def List.map_filter_simps)
qed (simp add: first_stamp_def List.map_filter_simps)

lemma deletable_has_expired:
  "value_deletable vw cutoff fs terminal v \<Longrightarrow> jv_object vw v \<Longrightarrow>
   value_has_expired vw cutoff fs terminal v"
  using first_stamp_cases [of vw fs v]
  by (auto simp: value_deletable_def value_has_expired_def Let_def list_ex_iff
      split: option.splits intro!: bexI)

lemma delete_expired_none:
  assumes "\<not> has_expired vw cutoff fs terminal b" and "delete_expired vw cutoff fs terminal b = Inr (b', n)"
  shows "b' = b \<and> n = 0"
proof (cases b)
  case (Some es)
  with assms(2) have obj: "\<forall>(k, v) \<in> set es. jv_object vw v"
    by (auto simp: delete_expired_def list_ex_iff split: if_splits)
  have "\<forall>(k, v) \<in> set es. \<not> value_deletable vw cutoff fs terminal v"
    using assms(1) obj Some deletable_has_expired [of vw cutoff fs terminal]
    by (fastforce simp: has_expired_def list_ex_iff)
  then have "filter (\<lambda>(k, v). \<not> value_deletable vw cutoff fs terminal v) es = es"
    by (simp add: filter_id_conv case_prod_unfold)
  with assms(2) Some obj show ?thesis
    by (auto simp: delete_expired_def Let_def split: if_splits)
qed (use assms(2) in \<open>simp add: delete_expired_def\<close>)

lemma trim_bucket_id: "bucket_count b \<le> m \<Longrightarrow> trim_bucket m b = b"
  by (auto simp: trim_bucket_def bucket_count_def split: option.splits)

lemma trim_bucket_count: "0 < m \<Longrightarrow> bucket_count (trim_bucket m b) \<le> m"
  by (auto simp: trim_bucket_def bucket_count_def split: option.splits)

lemma delete_orphans_id: "\<not> has_orphan_candidates a b \<Longrightarrow> delete_orphans a b = a"
  by (auto simp: has_orphan_candidates_def delete_orphans_def list_ex_iff filter_id_conv
      split: option.splits)

lemma delete_orphans_none: "\<not> has_orphan_candidates (delete_orphans a b) b"
  by (auto simp: has_orphan_candidates_def delete_orphans_def list_ex_iff split: option.splits)

lemma map_of_set_bucket:
  "map_of (set_bucket name b bs) n = (if n = name \<and> b \<noteq> None then b else map_of bs n)"
  by (auto simp: set_bucket_def update_conv' split: option.splits)

lemma delete_expired_None [simp]:
  "delete_expired vw cutoff fs terminal None = Inr (None, 0)"
  by (simp add: delete_expired_def)

lemma delete_expired_is_None:
  "delete_expired vw cutoff fs terminal b = Inr (b', n) \<Longrightarrow> b' = None \<longleftrightarrow> b = None"
  by (auto simp: delete_expired_def Let_def split: option.splits if_splits)

lemma delete_expired_keeps:
  assumes "delete_expired vw cutoff fs terminal b = Inr (b', n)"
    and "Option.bind b (\<lambda>es. map_of es k) = Some v" and "\<not> value_deletable vw cutoff fs terminal v"
    and "\<forall>es. b = Some es \<longrightarrow> distinct (map fst es)"
  shows "Option.bind b' (\<lambda>es. map_of es k) = Some v"
  using assms
  by (cases b) (auto simp: delete_expired_def Let_def map_of_filter split: if_splits)

lemma store_wf_distinct: "store_wf s \<Longrightarrow> db_bucket s name = Some b \<Longrightarrow> distinct (map fst b)"
  using store_wf_bucket [of s name b] strict_sorted_iff by blast

text \<open>The buckets a successful clean-up writes, one by one.\<close>

lemma cleanup_buckets_spec:
  assumes "cleanup_buckets vw s now = Inr (bs, stats)"
  obtains events n_ev changes n_ch txs n_tx where
    "delete_expired vw (now - rp_event_retention (st_retention s)) [''time''] None
       (db_bucket s ''events'') = Inr (events, n_ev)"
    and "delete_expired vw (now - rp_change_set_retention (st_retention s)) [''updated_at'']
       (Some terminal_states) (db_bucket s ''changes'') = Inr (changes, n_ch)"
    and "delete_expired vw (now - rp_transaction_retention (st_retention s))
       [''completed_at'', ''updated_at''] (Some terminal_states) (db_bucket s ''transactions'') = Inr (txs, n_tx)"
    and "map_of bs ''probes'' = trim_bucket (rp_max_probe_results (st_retention s)) (db_bucket s ''probes'')"
    and "map_of bs ''events'' = trim_bucket (rp_max_events (st_retention s)) events"
    and "map_of bs ''changes'' = changes"
    and "map_of bs ''candidates'' = delete_orphans (db_bucket s ''candidates'') changes"
    and "map_of bs ''transactions'' = txs"
    and "\<forall>n. n \<notin> {''probes'', ''events'', ''changes'', ''candidates'', ''transactions''} \<longrightarrow>
       map_of bs n = db_bucket s n"
    and "stats = \<lparr>cs_probes = bucket_count (db_bucket s ''probes'') -
         bucket_count (trim_bucket (rp_max_probe_results (st_retention s)) (db_bucket s ''probes'')),
       cs_events = n_ev + (bucket_count events - bucket_count (trim_bucket (rp_max_events (st_retention s)) events)),
       cs_change_sets = n_ch, cs_transactions = n_tx\<rparr>"
proof -
  have tn: "trim_bucket m b = None \<longleftrightarrow> b = None" for m and b :: "'a bucket option"
    by (auto simp: trim_bucket_def split: option.splits)
  have on: "delete_orphans a b = None \<longleftrightarrow> a = None" for a b :: "'a bucket option"
    by (auto simp: delete_orphans_def split: option.splits)
  let ?rp = "st_retention s"
  obtain events n_ev changes n_ch txs n_tx where
    e: "delete_expired vw (now - rp_event_retention ?rp) [''time''] None
       (db_bucket s ''events'') = Inr (events, n_ev)" and
    c: "delete_expired vw (now - rp_change_set_retention ?rp) [''updated_at'']
       (Some terminal_states) (db_bucket s ''changes'') = Inr (changes, n_ch)" and
    t: "delete_expired vw (now - rp_transaction_retention ?rp) [''completed_at'', ''updated_at'']
       (Some terminal_states) (db_bucket s ''transactions'') = Inr (txs, n_tx)"
    using assms by (auto simp: cleanup_buckets_def Let_def split: sum.splits prod.splits)
  have bs: "bs = set_bucket ''transactions'' txs
       (set_bucket ''candidates'' (delete_orphans (db_bucket s ''candidates'') changes)
         (set_bucket ''changes'' changes
           (set_bucket ''events'' (trim_bucket (rp_max_events ?rp) events)
             (set_bucket ''probes'' (trim_bucket (rp_max_probe_results ?rp) (db_bucket s ''probes''))
               (st_buckets s)))))"
    and stats: "stats = \<lparr>cs_probes = bucket_count (db_bucket s ''probes'') -
         bucket_count (trim_bucket (rp_max_probe_results ?rp) (db_bucket s ''probes'')),
       cs_events = n_ev + (bucket_count events - bucket_count (trim_bucket (rp_max_events ?rp) events)),
       cs_change_sets = n_ch, cs_transactions = n_tx\<rparr>"
    using assms by (auto simp: cleanup_buckets_def Let_def e c t)
  note none = delete_expired_is_None [OF e] delete_expired_is_None [OF c] delete_expired_is_None [OF t]
  have db: "map_of (st_buckets s) n = db_bucket s n" for n by (simp add: db_bucket_def)
  have none': "b = None \<Longrightarrow> trim_bucket m b = None" "b = None \<Longrightarrow> delete_orphans b b' = None"
    for m and b b' :: "'a bucket option"
    by (simp_all add: tn on)
  show ?thesis
  proof (rule that [OF e c t])
    show "map_of bs ''probes'' = trim_bucket (rp_max_probe_results ?rp) (db_bucket s ''probes'')"
      by (simp add: bs map_of_set_bucket tn on db none' del: not_None_eq)
    show "map_of bs ''events'' = trim_bucket (rp_max_events ?rp) events"
      using none(1) by (simp add: bs map_of_set_bucket tn on db none' del: not_None_eq)
    show "map_of bs ''changes'' = changes"
      using none(2) by (auto simp add: bs map_of_set_bucket db)
    show "map_of bs ''candidates'' = delete_orphans (db_bucket s ''candidates'') changes"
      by (simp add: bs map_of_set_bucket tn on db none' del: not_None_eq)
    show "map_of bs ''transactions'' = txs"
      using none(3) by (auto simp add: bs map_of_set_bucket db)
    show "\<forall>n. n \<notin> {''probes'', ''events'', ''changes'', ''candidates'', ''transactions''} \<longrightarrow>
       map_of bs n = db_bucket s n"
      unfolding bs map_of_set_bucket db insert_iff by presburger
  qed (fact stats)
qed

section \<open>Properties\<close>


definition empty_metrics :: write_metrics where
  "empty_metrics = \<lparr>wm_persistent_transactions = 0, wm_persistent_bytes = 0, wm_noop_writes = 0,
     wm_runtime_probe_writes = 0, wm_last_persistent_reason = []\<rparr>"

definition empty_store :: "'v store" where
  "empty_store = \<lparr>st_buckets = [], st_retention = \<lparr>rp_max_probe_results = 2, rp_max_events = 2,
     rp_event_retention = 10, rp_change_set_retention = 10, rp_transaction_retention = 10\<rparr>,
     st_probes = [], st_metrics = empty_metrics, st_hook = (\<lambda>_. None), st_io = (\<lambda>_. None)\<rparr>"

lemma empty_store_wf [simp]: "store_wf empty_store"
  by (simp add: store_wf_def empty_store_def)




text \<open>C31. Skipping the clean-up is justified: when the read-only check finds nothing to do, the
  clean-up transaction would have left every bucket as it is and counted nothing.\<close>

theorem cleanup_skip_justified:
  assumes "\<not> cleanup_needed vw s now" and "cleanup_buckets vw s now = Inr (bs, stats)"
  shows "stats = zero_stats \<and> (\<forall>name. map_of bs name = db_bucket s name)"
proof -
  let ?rp = "st_retention s"
  obtain events n_ev changes n_ch txs n_tx where
    e: "delete_expired vw (now - rp_event_retention ?rp) [''time''] None
       (db_bucket s ''events'') = Inr (events, n_ev)" and
    c: "delete_expired vw (now - rp_change_set_retention ?rp) [''updated_at'']
       (Some terminal_states) (db_bucket s ''changes'') = Inr (changes, n_ch)" and
    t: "delete_expired vw (now - rp_transaction_retention ?rp) [''completed_at'', ''updated_at'']
       (Some terminal_states) (db_bucket s ''transactions'') = Inr (txs, n_tx)" and
    bs: "map_of bs ''probes'' = trim_bucket (rp_max_probe_results ?rp) (db_bucket s ''probes'')"
      "map_of bs ''events'' = trim_bucket (rp_max_events ?rp) events"
      "map_of bs ''changes'' = changes"
      "map_of bs ''candidates'' = delete_orphans (db_bucket s ''candidates'') changes"
      "map_of bs ''transactions'' = txs"
      "\<forall>n. n \<notin> {''probes'', ''events'', ''changes'', ''candidates'', ''transactions''} \<longrightarrow>
         map_of bs n = db_bucket s n" and
    st: "stats = \<lparr>cs_probes = bucket_count (db_bucket s ''probes'') -
         bucket_count (trim_bucket (rp_max_probe_results ?rp) (db_bucket s ''probes'')),
       cs_events = n_ev + (bucket_count events - bucket_count (trim_bucket (rp_max_events ?rp) events)),
       cs_change_sets = n_ch, cs_transactions = n_tx\<rparr>"
    using cleanup_buckets_spec [OF assms(2)] by blast
  note need = assms(1) [unfolded cleanup_needed_def Let_def, simplified]
  have ev: "events = db_bucket s ''events'' \<and> n_ev = 0"
    using need by (intro delete_expired_none [OF _ e]) simp
  have ch: "changes = db_bucket s ''changes'' \<and> n_ch = 0"
    using need by (intro delete_expired_none [OF _ c]) simp
  have tx: "txs = db_bucket s ''transactions'' \<and> n_tx = 0"
    using need by (intro delete_expired_none [OF _ t]) simp
  have tp: "trim_bucket (rp_max_probe_results ?rp) (db_bucket s ''probes'') = db_bucket s ''probes''"
    using need by (intro trim_bucket_id) simp
  have te: "trim_bucket (rp_max_events ?rp) (db_bucket s ''events'') = db_bucket s ''events''"
    using need by (intro trim_bucket_id) simp
  have oc: "delete_orphans (db_bucket s ''candidates'') (db_bucket s ''changes'') = db_bucket s ''candidates''"
    using need by (intro delete_orphans_id) simp
  have "stats = zero_stats" by (simp add: st ev ch tx tp te zero_stats_def)
  moreover have "map_of bs name = db_bucket s name" for name
  proof (cases "name \<in> {''probes'', ''events'', ''changes'', ''candidates'', ''transactions''}")
    case True
    have "map_of bs ''probes'' = db_bucket s ''probes''" by (rule trans [OF bs(1) tp])
    moreover have "map_of bs ''events'' = db_bucket s ''events''"
      by (rule trans [OF bs(2) [unfolded conjunct1 [OF ev]] te])
    moreover have "map_of bs ''changes'' = db_bucket s ''changes''"
      by (rule trans [OF bs(3) conjunct1 [OF ch]])
    moreover have "map_of bs ''candidates'' = db_bucket s ''candidates''"
      by (rule trans [OF bs(4) [unfolded conjunct1 [OF ch]] oc])
    moreover have "map_of bs ''transactions'' = db_bucket s ''transactions''"
      by (rule trans [OF bs(5) conjunct1 [OF tx]])
    ultimately show ?thesis using True by (elim insertE emptyE) (simp_all only:)
  next
    case False
    show ?thesis by (rule mp [OF spec [OF bs(6)] False])
  qed
  ultimately show ?thesis by blast
qed

definition plain_view :: "nat json_view" where
  "plain_view = \<lparr>jv_object = (\<lambda>_. True), jv_state = (\<lambda>_. ''committed''), jv_time = (\<lambda>v f. Some (int v))\<rparr>"

theorem cleanup_skip_justified_witness:
  "\<exists>bs stats. cleanup_buckets plain_view (empty_store :: nat store) 5 = Inr (bs, stats) \<and> stats = zero_stats"
proof -
  have n: "\<not> cleanup_needed plain_view (empty_store :: nat store) 5"
    by (simp add: cleanup_needed_def empty_store_def db_bucket_def bucket_count_def has_expired_def
        has_orphan_candidates_def Let_def)
  obtain bs stats where r: "cleanup_buckets plain_view (empty_store :: nat store) 5 = Inr (bs, stats)"
    by (simp add: cleanup_buckets_def empty_store_def db_bucket_def Let_def)
  from cleanup_skip_justified [OF n r] r show ?thesis by blast
qed

text \<open>C29. A successful clean-up bounds the store and loses nothing that is still live: the probe and
  event buckets end within their limits, no candidate is left without its change set, and every
  change set and transaction whose state is not terminal is kept.\<close>

theorem cleanup_bounds_and_keeps:
  assumes "store_wf s" and "cleanup vw s now = (Inr stats, s')"
    and "0 < rp_max_probe_results (st_retention s)" and "0 < rp_max_events (st_retention s)"
  shows "bucket_count (db_bucket s' ''probes'') \<le> rp_max_probe_results (st_retention s) \<and>
    bucket_count (db_bucket s' ''events'') \<le> rp_max_events (st_retention s) \<and>
    \<not> has_orphan_candidates (db_bucket s' ''candidates'') (db_bucket s' ''changes'') \<and>
    (\<forall>b \<in> {''changes'', ''transactions''}. \<forall>k v. db_get s b k = Some v \<longrightarrow>
       jv_state vw v \<notin> set terminal_states \<longrightarrow> db_get s' b k = Some v)"
proof (cases "cleanup_needed vw s now")
  case False
  with assms(2) have "s' = noop_write s" by (simp add: cleanup_def)
  with False show ?thesis by (auto simp: cleanup_needed_def Let_def)
next
  case True
  let ?rp = "st_retention s"
  obtain bs where r: "cleanup_buckets vw s now = Inr (bs, stats)" and
    s': "s' = record_persistent_write ''retention_cleanup'' 0 (s\<lparr>st_buckets := bs\<rparr>)"
    using assms(2) True by (auto simp: cleanup_def split: sum.splits prod.splits option.splits)
  obtain events n_ev changes n_ch txs n_tx where
    "delete_expired vw (now - rp_event_retention ?rp) [''time''] None
       (db_bucket s ''events'') = Inr (events, n_ev)" and
    c: "delete_expired vw (now - rp_change_set_retention ?rp) [''updated_at'']
       (Some terminal_states) (db_bucket s ''changes'') = Inr (changes, n_ch)" and
    t: "delete_expired vw (now - rp_transaction_retention ?rp) [''completed_at'', ''updated_at'']
       (Some terminal_states) (db_bucket s ''transactions'') = Inr (txs, n_tx)" and
    bs: "map_of bs ''probes'' = trim_bucket (rp_max_probe_results ?rp) (db_bucket s ''probes'')"
      "map_of bs ''events'' = trim_bucket (rp_max_events ?rp) events"
      "map_of bs ''changes'' = changes"
      "map_of bs ''candidates'' = delete_orphans (db_bucket s ''candidates'') changes"
      "map_of bs ''transactions'' = txs" and
    "\<forall>n. n \<notin> {''probes'', ''events'', ''changes'', ''candidates'', ''transactions''} \<longrightarrow>
       map_of bs n = db_bucket s n" and
    "stats = \<lparr>cs_probes = bucket_count (db_bucket s ''probes'') -
         bucket_count (trim_bucket (rp_max_probe_results ?rp) (db_bucket s ''probes'')),
       cs_events = n_ev + (bucket_count events - bucket_count (trim_bucket (rp_max_events ?rp) events)),
       cs_change_sets = n_ch, cs_transactions = n_tx\<rparr>"
    using cleanup_buckets_spec [OF r] by blast
  have d: "db_bucket s' n = map_of bs n" for n
    by (simp add: s') (simp add: db_bucket_def)
  have live: "\<not> value_deletable vw x fs (Some terminal_states) v"
    if "jv_state vw v \<notin> set terminal_states" for x fs v
    using that by (simp add: value_deletable_def state_selected_def)
  have keep: "db_get s' b k = Some v" if "b \<in> {''changes'', ''transactions''}"
    "db_get s b k = Some v" "jv_state vw v \<notin> set terminal_states" for b k v
    using that delete_expired_keeps [OF c, of k v] delete_expired_keeps [OF t, of k v]
      store_wf_distinct [OF assms(1)] live
    by (auto simp: db_get_def d bs)
  show ?thesis
    using assms(3,4) keep by (simp add: d bs trim_bucket_count delete_orphans_none)
qed

theorem cleanup_bounds_and_keeps_witness:
  "\<exists>stats s'. cleanup plain_view ((empty_store :: nat store)\<lparr>st_buckets :=
       [(''events'', [(''a'', 1), (''b'', 90), (''c'', 91), (''d'', 92)])]\<rparr>) 100 = (Inr stats, s') \<and>
     bucket_count (db_bucket s' ''events'') \<le> 2"
proof -
  let ?s = "(empty_store :: nat store)\<lparr>st_buckets :=
       [(''events'', [(''a'', 1), (''b'', 90), (''c'', 91), (''d'', 92)])]\<rparr>"
  have w: "store_wf ?s" by (simp add: store_wf_def)
  have "\<not> isl (fst (cleanup plain_view ?s 100))" by code_simp
  then obtain stats s' where r: "cleanup plain_view ?s 100 = (Inr stats, s')"
    by (cases "cleanup plain_view ?s 100"; cases "fst (cleanup plain_view ?s 100)") auto
  have "bucket_count (db_bucket s' ''events'') \<le> 2"
    using cleanup_bounds_and_keeps [OF w r] by (simp add: empty_store_def)
  with r show ?thesis by blast
qed

end
