(* ===== verification/Domain_Cache.thy ===== *)
theory Domain_Cache
  imports State_Store
begin

text \<open>
  The cache of domain decisions (\<^verbatim>\<open>internal/domaincache/cache.go\<close>): a bounded map from keys
  \<open>exact:<domain>\<close> and \<open>base:<eTLD+1>\<close> to revision-bound routing decisions, backed by the bucket
  \<^verbatim>\<open>domain_decisions\<close> of the durable store. A stored text that does not decode to a decision is
  \<open>None\<close>. The map is an association list in the order an iteration visits it.
\<close>

section \<open>State\<close>

record decision =
  dd_key :: string
  dd_scope :: string
  dd_domain :: string
  dd_etld_plus_one :: string
  dd_service :: string
  dd_category :: string
  dd_classification_state :: string
  dd_classification_reason :: string
  dd_tspu_status :: string
  dd_inventory_hash :: string
  dd_selected_route :: string
  dd_selected_type :: string
  dd_status :: string
  dd_reason :: string
  dd_adapter_revision :: string
  dd_confidence :: f64val
  dd_classification_confidence :: f64val
  dd_classification_source :: string
  dd_classification_evidence :: string
  dd_verification_duration_ms :: int
  dd_results :: "route_result list"
  dd_checked_at :: gotime
  dd_expires_at :: gotime
  dd_last_used_at :: gotime

definition zero_decision :: decision where
  "zero_decision = \<lparr>dd_key = [], dd_scope = [], dd_domain = [], dd_etld_plus_one = [],
     dd_service = [], dd_category = [], dd_classification_state = [],
     dd_classification_reason = [], dd_tspu_status = [], dd_inventory_hash = [],
     dd_selected_route = [], dd_selected_type = [], dd_status = [], dd_reason = [],
     dd_adapter_revision = [], dd_confidence = 0, dd_classification_confidence = 0,
     dd_classification_source = [], dd_classification_evidence = [],
     dd_verification_duration_ms = 0, dd_results = [], dd_checked_at = 0, dd_expires_at = 0,
     dd_last_used_at = 0\<rparr>"

record domain_cache =
  dc_store :: "decision option store"
  dc_max :: nat
  dc_decisions :: "(string \<times> decision) list"
  dc_checkpoints :: "(string \<times> gotime) list"

definition dc_bucket :: string where
  "dc_bucket = ''domain_decisions''"

definition domain_checkpoint_interval :: duration where
  "domain_checkpoint_interval = 15 * minute"

section \<open>Keys and identities\<close>

definition exact_key :: "string \<Rightarrow> string" where
  "exact_key d = ''exact:'' @ d"

definition base_key :: "string \<Rightarrow> string" where
  "base_key d = ''base:'' @ d"

definition decision_route_identity :: "decision \<Rightarrow> string" where
  "decision_route_identity d = join_with ''|''
     [dd_status d, dd_category d, dd_tspu_status d, dd_selected_type d, dd_selected_route d]"

definition persistent_decision_identity :: "decision \<Rightarrow> string" where
  "persistent_decision_identity d = join_with ''|''
     [decision_route_identity d, dd_service d, dd_adapter_revision d]"

definition validate_decision :: "domain_lib \<Rightarrow> decision \<Rightarrow> error option" where
  "validate_decision lib d =
     (if dd_key d = [] \<or> dd_scope d \<noteq> ''exact'' \<and> dd_scope d \<noteq> ''etld_plus_one'' \<or>
         dd_service d = [] \<or> dd_category d = [] \<or> dd_status d = [] \<or> dd_adapter_revision d = [] \<or>
         dd_confidence d < 0 \<or> dd_confidence d > 1 \<or> dd_classification_confidence d < 0 \<or>
         dd_classification_confidence d > 1 \<or> dd_checked_at d = 0 \<or> dd_expires_at d = 0 \<or>
         \<not> dd_checked_at d < dd_expires_at d
      then Some ''invalid domain decision metadata''
      else case normalize_domain lib (dd_domain d) of
        Inl _ \<Rightarrow> Some ''invalid domain decision identity''
      | Inr n \<Rightarrow>
          (if n \<noteq> dd_domain d \<or> etld_plus_one lib n \<noteq> dd_etld_plus_one d
           then Some ''invalid domain decision identity''
           else if dd_key d \<noteq> (if dd_scope d = ''exact'' then exact_key (dd_domain d)
                              else base_key (dd_etld_plus_one d))
           then Some ''domain decision key mismatch''
           else if dd_selected_route d = [] \<and> dd_status d = ''SELECTED''
           then Some ''selected decision lacks a route''
           else None))"

definition key_for_domain :: "domain_lib \<Rightarrow> string \<Rightarrow> string \<Rightarrow> string result" where
  "key_for_domain lib domain scope =
     (case normalize_domain lib domain of
        Inl e \<Rightarrow> Inl e
      | Inr n \<Rightarrow>
          (if scope = ''exact'' then Inr (exact_key n)
           else if scope = ''etld_plus_one'' then Inr (base_key (etld_plus_one lib n))
           else Inl (''unsupported decision scope: '' @ scope)))"

section \<open>Removal and pruning\<close>

definition cache_forget :: "string \<Rightarrow> domain_cache \<Rightarrow> domain_cache" where
  "cache_forget key c = c\<lparr>dc_decisions := AList.delete key (dc_decisions c),
     dc_checkpoints := AList.delete key (dc_checkpoints c)\<rparr>"

text \<open>Delete from the store, tolerating a missing key, then from the two maps.\<close>

definition cache_remove :: "string \<Rightarrow> domain_cache \<Rightarrow> error option \<times> domain_cache" where
  "cache_remove key c =
     (case store_delete (dc_store c) dc_bucket key of
        (Some e, s) \<Rightarrow>
          (if e \<noteq> err_not_found then (Some e, c\<lparr>dc_store := s\<rparr>)
           else (None, cache_forget key (c\<lparr>dc_store := s\<rparr>)))
      | (None, s) \<Rightarrow> (None, cache_forget key (c\<lparr>dc_store := s\<rparr>)))"

fun cache_remove_all :: "string list \<Rightarrow> domain_cache \<Rightarrow> error option \<times> domain_cache" where
  "cache_remove_all [] c = (None, c)"
| "cache_remove_all (k # ks) c =
     (case cache_remove k c of
        (Some e, c') \<Rightarrow> (Some e, c')
      | (None, c') \<Rightarrow> cache_remove_all ks c')"

definition used_less :: "decision \<Rightarrow> decision \<Rightarrow> bool" where
  "used_less a b =
     (if dd_last_used_at a = dd_last_used_at b then dd_checked_at a < dd_checked_at b
      else dd_last_used_at a < dd_last_used_at b)"

text \<open>
  First the expired entries, then the least recently used ones beyond the capacity. Entries
  with equal times leave in the order of the map, which stands for any order.
\<close>

definition prune :: "gotime \<Rightarrow> domain_cache \<Rightarrow> error option \<times> domain_cache" where
  "prune now c =
     (case cache_remove_all
             (map fst (filter (\<lambda>(k, d). \<not> now < dd_expires_at d) (dc_decisions c))) c of
        (Some e, c1) \<Rightarrow> (Some e, c1)
      | (None, c1) \<Rightarrow>
          (if length (dc_decisions c1) \<le> dc_max c1 then (None, c1)
           else let items = sort_stable used_less (map snd (dc_decisions c1)) in
             cache_remove_all (map dd_key (take (length items - dc_max c1) items)) c1))"

section \<open>New\<close>

definition clamp_max_entries :: "int \<Rightarrow> nat" where
  "clamp_max_entries n =
     (let m = (if n \<le> 0 then 20000 else n) in nat (if m > 100000 then 100000 else m))"

fun load_decisions :: "domain_lib \<Rightarrow> decision option list \<Rightarrow> domain_cache \<Rightarrow> error option \<times> domain_cache" where
  "load_decisions lib [] c = (None, c)"
| "load_decisions lib (None # raws) c = (Some ''invalid persisted domain decision'', c)"
| "load_decisions lib (Some d # raws) c =
     (if dd_selected_route d = [] then
        (if dd_key d = [] then load_decisions lib raws c
         else case store_delete (dc_store c) dc_bucket (dd_key d) of
           (Some e, s) \<Rightarrow>
             (if e \<noteq> err_not_found then (Some e, c\<lparr>dc_store := s\<rparr>)
              else load_decisions lib raws (c\<lparr>dc_store := s\<rparr>))
         | (None, s) \<Rightarrow> load_decisions lib raws (c\<lparr>dc_store := s\<rparr>))
      else if validate_decision lib d \<noteq> None then (Some ''invalid persisted domain decision'', c)
      else load_decisions lib raws
        (c\<lparr>dc_decisions := AList.update (dd_key d) d (dc_decisions c),
           dc_checkpoints := AList.update (dd_key d) (dd_checked_at d) (dc_checkpoints c)\<rparr>))"

definition new_domain_cache ::
    "domain_lib \<Rightarrow> decision option store \<Rightarrow> int \<Rightarrow> gotime \<Rightarrow> error option \<times> domain_cache" where
  "new_domain_cache lib s max_entries now =
     (let c = \<lparr>dc_store = s, dc_max = clamp_max_entries max_entries, dc_decisions = [],
               dc_checkpoints = []\<rparr> in
      case (case list_raw s dc_bucket of
              Inl e \<Rightarrow> (if e \<noteq> err_not_found then (Some e, c) else load_decisions lib [] c)
            | Inr raws \<Rightarrow> load_decisions lib raws c) of
        (Some e, c') \<Rightarrow> (Some e, c')
      | (None, c') \<Rightarrow> prune now c')"

section \<open>Lookup\<close>

fun lookup_keys ::
    "string \<Rightarrow> string \<Rightarrow> gotime \<Rightarrow> string list \<Rightarrow> domain_cache \<Rightarrow> decision option result \<times> domain_cache" where
  "lookup_keys exact revision now [] c = (Inr None, c)"
| "lookup_keys exact revision now (k # ks) c =
     (case map_of (dc_decisions c) k of
        None \<Rightarrow> lookup_keys exact revision now ks c
      | Some d \<Rightarrow>
          (if \<not> now < dd_expires_at d then
             (case cache_remove k c of
                (Some e, c') \<Rightarrow> (Inl e, c')
              | (None, c') \<Rightarrow> (if k = exact then (Inr None, c')
                             else lookup_keys exact revision now ks c'))
           else if revision \<noteq> [] \<and> dd_adapter_revision d \<noteq> revision then
             (if k = exact then (Inr None, c) else lookup_keys exact revision now ks c)
           else
             (let d' = d\<lparr>dd_last_used_at := now\<rparr> in
              if dd_last_used_at d = 0 \<or> time_sub now (dd_last_used_at d) \<ge> hour
              then (Inr (Some d'), c\<lparr>dc_decisions := AList.update k d' (dc_decisions c)\<rparr>)
              else (Inr (Some d), c))))"

definition cache_lookup ::
    "domain_lib \<Rightarrow> domain_cache \<Rightarrow> string \<Rightarrow> string \<Rightarrow> gotime \<Rightarrow> decision option result \<times> domain_cache" where
  "cache_lookup lib c domain revision now =
     (case normalize_domain lib domain of
        Inl e \<Rightarrow> (Inl e, c)
      | Inr n \<Rightarrow>
          (let base = etld_plus_one lib n;
               ks = exact_key n # (if base \<noteq> [] then [base_key base] else [])
           in lookup_keys (exact_key n) revision now ks c))"

section \<open>Save, Snapshot, Discard\<close>

text \<open>The identity part of the metadata that Save fills in, under the lock.\<close>

definition bind_decision ::
    "domain_lib \<Rightarrow> domain_cache \<Rightarrow> string \<Rightarrow> string \<Rightarrow> decision \<Rightarrow> decision" where
  "bind_decision lib c n base d =
     (let d1 = d\<lparr>dd_domain := n, dd_etld_plus_one := base,
                 dd_last_used_at := (if dd_last_used_at d = 0 then dd_checked_at d else dd_last_used_at d)\<rparr>
      in if n \<noteq> base \<and>
            (case map_of (dc_decisions c) (base_key base) of
               None \<Rightarrow> False
             | Some current \<Rightarrow> decision_route_identity current \<noteq> decision_route_identity d1)
         then d1\<lparr>dd_key := exact_key n, dd_scope := ''exact''\<rparr>
         else d1\<lparr>dd_key := base_key base, dd_scope := ''etld_plus_one''\<rparr>)"

definition checkpoint_fresh :: "domain_cache \<Rightarrow> decision \<Rightarrow> bool" where
  "checkpoint_fresh c d =
     (case map_of (dc_decisions c) (dd_key d) of
        None \<Rightarrow> False
      | Some previous \<Rightarrow>
          (let checkpoint = (case map_of (dc_checkpoints c) (dd_key d) of Some t \<Rightarrow> t | None \<Rightarrow> 0) in
           persistent_decision_identity previous = persistent_decision_identity d \<and>
           checkpoint \<noteq> 0 \<and> \<not> dd_checked_at d < checkpoint \<and>
           time_sub (dd_checked_at d) checkpoint < domain_checkpoint_interval))"

definition store_decision ::
    "(decision option \<Rightarrow> nat) \<Rightarrow> domain_cache \<Rightarrow> decision \<Rightarrow> decision result \<times> domain_cache" where
  "store_decision len c d =
     (let key = dd_key d;
          c1 = c\<lparr>dc_decisions := AList.update key d (dc_decisions c)\<rparr>
      in if checkpoint_fresh c d then (Inr d, c1)
         else case save_json len (dc_store c) dc_bucket key (Some d) of
           (Some e, s) \<Rightarrow>
             (Inl e, c1\<lparr>dc_store := s,
                dc_decisions := (case map_of (dc_decisions c) key of
                    Some previous \<Rightarrow> AList.update key previous (dc_decisions c1)
                  | None \<Rightarrow> AList.delete key (dc_decisions c1))\<rparr>)
         | (None, s) \<Rightarrow>
             (case prune (dd_checked_at d)
                     (c1\<lparr>dc_store := s,
                         dc_checkpoints := AList.update key (dd_checked_at d) (dc_checkpoints c1)\<rparr>) of
                (Some e, c2) \<Rightarrow> (Inl e, c2)
              | (None, c2) \<Rightarrow> (Inr d, c2)))"

definition cache_save ::
    "(decision option \<Rightarrow> nat) \<Rightarrow> domain_lib \<Rightarrow> domain_cache \<Rightarrow> string \<Rightarrow> decision \<Rightarrow> decision result \<times> domain_cache" where
  "cache_save len lib c domain d =
     (case normalize_domain lib domain of
        Inl e \<Rightarrow> (Inl e, c)
      | Inr n \<Rightarrow>
          (let base = etld_plus_one lib n in
           if base = [] then (Inl ''domain has no eTLD+1'', c)
           else if dd_checked_at d = 0 \<or> dd_expires_at d = 0 \<or> \<not> dd_checked_at d < dd_expires_at d \<or>
                   dd_adapter_revision d = []
           then (Inl ''complete revision-bound decision metadata is required'', c)
           else let b = bind_decision lib c n base d in
             case validate_decision lib b of
               Some e \<Rightarrow> (Inl e, c)
             | None \<Rightarrow> store_decision len c b))"

definition cache_snapshot :: "domain_cache \<Rightarrow> decision list" where
  "cache_snapshot c = sort_stable (\<lambda>a b. dd_key a < dd_key b) (map snd (dc_decisions c))"

definition cache_discard :: "domain_cache \<Rightarrow> string \<Rightarrow> error option \<times> domain_cache" where
  "cache_discard c key =
     (if \<not> has_prefix key ''exact:'' \<and> \<not> has_prefix key ''base:''
      then (Some ''invalid domain decision key'', c)
      else cache_remove key c)"

section \<open>The invariant\<close>

text \<open>
  Every cached decision is valid, sits under its own key, and is durable: the store holds, under
  the same key, a decision of the same persistent identity that was checked at the checkpoint,
  less than one checkpoint interval before the cached one.
\<close>

definition durable :: "domain_cache \<Rightarrow> string \<Rightarrow> decision \<Rightarrow> bool" where
  "durable c k d \<longleftrightarrow>
     (case (db_get (dc_store c) dc_bucket k, map_of (dc_checkpoints c) k) of
        (Some (Some d0), Some t) \<Rightarrow>
          dd_checked_at d0 = t \<and> t \<le> dd_checked_at d \<and> dd_checked_at d < t + domain_checkpoint_interval \<and>
          persistent_decision_identity d0 = persistent_decision_identity d
      | _ \<Rightarrow> False)"

definition store_keyed :: "decision option store \<Rightarrow> bool" where
  "store_keyed s \<longleftrightarrow> (\<forall>k d. db_get s dc_bucket k = Some (Some d) \<longrightarrow> dd_key d = k)"

definition cache_ok :: "domain_lib \<Rightarrow> domain_cache \<Rightarrow> bool" where
  "cache_ok lib c \<longleftrightarrow>
     distinct (map fst (dc_decisions c)) \<and> store_wf (dc_store c) \<and> store_keyed (dc_store c) \<and>
     (\<forall>k d. map_of (dc_decisions c) k = Some d \<longrightarrow>
        dd_key d = k \<and> validate_decision lib d = None \<and> durable c k d)"

lemma cache_forget_simps [simp]:
  "dc_store (cache_forget k c) = dc_store c" "dc_max (cache_forget k c) = dc_max c"
  "dc_decisions (cache_forget k c) = AList.delete k (dc_decisions c)"
  "dc_checkpoints (cache_forget k c) = AList.delete k (dc_checkpoints c)"
  by (simp_all add: cache_forget_def)

lemma cache_remove_cases:
  assumes "store_wf (dc_store c)"
  obtains (ok) s where "cache_remove k c = (None, cache_forget k (c\<lparr>dc_store := s\<rparr>))" "store_wf s"
      "\<forall>k'. db_get s dc_bucket k' = db_get (dc_store c) dc_bucket k' \<or> k' = k \<and> db_get s dc_bucket k' = None"
    | (err) e where "cache_remove k c = (Some e, c)"
proof (cases rule: db.del_cases [of "dc_store c" dc_bucket k])
  case (ok s)
  from db.del_ok [OF assms ok] ok show ?thesis by (intro that(1) [of s]) (auto simp: cache_remove_def)
next
  case (err e)
  then show ?thesis
  proof (cases "e = err_not_found")
    case True
    with err assms show ?thesis by (intro that(1) [of "dc_store c"]) (auto simp: cache_remove_def)
  qed (intro that(2) [of e], simp add: cache_remove_def err)
qed

lemma cache_forget_ok:
  assumes "cache_ok lib c" and "store_wf s"
    and "\<forall>k'. db_get s dc_bucket k' = db_get (dc_store c) dc_bucket k' \<or> k' = k \<and> db_get s dc_bucket k' = None"
  shows "cache_ok lib (cache_forget k (c\<lparr>dc_store := s\<rparr>))"
proof -
  have "store_keyed s"
    using assms(1,3) unfolding cache_ok_def store_keyed_def by (metis option.distinct(1))
  moreover have "durable (cache_forget k (c\<lparr>dc_store := s\<rparr>)) k' d"
    if "durable c k' d" "k' \<noteq> k" for k' d
  proof -
    have "db_get s dc_bucket k' = db_get (dc_store c) dc_bucket k'" using that(2) assms(3) by blast
    with that show ?thesis by (simp add: durable_def delete_conv')
  qed
  ultimately show ?thesis
    using assms(1,2) by (auto simp: cache_ok_def distinct_delete delete_conv' split: if_splits)
qed

lemma cache_remove_ok: "cache_ok lib c \<Longrightarrow> cache_ok lib (snd (cache_remove k c))"
proof -
  assume ok: "cache_ok lib c"
  then have "store_wf (dc_store c)" by (simp add: cache_ok_def)
  then show ?thesis
    by (cases rule: cache_remove_cases [of c k]) (simp_all add: ok cache_forget_ok)
qed

lemma cache_remove_all_ok: "cache_ok lib c \<Longrightarrow> cache_ok lib (snd (cache_remove_all ks c))"
proof (induction ks arbitrary: c)
  case (Cons k ks)
  have ok: "cache_ok lib (snd (cache_remove k c))" by (rule cache_remove_ok [OF Cons.prems])
  show ?case
    using ok Cons.IH [OF ok] by (cases "cache_remove k c"; cases "fst (cache_remove k c)") simp_all
qed simp

text \<open>A removal that reports no error leaves exactly the other entries, in their order.\<close>

lemma cache_remove_decisions:
  assumes "cache_ok lib c" and "cache_remove k c = (None, c')"
  shows "dc_decisions c' = filter (\<lambda>(k', d). k' \<noteq> k) (dc_decisions c) \<and> dc_max c' = dc_max c"
proof -
  have "store_wf (dc_store c)" using assms(1) by (simp add: cache_ok_def)
  then show ?thesis
    by (cases rule: cache_remove_cases [of c k])
      (use assms(2) in \<open>auto simp: AList.delete_eq intro!: filter_cong\<close>)
qed

lemma cache_remove_all_decisions:
  "cache_ok lib c \<Longrightarrow> cache_remove_all ks c = (None, c') \<Longrightarrow>
   dc_decisions c' = filter (\<lambda>(k, d). k \<notin> set ks) (dc_decisions c) \<and> dc_max c' = dc_max c"
proof (induction ks arbitrary: c)
  case (Cons k ks)
  from Cons.prems(2) obtain c1 where c1: "cache_remove k c = (None, c1)" "cache_remove_all ks c1 = (None, c')"
    by (auto split: prod.splits option.splits)
  have "cache_ok lib c1" using cache_remove_ok [OF Cons.prems(1), of k] c1(1) by simp
  from Cons.IH [OF this c1(2)] cache_remove_decisions [OF Cons.prems(1) c1(1)]
  show ?case by (auto intro!: filter_cong)
qed simp

lemma prune_ok: "cache_ok lib c \<Longrightarrow> cache_ok lib (snd (prune now c))"
proof -
  assume ok: "cache_ok lib c"
  let ?r = "cache_remove_all (map fst (filter (\<lambda>(k, d). \<not> now < dd_expires_at d) (dc_decisions c))) c"
  have "cache_ok lib (snd ?r)" by (rule cache_remove_all_ok [OF ok])
  then show ?thesis
    by (cases ?r; cases "fst ?r") (simp_all add: prune_def Let_def cache_remove_all_ok)
qed

lemma filter_notin_length:
  assumes "distinct (map fst xs)" and "distinct ks" and "set ks \<subseteq> fst ` set xs"
  shows "length (filter (\<lambda>(k, d). k \<notin> set ks) xs) = length xs - length ks"
proof -
  have "map fst (filter (\<lambda>(k, d). k \<notin> set ks) xs) = filter (\<lambda>k. k \<notin> set ks) (map fst xs)"
    by (induction xs) auto
  then have "length (filter (\<lambda>(k, d). k \<notin> set ks) xs) = length (filter (\<lambda>k. k \<notin> set ks) (map fst xs))"
    by (metis length_map)
  also have "\<dots> = card (set (map fst xs) - set ks)"
  proof -
    have "set (filter (\<lambda>k. k \<notin> set ks) (map fst xs)) = set (map fst xs) - set ks" by auto
    then show ?thesis using distinct_card [OF distinct_filter [OF assms(1), of "\<lambda>k. k \<notin> set ks"]] by metis
  qed
  also have "\<dots> = card (set (map fst xs)) - card (set ks)"
    using assms(3) by (intro card_Diff_subset) auto
  also have "\<dots> = length xs - length ks"
    using distinct_card [OF assms(1)] distinct_card [OF assms(2)] by simp
  finally show ?thesis .
qed

lemma prune_bound:
  assumes "cache_ok lib c" and "prune now c = (None, c')"
  shows "length (dc_decisions c') \<le> dc_max c \<and> dc_max c' = dc_max c \<and>
    set (dc_decisions c') \<subseteq> set (dc_decisions c) \<and> (\<forall>(k, d) \<in> set (dc_decisions c'). now < dd_expires_at d)"
proof -
  define ks where "ks = map fst (filter (\<lambda>(k, d). \<not> now < dd_expires_at d) (dc_decisions c))"
  obtain c1 where c1: "cache_remove_all ks c = (None, c1)"
    using assms(2) by (auto simp: prune_def ks_def [symmetric] split: prod.splits option.splits)
  have ok1: "cache_ok lib c1" using cache_remove_all_ok [OF assms(1), of ks] c1 by simp
  note d1 = cache_remove_all_decisions [OF assms(1) c1]
  have sub1: "set (dc_decisions c1) \<subseteq> set (dc_decisions c)" and
    live: "\<forall>(k, d) \<in> set (dc_decisions c1). now < dd_expires_at d"
  proof -
    show "set (dc_decisions c1) \<subseteq> set (dc_decisions c)" using d1 by auto
    have "now < dd_expires_at d" if "(k, d) \<in> set (dc_decisions c1)" for k d
    proof (rule ccontr)
      assume "\<not> now < dd_expires_at d"
      with that d1 have "k \<in> set ks" by (force simp: ks_def)
      moreover from that d1 have "k \<notin> set ks" by auto
      ultimately show False by blast
    qed
    then show "\<forall>(k, d) \<in> set (dc_decisions c1). now < dd_expires_at d" by blast
  qed
  show ?thesis
  proof (cases "length (dc_decisions c1) \<le> dc_max c1")
    case True
    then have "c' = c1" using assms(2) c1 by (simp add: prune_def ks_def [symmetric])
    with True d1 sub1 live show ?thesis by simp
  next
    case False
    let ?items = "sort_stable used_less (map snd (dc_decisions c1))"
    let ?ev = "map dd_key (take (length ?items - dc_max c1) ?items)"
    have r: "cache_remove_all ?ev c1 = (None, c')"
      using assms(2) c1 False by (simp add: prune_def Let_def ks_def [symmetric])
    note d2 = cache_remove_all_decisions [OF ok1 r]
    have keys: "map dd_key (map snd (dc_decisions c1)) = map fst (dc_decisions c1)"
      using ok1 by (auto simp: cache_ok_def)
    have m: "mset (map dd_key ?items) = mset (map fst (dc_decisions c1))"
      by (metis keys mset_map mset_sort_stable)
    have "distinct (map dd_key ?items)" "set (map dd_key ?items) = fst ` set (dc_decisions c1)"
      using ok1 m by (metis cache_ok_def mset_eq_imp_distinct_iff, metis m set_mset_mset set_map)
    then have "distinct ?ev" "set ?ev \<subseteq> fst ` set (dc_decisions c1)"
      by (metis distinct_take take_map, metis set_take_subset take_map)
    from filter_notin_length [OF _ this] ok1 d2
    have "length (dc_decisions c') = length (dc_decisions c1) - length ?ev"
      by (simp add: cache_ok_def)
    moreover have "length ?items = length (dc_decisions c1)"
      by (metis length_map length_sort_stable)
    ultimately show ?thesis using False d1 d2 sub1 live by auto
  qed
qed

section \<open>Save, Lookup and New keep it\<close>

lemma cache_ok_entry:
  "cache_ok lib c \<Longrightarrow> map_of (dc_decisions c) k = Some d \<Longrightarrow>
   dd_key d = k \<and> validate_decision lib d = None \<and> durable c k d"
  by (simp add: cache_ok_def)

lemma validate_decision_checked:
  "validate_decision lib d = None \<Longrightarrow> dd_checked_at d \<noteq> 0 \<and> dd_checked_at d < dd_expires_at d"
  by (simp add: validate_decision_def split: if_splits)

lemma checkpoint_fresh_durable:
  assumes "cache_ok lib c" and "checkpoint_fresh c d"
  shows "durable c (dd_key d) d"
proof -
  obtain p where p: "map_of (dc_decisions c) (dd_key d) = Some p"
    using assms(2) by (auto simp: checkpoint_fresh_def split: option.splits)
  from cache_ok_entry [OF assms(1) p] have "durable c (dd_key d) p" by simp
  with assms(2) p show ?thesis
    by (auto simp: durable_def checkpoint_fresh_def Let_def time_sub_def domain_checkpoint_interval_def
        split: option.splits if_splits)
qed

lemma cache_ok_update:
  assumes "cache_ok lib c" and "dd_key d = k" and "validate_decision lib d = None"
    and "store_wf s" and "store_keyed s"
    and "\<And>k'. k' \<noteq> k \<Longrightarrow> db_get s dc_bucket k' = db_get (dc_store c) dc_bucket k' \<and> map_of cp k' = map_of (dc_checkpoints c) k'"
    and "durable (c\<lparr>dc_store := s, dc_checkpoints := cp\<rparr>) k d"
  shows "cache_ok lib (c\<lparr>dc_decisions := AList.update k d (dc_decisions c), dc_store := s, dc_checkpoints := cp\<rparr>)"
proof -
  have "durable (c\<lparr>dc_store := s, dc_checkpoints := cp\<rparr>) k' d'"
    if "k' \<noteq> k" "durable c k' d'" for k' d'
    using that assms(6) [OF that(1)] by (simp add: durable_def)
  moreover have "durable (c\<lparr>dc_decisions := xs, dc_store := s, dc_checkpoints := cp\<rparr>) k' d' =
      durable (c\<lparr>dc_store := s, dc_checkpoints := cp\<rparr>) k' d'" for k' d' xs
    by (simp add: durable_def)
  ultimately show ?thesis
    using assms(1-5,7) by (auto simp: cache_ok_def distinct_update update_conv' split: if_splits)
qed

lemma store_decision_ok:
  assumes ok: "cache_ok lib c" and v: "validate_decision lib d = None"
  shows "cache_ok lib (snd (store_decision len c d))"
proof (cases "checkpoint_fresh c d")
  case True
  have "cache_ok lib (c\<lparr>dc_decisions := AList.update (dd_key d) d (dc_decisions c),
      dc_store := dc_store c, dc_checkpoints := dc_checkpoints c\<rparr>)"
    using ok v checkpoint_fresh_durable [OF ok True] by (intro cache_ok_update) (auto simp: cache_ok_def)
  with True show ?thesis by (simp add: store_decision_def Let_def)
next
  case False
  let ?k = "dd_key d"
  let ?c = "\<lambda>s. c\<lparr>dc_decisions := AList.update ?k d (dc_decisions c), dc_store := s,
      dc_checkpoints := AList.update ?k (dd_checked_at d) (dc_checkpoints c)\<rparr>"
  show ?thesis
  proof (cases rule: db.put_cases [of len "dc_store c" dc_bucket ?k "Some d"])
    case (ok s)
    have s: "store_wf s" "db_get s = (\<lambda>b k. if b = dc_bucket \<and> k = ?k then Some (Some d) else db_get (dc_store c) b k)"
      using db.put_ok [OF _ ok] assms(1) by (auto simp: cache_ok_def)
    have "store_keyed s" using assms(1) by (simp add: s store_keyed_def cache_ok_def)
    with s have "cache_ok lib (?c s)"
      using assms by (intro cache_ok_update) (auto simp: update_conv' durable_def domain_checkpoint_interval_def)
    from prune_ok [OF this, of "dd_checked_at d"] show ?thesis
      by (cases "prune (dd_checked_at d) (?c s)"; cases "fst (prune (dd_checked_at d) (?c s))")
        (simp_all add: store_decision_def Let_def False ok)
  next
    case (err e)
    have "cache_ok lib (c\<lparr>dc_decisions := (case map_of (dc_decisions c) ?k of
        Some previous \<Rightarrow> AList.update ?k previous (AList.update ?k d (dc_decisions c))
      | None \<Rightarrow> AList.delete ?k (AList.update ?k d (dc_decisions c)))\<rparr>)" (is "cache_ok lib (c\<lparr>dc_decisions := ?xs\<rparr>)")
    proof -
      have "map_of ?xs = map_of (dc_decisions c)"
        by (auto split: option.splits simp: update_conv' delete_conv' fun_eq_iff)
      moreover have "distinct (map fst ?xs)"
        using assms(1) by (auto simp: cache_ok_def distinct_update distinct_delete split: option.splits)
      ultimately show ?thesis using assms(1) by (simp add: cache_ok_def durable_def)
    qed
    with err False show ?thesis by (simp add: store_decision_def Let_def cong: option.case_cong)
  qed
qed

lemma cache_save_ok: "cache_ok lib c \<Longrightarrow> cache_ok lib (snd (cache_save len lib c domain d))"
  by (auto simp: cache_save_def Let_def store_decision_ok split: sum.splits option.splits)

lemma cache_ok_touch:
  assumes "cache_ok lib c" and "map_of (dc_decisions c) k = Some d"
  shows "cache_ok lib (c\<lparr>dc_decisions := AList.update k (d\<lparr>dd_last_used_at := t\<rparr>) (dc_decisions c)\<rparr>)"
proof -
  have i: "persistent_decision_identity (d\<lparr>dd_last_used_at := t\<rparr>) = persistent_decision_identity d"
    by (simp add: persistent_decision_identity_def decision_route_identity_def)
  have v: "validate_decision lib (d\<lparr>dd_last_used_at := t\<rparr>) = validate_decision lib d"
    by (simp add: validate_decision_def cong: sum.case_cong if_cong)
  have "durable (c\<lparr>dc_store := dc_store c, dc_checkpoints := dc_checkpoints c\<rparr>) k (d\<lparr>dd_last_used_at := t\<rparr>)"
    using cache_ok_entry [OF assms] by (simp add: durable_def i cong: option.case_cong)
  with cache_ok_entry [OF assms] assms(1)
  have "cache_ok lib (c\<lparr>dc_decisions := AList.update k (d\<lparr>dd_last_used_at := t\<rparr>) (dc_decisions c),
      dc_store := dc_store c, dc_checkpoints := dc_checkpoints c\<rparr>)"
    by (intro cache_ok_update) (auto simp: v cache_ok_def)
  then show ?thesis by simp
qed

lemma lookup_keys_ok: "cache_ok lib c \<Longrightarrow> cache_ok lib (snd (lookup_keys exact revision now ks c))"
proof (induction ks arbitrary: c)
  case (Cons k ks)
  show ?case
  proof (cases "map_of (dc_decisions c) k")
    case (Some d)
    obtain r c' where r: "cache_remove k c = (r, c')" by force
    have "cache_ok lib c'" using cache_remove_ok [OF Cons.prems, of k] r by simp
    moreover note Cons.IH [OF this] Cons.IH [OF Cons.prems] cache_ok_touch [OF Cons.prems Some, of now]
    ultimately show ?thesis
      using Cons.prems by (cases r) (auto simp: Some r Let_def)
  qed (simp add: Cons)
qed simp

lemma cache_lookup_ok: "cache_ok lib c \<Longrightarrow> cache_ok lib (snd (cache_lookup lib c domain revision now))"
  by (simp add: cache_lookup_def Let_def lookup_keys_ok split: sum.splits del: lookup_keys.simps)

lemma cache_discard_ok: "cache_ok lib c \<Longrightarrow> cache_ok lib (snd (cache_discard c key))"
  by (simp add: cache_discard_def cache_remove_ok)

text \<open>Loading: the texts still to be read are in the store under the keys they carry.\<close>

definition other_key :: "decision option \<Rightarrow> decision option \<Rightarrow> bool" where
  "other_key a b = (\<forall>d d'. a = Some d \<longrightarrow> b = Some d' \<longrightarrow> dd_key d \<noteq> dd_key d')"

lemma cache_ok_del_other:
  assumes "cache_ok lib c" and "store_wf s" and "map_of (dc_decisions c) k = None"
    and "db_get s = (\<lambda>b' k'. if b' = dc_bucket \<and> k' = k then None else db_get (dc_store c) b' k')"
  shows "cache_ok lib (c\<lparr>dc_store := s\<rparr>)"
proof -
  have "durable (c\<lparr>dc_store := s\<rparr>) k' d = durable c k' d" if "map_of (dc_decisions c) k' = Some d" for k' d
  proof -
    from that assms(3) have "k' \<noteq> k" by auto
    then show ?thesis by (simp add: durable_def assms(4))
  qed
  with assms show ?thesis by (simp add: cache_ok_def store_keyed_def)
qed

lemma load_decisions_ok:
  assumes "cache_ok lib c" and "sorted_wrt other_key raws"
    and "\<forall>d. Some d \<in> set raws \<longrightarrow> db_get (dc_store c) dc_bucket (dd_key d) = Some (Some d) \<and>
           map_of (dc_decisions c) (dd_key d) = None"
  shows "cache_ok lib (snd (load_decisions lib raws c))"
  using assms
proof (induction raws arbitrary: c)
  case (Cons raw raws)
  show ?case
  proof (cases raw)
    case (Some d)
    have rest: "dd_key d' \<noteq> dd_key d" if "Some d' \<in> set raws" for d'
      using Cons.prems(2) that Some by (fastforce simp: other_key_def)
    have here: "db_get (dc_store c) dc_bucket (dd_key d) = Some (Some d)" "map_of (dc_decisions c) (dd_key d) = None"
      using Cons.prems(3) Some by simp_all
    have sorted: "sorted_wrt other_key raws" using Cons.prems(2) by simp
    show ?thesis
    proof (cases "dd_selected_route d = []")
      case True
      show ?thesis
      proof (cases rule: db.del_cases [of "dc_store c" dc_bucket "dd_key d"])
        case (ok s)
        have s: "store_wf s"
          "db_get s = (\<lambda>b' k'. if b' = dc_bucket \<and> k' = dd_key d then None else db_get (dc_store c) b' k')"
          using db.del_ok [OF _ ok] Cons.prems(1) by (auto simp: cache_ok_def)
        have "cache_ok lib (snd (load_decisions lib raws (c\<lparr>dc_store := s\<rparr>)))"
          using Cons.prems(3) rest
          by (intro Cons.IH sorted cache_ok_del_other [OF Cons.prems(1) s(1) here(2) s(2)])
            (auto simp: s(2))
        moreover have "cache_ok lib (snd (load_decisions lib raws c))"
          using Cons.prems(3) by (intro Cons.IH [OF Cons.prems(1) sorted]) simp
        ultimately show ?thesis using Some True ok by simp
      next
        case (err e)
        have "cache_ok lib (snd (load_decisions lib raws c))"
          using Cons.prems(3) by (intro Cons.IH [OF Cons.prems(1) sorted]) simp
        with Some True err Cons.prems(1) show ?thesis by simp
      qed
    next
      case False
      let ?c = "c\<lparr>dc_decisions := AList.update (dd_key d) d (dc_decisions c), dc_store := dc_store c,
        dc_checkpoints := AList.update (dd_key d) (dd_checked_at d) (dc_checkpoints c)\<rparr>"
      have "cache_ok lib (snd (load_decisions lib raws ?c))" if v: "validate_decision lib d = None"
      proof (intro Cons.IH sorted)
        show "cache_ok lib ?c"
          using Cons.prems(1) here v
          by (intro cache_ok_update)
            (auto simp: cache_ok_def update_conv' durable_def domain_checkpoint_interval_def)
      qed (use Cons.prems(3) rest in \<open>auto simp: update_conv'\<close>)
      with Some False Cons.prems(1) show ?thesis by auto
    qed
  qed (simp add: Cons.prems(1))
qed simp

lemma new_domain_cache_ok:
  assumes "store_wf s" and "store_keyed s"
  shows "cache_ok lib (snd (new_domain_cache lib s n now))"
proof -
  define c where "c = \<lparr>dc_store = s, dc_max = clamp_max_entries n, dc_decisions = [], dc_checkpoints = []\<rparr>"
  have c: "cache_ok lib c" "dc_store c = s" "dc_decisions c = []"
    using assms by (simp_all add: c_def cache_ok_def)
  have load: "cache_ok lib (snd (load_decisions lib raws c))" if "list_raw s dc_bucket = Inr raws" for raws
  proof (cases "db_bucket s dc_bucket")
    case (Some b)
    with that have raws: "raws = map snd b" by (auto simp: list_raw_def split: if_splits)
    have keyed: "dd_key d = k" if "(k, Some d) \<in> set b" for k d
      using assms(2) Some that store_wf_distinct [OF assms(1) Some]
      by (auto simp: store_keyed_def db_get_def)
    have "sorted_wrt (\<lambda>x y. other_key (snd x) (snd y)) b"
      using store_wf_bucket [OF assms(1) Some] unfolding sorted_wrt_map
      by (rule sorted_wrt_mono_rel [rotated]) (use keyed in \<open>auto simp: other_key_def prod_eq_iff\<close>)
    then have "sorted_wrt other_key raws" by (simp add: raws sorted_wrt_map)
    then show ?thesis
      using keyed Some store_wf_distinct [OF assms(1) Some]
      by (intro load_decisions_ok c(1)) (auto simp: raws c db_get_def)
  qed (use that c in \<open>auto simp: list_raw_def split: if_splits\<close>)
  let ?r = "case list_raw s dc_bucket of
      Inl e \<Rightarrow> if e \<noteq> err_not_found then (Some e, c) else load_decisions lib [] c
    | Inr raws \<Rightarrow> load_decisions lib raws c"
  have "cache_ok lib (snd ?r)" using load c(1) by (simp split: sum.splits)
  moreover have "new_domain_cache lib s n now =
      (case ?r of (Some e, c') \<Rightarrow> (Some e, c') | (None, c') \<Rightarrow> prune now c')"
    by (simp only: new_domain_cache_def Let_def c_def)
  ultimately show ?thesis
    by (cases ?r; cases "fst ?r") (simp_all add: prune_ok)
qed

section \<open>Runs\<close>

text \<open>The caches a controller can hold: opened on a store, then any sequence of calls, failed
  ones included.\<close>

inductive cache_reachable :: "(decision option \<Rightarrow> nat) \<Rightarrow> domain_lib \<Rightarrow> domain_cache \<Rightarrow> bool"
  for len lib where
  cache_open: "store_wf s \<Longrightarrow> store_keyed s \<Longrightarrow> new_domain_cache lib s n now = (None, c) \<Longrightarrow>
     cache_reachable len lib c"
| cache_step_lookup: "cache_reachable len lib c \<Longrightarrow>
     cache_reachable len lib (snd (cache_lookup lib c domain revision now))"
| cache_step_save: "cache_reachable len lib c \<Longrightarrow>
     cache_reachable len lib (snd (cache_save len lib c domain d))"
| cache_step_discard: "cache_reachable len lib c \<Longrightarrow> cache_reachable len lib (snd (cache_discard c key))"

lemma cache_reachable_ok: "cache_reachable len lib c \<Longrightarrow> cache_ok lib c"
proof (induction rule: cache_reachable.induct)
  case (cache_open s n now c)
  then show ?case using new_domain_cache_ok [of s lib n now] by simp
qed (simp_all add: cache_lookup_ok cache_save_ok cache_discard_ok)

section \<open>What a lookup and a save return\<close>

lemma exact_base_keys [simp]:
  "exact_key a \<noteq> base_key b" "base_key b \<noteq> exact_key a"
  "exact_key a = exact_key b \<longleftrightarrow> a = b" "base_key a = base_key b \<longleftrightarrow> a = b"
  by (simp_all add: exact_key_def base_key_def)

lemma lookup_keys_hit:
  assumes "lookup_keys exact revision now ks c = (Inr (Some d), c')" and "cache_ok lib c"
  shows "\<exists>d0 k. k \<in> set ks \<and> d = d0\<lparr>dd_last_used_at := dd_last_used_at d\<rparr> \<and> dd_key d0 = k \<and>
    validate_decision lib d0 = None \<and> now < dd_expires_at d0 \<and> (revision = [] \<or> dd_adapter_revision d0 = revision)"
  using assms
proof (induction ks arbitrary: c)
  case (Cons k ks)
  show ?case
  proof (cases "map_of (dc_decisions c) k")
    case None
    with Cons show ?thesis by fastforce
  next
    case (Some d0)
    obtain r c1 where r: "cache_remove k c = (r, c1)" by force
    have ok1: "cache_ok lib c1" using cache_remove_ok [OF Cons.prems(2), of k] r by simp
    note e = cache_ok_entry [OF Cons.prems(2) Some]
    consider (hit) "now < dd_expires_at d0" "revision = [] \<or> dd_adapter_revision d0 = revision"
      | (gone) "lookup_keys exact revision now ks c1 = (Inr (Some d), c')"
      | (stale) "lookup_keys exact revision now ks c = (Inr (Some d), c')"
      using Cons.prems(1) by (auto simp: Some r split: if_splits option.splits)
    then show ?thesis
    proof cases
      case hit
      then have "d = d0\<lparr>dd_last_used_at := dd_last_used_at d\<rparr>"
        using Cons.prems(1) by (auto simp: Some Let_def split: if_splits)
      with hit e show ?thesis by auto
    next
      case gone
      from Cons.IH [OF gone ok1] show ?thesis by auto
    next
      case stale
      from Cons.IH [OF stale Cons.prems(2)] show ?thesis by auto
    qed
  qed
qed simp

lemma lookup_keys_exact_first:
  assumes "lookup_keys k revision now (k # ks) c = (Inr (Some d), c')" and "dd_key d \<noteq> k" and "cache_ok lib c"
  shows "map_of (dc_decisions c) k = None"
proof (rule ccontr)
  assume "map_of (dc_decisions c) k \<noteq> None"
  then obtain d0 where d0: "map_of (dc_decisions c) k = Some d0" by blast
  with cache_ok_entry [OF assms(3) d0] assms(1,2) show False
    by (auto simp: Let_def split: if_splits option.splits prod.splits)
qed

lemma validate_decision_identity:
  assumes "validate_decision lib d = None"
  shows "normalize_domain lib (dd_domain d) = Inr (dd_domain d)" "dd_etld_plus_one d = etld_plus_one lib (dd_domain d)"
    "dd_key d = (if dd_scope d = ''exact'' then exact_key (dd_domain d) else base_key (dd_etld_plus_one d))"
  using assms by (auto simp: validate_decision_def split: if_splits sum.splits)

lemma validate_touch [simp]:
  "validate_decision lib (d\<lparr>dd_last_used_at := t\<rparr>) = validate_decision lib d"
  by (simp add: validate_decision_def cong: sum.case_cong if_cong)

lemma bind_decision_simps [simp]:
  "dd_checked_at (bind_decision lib c n b d) = dd_checked_at d"
  "dd_expires_at (bind_decision lib c n b d) = dd_expires_at d"
  "dd_adapter_revision (bind_decision lib c n b d) = dd_adapter_revision d"
  "dd_selected_route (bind_decision lib c n b d) = dd_selected_route d"
  "dd_results (bind_decision lib c n b d) = dd_results d"
  "dd_domain (bind_decision lib c n b d) = n"
  "dd_etld_plus_one (bind_decision lib c n b d) = b"
  by (simp_all add: bind_decision_def Let_def)

text \<open>What a successful save did: bound, validated, entered.\<close>

lemma cache_save_success:
  assumes "cache_save len lib c domain d = (Inr b, c')"
  obtains n where "normalize_domain lib domain = Inr n" "etld_plus_one lib n \<noteq> []"
    "b = bind_decision lib c n (etld_plus_one lib n) d" "validate_decision lib b = None"
    "store_decision len c b = (Inr b, c')"
proof -
  have r: "store_decision len c x = (Inr y, z) \<Longrightarrow> y = x" for x y z
    by (auto simp: store_decision_def Let_def split: if_splits prod.splits option.splits)
  show ?thesis
    using assms that by (auto simp: cache_save_def Let_def split: sum.splits if_splits option.splits dest: r)
qed

lemma store_decision_success:
  assumes "cache_ok lib c" and "validate_decision lib d = None" and "store_decision len c d = (Inr b, c')"
  shows "c' = c\<lparr>dc_decisions := AList.update (dd_key d) d (dc_decisions c)\<rparr> \<and> checkpoint_fresh c d \<or>
    (\<exists>s cp. cache_ok lib (c\<lparr>dc_decisions := AList.update (dd_key d) d (dc_decisions c), dc_store := s, dc_checkpoints := cp\<rparr>) \<and>
      prune (dd_checked_at d)
        (c\<lparr>dc_decisions := AList.update (dd_key d) d (dc_decisions c), dc_store := s, dc_checkpoints := cp\<rparr>) = (None, c'))"
proof (cases "checkpoint_fresh c d")
  case True
  with assms(3) show ?thesis by (auto simp add: store_decision_def Let_def)
next
  case False
  let ?k = "dd_key d"
  let ?c = "\<lambda>s. c\<lparr>dc_decisions := AList.update ?k d (dc_decisions c), dc_store := s,
      dc_checkpoints := AList.update ?k (dd_checked_at d) (dc_checkpoints c)\<rparr>"
  obtain s where s: "save_json len (dc_store c) dc_bucket ?k (Some d) = (None, s)"
    using assms(3) False by (auto simp: store_decision_def Let_def split: prod.splits option.splits)
  have w: "store_wf s" "db_get s = (\<lambda>b k. if b = dc_bucket \<and> k = ?k then Some (Some d) else db_get (dc_store c) b k)"
    using db.put_ok [OF _ s] assms(1) by (auto simp: cache_ok_def)
  have "store_keyed s" using assms(1) by (simp add: w store_keyed_def cache_ok_def)
  with w have "cache_ok lib (?c s)"
    using assms by (intro cache_ok_update) (auto simp: update_conv' durable_def domain_checkpoint_interval_def)
  moreover have "prune (dd_checked_at d) (?c s) = (None, c')"
    using assms(3) False s by (auto simp: store_decision_def Let_def split: prod.splits option.splits)
  ultimately show ?thesis by blast
qed

lemma length_update:
  "length (AList.update k v xs) = (if k \<in> fst ` set xs then length xs else Suc (length xs))"
  by (induction xs) auto

lemma fresh_checkpoint_known: "checkpoint_fresh c d \<Longrightarrow> dd_key d \<in> fst ` set (dc_decisions c)"
  by (auto simp: checkpoint_fresh_def rev_image_eqI split: option.splits dest!: map_of_SomeD)

text \<open>Below its capacity a prune removes only what has expired.\<close>

lemma prune_keeps:
  assumes "cache_ok lib c" and "prune now c = (None, c')" and "length (dc_decisions c) \<le> dc_max c"
  shows "dc_decisions c' = filter (\<lambda>(k, d). now < dd_expires_at d) (dc_decisions c)"
proof -
  define ks where "ks = map fst (filter (\<lambda>(k, d). \<not> now < dd_expires_at d) (dc_decisions c))"
  obtain c1 where c1: "cache_remove_all ks c = (None, c1)"
    using assms(2) by (auto simp: prune_def ks_def [symmetric] split: prod.splits option.splits)
  note d1 = cache_remove_all_decisions [OF assms(1) c1]
  have "length (dc_decisions c1) \<le> dc_max c1"
    using d1 assms(3) by (metis le_trans length_filter_le)
  then have "c' = c1" using assms(2) c1 by (simp add: prune_def ks_def [symmetric])
  moreover have "k \<notin> set ks \<longleftrightarrow> now < dd_expires_at d" if "(k, d) \<in> set (dc_decisions c)" for k d
  proof -
    have "distinct (map fst (dc_decisions c))" using assms(1) by (simp add: cache_ok_def)
    note uniq = eq_key_imp_eq_value [OF this that]
    have "k \<in> set ks \<longleftrightarrow> (\<exists>d'. (k, d') \<in> set (dc_decisions c) \<and> \<not> now < dd_expires_at d')"
      unfolding ks_def by (auto simp: image_iff)
    with uniq that show ?thesis by blast
  qed
  ultimately show ?thesis using d1 by (auto intro!: filter_cong)
qed

section \<open>Properties\<close>


definition sample_decision :: decision where
  "sample_decision = zero_decision\<lparr>dd_service := ''UNKNOWN:ex.io'', dd_category := ''DIRECT_PREFERRED'',
     dd_status := ''SELECTED'', dd_selected_route := ''direct-main'', dd_selected_type := ''direct'',
     dd_adapter_revision := ''rev-1'', dd_confidence := 1, dd_checked_at := 100, dd_expires_at := 200\<rparr>"

definition sample_lib :: domain_lib where
  "sample_lib = \<lparr>dl_to_ascii = Some, dl_etld_plus_one = (\<lambda>d. Some ''ex.io'')\<rparr>"

definition sample_cache :: domain_cache where
  "sample_cache = snd (new_domain_cache sample_lib empty_store 10 50)"

lemma sample_cache_reachable: "cache_reachable len sample_lib sample_cache"
proof -
  have "fst (new_domain_cache sample_lib empty_store 10 50) = None" by code_simp
  then have "new_domain_cache sample_lib empty_store 10 50 = (None, sample_cache)"
    unfolding sample_cache_def by (metis prod.collapse)
  then show ?thesis
    by (rule cache_open [rotated 2, OF _ empty_store_wf])
      (simp add: store_keyed_def empty_store_def db_get_def db_bucket_def)
qed


text \<open>C20. A cached decision is returned only where it applies: a hit is unexpired, of the active
  adapter revision, valid, and was decided either for this very domain, or for its registrable
  domain when no decision for the exact domain exists.\<close>

theorem cache_lookup_sound:
  assumes "cache_reachable len lib c" and "cache_lookup lib c domain revision now = (Inr (Some d), c')"
  shows "\<exists>n. normalize_domain lib domain = Inr n \<and> validate_decision lib d = None \<and>
    now < dd_expires_at d \<and> (revision \<noteq> [] \<longrightarrow> dd_adapter_revision d = revision) \<and>
    (dd_scope d = ''exact'' \<and> dd_domain d = n \<or>
     dd_scope d = ''etld_plus_one'' \<and> dd_etld_plus_one d = etld_plus_one lib n \<and>
       map_of (dc_decisions c) (exact_key n) = None)"
proof -
  have ok: "cache_ok lib c" by (rule cache_reachable_ok [OF assms(1)])
  obtain n where n: "normalize_domain lib domain = Inr n"
    using assms(2) by (auto simp: cache_lookup_def split: sum.splits)
  let ?base = "etld_plus_one lib n"
  let ?ks = "exact_key n # (if ?base \<noteq> [] then [base_key ?base] else [])"
  have l: "lookup_keys (exact_key n) revision now ?ks c = (Inr (Some d), c')"
    using assms(2) by (simp add: cache_lookup_def n Let_def del: lookup_keys.simps)
  obtain d0 k where d0: "k \<in> set ?ks" "d = d0\<lparr>dd_last_used_at := dd_last_used_at d\<rparr>" "dd_key d0 = k"
    "validate_decision lib d0 = None" "now < dd_expires_at d0" "revision = [] \<or> dd_adapter_revision d0 = revision"
    using lookup_keys_hit [OF l ok] by blast
  obtain t where t: "d = d0\<lparr>dd_last_used_at := t\<rparr>" using d0(2) by blast
  note vi = validate_decision_identity [OF d0(4)]
  have sc: "dd_scope d0 = ''exact'' \<or> dd_scope d0 = ''etld_plus_one''"
    using d0(4) by (auto simp: validate_decision_def split: if_splits)
  have base: "map_of (dc_decisions c) (exact_key n) = None" if "dd_scope d0 \<noteq> ''exact''"
  proof -
    have "dd_key d \<noteq> exact_key n" using vi(3) that by (simp add: t)
    from lookup_keys_exact_first [OF l this ok] show ?thesis .
  qed
  have "dd_scope d0 = ''exact'' \<and> dd_domain d0 = n \<or>
      dd_scope d0 = ''etld_plus_one'' \<and> dd_etld_plus_one d0 = ?base \<and> map_of (dc_decisions c) (exact_key n) = None"
  proof (cases "dd_scope d0 = ''exact''")
    case True
    with vi(3) d0(1,3) show ?thesis by (simp split: if_splits)
  next
    case False
    with vi(3) d0(1,3) sc base show ?thesis by (simp split: if_splits)
  qed
  with d0(4-6) n show ?thesis by (auto simp: t)
qed

theorem cache_lookup_sound_witness:
  "\<exists>(c :: domain_cache) d c'. cache_lookup sample_lib c ''s.ex.io'' ''rev-1'' 150 = (Inr (Some d), c') \<and>
     dd_scope d = ''etld_plus_one''"
proof -
  define c where "c = snd (cache_save (\<lambda>_. 1) sample_lib sample_cache ''w.ex.io'' sample_decision)"
  have r: "cache_reachable (\<lambda>_. 1) sample_lib c"
    unfolding c_def by (intro cache_step_save sample_cache_reachable)
  have "(case fst (cache_lookup sample_lib c ''s.ex.io'' ''rev-1'' 150) of
      Inr (Some d) \<Rightarrow> dd_domain d \<noteq> ''s.ex.io'' | _ \<Rightarrow> False)"
    unfolding c_def by code_simp
  then obtain d c' where l: "cache_lookup sample_lib c ''s.ex.io'' ''rev-1'' 150 = (Inr (Some d), c')"
    and dom: "dd_domain d \<noteq> ''s.ex.io''"
    by (cases "cache_lookup sample_lib c ''s.ex.io'' ''rev-1'' 150") (auto split: sum.splits option.splits)
  have n: "normalize_domain sample_lib ''s.ex.io'' = Inr ''s.ex.io''" by code_simp
  from cache_lookup_sound [OF r l] dom have "dd_scope d = ''etld_plus_one''" by (auto simp: n)
  with l show ?thesis by blast
qed

text \<open>The cache is bounded: a manager never holds more than the configured number of decisions
  (which is clamped to at most 100000) once it is open, as long as saves succeed.\<close>

theorem cache_bounded:
  assumes "cache_reachable len lib c" and "length (dc_decisions c) \<le> dc_max c"
    and "cache_save len lib c domain d = (Inr b, c')"
  shows "length (dc_decisions c') \<le> dc_max c' \<and> dc_max c' = dc_max c"
proof -
  have ok: "cache_ok lib c" by (rule cache_reachable_ok [OF assms(1)])
  obtain n where n: "b = bind_decision lib c n (etld_plus_one lib n) d" "validate_decision lib b = None"
    "store_decision len c b = (Inr b, c')"
    using cache_save_success [OF assms(3)] by blast
  show ?thesis
    using store_decision_success [OF ok n(2,3)]
  proof (elim disjE exE conjE)
    fix s cp
    let ?c = "c\<lparr>dc_decisions := AList.update (dd_key b) b (dc_decisions c), dc_store := s, dc_checkpoints := cp\<rparr>"
    assume "cache_ok lib ?c" "prune (dd_checked_at b) ?c = (None, c')"
    from prune_bound [OF this] show ?thesis by simp
  next
    assume "c' = c\<lparr>dc_decisions := AList.update (dd_key b) b (dc_decisions c)\<rparr>" "checkpoint_fresh c b"
    with assms(2) fresh_checkpoint_known show ?thesis by (simp add: length_update)
  qed
qed

theorem cache_bounded_witness:
  "\<exists>b c'. cache_save (\<lambda>_. 1) sample_lib sample_cache ''w.ex.io'' sample_decision = (Inr b, c') \<and>
     length (dc_decisions c') \<le> 10"
proof -
  have m: "dc_max sample_cache = 10" "length (dc_decisions sample_cache) \<le> dc_max sample_cache" by code_simp+
  have "\<not> isl (fst (cache_save (\<lambda>_. 1) sample_lib sample_cache ''w.ex.io'' sample_decision))" by code_simp
  then obtain b c' where b: "cache_save (\<lambda>_. 1) sample_lib sample_cache ''w.ex.io'' sample_decision = (Inr b, c')"
    by (cases "cache_save (\<lambda>_. 1) sample_lib sample_cache ''w.ex.io'' sample_decision";
        cases "fst (cache_save (\<lambda>_. 1) sample_lib sample_cache ''w.ex.io'' sample_decision)") auto
  from cache_bounded [OF sample_cache_reachable m(2) b] m(1) b show ?thesis by auto
qed

text \<open>What was saved is found: after a successful save below the capacity, a lookup of the same
  domain under the same revision before the expiry returns the saved decision, provided no
  decision of an earlier save still sits under the exact key of the domain.\<close>

theorem save_then_lookup:
  assumes "cache_reachable len lib c" and "cache_save len lib c domain d = (Inr b, c')"
    and "length (dc_decisions c) < dc_max c" and "now < dd_expires_at d"
    and "revision = [] \<or> revision = dd_adapter_revision d"
    and "dd_scope b = ''exact'' \<or> map_of (dc_decisions c) (exact_key (dd_domain b)) = None"
  shows "\<exists>b' c''. cache_lookup lib c' domain revision now = (Inr (Some b'), c'') \<and>
    b' = b\<lparr>dd_last_used_at := dd_last_used_at b'\<rparr> \<and> dd_selected_route b' = dd_selected_route d \<and>
    dd_results b' = dd_results d"
proof -
  have ok: "cache_ok lib c" by (rule cache_reachable_ok [OF assms(1)])
  obtain n where n: "normalize_domain lib domain = Inr n" "etld_plus_one lib n \<noteq> []"
    "b = bind_decision lib c n (etld_plus_one lib n) d" "validate_decision lib b = None"
    "store_decision len c b = (Inr b, c')"
    using cache_save_success [OF assms(2)] .
  have fields: "dd_domain b = n" "dd_etld_plus_one b = etld_plus_one lib n" "dd_expires_at b = dd_expires_at d"
    "dd_adapter_revision b = dd_adapter_revision d" "dd_selected_route b = dd_selected_route d"
    "dd_results b = dd_results d"
    by (simp_all add: n(3))
  note key = validate_decision_identity(3) [OF n(4), unfolded fields]
  let ?xs = "AList.update (dd_key b) b (dc_decisions c)"
  have dist: "distinct (map fst ?xs)" using ok by (simp add: cache_ok_def distinct_update)
  have in': "map_of (dc_decisions c') (dd_key b) = Some b \<and>
      (\<forall>k. map_of ?xs k = None \<longrightarrow> map_of (dc_decisions c') k = None)"
    using store_decision_success [OF ok n(4,5)]
  proof (elim disjE exE conjE)
    fix s cp
    let ?c = "c\<lparr>dc_decisions := ?xs, dc_store := s, dc_checkpoints := cp\<rparr>"
    assume ok': "cache_ok lib ?c" and p: "prune (dd_checked_at b) ?c = (None, c')"
    have "length (dc_decisions ?c) \<le> dc_max ?c" using assms(3) by (simp add: length_update)
    from prune_keeps [OF ok' p this]
    have xs: "dc_decisions c' = filter (\<lambda>(k, d). dd_checked_at b < dd_expires_at d) ?xs" by simp
    have "dd_checked_at b < dd_expires_at b" using validate_decision_checked [OF n(4)] by simp
    then show ?thesis
      using dist by (auto simp: xs map_of_filter update_conv')
  next
    assume "c' = c\<lparr>dc_decisions := ?xs\<rparr>"
    then show ?thesis by (simp add: update_conv')
  qed
  show ?thesis
  proof (cases "dd_scope b = ''exact''")
    case True
    then have "dd_key b = exact_key n" using key by simp
    with in' show ?thesis
      using n(1,2) assms(4,5) fields by (auto simp: cache_lookup_def Let_def)
  next
    case False
    then have k: "dd_key b = base_key (etld_plus_one lib n)" using key by simp
    have "map_of (dc_decisions c') (exact_key n) = None"
      using in' assms(6) False by (auto simp: k update_conv' fields)
    with in' k show ?thesis
      using n(1,2) assms(4,5) fields by (auto simp: cache_lookup_def Let_def)
  qed
qed

theorem save_then_lookup_witness:
  "\<exists>(c :: domain_cache) b c''. cache_lookup sample_lib c ''w.ex.io'' ''rev-1'' 150 = (Inr (Some b), c'') \<and>
     dd_selected_route b = ''direct-main''"
proof -
  have m: "length (dc_decisions sample_cache) < dc_max sample_cache" by code_simp
  have "\<not> isl (fst (cache_save (\<lambda>_. 1) sample_lib sample_cache ''w.ex.io'' sample_decision))" by code_simp
  then obtain b c' where b: "cache_save (\<lambda>_. 1) sample_lib sample_cache ''w.ex.io'' sample_decision = (Inr b, c')"
    by (cases "cache_save (\<lambda>_. 1) sample_lib sample_cache ''w.ex.io'' sample_decision";
        cases "fst (cache_save (\<lambda>_. 1) sample_lib sample_cache ''w.ex.io'' sample_decision)") auto
  have e: "dc_decisions sample_cache = []" by code_simp
  have d: "(150::gotime) < dd_expires_at sample_decision" "''rev-1'' = dd_adapter_revision sample_decision"
    "dd_selected_route sample_decision = ''direct-main''"
    by (simp_all add: sample_decision_def zero_decision_def)
  have "''rev-1'' = [] \<or> ''rev-1'' = dd_adapter_revision sample_decision" using d(2) by blast
  moreover have "dd_scope b = ''exact'' \<or> map_of (dc_decisions sample_cache) (exact_key (dd_domain b)) = None"
    by (simp add: e)
  ultimately obtain b' c'' where
    "cache_lookup sample_lib c' ''w.ex.io'' ''rev-1'' 150 = (Inr (Some b'), c'')"
    "dd_selected_route b' = dd_selected_route sample_decision"
    using save_then_lookup [OF sample_cache_reachable b m d(1)] by blast
  with d(3) show ?thesis by metis
qed

definition save_route :: "string \<times> string \<Rightarrow> domain_cache \<Rightarrow> domain_cache" where
  "save_route = (\<lambda>(domain, route) c.
     snd (cache_save (\<lambda>_. 1) sample_lib c domain (sample_decision\<lparr>dd_selected_route := route\<rparr>)))"

definition shadow_cache :: domain_cache where
  "shadow_cache = fold save_route [(''w.ex.io'', ''direct-main''), (''s.ex.io'', ''vless-a'')] sample_cache"

text \<open>The proviso is needed: a decision that agrees with the one of the registrable domain is
  saved under the base key even when an older, different decision sits under the exact key, and
  the next lookup of the domain returns the older one.\<close>

theorem save_shadowed_by_exact:
  "case cache_save (\<lambda>_. 1) sample_lib shadow_cache ''s.ex.io''
          (sample_decision\<lparr>dd_selected_route := ''direct-main''\<rparr>) of
     (Inr b, c) \<Rightarrow>
       (case fst (cache_lookup sample_lib c ''s.ex.io'' ''rev-1'' 150) of
          Inr (Some old) \<Rightarrow> dd_selected_route b = ''direct-main'' \<and> dd_selected_route old = ''vless-a''
        | _ \<Rightarrow> False)
   | _ \<Rightarrow> False"
  by code_simp

end
