(* ===== verification/Planner.thy ===== *)
theory Planner
  imports Policy_Override Domain_Cache
begin

text \<open>
  The planner (\<^verbatim>\<open>internal/planner/planner.go\<close>): from a domain to the candidate routes a policy
  allows, through their probes, to the route selected among those with complete evidence, the
  classification of the domain and the decision that is cached.

  What the outside world answers during one check is a \<open>check_env\<close>: the results of the
  synchronous probes, the polls of the context, the clock, the library functions on domain names
  and the digest of an inventory. Theorems quantify over all of them.
\<close>

section \<open>Structs\<close>

record tspu_match =
  tm_status :: string
  tm_source :: string
  tm_confidence :: f64val
  tm_evidence :: string

record options =
  op_tspu_match :: bool
  op_tspu_result :: tspu_match
  op_health :: "health_tracker option"
  op_cache :: "domain_cache option"
  op_active_revision :: string
  op_device_mac :: string

record candidate_plan =
  cp_domain :: string
  cp_etld_plus_one :: string
  cp_service :: string
  cp_category :: string
  cp_unknown :: bool
  cp_tspu_status :: string
  cp_policy_source :: string
  cp_override_id :: string
  cp_inventory_hash :: string
  cp_candidates :: "route list"

record domain_check =
  dk_domain :: string
  dk_etld_plus_one :: string
  dk_service :: string
  dk_category :: string
  dk_tspu_status :: string
  dk_policy_source :: string
  dk_override_id :: string
  dk_cached :: bool
  dk_status :: string
  dk_reason :: string
  dk_confidence :: f64val
  dk_classification_confidence :: f64val
  dk_classification_source :: string
  dk_classification_evidence :: string
  dk_classification_state :: string
  dk_classification_reason :: string
  dk_initial_unknown_policy :: string
  dk_inventory_hash :: string
  dk_verification_state :: string
  dk_verification_duration_ms :: int
  dk_results :: "route_result list"
  dk_selected :: "route_result option"
  dk_checked_at :: gotime
  dk_expires_at :: gotime

definition zero_check :: domain_check where
  "zero_check = \<lparr>dk_domain = [], dk_etld_plus_one = [], dk_service = [], dk_category = [],
     dk_tspu_status = [], dk_policy_source = [], dk_override_id = [], dk_cached = False,
     dk_status = [], dk_reason = [], dk_confidence = 0, dk_classification_confidence = 0,
     dk_classification_source = [], dk_classification_evidence = [], dk_classification_state = [],
     dk_classification_reason = [], dk_initial_unknown_policy = [], dk_inventory_hash = [],
     dk_verification_state = [], dk_verification_duration_ms = 0, dk_results = [],
     dk_selected = None, dk_checked_at = 0, dk_expires_at = 0\<rparr>"

record service_profile =
  pf_domain :: string
  pf_base :: string
  pf_name :: string
  pf_service :: service
  pf_unknown :: bool
  pf_override :: "match_result option"

text \<open>
  What the digest of an inventory covers: the routes in canonical order, the service, the
  policy, the status and the coarse health of every tracked route.
\<close>

record inventory =
  iv_routes :: "route list"
  iv_service :: service
  iv_policy :: policy
  iv_tspu_status :: string
  iv_health :: "(string \<times> string \<times> string \<times> string) list"

record check_env =
  ce_lib :: domain_lib
  ce_digest :: "inventory \<Rightarrow> string"
  ce_probe :: "nat \<Rightarrow> string \<Rightarrow> string \<Rightarrow> service \<Rightarrow> route \<Rightarrow> route_result"
  ce_cancelled :: "nat \<Rightarrow> bool"
  ce_start :: gotime
  ce_observed_at :: "nat \<Rightarrow> gotime"
  ce_end :: gotime
  ce_wall :: gotime
  ce_elapsed_ms :: int
  ce_len :: "decision option \<Rightarrow> nat"

section \<open>Evidence\<close>

definition selection_evidence :: "route_result \<Rightarrow> bool" where
  "selection_evidence r =
     (if rr_simulation r then False
      else if rr_route_type r = ''drop''
      then equal_fold (rr_status r) ''DROP'' \<or> equal_fold (rr_application_status r) ''DROP''
      else if \<not> equal_fold (rr_status r) ''OK'' \<or> \<not> rr_path_verified r \<or> \<not> rr_service_ok r \<or>
              rr_regional_block r \<or> rr_authentication_required r \<or> rr_waf_or_rate_limit r \<or>
              equal_fold (rr_status r) ''REGION_BLOCK''
      then False
      else True)"

definition probe_result_terminal :: "route_result \<Rightarrow> bool" where
  "probe_result_terminal r \<longleftrightarrow> to_upper (trim_space (rr_status r)) \<in>
     {''FAIL'', ''OK'', ''DEGRADED'', ''NOT_CONFIGURED'', ''NOT_APPLICABLE'', ''UNVERIFIED'',
      ''RU_EXIT'', ''REGION_BLOCK'', ''SUSPECTED_TSPU'', ''AUTH_REQUIRED'', ''WAF_OR_RATE_LIMIT'',
      ''DROP'', ''TIMEOUT'', ''ERROR''}"

definition looks_like_tspu :: "route_result \<Rightarrow> bool" where
  "looks_like_tspu r \<longleftrightarrow>
     rr_suspected_tspu r \<or> equal_fold (trim_space (rr_status r)) ''SUSPECTED_TSPU'' \<or>
     list_ex (\<lambda>c. ck_reason c \<in> {''connection_reset'', ''tls_failed'', ''timeout''}) (rr_checks r)"

definition bind_mismatch :: "route_result \<Rightarrow> route \<Rightarrow> string \<Rightarrow> string" where
  "bind_mismatch r route active_revision =
     (let ok = equal_fold (trim_space (rr_status r)) ''OK'';
          degraded = equal_fold (trim_space (rr_status r)) ''DEGRADED'' in
      if rr_route r \<noteq> rt_tag route \<or> rr_route_type r \<noteq> rt_type route
      then ''probe_route_identity_mismatch''
      else if active_revision \<noteq> [] \<and> rr_adapter_revision r \<noteq> active_revision \<and>
              (rr_path_verified r \<or> ok \<or> degraded)
      then ''probe_adapter_revision_mismatch''
      else if (ok \<or> degraded) \<and> (\<not> rr_path_verified r \<or> \<not> rr_service_ok r)
      then ''probe_success_without_complete_evidence''
      else [])"

definition bind_result_to_candidate :: "route_result \<Rightarrow> route \<Rightarrow> string \<Rightarrow> route_result" where
  "bind_result_to_candidate r route active_revision =
     (let r1 = (if rt_adapter_mode route = ''system_default'' \<and> rr_path_verified r \<and> rr_adapter_revision r = []
                then r\<lparr>rr_adapter_revision := active_revision\<rparr> else r);
          reason = bind_mismatch r1 route active_revision
      in if reason \<noteq> []
         then r1\<lparr>rr_status := ''UNVERIFIED'', rr_path_verified := False, rr_service_ok := False,
                 rr_failure_stage := ''route_evidence'', rr_reason_code := reason,
                 rr_reason := Some reason\<rparr>
         else r1)"

section \<open>Scores and selection\<close>

definition selection_latency :: "route_result \<Rightarrow> int option" where
  "selection_latency r =
     (if rr_end_to_end_latency_available r \<and> 0 < rr_end_to_end_latency_ms r
      then Some (rr_end_to_end_latency_ms r) else None)"

definition effective_weights :: "route_selection_weights \<Rightarrow> route_selection_weights" where
  "effective_weights w =
     \<lparr>w_end_to_end_latency = (if w_end_to_end_latency w = 0 then 1 else w_end_to_end_latency w),
      w_availability = (if w_availability w = 0 then f64 (25 / 100) else w_availability w),
      w_error_rate = (if w_error_rate w = 0 then f64 (1 / 10) else w_error_rate w),
      w_privacy = (if w_privacy w = 0 then f64 (25 / 100) else w_privacy w)\<rparr>"

definition health_penalty :: "route_selection_weights \<Rightarrow> route_health \<Rightarrow> f64val \<Rightarrow> f64val" where
  "health_penalty w h score =
     (let s1 = (if 0 < rh_availability_ewma h \<and> rh_availability_ewma h < 1
                then fmul score (fadd 1 (fmul (fsub 1 (rh_availability_ewma h)) (w_availability w)))
                else score)
      in if 0 < rh_consecutive_errors h
         then fmul s1 (fadd 1 (fmul (of_int64 (rh_consecutive_errors h)) (w_error_rate w)))
         else s1)"

definition selection_score :: "route_result \<Rightarrow> policy \<Rightarrow> health_tracker option \<Rightarrow> f64val" where
  "selection_score r p health =
     (case selection_latency r of
        None \<Rightarrow> 1000000000000000
      | Some latency \<Rightarrow>
          (let w = effective_weights (po_route_selection_weights p);
               s0 = fmul (of_int64 latency) (w_end_to_end_latency w);
               s1 = (if equal_fold (po_route_selection_strategy p) ''privacy_first'' \<and> rr_route_type r = ''direct''
                     then fmul s0 (fadd 1 (w_privacy w)) else s0)
           in case Option.bind health (\<lambda>t. health_get t (rr_route r)) of
                Some h \<Rightarrow> health_penalty w h s1
              | None \<Rightarrow> s1))"

definition score_less :: "policy \<Rightarrow> health_tracker option \<Rightarrow> route_result \<Rightarrow> route_result \<Rightarrow> bool" where
  "score_less p health a b =
     (let left = selection_score a p health; right = selection_score b p health in
      if left \<noteq> right then left < right else rr_route a < rr_route b)"

definition effective_hysteresis :: "policy \<Rightarrow> int" where
  "effective_hysteresis p =
     (if po_route_selection_hysteresis_percent p \<le> 0 then 15 else po_route_selection_hysteresis_percent p)"

text \<open>The reasons to keep or to leave the current route, in the order of the code.\<close>

definition hold_or_switch ::
    "policy \<Rightarrow> health_tracker option \<Rightarrow> gotime \<Rightarrow> route_result \<Rightarrow> route_result \<Rightarrow> route_result" where
  "hold_or_switch p health wall current best =
     (let by_score =
            (if selection_score best p health \<ge>
                  fmul (selection_score current p health)
                    (fsub 1 (fdiv (of_int64 (effective_hysteresis p)) 100))
             then current else best)
      in case health of
           None \<Rightarrow> by_score
         | Some t \<Rightarrow>
             (let hc = health_get t (rr_route current);
                  hb = health_get t (rr_route best);
                  cooldown = seconds (po_route_selection_cooldown_seconds p)
              in if (case hc of Some h \<Rightarrow> rh_state h = ''unhealthy'' | None \<Rightarrow> False) then best
                 else if 0 < cooldown \<and>
                   (case hc of Some h \<Rightarrow> rh_role h = ''selected'' \<and> rh_last_success_at h \<noteq> 0 \<and>
                      time_sub wall (rh_last_success_at h) < cooldown | None \<Rightarrow> False) then current
                 else if (case hb of Some h \<Rightarrow> 0 < rh_consecutive_successes h \<and> rh_consecutive_successes h < 2
                            | None \<Rightarrow> False) then current
                 else by_score))"

definition eligible_results :: "route_result list \<Rightarrow> route_result list" where
  "eligible_results results =
     (let ok = filter selection_evidence results;
          non_drop = filter (\<lambda>r. rr_route_type r \<noteq> ''drop'') ok
      in if non_drop \<noteq> [] then non_drop else ok)"

definition select_best_with_policy ::
    "route_result list \<Rightarrow> policy \<Rightarrow> string \<Rightarrow> health_tracker option \<Rightarrow> gotime \<Rightarrow> route_result option" where
  "select_best_with_policy results p current_route health wall =
     (let ok = sort_stable (score_less p health) (eligible_results results) in
      case ok of
        [] \<Rightarrow> None
      | best # _ \<Rightarrow>
          (if current_route = [] \<or> rr_route best = current_route then Some best
           else case find (\<lambda>r. rr_route r = current_route) ok of
             None \<Rightarrow> Some best
           | Some current \<Rightarrow> Some (hold_or_switch p health wall current best)))"

definition select_best :: "route_result list \<Rightarrow> gotime \<Rightarrow> route_result option" where
  "select_best results wall = select_best_with_policy results zero_policy [] None wall"

definition current_healthy_route :: "health_tracker option \<Rightarrow> string" where
  "current_healthy_route health =
     (case health of
        None \<Rightarrow> []
      | Some t \<Rightarrow>
          (case find (\<lambda>h. rh_state h = ''healthy'' \<and> rh_role h = ''active'') (health_snapshot t) of
             Some h \<Rightarrow> rh_route_tag h
           | None \<Rightarrow> []))"

section \<open>Service profiles and policy\<close>

definition initial_unknown_policy :: "policy \<Rightarrow> string" where
  "initial_unknown_policy p =
     (let w = to_lower (trim_space (po_unknown_domain_first_path p)) in
      if w = ''vless'' \<or> w = ''privacy_first'' then ''privacy_first''
      else if w = ''drop'' \<or> w = ''fail_closed'' then ''fail_closed''
      else ''balanced'')"

definition unknown_expected_codes :: "int list" where
  "unknown_expected_codes = map int [200..<400]"

definition unknown_service :: "string \<Rightarrow> string \<Rightarrow> service" where
  "unknown_service normalized base = zero_service\<lparr>
     sv_category := ''DIRECT_PREFERRED'', sv_domains := [normalized, base],
     sv_allowed_paths := [''direct'', ''zapret'', ''smart_dns'', ''vless'', ''drop''],
     sv_probe_urls := [\<lparr>pc_name = ''unknown-domain-https'',
       pc_url = ''https://'' @ normalized @ ''/'', pc_required = True,
       pc_expected_codes = unknown_expected_codes, pc_body_mode = ''optional'',
       pc_success_markers = [], pc_regional_block_markers = [], pc_block_markers = [],
       pc_allow_unauthenticated = False\<rparr>]\<rparr>"

definition service_at :: "config \<Rightarrow> string \<Rightarrow> service" where
  "service_at c name = (case map_of (cfg_services c) name of Some s \<Rightarrow> s | None \<Rightarrow> zero_service)"

definition resolve_service :: "domain_lib \<Rightarrow> config \<Rightarrow> string \<Rightarrow> string \<Rightarrow> service_profile result" where
  "resolve_service lib c domain service_name =
     (case normalize_domain lib domain of
        Inl e \<Rightarrow> Inl e
      | Inr normalized \<Rightarrow>
          (let base = etld_plus_one lib normalized;
               profile = (\<lambda>name svc unknown. \<lparr>pf_domain = normalized, pf_base = base, pf_name = name,
                            pf_service = svc, pf_unknown = unknown, pf_override = None\<rparr>);
               detected = service_for_domain c normalized
           in case map_of (cfg_services c) service_name of
                Some svc \<Rightarrow> Inr (profile service_name svc False)
              | None \<Rightarrow>
                  (if detected \<noteq> [] then Inr (profile detected (service_at c detected) False)
                   else Inr (profile (''UNKNOWN:'' @ base) (unknown_service normalized base) True))))"

definition attach_policy ::
    "domain_lib \<Rightarrow> config \<Rightarrow> service_profile \<Rightarrow> options \<Rightarrow> service_profile result" where
  "attach_policy lib c pf ov =
     (case policy_match lib c (pf_domain pf) (op_device_mac ov) (pf_name pf) (sv_category (pf_service pf)) of
        Inl e \<Rightarrow> Inl e
      | Inr None \<Rightarrow> Inr pf
      | Inr (Some m) \<Rightarrow> Inr (pf\<lparr>pf_override := Some m\<rparr>))"

section \<open>Candidates\<close>

definition manual_route_allowed :: "service \<Rightarrow> route \<Rightarrow> policy \<Rightarrow> bool" where
  "manual_route_allowed svc r p =
     (if sv_category svc = ''DIRECT_ONLY'' then rt_type r = ''direct''
      else if sv_category svc = ''BLOCKED'' then rt_type r = ''drop''
      else if sv_category svc = ''GEO_LOCKED'' \<and>
              (rt_type r = ''direct'' \<and> \<not> po_geo_locked_allow_direct p \<or>
               rt_type r = ''zapret'' \<and> \<not> po_geo_locked_allow_zapret p)
      then False else True)"

definition first_enabled_route :: "route list \<Rightarrow> route option" where
  "first_enabled_route rs = find route_enabled rs"

definition eligible_route_types :: "string \<Rightarrow> string \<Rightarrow> string \<Rightarrow> string list" where
  "eligible_route_types category status stale =
     (if category = ''DIRECT_ONLY'' then [''direct'']
      else if category = ''GEO_LOCKED'' then [''smart_dns'', ''vless'', ''drop'']
      else if category = ''TELEGRAM'' then [''external_socks'', ''vless'', ''drop'']
      else if category = ''TSPU_RESTRICTED'' then [''zapret'', ''smart_dns'', ''vless'', ''drop'']
      else if category = ''BLOCKED'' then [''drop'']
      else if category = ''DIRECT_PREFERRED'' \<or> category = [] then
        (if status = ''MATCH'' \<or> status = ''STALE_MATCH'' \<and> stale = ''zapret_first''
         then [''zapret'', ''smart_dns'', ''vless'', ''drop'']
         else if status = ''STALE_MATCH'' \<and> stale = ''fail_closed'' then [''drop'']
         else [''direct'', ''zapret'', ''smart_dns'', ''vless'', ''drop''])
      else [''drop''])"

definition normalized_tspu_status :: "options \<Rightarrow> string" where
  "normalized_tspu_status ov =
     (let s0 = to_upper (trim_space (tm_status (op_tspu_result ov)));
          s = (if s0 = [] \<and> op_tspu_match ov then ''MATCH'' else s0)
      in if s = ''MATCH'' \<or> s = ''STALE_MATCH'' \<or> s = ''UNAVAILABLE'' then s else ''NO_MATCH'')"

definition tspu_starts_with_zapret :: "string \<Rightarrow> string \<Rightarrow> bool" where
  "tspu_starts_with_zapret status stale \<longleftrightarrow>
     status = ''MATCH'' \<or> status = ''STALE_MATCH'' \<and> stale = ''zapret_first''"

definition inventory_less :: "route \<Rightarrow> route \<Rightarrow> bool" where
  "inventory_less a b =
     (if rt_type a \<noteq> rt_type b then rt_type a < rt_type b else rt_tag a < rt_tag b)"

definition candidate_inventory ::
    "route list \<Rightarrow> service \<Rightarrow> policy \<Rightarrow> string \<Rightarrow> health_tracker option \<Rightarrow> inventory" where
  "candidate_inventory candidates svc p status health =
     \<lparr>iv_routes = sort_stable inventory_less candidates, iv_service = svc, iv_policy = p,
      iv_tspu_status = status,
      iv_health = (case health of
          None \<Rightarrow> []
        | Some t \<Rightarrow> sort_stable (\<lambda>a b. fst a < fst b)
            (map (\<lambda>h. (rh_route_tag h, rh_state h, rh_role h, rh_last_status h)) (health_snapshot t)))\<rparr>"

definition order_for_type :: "health_tracker option \<Rightarrow> string \<Rightarrow> route list \<Rightarrow> route list" where
  "order_for_type health ty routes =
     (case health of
        None \<Rightarrow> routes
      | Some t \<Rightarrow>
          (if ty = ''smart_dns'' then order_smart_dns t routes
           else if ty = ''vless'' then order_vless t routes
           else routes))"

text \<open>The manual branch: the forced route, then DROP unless the forced route is DROP.\<close>

definition override_candidates ::
    "config \<Rightarrow> service_profile \<Rightarrow> match_result \<Rightarrow> health_tracker option \<Rightarrow> route list" where
  "override_candidates c pf m health =
     (let ov = mr_override m;
          routes = (if ov_route_tag ov = []
                    then order_for_type health (ov_route_type ov) (routes_by_type c (ov_route_type ov))
                    else cfg_routes c);
          forced = (case select_route m routes of
                      Some r \<Rightarrow> (if manual_route_allowed (pf_service pf) r (cfg_policy c) then [r] else [])
                    | None \<Rightarrow> [])
      in if forced = [] \<or> rt_type (hd forced) \<noteq> ''drop''
         then forced @ (case first_enabled_route (routes_by_type c ''drop'') of Some d \<Rightarrow> [d] | None \<Rightarrow> [])
         else forced)"

definition unknown_mode :: "policy \<Rightarrow> service_profile \<Rightarrow> string" where
  "unknown_mode p pf = (if pf_unknown pf then initial_unknown_policy p else ''balanced'')"

definition plan_route_types :: "config \<Rightarrow> service_profile \<Rightarrow> string \<Rightarrow> string list" where
  "plan_route_types c pf status =
     (let types = eligible_route_types (sv_category (pf_service pf)) status (po_tspu_stale_policy (cfg_policy c)) in
      if unknown_mode (cfg_policy c) pf = ''privacy_first'' then filter (\<lambda>ty. ty \<noteq> ''direct'') types
      else if unknown_mode (cfg_policy c) pf = ''fail_closed'' then [''drop'']
      else types)"

definition system_default_candidate :: "route \<Rightarrow> route" where
  "system_default_candidate r = zero_route\<lparr>rt_type := ''direct'', rt_tag := ''system-default'',
     rt_priority := rt_priority r - 1, rt_adapter_mode := ''system_default'', rt_forbid_proxy := True\<rparr>"

definition system_default_candidates :: "config \<Rightarrow> service_profile \<Rightarrow> string \<Rightarrow> route list" where
  "system_default_candidates c pf status =
     (if pf_unknown pf \<and> unknown_mode (cfg_policy c) pf = ''balanced'' \<and>
         \<not> tspu_starts_with_zapret status (po_tspu_stale_policy (cfg_policy c))
      then (case find (\<lambda>r. route_enabled r \<and> rt_requires_adapter r) (routes_by_type c ''direct'') of
              Some r \<Rightarrow> [system_default_candidate r] | None \<Rightarrow> [])
      else [])"

definition default_drop_route :: route where
  "default_drop_route = zero_route\<lparr>rt_type := ''drop'', rt_tag := ''drop'', rt_priority := 1000\<rparr>"

text \<open>The route a service pins, unless the service may not use it.\<close>

definition pinned_route :: "config \<Rightarrow> service \<Rightarrow> route option" where
  "pinned_route c svc =
     (case route_by_tag c (sv_selected_route_tag svc) of
        None \<Rightarrow> None
      | Some r \<Rightarrow>
          (if sv_selected_route_tag svc \<noteq> [] \<and> \<not> path_allowed svc r (cfg_policy c) then None else Some r))"

fun add_routes ::
    "service \<Rightarrow> policy \<Rightarrow> route list \<Rightarrow> route list \<times> string list \<Rightarrow> route list \<times> string list" where
  "add_routes svc p [] acc = acc"
| "add_routes svc p (r # rs) (cands, seen) =
     (if rt_tag r \<in> set seen \<or> \<not> path_allowed svc r p then add_routes svc p rs (cands, seen)
      else add_routes svc p rs (cands @ [r], rt_tag r # seen))"

definition add_type ::
    "config \<Rightarrow> service \<Rightarrow> health_tracker option \<Rightarrow> string \<Rightarrow> route list \<times> string list \<Rightarrow> route list \<times> string list" where
  "add_type c svc health ty acc =
     (let routes0 = routes_by_type c ty;
          routes1 = (if ty = ''drop'' \<and> routes0 = [] then [default_drop_route] else routes0);
          routes = order_for_type health ty routes1;
          acc1 = (case pinned_route c svc of
                    Some r \<Rightarrow> (if rt_type r = ty \<and> route_enabled r
                              then (fst acc @ [r], rt_tag r # snd acc) else acc)
                  | None \<Rightarrow> acc)
      in add_routes svc (cfg_policy c) routes acc1)"

definition automatic_candidates ::
    "config \<Rightarrow> service_profile \<Rightarrow> string \<Rightarrow> health_tracker option \<Rightarrow> route list" where
  "automatic_candidates c pf status health =
     (let start = system_default_candidates c pf status in
      fst (fold (add_type c (pf_service pf) health) (plan_route_types c pf status)
             (start, map rt_tag start)))"

definition build_plan ::
    "(inventory \<Rightarrow> string) \<Rightarrow> config \<Rightarrow> service_profile \<Rightarrow> options \<Rightarrow> candidate_plan" where
  "build_plan digest c pf opts =
     (let status = normalized_tspu_status opts;
          candidates = (case pf_override pf of
              Some m \<Rightarrow> override_candidates c pf m (op_health opts)
            | None \<Rightarrow> automatic_candidates c pf status (op_health opts))
      in \<lparr>cp_domain = pf_domain pf, cp_etld_plus_one = pf_base pf, cp_service = pf_name pf,
          cp_category = sv_category (pf_service pf), cp_unknown = pf_unknown pf,
          cp_tspu_status = status,
          cp_policy_source = (case pf_override pf of Some m \<Rightarrow> mr_source m | None \<Rightarrow> []),
          cp_override_id = (case pf_override pf of Some m \<Rightarrow> ov_id (mr_override m) | None \<Rightarrow> []),
          cp_inventory_hash =
            digest (candidate_inventory candidates (pf_service pf) (cfg_policy c) status (op_health opts)),
          cp_candidates = candidates\<rparr>)"

definition build_candidates ::
    "domain_lib \<Rightarrow> (inventory \<Rightarrow> string) \<Rightarrow> config \<Rightarrow> string \<Rightarrow> string \<Rightarrow> options \<Rightarrow> candidate_plan result" where
  "build_candidates lib digest c domain service_name opts =
     (case resolve_service lib c domain service_name of
        Inl e \<Rightarrow> Inl e
      | Inr pf0 \<Rightarrow>
          (case attach_policy lib c pf0 opts of
             Inl e \<Rightarrow> Inl e
           | Inr pf \<Rightarrow> Inr (build_plan digest c pf opts)))"

section \<open>Classification\<close>

definition classification_metadata :: "service_profile \<Rightarrow> tspu_match \<Rightarrow> f64val \<times> string \<times> string" where
  "classification_metadata pf m =
     (if pf_override pf \<noteq> None then (1, ''explicit_override'', ''user policy override'')
      else if \<not> pf_unknown pf then
        (let seed = trim_space (sv_classification_seed (pf_service pf)) in
         if seed \<noteq> [] then (0, ''configured_seed'', to_lower seed)
         else (1, ''configured_service'', ''configured service classification''))
      else
        (let confidence = (if tm_confidence m < 0 then 0 else if tm_confidence m > 1 then 1 else tm_confidence m);
             source = (if trim_space (tm_source m) = [] then ''none'' else trim_space (tm_source m));
             evidence = (if trim_space (tm_evidence m) = [] then to_lower (trim_space (tm_status m))
                         else trim_space (tm_evidence m))
         in (confidence, source, evidence)))"

definition regional_denial :: "route_result \<Rightarrow> bool" where
  "regional_denial r \<longleftrightarrow> rr_regional_block r \<or> equal_fold (trim_space (rr_status r)) ''REGION_BLOCK''"

definition verified_foreign :: "route_result \<Rightarrow> bool" where
  "verified_foreign r \<longleftrightarrow>
     (let country = to_upper (trim_space (rr_external_country r)) in
      rr_egress_consensus r \<and> country \<noteq> [] \<and> country \<noteq> ''RU'')"

definition classify_evidence :: "service_profile \<Rightarrow> route_result list \<Rightarrow> string \<Rightarrow> string \<times> string" where
  "classify_evidence pf results status =
     (let direct = filter (\<lambda>r. rr_route_type r = ''direct'') results;
          direct_regional = list_ex regional_denial direct;
          direct_tspu = list_ex (\<lambda>r. rr_suspected_tspu r \<or>
            equal_fold (trim_space (rr_status r)) ''SUSPECTED_TSPU'') direct;
          alternate = list_ex (\<lambda>r. rr_route_type r \<noteq> ''direct'' \<and> selection_evidence r \<and>
            rr_route_type r \<noteq> ''drop'' \<and> verified_foreign r) results
      in if direct_regional \<and> alternate
         then (''CONFIRMED_GEO_LOCKED'', ''direct regional denial plus functional alternate path'')
         else if direct_regional
         then (''SUSPECTED_GEO_LOCKED'', ''direct regional denial requires differential verification'')
         else if direct_tspu \<or> status = ''MATCH'' \<or> status = ''STALE_MATCH'' then
           (if status = ''MATCH'' then (''CONFIRMED_TSPU'', ''fresh TSPU evidence'')
            else (''SUSPECTED_TSPU'', ''TSPU/block evidence without regional confirmation''))
         else if sv_classification_seed (pf_service pf) \<noteq> []
         then (''SEEDED_'' @ to_upper (trim_space (sv_classification_seed (pf_service pf))),
               ''configured classification seed is not live proof'')
         else (''UNKNOWN'', ''no service-specific classification evidence''))"

definition decision_confidence :: "domain_check \<Rightarrow> f64val" where
  "decision_confidence dk = (if dk_selected dk = None then 0 else 1)"

section \<open>Cached decisions\<close>

definition plan_skips_zapret :: "candidate_plan \<Rightarrow> route \<Rightarrow> bool" where
  "plan_skips_zapret plan r =
     (if \<not> cp_unknown plan \<or> rt_type r \<noteq> ''zapret'' then False
      else cp_tspu_status plan \<noteq> ''MATCH'' \<and> cp_tspu_status plan \<noteq> ''STALE_MATCH'')"

definition matches_candidate :: "candidate_plan \<Rightarrow> string \<Rightarrow> string \<Rightarrow> bool" where
  "matches_candidate plan tag ty = list_ex (\<lambda>r. rt_tag r = tag \<and> rt_type r = ty) (cp_candidates plan)"

definition valid_cached_no_safe_route :: "decision \<Rightarrow> candidate_plan \<Rightarrow> bool" where
  "valid_cached_no_safe_route d plan =
     (if dd_selected_route d \<noteq> [] \<or> dd_reason d \<noteq> ''no_verified_policy_allowed_route'' \<or> dd_results d = []
      then False
      else if \<not> list_all (\<lambda>r. probe_result_terminal r \<and> rr_route r \<noteq> [] \<and>
                 matches_candidate plan (rr_route r) (rr_route_type r)) (dd_results d) \<or>
              \<not> distinct (map rr_route (dd_results d))
      then False
      else (let direct_regional = list_ex (\<lambda>r. rr_route_type r = ''direct'' \<and> regional_denial r) (dd_results d) in
        list_all (\<lambda>c. rt_tag c \<in> set (map rr_route (dd_results d)) \<or>
            direct_regional \<and> (rt_type c = ''direct'' \<or> rt_type c = ''zapret'') \<or>
            plan_skips_zapret plan c) (cp_candidates plan)))"

definition cached_shell :: "decision \<Rightarrow> candidate_plan \<Rightarrow> service_profile \<Rightarrow> domain_check" where
  "cached_shell d plan pf =
     (let (conf, source, evidence) =
            (if 0 < dd_classification_confidence d \<or> dd_classification_source d \<noteq> [] \<or>
                dd_classification_evidence d \<noteq> []
             then (dd_classification_confidence d, dd_classification_source d, dd_classification_evidence d)
             else classification_metadata pf
               \<lparr>tm_status = cp_tspu_status plan, tm_source = [], tm_confidence = 0, tm_evidence = []\<rparr>)
      in zero_check\<lparr>dk_domain := pf_domain pf, dk_etld_plus_one := pf_base pf,
        dk_service := dd_service d, dk_category := dd_category d, dk_tspu_status := dd_tspu_status d,
        dk_cached := True, dk_status := dd_status d, dk_reason := dd_reason d,
        dk_confidence := dd_confidence d, dk_verification_state := ''verified'',
        dk_verification_duration_ms := dd_verification_duration_ms d,
        dk_classification_state := dd_classification_state d,
        dk_classification_reason := dd_classification_reason d,
        dk_inventory_hash := dd_inventory_hash d, dk_results := dd_results d,
        dk_checked_at := dd_checked_at d, dk_expires_at := dd_expires_at d,
        dk_classification_confidence := conf, dk_classification_source := source,
        dk_classification_evidence := evidence\<rparr>)"

text \<open>The cached check, or nothing when the decision must not be reused.\<close>

definition cached_check ::
    "decision \<Rightarrow> candidate_plan \<Rightarrow> service_profile \<Rightarrow> string \<Rightarrow> domain_check option" where
  "cached_check d plan pf active_revision =
     (if dd_adapter_revision d \<noteq> active_revision \<or> dd_service d \<noteq> pf_name pf \<or>
         dd_tspu_status d \<noteq> cp_tspu_status plan then None
      else if dd_inventory_hash d = [] \<or> dd_inventory_hash d \<noteq> cp_inventory_hash plan then None
      else let out = cached_shell d plan pf in
        if equal_fold (trim_space (dd_status d)) ''NO_SAFE_ROUTE'' then
          (if valid_cached_no_safe_route d plan
           then Some (out\<lparr>dk_verification_state := ''terminal_no_safe_route''\<rparr>) else None)
        else if dd_selected_route d = [] then None
        else if \<not> matches_candidate plan (dd_selected_route d) (dd_selected_type d) then None
        else case find (\<lambda>r. rr_route r = dd_selected_route d \<and> rr_route_type r = dd_selected_type d \<and>
                         rr_adapter_revision r = active_revision \<and> selection_evidence r) (dd_results d) of
               None \<Rightarrow> None
             | Some r \<Rightarrow> Some (out\<lparr>dk_selected := Some r\<rparr>))"

section \<open>The verification loop\<close>

record loop_state =
  ls_results :: "route_result list"
  ls_health :: "health_tracker option"
  ls_service :: service
  ls_category :: string
  ls_direct_attempted :: bool
  ls_direct_tspu :: bool
  ls_regional :: bool
  ls_terminal :: bool

text \<open>The service as a regional denial of the direct route rewrites it.\<close>

definition geo_locked_service :: "service \<Rightarrow> service" where
  "geo_locked_service svc = svc\<lparr>sv_category := ''GEO_LOCKED'', sv_require_non_ru_egress := True,
     sv_allowed_paths := [''smart_dns'', ''vless'', ''drop''],
     sv_forbidden_paths := [''direct'', ''zapret'']\<rparr>"

definition direct_denied :: "route_result \<Rightarrow> bool" where
  "direct_denied r \<longleftrightarrow> rr_regional_block r \<or> equal_fold (rr_status r) ''REGION_BLOCK''"

definition skip_candidate :: "config \<Rightarrow> service_profile \<Rightarrow> string \<Rightarrow> loop_state \<Rightarrow> route \<Rightarrow> bool" where
  "skip_candidate c pf status ls route \<longleftrightarrow>
     ls_regional ls \<and> (rt_type route = ''direct'' \<or> rt_type route = ''zapret'') \<or>
     pf_override pf = None \<and> rt_type route = ''zapret'' \<and>
       \<not> equal_fold (sv_category (pf_service pf)) ''TSPU_RESTRICTED'' \<and>
       \<not> tspu_starts_with_zapret status (po_tspu_stale_policy (cfg_policy c)) \<and>
       (\<not> ls_direct_attempted ls \<or> \<not> ls_direct_tspu ls)"

text \<open>What a terminal result changes besides the list of results.\<close>

definition absorb_result :: "route \<Rightarrow> route_result \<Rightarrow> loop_state \<Rightarrow> loop_state" where
  "absorb_result route r ls =
     (if rt_type route = ''direct'' then
        (let ls1 = ls\<lparr>ls_direct_attempted := True, ls_direct_tspu := looks_like_tspu r\<rparr> in
         if direct_denied r
         then ls1\<lparr>ls_regional := True, ls_service := geo_locked_service (ls_service ls1),
                  ls_category := ''GEO_LOCKED''\<rparr>
         else ls1)
      else ls)"

text \<open>The \<open>i\<close>-th candidate: polls \<open>2 * i\<close> and \<open>2 * i + 1\<close> of the context surround its probe.\<close>

fun check_loop ::
    "check_env \<Rightarrow> config \<Rightarrow> service_profile \<Rightarrow> string \<Rightarrow> string \<Rightarrow> nat \<Rightarrow> route list \<Rightarrow> loop_state \<Rightarrow> loop_state" where
  "check_loop env c pf status revision i [] ls = ls"
| "check_loop env c pf status revision i (route # routes) ls =
     (if ce_cancelled env (2 * i) then ls\<lparr>ls_terminal := False\<rparr>
      else if skip_candidate c pf status ls route
      then check_loop env c pf status revision (Suc i) routes ls
      else
        (let r = bind_result_to_candidate
                   (ce_probe env i (pf_domain pf) (pf_name pf) (ls_service ls) route) route revision;
             ls1 = ls\<lparr>ls_results := ls_results ls @ [r]\<rparr>
         in if \<not> probe_result_terminal r then ls1\<lparr>ls_terminal := False\<rparr>
            else
              (let ls2 = ls1\<lparr>ls_health := map_option (\<lambda>t.
                             fst (health_observe t r (cfg_policy c) (ce_observed_at env i))) (ls_health ls1)\<rparr>
               in if ce_cancelled env (2 * i + 1) then ls2\<lparr>ls_terminal := False\<rparr>
                  else
                    (let ls3 = absorb_result route r ls2
                     in if pf_override pf \<noteq> None \<and> selection_evidence r then ls3
                        else check_loop env c pf status revision (Suc i) routes ls3))))"

section \<open>The outcome\<close>

definition route_for_result :: "config \<Rightarrow> route_result \<Rightarrow> route option" where
  "route_for_result c r =
     (if rr_route r = ''system-default'' \<and> rr_route_type r = ''direct''
      then Some (zero_route\<lparr>rt_type := ''direct'', rt_tag := ''system-default'',
                            rt_adapter_mode := ''system_default''\<rparr>)
      else route_by_tag c (rr_route r))"

definition scored :: "config \<Rightarrow> service \<Rightarrow> health_tracker option \<Rightarrow> route_result \<Rightarrow> route_result" where
  "scored c svc health r =
     (case route_for_result c r of
        Some route \<Rightarrow>
          (if path_allowed svc route (cfg_policy c) \<and> selection_evidence r
           then r\<lparr>rr_selection_score := selection_score r (cfg_policy c) health\<rparr> else r)
      | None \<Rightarrow> r)"

definition result_allowed :: "config \<Rightarrow> service \<Rightarrow> route_result \<Rightarrow> bool" where
  "result_allowed c svc r =
     (case route_for_result c r of
        None \<Rightarrow> False
      | Some route \<Rightarrow>
          path_allowed svc route (cfg_policy c) \<and> selection_evidence r \<and>
          (sv_require_non_ru_egress svc \<and> rt_type route \<noteq> ''drop'' \<longrightarrow> verified_foreign r))"

definition select_outcome ::
    "check_env \<Rightarrow> config \<Rightarrow> loop_state \<Rightarrow> route_result list \<Rightarrow> route_result option" where
  "select_outcome env c ls results =
     (let current0 = sv_selected_route_tag (ls_service ls);
          current = (if current0 = [] then current_healthy_route (ls_health ls) else current0)
      in select_best_with_policy (filter (result_allowed c (ls_service ls)) results)
           (cfg_policy c) current (ls_health ls) (ce_wall env))"

definition decision_ttl :: "policy \<Rightarrow> duration" where
  "decision_ttl p =
     (let ttl = seconds (po_domain_decision_ttl_seconds p) in if ttl \<le> 0 then 24 * hour else ttl)"

definition check_shell ::
    "check_env \<Rightarrow> config \<Rightarrow> service_profile \<Rightarrow> candidate_plan \<Rightarrow> options \<Rightarrow> domain_check" where
  "check_shell env c pf plan opts =
     (let (conf, source, evidence) = classification_metadata pf (op_tspu_result opts)
      in zero_check\<lparr>dk_domain := pf_domain pf, dk_etld_plus_one := pf_base pf,
        dk_service := pf_name pf, dk_category := sv_category (pf_service pf),
        dk_tspu_status := cp_tspu_status plan, dk_status := ''VERIFYING'',
        dk_verification_state := ''in_progress'', dk_inventory_hash := cp_inventory_hash plan,
        dk_checked_at := ce_start env,
        dk_initial_unknown_policy :=
          (if pf_unknown pf then initial_unknown_policy (cfg_policy c) else []),
        dk_classification_confidence := conf, dk_classification_source := source,
        dk_classification_evidence := evidence,
        dk_policy_source := (case pf_override pf of Some m \<Rightarrow> mr_source m | None \<Rightarrow> []),
        dk_override_id := (case pf_override pf of Some m \<Rightarrow> ov_id (mr_override m) | None \<Rightarrow> [])\<rparr>)"

definition finish_check ::
    "check_env \<Rightarrow> config \<Rightarrow> service_profile \<Rightarrow> candidate_plan \<Rightarrow> domain_check \<Rightarrow> loop_state \<Rightarrow> domain_check" where
  "finish_check env c pf plan out0 ls =
     (if \<not> ls_terminal ls
      then out0\<lparr>dk_results := ls_results ls, dk_category := ls_category ls, dk_status := ''VERIFYING'',
                dk_verification_state := ''in_progress'', dk_reason := ''verification_incomplete'',
                dk_confidence := 0, dk_checked_at := ce_end env,
                dk_verification_duration_ms := ce_elapsed_ms env\<rparr>
      else
        (let results = map (scored c (ls_service ls) (ls_health ls)) (ls_results ls);
             selected = select_outcome env c ls results;
             (state, reason) = classify_evidence pf results (cp_tspu_status plan);
             out1 = out0\<lparr>dk_results := results, dk_category := ls_category ls, dk_selected := selected,
                dk_status := (case selected of None \<Rightarrow> ''NO_SAFE_ROUTE''
                  | Some r \<Rightarrow> if rr_route_type r = ''drop'' then ''DROP'' else ''SELECTED''),
                dk_reason := (case selected of None \<Rightarrow> ''no_verified_policy_allowed_route''
                  | Some r \<Rightarrow> if rr_route_type r = ''drop'' then ''no_safe_route_drop_enforced''
                             else ''best_verified_policy_allowed_route''),
                dk_verification_state := (if selected = None then ''terminal_no_safe_route'' else ''verified''),
                dk_classification_state := state, dk_classification_reason := reason,
                dk_checked_at := ce_end env, dk_verification_duration_ms := ce_elapsed_ms env,
                dk_expires_at := ce_end env + decision_ttl (cfg_policy c)\<rparr>
         in out1\<lparr>dk_confidence := decision_confidence out1\<rparr>))"

text \<open>The decision that is persisted for an unknown domain.\<close>

definition decision_of :: "domain_check \<Rightarrow> candidate_plan \<Rightarrow> service_profile \<Rightarrow> string \<Rightarrow> decision" where
  "decision_of out plan pf revision = zero_decision\<lparr>
     dd_service := pf_name pf, dd_category := dk_category out, dd_tspu_status := dk_tspu_status out,
     dd_classification_state := dk_classification_state out,
     dd_classification_reason := dk_classification_reason out,
     dd_inventory_hash := cp_inventory_hash plan, dd_status := dk_status out,
     dd_reason := dk_reason out, dd_adapter_revision := revision,
     dd_confidence := dk_confidence out,
     dd_classification_confidence := dk_classification_confidence out,
     dd_classification_source := dk_classification_source out,
     dd_classification_evidence := dk_classification_evidence out,
     dd_verification_duration_ms := dk_verification_duration_ms out, dd_results := dk_results out,
     dd_checked_at := dk_checked_at out, dd_expires_at := dk_expires_at out,
     dd_last_used_at := dk_checked_at out,
     dd_selected_route := (case dk_selected out of Some r \<Rightarrow> rr_route r | None \<Rightarrow> []),
     dd_selected_type := (case dk_selected out of Some r \<Rightarrow> rr_route_type r | None \<Rightarrow> [])\<rparr>"

section \<open>CheckDomain\<close>

definition uses_cache :: "service_profile \<Rightarrow> options \<Rightarrow> domain_cache option" where
  "uses_cache pf opts =
     (if pf_unknown pf \<and> pf_override pf = None \<and> op_active_revision opts \<noteq> []
      then op_cache opts else None)"

definition fresh_loop ::
    "check_env \<Rightarrow> config \<Rightarrow> service_profile \<Rightarrow> candidate_plan \<Rightarrow> options \<Rightarrow> loop_state" where
  "fresh_loop env c pf plan opts =
     check_loop env c pf (cp_tspu_status plan) (op_active_revision opts) 0 (cp_candidates plan)
       \<lparr>ls_results = [], ls_health = op_health opts, ls_service = pf_service pf,
        ls_category = sv_category (pf_service pf), ls_direct_attempted = False,
        ls_direct_tspu = False, ls_regional = False, ls_terminal = True\<rparr>"

text \<open>Probing, finishing and persisting; the tracker and the cache are the shared state.\<close>

definition check_fresh ::
    "check_env \<Rightarrow> config \<Rightarrow> service_profile \<Rightarrow> candidate_plan \<Rightarrow> options \<Rightarrow>
     (error option \<times> domain_check) \<times> options" where
  "check_fresh env c pf plan opts =
     (let ls = fresh_loop env c pf plan opts;
          out = finish_check env c pf plan (check_shell env c pf plan opts) ls;
          opts1 = opts\<lparr>op_health := ls_health ls\<rparr>
      in case (if ls_terminal ls then uses_cache pf opts1 else None) of
           None \<Rightarrow> ((None, out), opts1)
         | Some cache \<Rightarrow>
             (case cache_save (ce_len env) (ce_lib env) cache (pf_domain pf)
                     (decision_of out plan pf (op_active_revision opts)) of
                (Inl e, cache') \<Rightarrow> ((Some (''persist domain decision: '' @ e), out), opts1\<lparr>op_cache := Some cache'\<rparr>)
              | (Inr _, cache') \<Rightarrow> ((None, out), opts1\<lparr>op_cache := Some cache'\<rparr>)))"

definition check_profile ::
    "check_env \<Rightarrow> config \<Rightarrow> service_profile \<Rightarrow> options \<Rightarrow> (error option \<times> domain_check) \<times> options" where
  "check_profile env c pf opts =
     (let plan = build_plan (ce_digest env) c pf opts in
      case uses_cache pf opts of
        None \<Rightarrow> check_fresh env c pf plan opts
      | Some cache \<Rightarrow>
          (case cache_lookup (ce_lib env) cache (pf_domain pf) (op_active_revision opts) (ce_start env) of
             (Inl e, cache1) \<Rightarrow>
               ((Some (''lookup cached domain decision: '' @ e), zero_check), opts\<lparr>op_cache := Some cache1\<rparr>)
           | (Inr None, cache1) \<Rightarrow> check_fresh env c pf plan (opts\<lparr>op_cache := Some cache1\<rparr>)
           | (Inr (Some d), cache1) \<Rightarrow>
               (case cached_check d plan pf (op_active_revision opts) of
                  Some out \<Rightarrow> ((None, out), opts\<lparr>op_cache := Some cache1\<rparr>)
                | None \<Rightarrow>
                    (if dd_selected_route d = [] then
                       (case cache_discard cache1 (dd_key d) of
                          (Some e, cache2) \<Rightarrow>
                            ((Some (''discard failed domain observation: '' @ e), zero_check),
                             opts\<lparr>op_cache := Some cache2\<rparr>)
                        | (None, cache2) \<Rightarrow> check_fresh env c pf plan (opts\<lparr>op_cache := Some cache2\<rparr>))
                     else check_fresh env c pf plan (opts\<lparr>op_cache := Some cache1\<rparr>)))))"

definition check_domain ::
    "check_env \<Rightarrow> config \<Rightarrow> string \<Rightarrow> string \<Rightarrow> options \<Rightarrow> (error option \<times> domain_check) \<times> options" where
  "check_domain env c domain service_name opts =
     (case resolve_service (ce_lib env) c domain service_name of
        Inl e \<Rightarrow> ((Some e, zero_check), opts)
      | Inr pf0 \<Rightarrow>
          (case attach_policy (ce_lib env) c pf0 opts of
             Inl e \<Rightarrow> ((Some e, zero_check), opts)
           | Inr pf \<Rightarrow> check_profile env c pf opts))"

section \<open>Lemmas on selection\<close>

interpretation score_order: go_less "score_less p health" for p health
  by (rule go_less_key [where key = "\<lambda>r. (selection_score r p health, rr_route r)"])
    (auto simp: score_less_def Let_def less_prod_def)

interpretation inventory_order: go_less inventory_less
  by (rule go_less_key [where key = "\<lambda>r. (rt_type r, rt_tag r)"])
    (auto simp: inventory_less_def less_prod_def)

interpretation cache_key_order: go_less used_less
  by (rule go_less_key [where key = "\<lambda>d. (dd_last_used_at d, dd_checked_at d)"])
    (auto simp: used_less_def less_prod_def)

lemma eligible_results_iff:
  "r \<in> set (eligible_results results) \<longleftrightarrow> r \<in> set results \<and> selection_evidence r \<and>
     (rr_route_type r = ''drop'' \<longrightarrow>
        (\<forall>r' \<in> set results. selection_evidence r' \<longrightarrow> rr_route_type r' = ''drop''))"
  by (auto simp: eligible_results_def Let_def filter_empty_conv)

lemma eligible_results_Nil_iff: "eligible_results results = [] \<longleftrightarrow> (\<forall>r \<in> set results. \<not> selection_evidence r)"
  by (auto simp: eligible_results_def Let_def filter_empty_conv)

text \<open>The best result, and how the selected one relates to it.\<close>

lemma select_best_cases:
  assumes "select_best_with_policy results p current health wall = Some r"
  obtains best where "best \<in> set (eligible_results results)"
    "\<forall>r' \<in> set (eligible_results results). \<not> score_less p health r' best"
    "r = best \<or> current \<noteq> [] \<and> rr_route best \<noteq> current \<and> r \<in> set (eligible_results results) \<and>
       rr_route r = current \<and> r = hold_or_switch p health wall r best"
    "\<And>cur. find (\<lambda>r. rr_route r = current) (sort_stable (score_less p health) (eligible_results results)) = Some cur \<Longrightarrow>
       current \<noteq> [] \<Longrightarrow> rr_route best \<noteq> current \<Longrightarrow> r = hold_or_switch p health wall cur best"
proof -
  let ?ok = "sort_stable (score_less p health) (eligible_results results)"
  obtain best rest where ok: "?ok = best # rest"
    using assms by (auto simp: select_best_with_policy_def Let_def split: list.splits)
  have mem: "best \<in> set (eligible_results results)"
    using ok set_sort_stable [of "score_less p health" "eligible_results results"] by (metis list.set_intros(1))
  have least: "\<forall>r' \<in> set (eligible_results results). \<not> score_less p health r' best"
    using score_order.sort_stable_head [OF ok] by blast
  have hs: "hold_or_switch p health wall cur best = cur \<or> hold_or_switch p health wall cur best = best" for cur
    by (auto simp: hold_or_switch_def Let_def split: option.splits)
  show ?thesis
  proof (cases "current = [] \<or> rr_route best = current")
    case True
    then have "r = best" using assms ok by (simp add: select_best_with_policy_def)
    with True mem least show ?thesis by (intro that [of best]) auto
  next
    case False
    show ?thesis
    proof (cases "find (\<lambda>r. rr_route r = current) ?ok")
      case None
      then have "r = best" using assms ok False by (simp add: select_best_with_policy_def)
      with None mem least show ?thesis by (intro that [of best]) auto
    next
      case (Some cur)
      then have r: "r = hold_or_switch p health wall cur best"
        using assms ok False by (simp add: select_best_with_policy_def)
      have cur: "cur \<in> set (eligible_results results)" "rr_route cur = current"
        using find_Some_member [OF Some] by auto
      show ?thesis
        using hs [of cur] r Some mem least False cur by (intro that [of best]) auto
    qed
  qed
qed

lemma select_best_None_iff:
  "select_best_with_policy results p current health wall = None \<longleftrightarrow> (\<forall>r \<in> set results. \<not> selection_evidence r)"
proof -
  have "select_best_with_policy results p current health wall = None \<longleftrightarrow> eligible_results results = []"
    by (auto simp: select_best_with_policy_def Let_def split: list.splits option.splits)
  then show ?thesis by (simp add: eligible_results_Nil_iff)
qed

lemma select_best_member:
  assumes "select_best_with_policy results p current health wall = Some r"
  shows "r \<in> set results \<and> selection_evidence r \<and>
    (rr_route_type r = ''drop'' \<longrightarrow> (\<forall>r' \<in> set results. selection_evidence r' \<longrightarrow> rr_route_type r' = ''drop''))"
  using assms by (rule select_best_cases) (auto simp: eligible_results_iff)

lemma selection_evidenceD:
  assumes "selection_evidence r"
  shows "\<not> rr_simulation r"
    "rr_route_type r \<noteq> ''drop'' \<Longrightarrow> equal_fold (rr_status r) ''OK'' \<and> rr_path_verified r \<and> rr_service_ok r \<and>
       \<not> rr_regional_block r \<and> \<not> rr_authentication_required r \<and> \<not> rr_waf_or_rate_limit r"
  using assms by (auto simp: selection_evidence_def split: if_splits)

section \<open>Properties of the selection\<close>

text \<open>C16. Selection is fail-safe: whatever the scores, the health and the current route are, a
  selected result is one of the results given, carries complete evidence (never a simulated one),
  and is DROP only if no other path has evidence; nothing is selected exactly when no result has
  evidence.\<close>

theorem select_best_fail_safe:
  "case select_best_with_policy results p current health wall of
     None \<Rightarrow> \<not> list_ex selection_evidence results
   | Some r \<Rightarrow> r \<in> set results \<and> selection_evidence r \<and> \<not> rr_simulation r \<and>
       (if list_ex (\<lambda>r'. selection_evidence r' \<and> rr_route_type r' \<noteq> ''drop'') results
        then rr_route_type r \<noteq> ''drop'' \<and> rr_path_verified r \<and> rr_service_ok r \<and>
             \<not> rr_regional_block r \<and> \<not> rr_authentication_required r \<and> \<not> rr_waf_or_rate_limit r
        else rr_route_type r = ''drop'')"
proof (cases "select_best_with_policy results p current health wall")
  case None
  then have "\<forall>r \<in> set results. \<not> selection_evidence r" by (simp add: select_best_None_iff)
  then show ?thesis by (simp add: None list_ex_iff)
next
  case (Some r)
  note m = select_best_member [OF Some]
  note e = selection_evidenceD [of r]
  show ?thesis
  proof (cases "list_ex (\<lambda>r'. selection_evidence r' \<and> rr_route_type r' \<noteq> ''drop'') results")
    case True
    then have "rr_route_type r \<noteq> ''drop''" using m by (auto simp: list_ex_iff)
    with m e True show ?thesis by (simp add: Some)
  next
    case False
    then have "rr_route_type r = ''drop''" using m by (auto simp: list_ex_iff)
    with m e False show ?thesis by (simp add: Some)
  qed
qed

text \<open>Without a current route the winner is the result with the least score, and the least
  route tag among equal scores: neither the order of the candidates nor that of the probes
  decides.\<close>

theorem select_best_least_score:
  assumes "select_best_with_policy results p [] health wall = Some r" and "r' \<in> set results"
    and "selection_evidence r'" and "rr_route_type r' \<noteq> ''drop''"
  shows "selection_score r p health < selection_score r' p health \<or>
    selection_score r p health = selection_score r' p health \<and> rr_route r \<le> rr_route r'"
proof -
  obtain best where best: "\<forall>r' \<in> set (eligible_results results). \<not> score_less p health r' best" "r = best"
    using assms(1) by (rule select_best_cases) auto
  from assms(2-4) have "r' \<in> set (eligible_results results)" by (auto simp: eligible_results_iff)
  with best show ?thesis by (auto simp: score_less_def Let_def split: if_splits)
qed

definition measured :: "string \<Rightarrow> string \<Rightarrow> int \<Rightarrow> route_result" where
  "measured tag ty ms = zero_result\<lparr>rr_route := tag, rr_route_type := ty, rr_status := ''OK'',
     rr_path_verified := True, rr_service_ok := True, rr_end_to_end_latency_available := True,
     rr_end_to_end_latency_ms := ms\<rparr>"

lemma measured_simps [simp]:
  "rr_route (measured tag ty ms) = tag" "rr_route_type (measured tag ty ms) = ty"
  by (simp_all add: measured_def)

theorem select_best_least_score_witness:
  "\<exists>r. select_best_with_policy [measured ''a'' ''vless'' 90, measured ''b'' ''vless'' 40] zero_policy [] None 0 = Some r \<and>
     selection_score r zero_policy None \<le> selection_score (measured ''b'' ''vless'' 40) zero_policy None"
proof -
  let ?rs = "[measured ''a'' ''vless'' 90, measured ''b'' ''vless'' 40]"
  have "select_best_with_policy ?rs zero_policy [] None 0 \<noteq> None" by code_simp
  then obtain r where r: "select_best_with_policy ?rs zero_policy [] None 0 = Some r" by blast
  have "measured ''b'' ''vless'' 40 \<in> set ?rs" "selection_evidence (measured ''b'' ''vless'' 40)"
    "rr_route_type (measured ''b'' ''vless'' 40) \<noteq> ''drop''"
    by (simp, code_simp, simp add: measured_def)
  from select_best_least_score [OF r this] r show ?thesis by auto
qed



end
