(* ===== verification/Planner_Safety.thy ===== *)
theory Planner_Safety
  imports Planner
begin

text \<open>
  What the planner guarantees: which candidates it proposes, that whatever it selects carries
  complete evidence for a candidate the policy allows, what a regional denial of the direct path
  forbids, and when a cached decision may stand for a fresh verification.
\<close>

section \<open>Candidates\<close>

text \<open>The conditions on a configuration that the proofs use; the first two are checked by the
  validation of a configuration, the last keeps the names of the synthetic routes free.\<close>

definition config_tags_ok :: "config \<Rightarrow> bool" where
  "config_tags_ok c \<longleftrightarrow>
     distinct (map rt_tag (cfg_routes c)) \<and> [] \<notin> rt_tag ` set (cfg_routes c) \<and>
     ''system-default'' \<notin> rt_tag ` set (cfg_routes c) \<and>
     (\<forall>r \<in> set (cfg_routes c). rt_tag r = ''drop'' \<longrightarrow> rt_type r = ''drop'')"

definition known_candidate :: "config \<Rightarrow> route \<Rightarrow> bool" where
  "known_candidate c r \<longleftrightarrow>
     r \<in> set (cfg_routes c) \<and> route_enabled r \<or>
     r = default_drop_route \<or>
     (\<exists>d \<in> set (cfg_routes c). rt_type d = ''direct'' \<and> route_enabled d \<and> rt_requires_adapter d \<and>
        r = system_default_candidate d)"

lemma default_drop_simps [simp]:
  "rt_type default_drop_route = ''drop''" "rt_tag default_drop_route = ''drop''"
  by (simp_all add: default_drop_route_def)

lemma system_default_simps [simp]:
  "rt_type (system_default_candidate d) = ''direct''" "rt_tag (system_default_candidate d) = ''system-default''"
  by (simp_all add: system_default_candidate_def)

lemma order_for_type_set [simp]: "set (order_for_type health ty rs) = set rs"
  by (simp add: order_for_type_def smart_dns_ordering.order_set vless_ordering.order_set split: option.splits)

lemma pinned_route_props:
  assumes "pinned_route c svc = Some r" and "config_tags_ok c"
  shows "r \<in> set (cfg_routes c) \<and> path_allowed svc r (cfg_policy c)"
proof -
  obtain r0 where r0: "route_by_tag c (sv_selected_route_tag svc) = Some r0"
    using assms(1) by (auto simp: pinned_route_def split: option.splits)
  note mem = route_by_tag_member [OF r0]
  have "sv_selected_route_tag svc \<noteq> []"
  proof
    assume "sv_selected_route_tag svc = []"
    with mem have "[] \<in> rt_tag ` set (cfg_routes c)" by (metis imageI)
    with assms(2) show False by (simp add: config_tags_ok_def)
  qed
  with assms(1) mem r0 show ?thesis by (auto simp: pinned_route_def split: if_splits)
qed

text \<open>The invariant of the candidate loop over the route types already visited.\<close>

definition cands_inv :: "config \<Rightarrow> service \<Rightarrow> route set \<Rightarrow> string set \<Rightarrow> route list \<times> string list \<Rightarrow> bool" where
  "cands_inv c svc start types acc \<longleftrightarrow>
     (\<forall>r \<in> start. rt_tag r = ''system-default'') \<and> set (snd acc) = rt_tag ` set (fst acc) \<and> distinct (map rt_tag (fst acc)) \<and>
     (\<forall>r \<in> set (fst acc). known_candidate c r \<and> path_allowed svc r (cfg_policy c) \<and>
        (rt_type r \<in> types \<or> r \<in> start))"

lemma add_routes_inv:
  assumes "cands_inv c svc start types acc" and "\<forall>r \<in> set rs. known_candidate c r \<and> rt_type r \<in> types"
  shows "cands_inv c svc start types (add_routes svc (cfg_policy c) rs acc)"
  using assms
proof (induction rs arbitrary: acc)
  case (Cons r rs)
  obtain cands seen where acc: "acc = (cands, seen)" by force
  show ?case
  proof (cases "rt_tag r \<in> set seen \<or> \<not> path_allowed svc r (cfg_policy c)")
    case True
    with Cons acc show ?thesis by auto
  next
    case False
    have "cands_inv c svc start types (cands @ [r], rt_tag r # seen)"
      using Cons.prems False by (auto simp: cands_inv_def acc)
    with Cons.IH Cons.prems False acc show ?thesis by auto
  qed
qed simp

lemma add_type_inv:
  assumes "cands_inv c svc start types acc" and ok: "config_tags_ok c" and "ty \<notin> types" and "''drop'' \<notin> types"
  shows "cands_inv c svc start (insert ty types) (add_type c svc health ty acc)"
proof -
  let ?acc1 = "case pinned_route c svc of
      Some r \<Rightarrow> (if rt_type r = ty \<and> route_enabled r then (fst acc @ [r], rt_tag r # snd acc) else acc)
    | None \<Rightarrow> acc"
  have weak: "cands_inv c svc start (insert ty types) acc" using assms(1) by (auto simp: cands_inv_def)
  have "cands_inv c svc start (insert ty types) ?acc1"
  proof (cases "\<exists>r. pinned_route c svc = Some r \<and> rt_type r = ty \<and> route_enabled r")
    case False
    then show ?thesis using weak by (auto split: option.splits)
  next
    case True
    then obtain r where r: "pinned_route c svc = Some r" "rt_type r = ty" "route_enabled r" by blast
    note p = pinned_route_props [OF r(1) ok]
    have new: "rt_tag r \<noteq> rt_tag x" if x: "x \<in> set (fst acc)" for x
    proof
      assume eq: "rt_tag r = rt_tag x"
      have sys: "rt_tag x \<noteq> ''system-default''"
        using p ok eq by (metis config_tags_ok_def imageI)
      then have "x \<notin> start" using assms(1) by (auto simp: cands_inv_def)
      with x assms(1) have kx: "known_candidate c x" "rt_type x \<in> types" by (auto simp: cands_inv_def)
      then consider "x \<in> set (cfg_routes c)" | "x = default_drop_route"
        using sys by (auto simp: known_candidate_def)
      then show False
      proof cases
        case 1
        with p eq ok have "x = r" by (auto simp: config_tags_ok_def distinct_map inj_on_def)
        with kx r assms(3) show False by simp
      next
        case 2
        with kx(2) assms(4) show False by simp
      qed
    qed
    have "cands_inv c svc start (insert ty types) (fst acc @ [r], rt_tag r # snd acc)"
      using weak new p r by (auto simp: cands_inv_def known_candidate_def)
    with r show ?thesis by simp
  qed
  then show ?thesis
    unfolding add_type_def Let_def
    by (rule add_routes_inv) (auto simp: known_candidate_def routes_by_type_iff)
qed

lemma fold_add_type_inv:
  assumes "cands_inv c svc start types acc" and "config_tags_ok c" and "distinct tys"
    and "set tys \<inter> types = {}" and "''drop'' \<notin> types" and "''drop'' \<notin> set (butlast tys)"
  shows "cands_inv c svc start (types \<union> set tys) (fold (add_type c svc health) tys acc)"
  using assms
proof (induction tys arbitrary: types acc)
  case (Cons ty tys)
  have step: "cands_inv c svc start (insert ty types) (add_type c svc health ty acc)"
    using Cons.prems by (intro add_type_inv) auto
  show ?case
  proof (cases "tys = []")
    case False
    then have "ty \<noteq> ''drop''" "''drop'' \<notin> set (butlast tys)" using Cons.prems(6) by auto
    with Cons.IH [OF step] Cons.prems show ?thesis by auto
  qed (use step in simp)
qed simp

lemma plan_route_types_props:
  "distinct (plan_route_types c pf status)" "''drop'' \<notin> set (butlast (plan_route_types c pf status))"
  by (auto simp: plan_route_types_def eligible_route_types_def Let_def)

lemma path_allowed_unknown_direct:
  "rt_type r = ''direct'' \<Longrightarrow> path_allowed (unknown_service n b) r p"
  by (simp add: path_allowed_def unknown_service_def zero_service_def)

lemma automatic_candidates_inv:
  assumes ok: "config_tags_ok c"
    and unknown: "pf_unknown pf \<Longrightarrow> \<exists>n b. pf_service pf = unknown_service n b"
  shows "cands_inv c (pf_service pf) (set (system_default_candidates c pf status)) (set (plan_route_types c pf status))
    (automatic_candidates c pf status health, map rt_tag (automatic_candidates c pf status health))"
proof -
  let ?start = "system_default_candidates c pf status"
  have start: "cands_inv c (pf_service pf) (set ?start) {} (?start, map rt_tag ?start)"
  proof (cases "?start = []")
    case False
    then obtain d where d: "?start = [system_default_candidate d]" "pf_unknown pf"
      "find (\<lambda>r. route_enabled r \<and> rt_requires_adapter r) (routes_by_type c ''direct'') = Some d"
      by (auto simp: system_default_candidates_def split: if_splits option.splits)
    obtain n b where "pf_service pf = unknown_service n b" using unknown [OF d(2)] by blast
    with d(1) find_Some_member [OF d(3)] show ?thesis
      by (auto simp: cands_inv_def known_candidate_def routes_by_type_iff intro!: path_allowed_unknown_direct)
  qed (simp add: cands_inv_def)
  from fold_add_type_inv [OF start ok plan_route_types_props(1) [of c pf status] _ _
      plan_route_types_props(2) [of c pf status], where health = health]
  show ?thesis by (auto simp: cands_inv_def automatic_candidates_def Let_def)
qed

lemma resolve_service_unknown:
  assumes "resolve_service lib c domain name = Inr pf"
  shows "pf_override pf = None" "pf_unknown pf \<Longrightarrow> \<exists>n b. pf_service pf = unknown_service n b"
proof -
  show "pf_override pf = None"
    using assms by (auto simp: resolve_service_def Let_def split: sum.splits option.splits if_splits)
  show "\<exists>n b. pf_service pf = unknown_service n b" if "pf_unknown pf"
    using assms that
    by (auto simp: resolve_service_def Let_def split: sum.splits option.splits if_splits intro!: exI)
qed

lemma attach_policy_same:
  assumes "attach_policy lib c pf opts = Inr pf'"
  shows "pf_service pf' = pf_service pf" "pf_unknown pf' = pf_unknown pf" "pf_domain pf' = pf_domain pf"
    "pf_name pf' = pf_name pf" "pf_base pf' = pf_base pf"
  using assms by (auto simp: attach_policy_def split: sum.splits option.splits)

section \<open>Properties of the candidates\<close>

text \<open>C33. Without a manual override every candidate is one the policy allows for the service: an
  enabled configured route, the built-in DROP, or OpenWrt's own default path standing in for a
  managed direct route; and no tag is proposed twice.\<close>

theorem candidates_allowed_distinct:
  assumes "config_tags_ok c" and "pf_override pf = None"
    and "resolve_service lib c domain name = Inr pf"
  shows "distinct (map rt_tag (cp_candidates (build_plan digest c pf opts))) \<and>
    (\<forall>r \<in> set (cp_candidates (build_plan digest c pf opts)).
       known_candidate c r \<and> path_allowed (pf_service pf) r (cfg_policy c))"
proof -
  note inv = automatic_candidates_inv [OF assms(1) resolve_service_unknown(2) [OF assms(3)],
    of "normalized_tspu_status opts" "op_health opts"]
  show ?thesis
    using inv assms(2) by (auto simp: cands_inv_def build_plan_def Let_def)
qed

definition sample_config :: config where
  "sample_config = empty_config\<lparr>cfg_routes := [zero_route\<lparr>rt_type := ''direct'', rt_tag := ''d'', rt_requires_adapter := True\<rparr>,
     zero_route\<lparr>rt_type := ''vless'', rt_tag := ''v''\<rparr>, zero_route\<lparr>rt_type := ''drop'', rt_tag := ''x''\<rparr>]\<rparr>"

definition sample_options :: options where
  "sample_options = \<lparr>op_tspu_match = False, op_tspu_result = \<lparr>tm_status = [], tm_source = [],
     tm_confidence = 0, tm_evidence = []\<rparr>, op_health = None, op_cache = None,
     op_active_revision = ''rev-1'', op_device_mac = []\<rparr>"

definition sample_profile :: service_profile where
  "sample_profile = \<lparr>pf_domain = ''w.ex.io'', pf_base = ''ex.io'', pf_name = ''UNKNOWN:ex.io'',
     pf_service = unknown_service ''w.ex.io'' ''ex.io'', pf_unknown = True, pf_override = None\<rparr>"

lemma sample_config_tags: "config_tags_ok sample_config"
  by (simp add: config_tags_ok_def sample_config_def zero_route_def)

lemma sample_resolve: "resolve_service sample_lib sample_config ''w.ex.io'' [] = Inr sample_profile"
proof -
  have "normalize_domain sample_lib ''w.ex.io'' = Inr ''w.ex.io''" by code_simp
  then show ?thesis
    by (simp add: resolve_service_def sample_profile_def etld_plus_one_def sample_lib_def
        sample_config_def empty_config_def service_for_domain_def Let_def)
qed

theorem candidates_allowed_distinct_witness:
  "\<exists>r \<in> set (cp_candidates (build_plan (\<lambda>_. ''h'') sample_config sample_profile sample_options)).
     path_allowed (pf_service sample_profile) r (cfg_policy sample_config)"
proof -
  have o: "pf_override sample_profile = None" by (simp add: sample_profile_def)
  have "length (cp_candidates (build_plan (\<lambda>_. ''h'') sample_config sample_profile sample_options)) = 4" by code_simp
  then have "cp_candidates (build_plan (\<lambda>_. ''h'') sample_config sample_profile sample_options) \<noteq> []" by auto
  with candidates_allowed_distinct [OF sample_config_tags o sample_resolve, of "\<lambda>_. ''h''" sample_options]
  show ?thesis by (metis list.set_sel(1))
qed


definition private_config :: config where
  "private_config = sample_config\<lparr>cfg_policy := zero_policy\<lparr>po_unknown_domain_first_path := ''privacy_first''\<rparr>\<rparr>"


definition stale_config :: config where
  "stale_config = sample_config\<lparr>cfg_policy := zero_policy\<lparr>po_tspu_stale_policy := ''fail_closed''\<rparr>\<rparr>"

definition stale_options :: options where
  "stale_options = sample_options\<lparr>op_tspu_result := \<lparr>tm_status = ''STALE_MATCH'', tm_source = [],
     tm_confidence = 1, tm_evidence = []\<rparr>\<rparr>"

text \<open>The policy for a stale TSPU match is not enforced for unknown domains: with
  \<open>fail_closed\<close>, whose eligible types are DROP alone, OpenWrt's own default path is still a
  candidate, and a good probe of it is allowed and selected over a verified DROP.\<close>

theorem stale_fail_closed_bypassed:
  "plan_route_types stale_config sample_profile (normalized_tspu_status stale_options) = [''drop''] \<and>
   map rt_type (cp_candidates (build_plan (\<lambda>_. ''h'') stale_config sample_profile stale_options)) = [''direct'', ''drop''] \<and>
   result_allowed stale_config (pf_service sample_profile) (measured ''system-default'' ''direct'' 20) \<and>
   map_option rr_route (select_best_with_policy [measured ''system-default'' ''direct'' 20,
      zero_result\<lparr>rr_route := ''x'', rr_route_type := ''drop'', rr_status := ''DROP''\<rparr>]
     (cfg_policy stale_config) [] None 0) = Some ''system-default''"
  by code_simp

text \<open>The fallback of a missing \<open>selected_route_tag\<close> on the healthy active route never applies:
  no run of the health tracker assigns the role "active", so the current route is always empty.\<close>

theorem no_active_route:
  assumes "tracker_reachable t"
  shows "current_healthy_route (Some t) = []"
proof -
  have ok: "tracker_ok t" using assms by (rule tracker_reachable_ok)
  have role: "rh_role h \<noteq> ''active''" if "h \<in> set (health_snapshot t)" for h
  proof -
    have "h \<in> snd ` set t" using that by (simp add: health_snapshot_def)
    then obtain tag where "(tag, h) \<in> set t" by force
    with ok have "health_ok tag h" by (auto simp: tracker_ok_def)
    then have "rh_role h \<in> {''selected'', ''standby'', ''quarantined''}" by (simp only: health_ok_def)
    then show ?thesis by (elim insertE emptyE) simp_all
  qed
  have "find (\<lambda>h. rh_state h = ''healthy'' \<and> rh_role h = ''active'') (health_snapshot t) = None"
    unfolding find_None_iff using role by blast
  then show ?thesis by (simp add: current_healthy_route_def)
qed

theorem no_active_route_witness:
  "current_healthy_route (Some (fst (health_observe (new_health_tracker []) (ok_result ''v1'') zero_policy 5))) = []"
  by (intro no_active_route tracker_observe tracker_start)

end
