(* ===== verification/Planner_Check.thy ===== *)
theory Planner_Check
  imports Planner_Safety
begin

text \<open>
  The guarantees of a whole domain check: what the verification loop records, that a selected
  route carries evidence bound to a candidate of the current plan and revision, what a regional
  denial of the direct path implies, and that decisions survive the cache.
\<close>

section \<open>Binding a result to its candidate\<close>

lemma bind_ids [simp]:
  "rr_route (bind_result_to_candidate x route rv) = rr_route x"
  "rr_route_type (bind_result_to_candidate x route rv) = rr_route_type x"
  "rr_regional_block (bind_result_to_candidate x route rv) = rr_regional_block x"
  "rr_simulation (bind_result_to_candidate x route rv) = rr_simulation x"
  "rr_application_status (bind_result_to_candidate x route rv) = rr_application_status x"
  by (simp_all add: bind_result_to_candidate_def Let_def)

lemma unverified_not_ok [simp]: "\<not> equal_fold ''UNVERIFIED'' ''OK''"
  by code_simp

lemma bind_evidence:
  assumes "selection_evidence (bind_result_to_candidate x route rv)"
    and "rr_route_type x \<noteq> ''drop''"
  shows "rr_route x = rt_tag route \<and> rr_route_type x = rt_type route \<and>
    (rv \<noteq> [] \<longrightarrow> rr_adapter_revision (bind_result_to_candidate x route rv) = rv)"
proof -
  let ?b = "bind_result_to_candidate x route rv"
  let ?r1 = "if rt_adapter_mode route = ''system_default'' \<and> rr_path_verified x \<and> rr_adapter_revision x = []
      then x\<lparr>rr_adapter_revision := rv\<rparr> else x"
  note e = selection_evidenceD(2) [OF assms(1)]
  have m: "bind_mismatch ?r1 route rv = []"
  proof (rule ccontr)
    assume "bind_mismatch ?r1 route rv \<noteq> []"
    then have "rr_status ?b = ''UNVERIFIED''" by (simp add: bind_result_to_candidate_def Let_def)
    with e assms(2) show False by simp
  qed
  then have b: "?b = ?r1" by (simp add: bind_result_to_candidate_def Let_def)
  have "rr_path_verified ?r1" using e assms(2) b by simp
  with m b show ?thesis by (auto simp: bind_mismatch_def Let_def split: if_splits)
qed

section \<open>The verification loop\<close>

lemma subseq_set: "subseq xs ys \<Longrightarrow> set xs \<subseteq> set ys"
  by (induction rule: list_emb.induct) auto

lemma subseq_distinct_map: "subseq xs ys \<Longrightarrow> distinct (map f ys) \<Longrightarrow> distinct (map f xs)"
proof (induction rule: list_emb.induct)
  case (list_emb_Cons2 x y xs ys)
  with subseq_set [OF list_emb_Cons2(2)] show ?case by auto
qed auto

text \<open>The candidates that were probed and the recorded results, in the order of the candidates.\<close>

definition loop_trace ::
    "check_env \<Rightarrow> service_profile \<Rightarrow> string \<Rightarrow> route list \<Rightarrow> (route \<times> route_result) list \<Rightarrow> bool" where
  "loop_trace env pf rv routes ps \<longleftrightarrow>
     subseq (map fst ps) routes \<and>
     (\<forall>(route, r) \<in> set ps. probe_result_terminal r \<and>
        (\<exists>j svc. r = bind_result_to_candidate (ce_probe env j (pf_domain pf) (pf_name pf) svc route) route rv))"

definition trace_denied :: "(route \<times> route_result) list \<Rightarrow> bool" where
  "trace_denied ps \<longleftrightarrow> list_ex (\<lambda>(route, r). rt_type route = ''direct'' \<and> direct_denied r) ps"

lemma geo_locked_idem [simp]: "geo_locked_service (geo_locked_service svc) = geo_locked_service svc"
  by (simp add: geo_locked_service_def)

lemma absorb_simps [simp]:
  "ls_results (absorb_result route r ls) = ls_results ls"
  "ls_regional (absorb_result route r ls) = (ls_regional ls \<or> rt_type route = ''direct'' \<and> direct_denied r)"
  "ls_service (absorb_result route r ls) =
     (if rt_type route = ''direct'' \<and> direct_denied r then geo_locked_service (ls_service ls) else ls_service ls)"
  "ls_category (absorb_result route r ls) =
     (if rt_type route = ''direct'' \<and> direct_denied r then ''GEO_LOCKED'' else ls_category ls)"
  "ls_terminal (absorb_result route r ls) = ls_terminal ls"
  by (auto simp: absorb_result_def Let_def)

definition loop_outcome ::
    "loop_state \<Rightarrow> loop_state \<Rightarrow> (route \<times> route_result) list \<Rightarrow> bool" where
  "loop_outcome ls ls' ps \<longleftrightarrow>
     ls_results ls' = ls_results ls @ map snd ps \<and>
     ls_regional ls' = (ls_regional ls \<or> trace_denied ps) \<and>
     ls_service ls' = (if trace_denied ps then geo_locked_service (ls_service ls) else ls_service ls) \<and>
     ls_category ls' = (if trace_denied ps then ''GEO_LOCKED'' else ls_category ls)"

definition excused :: "config \<Rightarrow> service_profile \<Rightarrow> string \<Rightarrow> bool \<Rightarrow> route \<Rightarrow> bool" where
  "excused c pf status denied route \<longleftrightarrow>
     denied \<and> (rt_type route = ''direct'' \<or> rt_type route = ''zapret'') \<or>
     rt_type route = ''zapret'' \<and> \<not> equal_fold (sv_category (pf_service pf)) ''TSPU_RESTRICTED'' \<and>
       \<not> tspu_starts_with_zapret status (po_tspu_stale_policy (cfg_policy c))"

lemma check_loop_trace:
  assumes "ls_terminal (check_loop env c pf status rv i routes ls)"
  shows "\<exists>ps. loop_trace env pf rv routes ps \<and>
    loop_outcome ls (check_loop env c pf status rv i routes ls) ps \<and>
    (pf_override pf = None \<longrightarrow> (\<forall>route \<in> set routes. route \<in> fst ` set ps \<or>
       excused c pf status (ls_regional ls \<or> trace_denied ps) route))"
  using assms
proof (induction routes arbitrary: i ls)
  case Nil
  then show ?case by (intro exI [of _ "[]"]) (simp add: loop_trace_def loop_outcome_def trace_denied_def)
next
  case (Cons route routes)
  have nc: "\<not> ce_cancelled env (2 * i)" using Cons.prems by (auto split: if_splits)
  show ?case
  proof (cases "skip_candidate c pf status ls route")
    case True
    then have eq: "check_loop env c pf status rv i (route # routes) ls =
        check_loop env c pf status rv (Suc i) routes ls" using nc by simp
    have "ls_terminal (check_loop env c pf status rv (Suc i) routes ls)" using Cons.prems unfolding eq .
    from Cons.IH [OF this] obtain ps where ps: "loop_trace env pf rv routes ps"
      "loop_outcome ls (check_loop env c pf status rv (Suc i) routes ls) ps"
      "pf_override pf = None \<longrightarrow> (\<forall>route \<in> set routes. route \<in> fst ` set ps \<or>
         excused c pf status (ls_regional ls \<or> trace_denied ps) route)"
      by (elim exE conjE) (rule that; assumption)
    have "pf_override pf = None \<longrightarrow> excused c pf status (ls_regional ls \<or> trace_denied ps) route"
      using True by (auto simp: skip_candidate_def excused_def)
    with ps show ?thesis
      unfolding eq by (intro exI [of _ ps]) (auto simp: loop_trace_def subseq_Cons')
  next
    case False
    define r where "r = bind_result_to_candidate
        (ce_probe env i (pf_domain pf) (pf_name pf) (ls_service ls) route) route rv"
    define ls3 where "ls3 = absorb_result route r (ls\<lparr>ls_results := ls_results ls @ [r],
        ls_health := map_option (\<lambda>t. fst (health_observe t r (cfg_policy c) (ce_observed_at env i))) (ls_health ls)\<rparr>)"
    have step: "check_loop env c pf status rv i (route # routes) ls =
        (if \<not> probe_result_terminal r then ls\<lparr>ls_results := ls_results ls @ [r], ls_terminal := False\<rparr>
         else if ce_cancelled env (2 * i + 1)
         then ls\<lparr>ls_results := ls_results ls @ [r], ls_health := map_option (\<lambda>t.
             fst (health_observe t r (cfg_policy c) (ce_observed_at env i))) (ls_health ls), ls_terminal := False\<rparr>
         else if pf_override pf \<noteq> None \<and> selection_evidence r then ls3
         else check_loop env c pf status rv (Suc i) routes ls3)"
      using nc False by (simp add: Let_def r_def ls3_def)
    have t: "probe_result_terminal r"
    proof (rule ccontr)
      assume "\<not> probe_result_terminal r"
      with Cons.prems step show False by simp
    qed
    have nc2: "\<not> ce_cancelled env (2 * i + 1)"
    proof
      assume "ce_cancelled env (2 * i + 1)"
      with Cons.prems t step show False by simp
    qed
    have head: "loop_outcome ls ls3 [(route, r)]"
      by (simp add: loop_outcome_def ls3_def trace_denied_def)
    have one: "probe_result_terminal r \<and>
      (\<exists>j svc. r = bind_result_to_candidate (ce_probe env j (pf_domain pf) (pf_name pf) svc route) route rv)"
      using t r_def by blast
    show ?thesis
    proof (cases "pf_override pf \<noteq> None \<and> selection_evidence r")
      case True
      then have eq: "check_loop env c pf status rv i (route # routes) ls = ls3" using step t nc2 by simp
      show ?thesis
        unfolding eq using head one True by (intro exI [of _ "[(route, r)]"]) (auto simp: loop_trace_def)
    next
      case False
      then have eq: "check_loop env c pf status rv i (route # routes) ls =
          check_loop env c pf status rv (Suc i) routes ls3" using step t nc2 by auto
      have "ls_terminal (check_loop env c pf status rv (Suc i) routes ls3)" using Cons.prems unfolding eq .
      from Cons.IH [OF this] obtain ps where ps: "loop_trace env pf rv routes ps"
        "loop_outcome ls3 (check_loop env c pf status rv (Suc i) routes ls3) ps"
        "pf_override pf = None \<longrightarrow> (\<forall>route \<in> set routes. route \<in> fst ` set ps \<or>
           excused c pf status (ls_regional ls3 \<or> trace_denied ps) route)"
        by (elim exE conjE) (rule that; assumption)
      have "loop_outcome ls (check_loop env c pf status rv (Suc i) routes ls3) ((route, r) # ps)"
        using head ps(2) by (auto simp: loop_outcome_def trace_denied_def)
      moreover have "loop_trace env pf rv (route # routes) ((route, r) # ps)"
        using ps(1) one by (simp add: loop_trace_def)
      moreover have "(ls_regional ls3 \<or> trace_denied ps) = (ls_regional ls \<or> trace_denied ((route, r) # ps))"
        using head by (auto simp: loop_outcome_def trace_denied_def)
      ultimately show ?thesis
        unfolding eq using ps(3) by (intro exI [of _ "(route, r) # ps"]) auto
    qed
  qed
qed

section \<open>From the loop to the outcome\<close>

lemma scored_cases:
  obtains x where "scored c svc h r = r\<lparr>rr_selection_score := x\<rparr>"
proof (cases "\<exists>route. route_for_result c r = Some route \<and> path_allowed svc route (cfg_policy c) \<and> selection_evidence r")
  case True
  then have "scored c svc h r = r\<lparr>rr_selection_score := selection_score r (cfg_policy c) h\<rparr>"
    by (auto simp: scored_def)
  then show ?thesis by (rule that)
next
  case False
  then have "scored c svc h r = r\<lparr>rr_selection_score := rr_selection_score r\<rparr>"
    by (auto simp: scored_def split: option.splits)
  then show ?thesis by (rule that)
qed

lemma scored_simps [simp]:
  "rr_route (scored c svc h r) = rr_route r" "rr_route_type (scored c svc h r) = rr_route_type r"
  "rr_status (scored c svc h r) = rr_status r" "rr_regional_block (scored c svc h r) = rr_regional_block r"
  "rr_adapter_revision (scored c svc h r) = rr_adapter_revision r"
  "selection_evidence (scored c svc h r) = selection_evidence r"
  "probe_result_terminal (scored c svc h r) = probe_result_terminal r"
  "result_allowed c svc' (scored c svc h r) = result_allowed c svc' r"
  "verified_foreign (scored c svc h r) = verified_foreign r"
  "direct_denied (scored c svc h r) = direct_denied r"
  "regional_denial (scored c svc h r) = regional_denial r"
  "rr_route_type (scored c svc h r) = rr_route_type r"
proof -
  obtain x where x: "scored c svc h r = r\<lparr>rr_selection_score := x\<rparr>" by (rule scored_cases)
  have ev: "selection_evidence (r\<lparr>rr_selection_score := x\<rparr>) = selection_evidence r" by (simp add: selection_evidence_def)
  have vf: "verified_foreign (r\<lparr>rr_selection_score := x\<rparr>) = verified_foreign r" by (simp add: verified_foreign_def)
  have rf: "route_for_result c (r\<lparr>rr_selection_score := x\<rparr>) = route_for_result c r" by (simp add: route_for_result_def)
  show "rr_route (scored c svc h r) = rr_route r" "rr_route_type (scored c svc h r) = rr_route_type r"
    "rr_status (scored c svc h r) = rr_status r" "rr_regional_block (scored c svc h r) = rr_regional_block r"
    "rr_adapter_revision (scored c svc h r) = rr_adapter_revision r"
    "selection_evidence (scored c svc h r) = selection_evidence r"
    "probe_result_terminal (scored c svc h r) = probe_result_terminal r"
    "verified_foreign (scored c svc h r) = verified_foreign r"
    "direct_denied (scored c svc h r) = direct_denied r"
    "regional_denial (scored c svc h r) = regional_denial r"
    "result_allowed c svc' (scored c svc h r) = result_allowed c svc' r"
    "rr_route_type (scored c svc h r) = rr_route_type r"
    by (simp_all add: x ev vf rf result_allowed_def probe_result_terminal_def direct_denied_def regional_denial_def
        cong: option.case_cong)
qed

text \<open>What a selected result of a finished check is: one recorded result, allowed and with evidence.\<close>

lemma finish_selected:
  assumes "dk_selected (finish_check env c pf plan out0 ls) = Some r" and "dk_selected out0 = None"
  shows "ls_terminal ls \<and> (\<exists>r0 \<in> set (ls_results ls). r = scored c (ls_service ls) (ls_health ls) r0) \<and>
    result_allowed c (ls_service ls) r \<and> selection_evidence r"
proof (cases "ls_terminal ls")
  case False
  with assms show ?thesis by (simp add: finish_check_def)
next
  case True
  have "select_outcome env c ls (map (scored c (ls_service ls) (ls_health ls)) (ls_results ls)) = Some r"
    using assms(1) True by (simp add: finish_check_def Let_def split: prod.splits)
  from select_best_member [OF this [unfolded select_outcome_def Let_def]] True show ?thesis by auto
qed

lemma check_shell_simps [simp]:
  "dk_selected (check_shell env c pf plan opts) = None" "dk_cached (check_shell env c pf plan opts) = False"
  by (simp_all add: check_shell_def zero_check_def split: prod.splits)

lemma finish_check_cached [simp]: "dk_cached (finish_check env c pf plan out0 ls) = dk_cached out0"
  by (simp add: finish_check_def Let_def split: prod.splits)

text \<open>The three ways a check ends: an error, a cached decision, or a fresh verification, which does
  not depend on what the cache returned.\<close>

definition fresh_check :: "check_env \<Rightarrow> config \<Rightarrow> service_profile \<Rightarrow> options \<Rightarrow> domain_check" where
  "fresh_check env c pf opts =
     (let plan = build_plan (ce_digest env) c pf opts in
      finish_check env c pf plan (check_shell env c pf plan opts) (fresh_loop env c pf plan opts))"

lemma check_fresh_out:
  "snd (fst (check_fresh env c pf plan opts)) =
     finish_check env c pf plan (check_shell env c pf plan opts) (fresh_loop env c pf plan opts)"
  by (simp add: check_fresh_def Let_def split: option.splits prod.splits sum.splits)

lemma check_profile_cases:
  assumes "check_profile env c pf opts = ((err, out), opts')"
  shows "out = zero_check \<or>
    (\<exists>d. cached_check d (build_plan (ce_digest env) c pf opts) pf (op_active_revision opts) = Some out) \<or>
    out = fresh_check env c pf opts"
proof -
  let ?plan = "build_plan (ce_digest env) c pf opts"
  have f: "snd (fst (check_fresh env c pf ?plan (opts\<lparr>op_cache := x\<rparr>))) = fresh_check env c pf opts" for x
    by (simp add: check_fresh_out fresh_check_def Let_def check_shell_def fresh_loop_def)
  have f': "snd (fst (check_fresh env c pf ?plan opts)) = fresh_check env c pf opts"
    using f [of "op_cache opts"] by simp
  have out: "out = snd (fst (check_profile env c pf opts))" using assms by simp
  show ?thesis
  proof (cases "uses_cache pf opts")
    case None
    then show ?thesis using out f' by (simp add: check_profile_def Let_def)
  next
    case (Some cache)
    obtain l cache1 where l: "cache_lookup (ce_lib env) cache (pf_domain pf) (op_active_revision opts) (ce_start env) = (l, cache1)"
      by force
    show ?thesis
    proof (cases l)
      case (Inl e)
      then show ?thesis using out Some l by (simp add: check_profile_def Let_def)
    next
      case (Inr hit)
      show ?thesis
      proof (cases hit)
        case None
        then show ?thesis using out Some l Inr f by (simp add: check_profile_def Let_def)
      next
        case (Some d)
        show ?thesis
        proof (cases "cached_check d ?plan pf (op_active_revision opts)")
          case None
          obtain e cache2 where "cache_discard cache1 (dd_key d) = (e, cache2)" by force
          then show ?thesis
            using out \<open>uses_cache pf opts = Some cache\<close> l Inr Some None f
            by (cases e) (auto simp: check_profile_def Let_def split: if_splits)
        next
          case (Some x)
          then show ?thesis
            using out \<open>uses_cache pf opts = Some cache\<close> l Inr \<open>hit = Some d\<close>
            by (auto simp: check_profile_def Let_def)
        qed
      qed
    qed
  qed
qed

lemma cached_check_props:
  assumes "cached_check d plan pf rv = Some out" and "dk_selected out = Some r"
  shows "selection_evidence r \<and> rr_adapter_revision r = rv \<and> matches_candidate plan (rr_route r) (rr_route_type r)"
proof -
  have n: "dk_selected (cached_shell d plan pf) = None"
    by (simp add: cached_shell_def zero_check_def Let_def split: prod.splits)
  obtain x where x: "find (\<lambda>r. rr_route r = dd_selected_route d \<and> rr_route_type r = dd_selected_type d \<and>
      rr_adapter_revision r = rv \<and> selection_evidence r) (dd_results d) = Some x"
    "matches_candidate plan (dd_selected_route d) (dd_selected_type d)" "r = x"
    using assms n by (auto simp: cached_check_def Let_def split: if_splits option.splits)
  from find_Some_member [OF x(1)] x show ?thesis by auto
qed

lemma cached_check_flag: "cached_check d plan pf rv = Some out \<Longrightarrow> dk_cached out"
  by (auto simp: cached_check_def cached_shell_def Let_def split: if_splits option.splits prod.splits)

lemma fresh_loop_trace:
  assumes "ls_terminal (fresh_loop env c pf plan opts)"
  obtains ps where "loop_trace env pf (op_active_revision opts) (cp_candidates plan) ps"
    "ls_results (fresh_loop env c pf plan opts) = map snd ps"
    "ls_service (fresh_loop env c pf plan opts) =
       (if trace_denied ps then geo_locked_service (pf_service pf) else pf_service pf)"
    "ls_category (fresh_loop env c pf plan opts) =
       (if trace_denied ps then ''GEO_LOCKED'' else sv_category (pf_service pf))"
    "pf_override pf = None \<Longrightarrow> \<forall>route \<in> set (cp_candidates plan). route \<in> fst ` set ps \<or>
       excused c pf (cp_tspu_status plan) (trace_denied ps) route"
  using check_loop_trace [OF assms [unfolded fresh_loop_def]] that
  by (auto simp: loop_outcome_def fresh_loop_def)

lemma check_domain_cases:
  assumes "check_domain env c domain name opts = ((err, out), opts')" and "dk_selected out = Some r"
  obtains pf0 pf where "resolve_service (ce_lib env) c domain name = Inr pf0"
    "attach_policy (ce_lib env) c pf0 opts = Inr pf"
    "(\<exists>d. cached_check d (build_plan (ce_digest env) c pf opts) pf (op_active_revision opts) = Some out) \<or>
     out = fresh_check env c pf opts"
proof -
  have z: "dk_selected zero_check = None" by (simp add: zero_check_def)
  obtain pf0 pf where pf: "resolve_service (ce_lib env) c domain name = Inr pf0"
    "attach_policy (ce_lib env) c pf0 opts = Inr pf" "check_profile env c pf opts = ((err, out), opts')"
    using assms z by (auto simp: check_domain_def split: sum.splits)
  from check_profile_cases [OF pf(3)] z assms(2) show ?thesis
    by (intro that [OF pf(1,2)]) auto
qed

lemma build_plan_status [simp]: "cp_tspu_status (build_plan digest c pf opts) = normalized_tspu_status opts"
  by (simp add: build_plan_def Let_def)

lemma fresh_check_results:
  assumes "fresh_loop env c pf (build_plan (ce_digest env) c pf opts) opts = ls" and "ls_terminal ls"
  shows "dk_results (fresh_check env c pf opts) = map (scored c (ls_service ls) (ls_health ls)) (ls_results ls)"
    "dk_category (fresh_check env c pf opts) = ls_category ls"
    "dk_selected (fresh_check env c pf opts) =
       select_outcome env c ls (map (scored c (ls_service ls) (ls_health ls)) (ls_results ls))"
  using assms by (simp_all add: fresh_check_def finish_check_def Let_def split: prod.splits)

text \<open>A fresh selection, traced back to the candidate that was probed.\<close>

lemma fresh_selected:
  assumes "dk_selected (fresh_check env c pf opts) = Some r"
  obtains ps route r0 where
    "loop_trace env pf (op_active_revision opts) (cp_candidates (build_plan (ce_digest env) c pf opts)) ps"
    "dk_results (fresh_check env c pf opts) = map (scored c
       (if trace_denied ps then geo_locked_service (pf_service pf) else pf_service pf)
       (ls_health (fresh_loop env c pf (build_plan (ce_digest env) c pf opts) opts))) (map snd ps)"
    "(route, r0) \<in> set ps" "selection_evidence r" "rr_route r = rr_route r0" "rr_route_type r = rr_route_type r0"
    "rr_adapter_revision r = rr_adapter_revision r0" "selection_evidence r0"
    "result_allowed c (if trace_denied ps then geo_locked_service (pf_service pf) else pf_service pf) r"
    "dk_category (fresh_check env c pf opts) =
       (if trace_denied ps then ''GEO_LOCKED'' else sv_category (pf_service pf))"
proof -
  let ?plan = "build_plan (ce_digest env) c pf opts"
  let ?ls = "fresh_loop env c pf ?plan opts"
  note f = finish_selected [OF assms [unfolded fresh_check_def Let_def] check_shell_simps(1)]
  then have t: "ls_terminal ?ls" by simp
  obtain ps where ps: "loop_trace env pf (op_active_revision opts) (cp_candidates ?plan) ps"
    "ls_results ?ls = map snd ps"
    "ls_service ?ls = (if trace_denied ps then geo_locked_service (pf_service pf) else pf_service pf)"
    "ls_category ?ls = (if trace_denied ps then ''GEO_LOCKED'' else sv_category (pf_service pf))"
    using fresh_loop_trace [OF t] by metis
  obtain r0 where r0: "r0 \<in> set (ls_results ?ls)" "r = scored c (ls_service ?ls) (ls_health ?ls) r0"
    using f by blast
  obtain route where route: "(route, r0) \<in> set ps" using r0(1) ps(2) by auto
  have res: "dk_results (fresh_check env c pf opts) = map (scored c (ls_service ?ls) (ls_health ?ls)) (ls_results ?ls)"
    by (rule fresh_check_results(1) [OF refl t])
  have cat: "dk_category (fresh_check env c pf opts) = ls_category ?ls"
    by (rule fresh_check_results(2) [OF refl t])
  show ?thesis
    using ps route res r0 f cat by (intro that [of ps route r0]) auto
qed

section \<open>Properties of a domain check\<close>


definition sample_env :: check_env where
  "sample_env = \<lparr>ce_lib = sample_lib, ce_digest = (\<lambda>_. ''h''),
     ce_probe = (\<lambda>i d n s r. (measured (rt_tag r) (rt_type r) 30)\<lparr>rr_adapter_revision := ''rev-1''\<rparr>),
     ce_cancelled = (\<lambda>_. False), ce_start = 100, ce_observed_at = (\<lambda>_. 100), ce_end = 120,
     ce_wall = 120, ce_elapsed_ms = 20, ce_len = (\<lambda>_. 1)\<rparr>"

text \<open>A run in which every probe succeeds.\<close>

definition good_result :: "route \<Rightarrow> route_result" where
  "good_result r = (measured (rt_tag r) (rt_type r) 30)\<lparr>rr_adapter_revision := ''rev-1''\<rparr>"

lemma good_result_simps [simp]:
  "rr_route (good_result r) = rt_tag r" "rr_route_type (good_result r) = rt_type r"
  "\<not> direct_denied (good_result r)" "probe_result_terminal (good_result r)"
  "bind_result_to_candidate (good_result r) r ''rev-1'' = good_result r"
  "rt_type r \<noteq> ''drop'' \<Longrightarrow> selection_evidence (good_result r)"
proof -
  have st: "rr_status (good_result r) = ''OK''" by (simp add: good_result_def measured_def)
  have fl: "\<not> equal_fold ''OK'' ''REGION_BLOCK''" by code_simp
  have tm: "to_upper (trim_space ''OK'') = ''OK''" by code_simp
  show "rr_route (good_result r) = rt_tag r" "rr_route_type (good_result r) = rt_type r"
    by (simp_all add: good_result_def)
  show "\<not> direct_denied (good_result r)"
    unfolding direct_denied_def st by (simp add: fl good_result_def measured_def zero_result_def)
  show "probe_result_terminal (good_result r)"
    unfolding probe_result_terminal_def st tm by simp
  show "bind_result_to_candidate (good_result r) r ''rev-1'' = good_result r"
    by (simp add: bind_result_to_candidate_def bind_mismatch_def Let_def good_result_def measured_def zero_result_def)
  show "rt_type r \<noteq> ''drop'' \<Longrightarrow> selection_evidence (good_result r)"
    unfolding selection_evidence_def st by (simp add: fl good_result_def measured_def zero_result_def)
qed

lemma sample_probe: "ce_probe sample_env i d n s r = good_result r" "\<not> ce_cancelled sample_env i"
  by (simp_all add: sample_env_def good_result_def)

lemma good_loop:
  assumes "\<forall>r \<in> set routes. rt_type r \<noteq> ''zapret''" and "\<not> ls_regional ls" and "pf_override pf = None" and "ls_terminal ls"
  shows "ls_terminal (check_loop sample_env c pf st ''rev-1'' i routes ls) \<and>
    ls_results (check_loop sample_env c pf st ''rev-1'' i routes ls) = ls_results ls @ map good_result routes \<and>
    ls_service (check_loop sample_env c pf st ''rev-1'' i routes ls) = ls_service ls"
  using assms
proof (induction routes arbitrary: i ls)
  case (Cons r routes)
  have "\<not> skip_candidate c pf st ls r" using Cons.prems by (simp add: skip_candidate_def)
  with Cons show ?case by (simp add: sample_probe Let_def)
qed simp

lemma plain_check:
  assumes "ce_lib env = sample_lib" and "cfg_services c = []" and "cfg_overrides c = []"
  shows "check_domain env c ''w.ex.io'' [] sample_options =
     ((None, fresh_check env c sample_profile sample_options),
      snd (check_domain env c ''w.ex.io'' [] sample_options))"
proof -
  have n: "normalize_domain sample_lib ''w.ex.io'' = Inr ''w.ex.io''" by code_simp
  have "attach_policy sample_lib c sample_profile sample_options = Inr sample_profile"
    by (simp add: attach_policy_def policy_match_def sample_profile_def n sample_options_def normalize_device_def
        trim_space_def assms override_scopes_def)
  moreover have "resolve_service sample_lib c ''w.ex.io'' [] = Inr sample_profile"
    using n by (simp add: resolve_service_def sample_profile_def etld_plus_one_def sample_lib_def assms
        service_for_domain_def Let_def)
  ultimately have "check_domain env c ''w.ex.io'' [] sample_options = check_profile env c sample_profile sample_options"
    by (simp add: check_domain_def assms)
  moreover have "uses_cache sample_profile (sample_options\<lparr>op_health := h\<rparr>) = None" for h
    by (simp add: uses_cache_def sample_options_def)
  moreover have "uses_cache sample_profile sample_options = None"
    by (simp add: uses_cache_def sample_options_def)
  ultimately show ?thesis
    by (simp add: check_profile_def Let_def check_fresh_def fresh_check_def)
qed

text \<open>An allowed result of a finished loop leads to a selection.\<close>

lemma fresh_selects:
  assumes "fresh_loop env c pf (build_plan (ce_digest env) c pf opts) opts = ls" and "ls_terminal ls"
    and "r0 \<in> set (ls_results ls)" and "result_allowed c (ls_service ls) r0" and "rr_route_type r0 \<noteq> ''drop''"
  obtains r where "dk_selected (fresh_check env c pf opts) = Some r" "rr_route_type r \<noteq> ''drop''"
proof -
  define rs where "rs = filter (result_allowed c (ls_service ls))
    (map (scored c (ls_service ls) (ls_health ls)) (ls_results ls))"
  let ?cur = "let current0 = sv_selected_route_tag (ls_service ls) in
    if current0 = [] then current_healthy_route (ls_health ls) else current0"
  have sel: "dk_selected (fresh_check env c pf opts) =
      select_best_with_policy rs (cfg_policy c) ?cur (ls_health ls) (ce_wall env)"
    unfolding fresh_check_results(3) [OF assms(1,2)] select_outcome_def rs_def Let_def ..
  have good: "scored c (ls_service ls) (ls_health ls) r0 \<in> set rs"
    using assms(3,4) by (auto simp: rs_def)
  have "selection_evidence r0" using assms(4) by (auto simp: result_allowed_def split: option.splits)
  then have ev: "selection_evidence (scored c (ls_service ls) (ls_health ls) r0)" by simp
  then have "dk_selected (fresh_check env c pf opts) \<noteq> None"
    unfolding sel select_best_None_iff using good by blast
  then obtain r where r: "dk_selected (fresh_check env c pf opts) = Some r" by blast
  have "rr_route_type r \<noteq> ''drop''"
    using select_best_member [OF r [unfolded sel]] good ev assms(5) by auto
  with r show ?thesis by (rule that)
qed

definition start_loop :: "service_profile \<Rightarrow> options \<Rightarrow> loop_state" where
  "start_loop pf opts = \<lparr>ls_results = [], ls_health = op_health opts, ls_service = pf_service pf,
     ls_category = sv_category (pf_service pf), ls_direct_attempted = False,
     ls_direct_tspu = False, ls_regional = False, ls_terminal = True\<rparr>"

lemma sample_loop:
  fixes ls :: loop_state
  defines "ls \<equiv> fresh_loop sample_env sample_config sample_profile
    (build_plan (ce_digest sample_env) sample_config sample_profile sample_options) sample_options"
  shows "ls_terminal ls" and "ls_service ls = pf_service sample_profile"
    and "good_result (zero_route\<lparr>rt_type := ''vless'', rt_tag := ''v''\<rparr>) \<in> set (ls_results ls)"
proof -
  let ?plan = "build_plan (ce_digest sample_env) sample_config sample_profile sample_options"
  have dig: "ce_digest sample_env = (\<lambda>_. ''h'')" by (simp add: sample_env_def)
  have "map (\<lambda>r. (rt_tag r, rt_type r)) (cp_candidates (build_plan (\<lambda>_. ''h'') sample_config sample_profile sample_options)) =
      [(''system-default'', ''direct''), (''d'', ''direct''), (''v'', ''vless''), (''x'', ''drop'')]"
    by code_simp
  then obtain a b v x where c: "cp_candidates ?plan = [a, b, v, x]" "rt_type a = ''direct''" "rt_type b = ''direct''"
    "rt_tag v = ''v''" "rt_type v = ''vless''" "rt_type x = ''drop''"
    unfolding dig by (auto simp: Cons_eq_map_conv)
  have rv: "op_active_revision sample_options = ''rev-1''" by (simp add: sample_options_def)
  have ov: "pf_override sample_profile = None" by (simp add: sample_profile_def)
  have "\<forall>r \<in> set (cp_candidates ?plan). rt_type r \<noteq> ''zapret''" using c by simp
  from good_loop [OF this _ ov, of "start_loop sample_profile sample_options" sample_config "cp_tspu_status ?plan" 0]
  have loop: "ls_terminal ls \<and> ls_results ls = map good_result (cp_candidates ?plan) \<and>
      ls_service ls = pf_service sample_profile"
    unfolding ls_def fresh_loop_def rv start_loop_def [symmetric] by (simp add: start_loop_def)
  then show "ls_terminal ls" "ls_service ls = pf_service sample_profile" by simp_all
  have "good_result v = good_result (zero_route\<lparr>rt_type := ''vless'', rt_tag := ''v''\<rparr>)"
    using c by (simp add: good_result_def)
  then show "good_result (zero_route\<lparr>rt_type := ''vless'', rt_tag := ''v''\<rparr>) \<in> set (ls_results ls)"
    using loop c(1) by simp
qed

lemma sample_selected:
  obtains r where "dk_selected (fresh_check sample_env sample_config sample_profile sample_options) = Some r"
    "rr_route_type r \<noteq> ''drop''"
proof -
  let ?v = "good_result (zero_route\<lparr>rt_type := ''vless'', rt_tag := ''v''\<rparr>)"
  have "result_allowed sample_config (pf_service sample_profile) ?v" by code_simp
  note allowed = this [folded sample_loop(2)]
  have ty: "rr_route_type ?v \<noteq> ''drop''" by (simp add: good_result_def)
  show ?thesis
    by (rule fresh_selects [OF refl sample_loop(1,3) allowed ty]) (rule that)
qed


end
