(* ===== verification/Planner_Replay.thy ===== *)
theory Planner_Replay
  imports Planner_Check
begin

text \<open>
  Two consequences of how a fresh check is traced: a regional denial of the direct path excludes
  direct and zapret routes from the outcome, and the decision persisted for an unknown domain is
  accepted again by the cached check of the same plan.
\<close>

section \<open>Honest probes\<close>

text \<open>The probe engine labels a result with the route it was asked to probe
  (\<^verbatim>\<open>internal/probe/probe.go\<close>, \<^verbatim>\<open>probeRoute\<close>).\<close>

definition honest_probe :: "check_env \<Rightarrow> bool" where
  "honest_probe env \<longleftrightarrow> (\<forall>i d n svc r. rr_route (ce_probe env i d n svc r) = rt_tag r \<and>
     rr_route_type (ce_probe env i d n svc r) = rt_type r)"

lemma honest_trace:
  assumes "honest_probe env" and "loop_trace env pf rv routes ps" and "(route, r) \<in> set ps"
  shows "rr_route r = rt_tag route" "rr_route_type r = rt_type route" "route \<in> set routes" "probe_result_terminal r"
proof -
  obtain j svc where r: "r = bind_result_to_candidate (ce_probe env j (pf_domain pf) (pf_name pf) svc route) route rv"
    and "probe_result_terminal r"
    using assms(2,3) by (fastforce simp: loop_trace_def)
  then show "probe_result_terminal r" by simp
  show "rr_route r = rt_tag route" "rr_route_type r = rt_type route"
    using assms(1) by (simp_all add: r honest_probe_def)
  show "route \<in> set routes"
    using assms(2,3) subseq_set [of "map fst ps" routes] by (force simp: loop_trace_def)
qed

lemma first_enabled_member:
  "first_enabled_route (routes_by_type c ty) = Some r \<Longrightarrow> r \<in> set (cfg_routes c)"
  by (auto simp: first_enabled_route_def routes_by_type_iff dest!: find_Some_member)

lemma plan_candidates_known:
  assumes "config_tags_ok c" and "resolve_service lib c domain name = Inr pf0" and "attach_policy lib c pf0 opts = Inr pf"
    and "r \<in> set (cp_candidates (build_plan digest c pf opts))"
  shows "known_candidate c r \<or> r \<in> set (cfg_routes c)"
proof (cases "pf_override pf")
  case None
  have u: "\<exists>n b. pf_service pf = unknown_service n b" if "pf_unknown pf"
    using resolve_service_unknown(2) [OF assms(2)] attach_policy_same [OF assms(3)] that by simp
  from automatic_candidates_inv [OF assms(1) u, of "normalized_tspu_status opts" "op_health opts"] None assms(4)
  show ?thesis by (auto simp: cands_inv_def build_plan_def Let_def)
next
  case (Some m)
  have "r \<in> set (override_candidates c pf m (op_health opts))"
    using assms(4) Some by (simp add: build_plan_def Let_def)
  then have "r \<in> set (cfg_routes c)"
    by (auto simp: override_candidates_def Let_def routes_by_type_iff split: if_splits option.splits
        dest!: select_route_enabled first_enabled_member first_enabled_member [OF sym])
  then show ?thesis by simp
qed

text \<open>The configured route of a result is the candidate that was probed.\<close>

lemma known_route_for_result:
  assumes "config_tags_ok c" and "known_candidate c route \<or> route \<in> set (cfg_routes c)"
    and "rr_route r = rt_tag route" and "rr_route_type r = rt_type route" and "rr_route_type r \<noteq> ''drop''"
    and "route_for_result c r = Some rt"
  shows "rt_type rt = rr_route_type r"
proof -
  consider (cfg) "route \<in> set (cfg_routes c)" | (sys) "rt_tag route = ''system-default''" "rt_type route = ''direct''"
    using assms(2,4,5) by (auto simp: known_candidate_def)
  then show ?thesis
  proof cases
    case cfg
    have "rt_tag route \<noteq> ''system-default''" using assms(1) cfg by (metis config_tags_ok_def imageI)
    moreover have "route_by_tag c (rt_tag route) = Some route"
      using assms(1) cfg by (intro route_by_tag_distinct) (simp_all add: config_tags_ok_def)
    ultimately show ?thesis using assms(3,4,6) by (simp add: route_for_result_def)
  next
    case sys
    with assms(3,4,6) show ?thesis by (auto simp: route_for_result_def)
  qed
qed

section \<open>A regional denial\<close>

text \<open>C17. Once the direct path has reported a regional denial, no direct and no zapret route is
  selected, whatever the service had allowed before, and a selected route other than DROP has an
  agreed egress country that is neither unknown nor RU.\<close>

theorem regional_denial_never_direct:
  assumes "config_tags_ok c" and "honest_probe env"
    and "check_domain env c domain name opts = ((err, out), opts')" and "\<not> dk_cached out"
    and "dk_selected out = Some r" and "r0 \<in> set (dk_results out)" and "rr_route_type r0 = ''direct''"
    and "direct_denied r0"
  shows "rr_route_type r \<noteq> ''direct'' \<and> rr_route_type r \<noteq> ''zapret'' \<and>
    (rr_route_type r \<noteq> ''drop'' \<longrightarrow> verified_foreign r) \<and> dk_category out = ''GEO_LOCKED''"
proof -
  obtain pf0 pf where pf: "resolve_service (ce_lib env) c domain name = Inr pf0"
    "attach_policy (ce_lib env) c pf0 opts = Inr pf"
    "(\<exists>d. cached_check d (build_plan (ce_digest env) c pf opts) pf (op_active_revision opts) = Some out) \<or>
     out = fresh_check env c pf opts"
    using check_domain_cases [OF assms(3,5)] .
  then have out: "out = fresh_check env c pf opts" using assms(4) cached_check_flag by blast
  have "dk_selected (fresh_check env c pf opts) = Some r" using assms(5) out by simp
  then show ?thesis
  proof (rule fresh_selected)
    fix ps route r1
    let ?plan = "build_plan (ce_digest env) c pf opts"
    let ?svc = "if trace_denied ps then geo_locked_service (pf_service pf) else pf_service pf"
    assume tr: "loop_trace env pf (op_active_revision opts) (cp_candidates ?plan) ps"
      and res: "dk_results (fresh_check env c pf opts) =
        map (scored c ?svc (ls_health (fresh_loop env c pf ?plan opts))) (map snd ps)"
      and in_ps: "(route, r1) \<in> set ps" and eq: "rr_route r = rr_route r1" "rr_route_type r = rr_route_type r1"
      and allowed: "result_allowed c ?svc r"
      and cat: "dk_category (fresh_check env c pf opts) = (if trace_denied ps then ''GEO_LOCKED'' else sv_category (pf_service pf))"
    obtain route0 x where x: "(route0, x) \<in> set ps" "r0 = scored c ?svc (ls_health (fresh_loop env c pf ?plan opts)) x"
      using assms(6) unfolding out res by auto
    have "rt_type route0 = ''direct''" "direct_denied x"
      using honest_trace(2) [OF assms(2) tr x(1)] assms(7,8) x(2) by simp_all
    with x(1) have denied: "trace_denied ps" by (auto simp: trace_denied_def list_ex_iff)
    obtain rt where rt: "route_for_result c r = Some rt" "path_allowed (geo_locked_service (pf_service pf)) rt (cfg_policy c)"
      "rt_type rt \<noteq> ''drop'' \<longrightarrow> verified_foreign r"
      using allowed denied by (auto simp: result_allowed_def geo_locked_service_def split: option.splits)
    have t: "rt_type rt \<notin> {''direct'', ''zapret''}"
      using path_allowed_type [OF rt(2)] by (auto simp: geo_locked_service_def)
    have same: "rt_type rt = rr_route_type r" if "rr_route_type r \<noteq> ''drop''"
    proof (rule known_route_for_result [OF assms(1) _ _ _ that rt(1)])
      show "known_candidate c route \<or> route \<in> set (cfg_routes c)"
        by (rule plan_candidates_known [OF assms(1) pf(1,2) honest_trace(3) [OF assms(2) tr in_ps]])
      show "rr_route r = rt_tag route" "rr_route_type r = rt_type route"
        using honest_trace [OF assms(2) tr in_ps] eq by simp_all
    qed
    show ?thesis
    proof (cases "rr_route_type r = ''drop''")
      case True
      with denied cat out show ?thesis by simp
    next
      case False
      with same t rt(3) denied cat out show ?thesis by simp
    qed
  qed
qed

text \<open>A run in which the direct path is denied and the VLESS path leaves from Germany.\<close>

definition geo_result :: "route \<Rightarrow> route_result" where
  "geo_result r = (if rt_type r = ''direct''
     then zero_result\<lparr>rr_route := rt_tag r, rr_route_type := rt_type r, rr_status := ''REGION_BLOCK''\<rparr>
     else (good_result r)\<lparr>rr_external_country := ''DE'', rr_egress_consensus := True\<rparr>)"

definition geo_env :: check_env where
  "geo_env = sample_env\<lparr>ce_probe := (\<lambda>i d n s r. geo_result r)\<rparr>"

definition geo_config :: config where
  "geo_config = empty_config\<lparr>cfg_routes := [zero_route\<lparr>rt_type := ''direct'', rt_tag := ''d''\<rparr>,
     zero_route\<lparr>rt_type := ''vless'', rt_tag := ''v''\<rparr>]\<rparr>"

lemma geo_result_simps [simp]:
  "rr_route (geo_result r) = rt_tag r" "rr_route_type (geo_result r) = rt_type r"
  "bind_result_to_candidate (geo_result r) r ''rev-1'' = geo_result r" "probe_result_terminal (geo_result r)"
  "direct_denied (geo_result r) \<longleftrightarrow> rt_type r = ''direct''"
proof -
  have fold: "\<not> equal_fold (trim_space ''REGION_BLOCK'') ''OK''" "\<not> equal_fold (trim_space ''REGION_BLOCK'') ''DEGRADED''"
    "equal_fold ''REGION_BLOCK'' ''REGION_BLOCK''" "\<not> equal_fold ''OK'' ''REGION_BLOCK''"
    "to_upper (trim_space ''REGION_BLOCK'') = ''REGION_BLOCK''" "to_upper (trim_space ''OK'') = ''OK''"
    by (code_simp, code_simp, simp, code_simp, code_simp, code_simp)
  show "rr_route (geo_result r) = rt_tag r" "rr_route_type (geo_result r) = rt_type r"
    by (simp_all add: geo_result_def)
  show "bind_result_to_candidate (geo_result r) r ''rev-1'' = geo_result r"
    by (simp add: bind_result_to_candidate_def bind_mismatch_def Let_def geo_result_def good_result_def
        measured_def zero_result_def fold)
  show "probe_result_terminal (geo_result r)"
    by (simp add: probe_result_terminal_def geo_result_def good_result_def measured_def zero_result_def fold)
  show "direct_denied (geo_result r) \<longleftrightarrow> rt_type r = ''direct''"
    by (simp add: direct_denied_def geo_result_def good_result_def measured_def zero_result_def fold)
qed

lemma geo_env_simps [simp]:
  "ce_probe geo_env i d n s r = geo_result r" "\<not> ce_cancelled geo_env i" "ce_lib geo_env = sample_lib"
  "ce_digest geo_env = (\<lambda>_. ''h'')"
  by (simp_all add: geo_env_def sample_env_def)

theorem regional_denial_never_direct_witness:
  "\<exists>r. dk_selected (snd (fst (check_domain geo_env geo_config ''w.ex.io'' [] sample_options))) = Some r \<and>
     rr_route_type r \<noteq> ''direct'' \<and> dk_category (snd (fst (check_domain geo_env geo_config ''w.ex.io'' [] sample_options))) = ''GEO_LOCKED''"
proof -
  let ?plan = "build_plan (ce_digest geo_env) geo_config sample_profile sample_options"
  let ?ls = "fresh_loop geo_env geo_config sample_profile ?plan sample_options"
  let ?v = "geo_result (zero_route\<lparr>rt_type := ''vless'', rt_tag := ''v''\<rparr>)"
  have "map (\<lambda>r. (rt_tag r, rt_type r)) (cp_candidates (build_plan (\<lambda>_. ''h'') geo_config sample_profile sample_options)) =
      [(''d'', ''direct''), (''v'', ''vless''), (''drop'', ''drop'')]"
    by code_simp
  then obtain d v x where c: "cp_candidates ?plan = [d, v, x]" "rt_type d = ''direct''"
    "rt_tag v = ''v''" "rt_type v = ''vless''" "rt_type x = ''drop''"
    by (auto simp: Cons_eq_map_conv)
  have rv: "op_active_revision sample_options = ''rev-1''" by (simp add: sample_options_def)
  have ov: "pf_override sample_profile = None" by (simp add: sample_profile_def)
  have regional: "\<not> ls_regional (start_loop sample_profile sample_options)" by (simp add: start_loop_def)
  have no: "\<not> skip_candidate geo_config sample_profile st ls r" if "rt_type r \<noteq> ''zapret''" "rt_type r \<noteq> ''direct'' \<or> \<not> ls_regional ls" for st ls r
    using that by (auto simp: skip_candidate_def)
  have loop: "ls_terminal ?ls \<and> ls_results ?ls = [geo_result d, geo_result v, geo_result x] \<and>
      ls_service ?ls = geo_locked_service (pf_service sample_profile)"
    unfolding fresh_loop_def rv start_loop_def [symmetric] c(1)
    by (simp add: no c(2-) ov Let_def start_loop_def)
  have vr: "geo_result v = ?v" using c by (simp add: geo_result_def good_result_def)
  have "result_allowed geo_config (geo_locked_service (pf_service sample_profile)) ?v" by code_simp
  then obtain r where r: "dk_selected (fresh_check geo_env geo_config sample_profile sample_options) = Some r"
    using fresh_selects [OF refl, of geo_env geo_config sample_profile sample_options ?v] loop vr by auto
  have "cfg_services geo_config = []" "cfg_overrides geo_config = []"
    by (simp_all add: geo_config_def empty_config_def)
  note check = plain_check [OF geo_env_simps(3) this]
  have tags: "config_tags_ok geo_config" by (simp add: config_tags_ok_def geo_config_def zero_route_def)
  have honest: "honest_probe geo_env" by (simp add: honest_probe_def)
  let ?out = "fresh_check geo_env geo_config sample_profile sample_options"
  have nc: "\<not> dk_cached ?out" by (simp add: fresh_check_def Let_def)
  let ?y = "scored geo_config (ls_service ?ls) (ls_health ?ls) (geo_result d)"
  have y: "?y \<in> set (dk_results ?out)" "rr_route_type ?y = ''direct''" "direct_denied ?y"
    using fresh_check_results(1) [OF refl, of geo_env geo_config sample_profile sample_options] loop c(2) by simp_all
  from regional_denial_never_direct [OF tags honest check nc r y] r check show ?thesis by (metis fst_conv snd_conv)
qed

section \<open>Decisions survive the cache\<close>

lemma is_space_lower [simp]: "is_space (lower_char ch) = is_space ch"
proof -
  have "byte (char_of (byte ch + 32)) = byte ch + 32" if "byte ch \<le> 90"
    using that by (simp add: byte_def)
  then show ?thesis by (auto simp: is_space_def lower_char_def)
qed

lemma trim_space_lower: "trim_space (to_lower s) = to_lower (trim_space s)"
proof -
  have "dropWhile is_space (map lower_char xs) = map lower_char (dropWhile is_space xs)" for xs
    by (induction xs) auto
  then show ?thesis by (simp add: trim_space_def to_lower_def rev_map)
qed

lemma equal_fold_trim: "equal_fold s t \<Longrightarrow> equal_fold (trim_space s) (trim_space t)"
  by (simp add: equal_fold_def flip: trim_space_lower)

lemma denied_regional: "direct_denied r \<Longrightarrow> regional_denial r"
proof -
  have "trim_space ''REGION_BLOCK'' = ''REGION_BLOCK''" by code_simp
  then show "direct_denied r \<Longrightarrow> regional_denial r"
    using equal_fold_trim [of "rr_status r" "''REGION_BLOCK''"] by (auto simp: direct_denied_def regional_denial_def)
qed

text \<open>What the cache returns for a saved decision differs only in its identity and its last use.\<close>

definition stored_as :: "decision \<Rightarrow> decision \<Rightarrow> bool" where
  "stored_as d d' \<longleftrightarrow> d' = d\<lparr>dd_key := dd_key d', dd_scope := dd_scope d', dd_domain := dd_domain d',
     dd_etld_plus_one := dd_etld_plus_one d', dd_last_used_at := dd_last_used_at d'\<rparr>"

lemma stored_as_fields:
  assumes "stored_as d d'"
  shows "dd_results d' = dd_results d" "dd_status d' = dd_status d" "dd_reason d' = dd_reason d"
    "dd_selected_route d' = dd_selected_route d" "dd_selected_type d' = dd_selected_type d"
    "dd_adapter_revision d' = dd_adapter_revision d" "dd_service d' = dd_service d"
    "dd_tspu_status d' = dd_tspu_status d" "dd_inventory_hash d' = dd_inventory_hash d"
  by (subst assms [unfolded stored_as_def], simp)+

lemma decision_of_fields [simp]:
  "dd_results (decision_of out plan pf rv) = dk_results out" "dd_status (decision_of out plan pf rv) = dk_status out"
  "dd_reason (decision_of out plan pf rv) = dk_reason out"
  "dd_selected_route (decision_of out plan pf rv) = (case dk_selected out of Some r \<Rightarrow> rr_route r | None \<Rightarrow> [])"
  "dd_selected_type (decision_of out plan pf rv) = (case dk_selected out of Some r \<Rightarrow> rr_route_type r | None \<Rightarrow> [])"
  "dd_adapter_revision (decision_of out plan pf rv) = rv" "dd_service (decision_of out plan pf rv) = pf_name pf"
  "dd_tspu_status (decision_of out plan pf rv) = dk_tspu_status out"
  "dd_inventory_hash (decision_of out plan pf rv) = cp_inventory_hash plan"
  by (simp_all add: decision_of_def)

lemma fresh_check_simps [simp]:
  "dk_tspu_status (fresh_check env c pf opts) = normalized_tspu_status opts"
proof -
  have "dk_tspu_status (finish_check env c pf plan out0 ls) = dk_tspu_status out0" for plan out0 ls
    by (simp add: finish_check_def Let_def split: prod.splits)
  moreover have "dk_tspu_status (check_shell env c pf plan opts) = cp_tspu_status plan" for plan
    by (simp add: check_shell_def split: prod.splits)
  ultimately show ?thesis by (simp add: fresh_check_def Let_def)
qed

lemma known_candidate_tag:
  "config_tags_ok c \<Longrightarrow> known_candidate c r \<Longrightarrow> rt_tag r \<noteq> []"
  by (auto simp: known_candidate_def config_tags_ok_def dest: arg_cong [of _ _ rt_tag] intro: rev_image_eqI)

text \<open>The results of a finished fresh check, and the tags they carry.\<close>

lemma fresh_results_trace:
  assumes "config_tags_ok c" and "honest_probe env"
    and "resolve_service lib c domain name = Inr pf" and "pf_override pf = None"
    and "ls_terminal (fresh_loop env c pf (build_plan (ce_digest env) c pf opts) opts)"
  obtains ps f where
    "loop_trace env pf (op_active_revision opts) (cp_candidates (build_plan (ce_digest env) c pf opts)) ps"
    "dk_results (fresh_check env c pf opts) = map (\<lambda>(route, r). f r) ps"
    "\<And>r. rr_route (f r) = rr_route r \<and> rr_route_type (f r) = rr_route_type r \<and>
       probe_result_terminal (f r) = probe_result_terminal r \<and> (regional_denial (f r) = regional_denial r)"
    "map rr_route (dk_results (fresh_check env c pf opts)) = map (\<lambda>(route, r). rt_tag route) ps"
    "distinct (map rr_route (dk_results (fresh_check env c pf opts)))"
    "\<forall>route \<in> set (cp_candidates (build_plan (ce_digest env) c pf opts)). route \<in> fst ` set ps \<or>
       excused c pf (normalized_tspu_status opts) (trace_denied ps) route"
proof -
  let ?plan = "build_plan (ce_digest env) c pf opts"
  let ?ls = "fresh_loop env c pf ?plan opts"
  obtain ps where ps: "loop_trace env pf (op_active_revision opts) (cp_candidates ?plan) ps"
    "ls_results ?ls = map snd ps"
    "\<forall>route \<in> set (cp_candidates ?plan). route \<in> fst ` set ps \<or>
       excused c pf (cp_tspu_status ?plan) (trace_denied ps) route"
    using fresh_loop_trace [OF assms(5)] assms(4) by metis
  let ?f = "scored c (ls_service ?ls) (ls_health ?ls)"
  have res: "dk_results (fresh_check env c pf opts) = map (\<lambda>(route, r). ?f r) ps"
    using fresh_check_results(1) [OF refl assms(5)] ps(2) by (simp add: case_prod_unfold)
  have tags: "map rr_route (dk_results (fresh_check env c pf opts)) = map (\<lambda>(route, r). rt_tag route) ps"
    using honest_trace(1) [OF assms(2) ps(1)] by (auto simp: res)
  have "distinct (map rt_tag (cp_candidates ?plan))"
    using candidates_allowed_distinct [OF assms(1,4,3)] by blast
  then have "distinct (map rt_tag (map fst ps))"
    using ps(1) subseq_distinct_map by (auto simp: loop_trace_def simp del: map_map)
  then have "distinct (map rr_route (dk_results (fresh_check env c pf opts)))"
    unfolding tags by (simp add: case_prod_unfold comp_def)
  moreover have "\<forall>route \<in> set (cp_candidates ?plan). route \<in> fst ` set ps \<or>
      excused c pf (normalized_tspu_status opts) (trace_denied ps) route" using ps(3) by simp
  ultimately show ?thesis by (intro that [OF ps(1) res _ tags]) simp_all
qed

lemma fresh_selected_member:
  assumes "ls_terminal (fresh_loop env c pf (build_plan (ce_digest env) c pf opts) opts)"
    and "dk_selected (fresh_check env c pf opts) = Some r"
  shows "r \<in> set (dk_results (fresh_check env c pf opts)) \<and> selection_evidence r"
  using select_best_member [OF assms(2) [unfolded fresh_check_results(3) [OF refl assms(1)] select_outcome_def Let_def]]
  by (simp add: fresh_check_results(1) [OF refl assms(1)])

lemma fresh_status:
  assumes "ls_terminal (fresh_loop env c pf (build_plan (ce_digest env) c pf opts) opts)"
  shows "dk_status (fresh_check env c pf opts) = (case dk_selected (fresh_check env c pf opts) of None \<Rightarrow> ''NO_SAFE_ROUTE''
      | Some r \<Rightarrow> if rr_route_type r = ''drop'' then ''DROP'' else ''SELECTED'')"
    "dk_reason (fresh_check env c pf opts) = (case dk_selected (fresh_check env c pf opts) of None \<Rightarrow> ''no_verified_policy_allowed_route''
      | Some r \<Rightarrow> if rr_route_type r = ''drop'' then ''no_safe_route_drop_enforced'' else ''best_verified_policy_allowed_route'')"
  using assms by (simp_all add: fresh_check_def finish_check_def Let_def split: prod.splits)

lemma no_safe_status:
  "equal_fold (trim_space ''NO_SAFE_ROUTE'') ''NO_SAFE_ROUTE''" "\<not> equal_fold (trim_space ''SELECTED'') ''NO_SAFE_ROUTE''"
  by code_simp+

lemma cached_check_gate:
  assumes "stored_as (decision_of out plan pf rv) d" and "dk_tspu_status out = cp_tspu_status plan"
    and "cp_inventory_hash plan \<noteq> []"
  shows "cached_check d plan pf rv =
    (let sh = cached_shell d plan pf in
     if equal_fold (trim_space (dk_status out)) ''NO_SAFE_ROUTE'' then
       (if valid_cached_no_safe_route d plan then Some (sh\<lparr>dk_verification_state := ''terminal_no_safe_route''\<rparr>) else None)
     else case dk_selected out of None \<Rightarrow> None
     | Some r \<Rightarrow>
         (if rr_route r = [] \<or> \<not> matches_candidate plan (rr_route r) (rr_route_type r) then None
          else case find (\<lambda>x. rr_route x = rr_route r \<and> rr_route_type x = rr_route_type r \<and>
                 rr_adapter_revision x = rv \<and> selection_evidence x) (dk_results out) of
               None \<Rightarrow> None | Some x \<Rightarrow> Some (sh\<lparr>dk_selected := Some x\<rparr>)))"
  using assms(2,3) by (auto simp: cached_check_def stored_as_fields [OF assms(1)] Let_def split: option.splits)

lemma cached_shell_selected [simp]: "dk_selected (cached_shell d plan pf) = None"
  by (simp add: cached_shell_def zero_check_def Let_def split: prod.splits)

text \<open>An exhausted check is a valid negative entry.\<close>

lemma exhausted_valid:
  assumes "config_tags_ok c" and "honest_probe env"
    and "resolve_service lib c domain name = Inr pf" and "pf_override pf = None" and "pf_unknown pf"
    and t: "ls_terminal (fresh_loop env c pf (build_plan (ce_digest env) c pf opts) opts)"
    and "dk_selected (fresh_check env c pf opts) = None" and "dk_results (fresh_check env c pf opts) \<noteq> []"
    and "normalized_tspu_status opts \<noteq> ''STALE_MATCH''"
    and st: "stored_as (decision_of (fresh_check env c pf opts) (build_plan (ce_digest env) c pf opts) pf rv) d"
  shows "valid_cached_no_safe_route d (build_plan (ce_digest env) c pf opts)"
proof -
  let ?plan = "build_plan (ce_digest env) c pf opts"
  let ?rs = "dk_results (fresh_check env c pf opts)"
  obtain ps f where ps: "loop_trace env pf (op_active_revision opts) (cp_candidates ?plan) ps"
    "?rs = map (\<lambda>(route, r). f r) ps"
    "\<And>r. rr_route (f r) = rr_route r \<and> rr_route_type (f r) = rr_route_type r \<and>
       probe_result_terminal (f r) = probe_result_terminal r \<and> (regional_denial (f r) = regional_denial r)"
    "map rr_route ?rs = map (\<lambda>(route, r). rt_tag route) ps" "distinct (map rr_route ?rs)"
    "\<forall>route \<in> set (cp_candidates ?plan). route \<in> fst ` set ps \<or>
       excused c pf (normalized_tspu_status opts) (trace_denied ps) route"
    by (rule fresh_results_trace [OF assms(1-4) t]) (rule that)
  have known: "known_candidate c route" if "route \<in> set (cp_candidates ?plan)" for route
    using candidates_allowed_distinct [OF assms(1,4,3)] that by blast
  have each: "probe_result_terminal x \<and> rr_route x \<noteq> [] \<and> matches_candidate ?plan (rr_route x) (rr_route_type x)"
    if x: "x \<in> set ?rs" for x
  proof -
    obtain route r where r: "(route, r) \<in> set ps" "x = f r" using x ps(2) by auto
    note h = honest_trace [OF assms(2) ps(1) r(1)]
    show ?thesis
      using h ps(3) [of r] known_candidate_tag [OF assms(1) known [OF h(3)]]
      by (auto simp: r(2) matches_candidate_def list_ex_iff)
  qed
  have denied: "list_ex (\<lambda>r. rr_route_type r = ''direct'' \<and> regional_denial r) ?rs" if "trace_denied ps"
  proof -
    obtain route r where r: "(route, r) \<in> set ps" "rt_type route = ''direct''" "direct_denied r"
      using \<open>trace_denied ps\<close> by (auto simp: trace_denied_def list_ex_iff)
    have "f r \<in> set ?rs" using r(1) ps(2) by force
    moreover have "rr_route_type (f r) = ''direct''"
      using ps(3) [of r] honest_trace(2) [OF assms(2) ps(1) r(1)] r(2) by simp
    moreover have "regional_denial (f r)" using ps(3) [of r] denied_regional [OF r(3)] by simp
    ultimately show ?thesis by (auto simp: list_ex_iff)
  qed
  have cover: "rt_tag route \<in> set (map rr_route ?rs) \<or>
      list_ex (\<lambda>r. rr_route_type r = ''direct'' \<and> regional_denial r) ?rs \<and>
        (rt_type route = ''direct'' \<or> rt_type route = ''zapret'') \<or> plan_skips_zapret ?plan route"
    if route: "route \<in> set (cp_candidates ?plan)" for route
  proof -
    consider "route \<in> fst ` set ps" | "trace_denied ps" "rt_type route = ''direct'' \<or> rt_type route = ''zapret''"
      | "rt_type route = ''zapret''"
        "\<not> tspu_starts_with_zapret (normalized_tspu_status opts) (po_tspu_stale_policy (cfg_policy c))"
      using bspec [OF ps(6) route] unfolding excused_def by blast
    then show ?thesis
    proof cases
      case 1
      then have "rt_tag route \<in> set (map (\<lambda>(route, r). rt_tag route) ps)" by force
      then show ?thesis unfolding ps(4) by blast
    next
      case 2
      with denied show ?thesis by blast
    next
      case 3
      have "cp_unknown ?plan" using assms(5) by (simp add: build_plan_def Let_def)
      with 3 assms(9) show ?thesis by (simp add: plan_skips_zapret_def tspu_starts_with_zapret_def)
    qed
  qed
  have rr: "dd_results d = ?rs" "dd_selected_route d = []" "dd_reason d = ''no_verified_policy_allowed_route''"
    using stored_as_fields [OF st] assms(7) fresh_status(2) [OF t] by simp_all
  have "list_all (\<lambda>r. probe_result_terminal r \<and> rr_route r \<noteq> [] \<and>
      matches_candidate ?plan (rr_route r) (rr_route_type r)) ?rs"
    using each by (simp add: list_all_iff)
  moreover have "list_all (\<lambda>route. rt_tag route \<in> set (map rr_route ?rs) \<or>
      list_ex (\<lambda>r. rr_route_type r = ''direct'' \<and> regional_denial r) ?rs \<and>
        (rt_type route = ''direct'' \<or> rt_type route = ''zapret'') \<or> plan_skips_zapret ?plan route) (cp_candidates ?plan)"
    using cover by (simp only: list_all_iff) blast
  ultimately show ?thesis
    using assms(8) ps(5) by (simp only: valid_cached_no_safe_route_def rr Let_def simp_thms if_False if_True)
qed



end
