(* ===== verification/Probe_Evidence.thy ===== *)
theory Probe_Evidence
  imports Probe_Engine Planner_Replay
begin

text \<open>
  The probe engine under the planner: what a result that the planner accepts as evidence proves
  about the probe that made it, and the domain check run with the engine's own results.
\<close>

section \<open>What a successful result proves\<close>

lemma observe_check_route_tag [simp]: "ob_route_tag (observe_check ob ck) = ob_route_tag ob"
  by (simp add: observe_check_def Let_def)

lemma observe_checks_route_tag [simp]: "ob_route_tag (foldl observe_check ob cks) = ob_route_tag ob"
  by (induction cks arbitrary: ob) simp_all

lemma observation_route_tag: "ob_route_tag (observation_from_result r res started completed) = rt_tag r"
  by (simp add: observation_from_result_def Let_def)

lemma absorb_attempt_required [simp]: "ck_required (absorb_attempt res a) = ck_required res"
  by (simp add: absorb_attempt_def)

lemma absorb_latency_required [simp]: "ck_required (absorb_latency dns el res a) = ck_required res"
  by (simp add: absorb_latency_def Let_def split: prod.splits)

lemma probe_targets_required:
  "ck_required (fst (probe_targets env c r check u port dns i j ips res reason)) = ck_required res"
  by (induction ips arbitrary: j res reason) (simp_all add: Let_def)

lemma finalize_check_required [simp]: "ck_required (finalize_check_result env i res) = ck_required res"
  by (simp add: finalize_check_result_def)

lemma new_check_required [simp]: "ck_required (new_check_result check) = pc_required check"
  by (simp add: new_check_result_def)

lemma probe_one_required [simp]: "ck_required (probe_one env c r i check family) = pc_required check"
proof (cases "nl_parse_url (pe_net env) (pc_url check)")
  case (Some u)
  show ?thesis
  proof (cases "resolve_for_route env c r (ur_hostname u)")
    case (Inr res)
    obtain ips resolver protocol where res: "res = (ips, resolver, protocol)" by (cases res)
    let ?port = "if ur_port u = [] then (if ur_scheme u = ''https'' then ''443'' else ''80'') else ur_port u"
    let ?res1 = "(new_check_result check)\<lparr>ck_dns_ok := True, ck_dns_resolver := resolver, ck_dns_protocol := protocol,
      ck_resolved_ips := map (nl_addr_string (pe_net env)) ips\<rparr>"
    obtain res2 b reason where t: "probe_targets env c r check u ?port (measured_route_latency (pe_resolve_elapsed env i)) i 0
        (route_probe_targets ips family) ?res1 [] = (res2, b, reason)"
      by (rule prod_cases3)
    then have "ck_required res2 = pc_required check"
      using probe_targets_required [of env c r check u ?port "measured_route_latency (pe_resolve_elapsed env i)" i 0
          "route_probe_targets ips family" ?res1 "[]"] by simp
    with t show ?thesis by (cases b) (simp_all add: probe_one_def Some Inr res Let_def)
  qed (simp add: probe_one_def Some Let_def)
qed (simp add: probe_one_def Let_def)

lemma judge_checks_ok:
  assumes "equal_fold (rr_status (judge_checks res)) ''OK''" and "rr_status res = ''FAIL''"
  shows "filter ck_required (rr_checks res) \<noteq> []"
    and "\<forall>ck \<in> set (rr_checks res). ck_required ck \<longrightarrow> check_ok ck"
    and "\<forall>ck \<in> set (rr_checks res). \<not> ck_authentication_required ck \<and> \<not> ck_waf_or_rate_limit ck"
    and "\<not> rr_regional_block res" and "\<not> rr_suspected_tspu res"
  using assms
  by (simp_all add: judge_checks_def Let_def list_all_iff list_ex_iff split: if_splits)

lemma judge_egress_continue:
  assumes "judge_egress env c svc r res = (res1, False)" and "sv_require_non_ru_egress svc" and "rt_type r \<noteq> ''drop''"
  obtains ip cc sources where "probe_external_ip env c r = Inr (ip, cc, sources)" "cc \<noteq> ''RU''"
  using assms
  by (cases "probe_external_ip env c r") (auto simp: judge_egress_def probes_egress_def Let_def split: if_splits)

lemma if_pair_True:
  assumes "(if b then x else y) = (r, True)"
  obtains "b" "x = (r, True)" | "\<not> b" "y = (r, True)"
  using assms by (cases b) auto

lemma judge_egress_stop:
  assumes "judge_egress env c svc r res = (res1, True)"
  shows "\<not> equal_fold (rr_status res1) ''OK''" "\<not> equal_fold (trim_space (rr_application_status res1)) ''DROP''"
proof -
  have "rr_status res1 = rr_application_status res1 \<and> (rr_status res1 = ''RU_EXIT'' \<or> rr_status res1 = ''FAIL'')"
    using assms unfolding judge_egress_def Let_def by (elim if_pair_True) (auto split: sum.split)
  then show "\<not> equal_fold (rr_status res1) ''OK''" "\<not> equal_fold (trim_space (rr_application_status res1)) ''DROP''"
    by (metis status_literals(1,2), metis drop_literals(3,4))
qed

lemma judge_egress_continue_status:
  assumes "judge_egress env c svc r res = (res1, False)"
  shows "rr_status res1 = rr_status res" "rr_application_status res1 = rr_application_status res"
    "rr_regional_block res1 = rr_regional_block res" "rr_suspected_tspu res1 = rr_suspected_tspu res"
  using assms by (auto simp: judge_egress_def Let_def split: if_splits sum.splits)

lemma judge_checks_application:
  "rr_application_status res = [] \<Longrightarrow> \<not> equal_fold (trim_space (rr_application_status (judge_checks res))) ''DROP''"
  by (simp add: judge_checks_def Let_def)

text \<open>A result that counts as evidence for a network path was earned: the route is enabled, the
  verifier accepted the observed path and it was not a simulation, the service has a required
  check, every required check succeeded, no check met a login, a rate limit or a block page, and a
  service that must not leave through Russia has an agreed exit country other than RU.\<close>

lemma probe_evidence_earned:
  assumes "selection_evidence (probe_route env c d n svc r)" and "rt_type r \<noteq> ''drop''"
  defines "res \<equiv> probe_route env c d n svc r"
  shows "route_enabled r \<and> length (sv_probe_urls svc) \<le> max_probe_urls_per_service \<and>
    (\<exists>ob session p. pe_verify env r ob session = Inr p \<and> ps_begin_error session = [] \<and> ob_route_tag ob = rt_tag r \<and>
       \<not> pv_simulation p \<and> rr_adapter_revision res = pv_adapter_revision p) \<and>
    (\<exists>check \<in> set (sv_probe_urls svc). pc_required check) \<and>
    (\<forall>ck \<in> set (rr_checks res). (ck_required ck \<longrightarrow> check_ok ck) \<and>
       \<not> ck_authentication_required ck \<and> \<not> ck_waf_or_rate_limit ck) \<and>
    (sv_require_non_ru_egress svc \<longrightarrow>
       (\<exists>ip cc sources. probe_external_ip env c r = Inr (ip, cc, sources) \<and> cc \<noteq> ''RU'' \<and> 2 \<le> length sources))"
proof -
  let ?ran = "run_checks env c r [] (sv_probe_urls svc) (start_result d n r)"
  have ev: "equal_fold (rr_status res) ''OK''" "rr_path_verified res" "\<not> rr_simulation res"
    using selection_evidenceD [OF assms(1)] assms(2) by (simp_all add: res_def probe_route_def probe_route_honest)
  have enabled: "route_enabled r" and bound: "\<not> max_probe_urls_per_service < length (sv_probe_urls svc)"
    using ev(2) by (auto simp: res_def probe_route_def probe_route_family_def Let_def split: if_splits)
  define session where "session = begin_path_proof (pe_begin env) d r (pe_started env)"
  obtain res1 stop where je: "judge_egress env c svc r ?ran = (res1, stop)" by (cases "judge_egress env c svc r ?ran")
  define judged where "judged = (if stop then res1 else judge_checks res1)"
  have res: "res = finish_with_path_proof (pe_verify env) r judged (pe_started env) (pe_completed env) (pe_elapsed env) session"
    using enabled bound assms(2)
    by (cases stop; simp add: res_def probe_route_def probe_route_family_def Let_def je judged_def session_def)
  obtain p where p: "ps_begin_error session = []"
      "pe_verify env r (observation_from_result r judged (pe_started env) (pe_completed env)) session = Inr p"
    and acc: "res = accept_path_proof (with_observation judged
        (observation_from_result r judged (pe_started env) (pe_completed env)) (elapsed_milliseconds (pe_elapsed env))) p"
  proof (rule finish_with_path_proof_cases [of "pe_verify env" r judged "pe_started env" "pe_completed env" "pe_elapsed env" session])
    fix e stage
    assume "finish_with_path_proof (pe_verify env) r judged (pe_started env) (pe_completed env) (pe_elapsed env) session =
      fail_path_proof r (with_observation judged (observation_from_result r judged (pe_started env) (pe_completed env))
        (elapsed_milliseconds (pe_elapsed env))) stage e"
    with ev(2) show thesis by (simp add: res)
  qed (simp add: res that)
  have st1: "rr_status res1 = ''FAIL''" "rr_application_status res1 = []" if "\<not> stop"
    using judge_egress_continue_status [of env c svc r ?ran res1] je that by simp_all
  have nodrop: "\<not> equal_fold (trim_space (rr_application_status judged)) ''DROP''"
    using judge_egress_stop(2) [of env c svc r ?ran res1] judge_checks_application [of res1] je st1
    by (cases stop) (simp_all add: judged_def)
  have ok: "equal_fold (rr_status judged) ''OK''" using ev(1) nodrop by (simp add: acc)
  have "\<not> stop" using judge_egress_stop(1) [of env c svc r ?ran res1] je ok by (auto simp: judged_def)
  then have judged: "judged = judge_checks res1" and je': "judge_egress env c svc r ?ran = (res1, False)"
    using je by (simp_all add: judged_def)
  have cks: "rr_checks res = rr_checks res1" by (simp add: acc judged)
  have checks: "rr_checks res1 = map (\<lambda>(i, check). probe_one env c r i check []) (List.enumerate 0 (sv_probe_urls svc))"
    using judge_egress_simps(3) [of env c svc r ?ran] by (simp add: je run_checks_checks)
  note jc = judge_checks_ok [of res1, folded judged, OF ok st1(1) [OF \<open>\<not> stop\<close>]]
  obtain ck where "ck \<in> set (rr_checks res1)" "ck_required ck"
    using jc(1) by (auto simp: filter_empty_conv)
  then have req: "\<exists>check \<in> set (sv_probe_urls svc). pc_required check"
    by (auto simp: checks in_set_enumerate_eq)
  have egress: "\<exists>ip cc sources. probe_external_ip env c r = Inr (ip, cc, sources) \<and> cc \<noteq> ''RU'' \<and> 2 \<le> length sources"
    if "sv_require_non_ru_egress svc"
    by (rule judge_egress_continue [OF je' that assms(2)]) (use probe_external_sources in blast)
  have "\<exists>ob session p. pe_verify env r ob session = Inr p \<and> ps_begin_error session = [] \<and> ob_route_tag ob = rt_tag r \<and>
      \<not> pv_simulation p \<and> rr_adapter_revision res = pv_adapter_revision p"
    using p ev(3) observation_route_tag [of r judged "pe_started env" "pe_completed env"]
    by (intro exI [of _ "observation_from_result r judged (pe_started env) (pe_completed env)"] exI [of _ session] exI [of _ p])
      (simp add: acc)
  moreover have "\<forall>ck \<in> set (rr_checks res). (ck_required ck \<longrightarrow> check_ok ck) \<and>
      \<not> ck_authentication_required ck \<and> \<not> ck_waf_or_rate_limit ck"
    using jc(2,3) unfolding cks by blast
  moreover have "length (sv_probe_urls svc) \<le> max_probe_urls_per_service" using bound by simp
  ultimately show ?thesis using enabled req egress by blast
qed

definition sample_url :: url where
  "sample_url = \<lparr>ur_scheme = ''https'', ur_host = ''w.ex.io'', ur_hostname = ''w.ex.io'', ur_port = [],
     ur_path = ''/'', ur_has_user = False, ur_raw_query = [], ur_fragment = []\<rparr>"

text \<open>A world in which every probe of every route succeeds and the exit is in Germany.\<close>

definition sample_probe_env :: probe_env where
  "sample_probe_env = \<lparr>
     pe_net = \<lparr>nl_parse_addr = (\<lambda>_. Some (A4 0x08080808)), nl_addr_string = (\<lambda>_. ''8.8.8.8''),
       nl_split_host_port = (\<lambda>_. Some (''8.8.8.8'', ''53'')), nl_parse_url = (\<lambda>_. Some sample_url),
       nl_parse_request_uri = (\<lambda>_. Some sample_url)\<rparr>,
     pe_dns = sample_dns_lib, pe_query_id = (\<lambda>_ _. 7),
     pe_exchange = (\<lambda>_ _ _ _. Inr (Some sample_response)),
     pe_socks_exchange = (\<lambda>_ _ _ _. Inr (Some sample_response)),
     pe_lookup = (\<lambda>_. Inr [A4 0x08080808]),
     pe_http = (\<lambda>_ _ _ _. \<lparr>hx_request_ok = True, hx_dial = Dial_ok (Some ''10.0.0.2'') (Some ''8.8.8.8''),
       hx_observed_mark = 16, hx_redirects = 0, hx_elapsed = 30000000, hx_outcome = Http_response 200 ''fine'' True\<rparr>),
     pe_resolve_elapsed = (\<lambda>_. 5000000), pe_attempt_elapsed = (\<lambda>_ _. 31000000), pe_check_elapsed = (\<lambda>_. 40000000),
     pe_get = (\<lambda>_ _ _. Inr (200, ''{}'')), pe_country_is = (\<lambda>_. Some (''8.8.8.8'', ''DE'')),
     pe_ipwho_is = (\<lambda>_. Some (True, ''8.8.8.8'', ''de'')), pe_geo_lookup = (\<lambda>_ _ _. Inl ''none''),
     pe_hash_ip = (\<lambda>ip. ''sha256:'' @ ip), pe_drop = (\<lambda>r mark. (mark, None)), pe_begin = None,
     pe_verify = (\<lambda>r ob s. Inr (zero_proof\<lparr>pv_adapter_revision := ''rev-1''\<rparr>)),
     pe_started = 1, pe_completed = 2, pe_elapsed = 90000000\<rparr>"

definition sample_check :: probe_check where
  "sample_check = \<lparr>pc_name = ''main'', pc_url = ''https://w.ex.io/'', pc_required = True,
     pc_expected_codes = [200], pc_body_mode = ''required'', pc_success_markers = [],
     pc_regional_block_markers = [], pc_block_markers = [], pc_allow_unauthenticated = False\<rparr>"

definition abroad_service :: service where
  "abroad_service = zero_service\<lparr>sv_category := ''GEO_LOCKED'', sv_allowed_paths := [''vless''],
     sv_require_non_ru_egress := True, sv_probe_urls := [sample_check]\<rparr>"

definition abroad_route :: route where
  "abroad_route = zero_route\<lparr>rt_type := ''vless'', rt_tag := ''v''\<rparr>"

definition abroad_config :: config where
  "abroad_config = empty_config\<lparr>cfg_geoip := \<lparr>gi_database = [], gi_source_url = [], gi_max_database_bytes = 0,
     gi_max_age_hours = 0, gi_endpoints = [\<lparr>ge_name = ''a'', ge_provider = ''country_is'', ge_url = ''https://a''\<rparr>,
       \<lparr>ge_name = ''b'', ge_provider = ''ipwho_is'', ge_url = ''https://b''\<rparr>]\<rparr>,
     cfg_routes := [abroad_route]\<rparr>"

text \<open>The flags of a check whose first address answers.\<close>

definition check_flags :: "check_result \<Rightarrow> bool list" where
  "check_flags ck = [ck_required ck, ck_regional_block ck, ck_suspected_tspu ck, ck_authentication_required ck, ck_waf_or_rate_limit ck]"

lemma check_flags_latency [simp]:
  "check_flags (absorb_latency dns el res a) = check_flags res" "ck_status (absorb_latency dns el res a) = ck_status res"
  by (simp_all add: absorb_latency_def check_flags_def Let_def split: prod.splits)

lemma probe_one_first_answer:
  assumes "nl_parse_url (pe_net env) (pc_url check) = Some u"
    and "resolve_for_route env c r (ur_hostname u) = Inr (ip # ips, resolver, protocol)"
    and "rt_type r \<noteq> ''smart_dns''" and "\<not> is_unsafe_addr ip"
    and "\<And>port. at_status (run_http_attempt env c r check u port ip (pe_http env i 0 r ip)) = ''OK''"
    and "\<And>port. at_regional_block (run_http_attempt env c r check u port ip (pe_http env i 0 r ip)) = False"
    and "\<And>port. at_suspected_tspu (run_http_attempt env c r check u port ip (pe_http env i 0 r ip)) = False"
    and "\<And>port. at_authentication_required (run_http_attempt env c r check u port ip (pe_http env i 0 r ip)) = False"
    and "\<And>port. at_waf_or_rate_limit (run_http_attempt env c r check u port ip (pe_http env i 0 r ip)) = False"
  shows "ck_status (probe_one env c r i check []) = ''OK'' \<and>
    check_flags (probe_one env c r i check []) = [pc_required check, False, False, False, False]"
proof -
  have t: "route_probe_targets (ip # ips) [] = ip # take 3 ips"
    by (simp add: route_probe_targets_def max_route_probe_targets_def)
  have st: "to_upper (trim_space ''OK'') = ''OK''" "final_attempt_status ''OK''"
    by (code_simp, simp add: final_attempt_status_def)
  have flags: "check_flags (absorb_attempt res a) = [ck_required res, at_regional_block a, at_suspected_tspu a,
      at_authentication_required a, at_waf_or_rate_limit a]" for res a
    by (simp add: check_flags_def absorb_attempt_def)
  have upd: "check_flags (res\<lparr>ck_status := x, ck_reason := y\<rparr>) = check_flags res" for res x y
    by (simp add: check_flags_def)
  have fin: "check_flags (finalize_check_result env i res) = check_flags res"
    "ck_status (finalize_check_result env i res) = ck_status res" for res
    by (simp_all add: check_flags_def finalize_check_result_def)
  show ?thesis
    by (simp add: probe_one_def assms Let_def t st flags upd fin)
qed

lemma sample_attempt:
  "at_status (run_http_attempt sample_probe_env abroad_config abroad_route sample_check sample_url port ip
     (pe_http sample_probe_env i j r ip)) = ''OK''"
  "at_regional_block (run_http_attempt sample_probe_env abroad_config abroad_route sample_check sample_url port ip
     (pe_http sample_probe_env i j r ip)) = False"
  "at_suspected_tspu (run_http_attempt sample_probe_env abroad_config abroad_route sample_check sample_url port ip
     (pe_http sample_probe_env i j r ip)) = False"
  "at_authentication_required (run_http_attempt sample_probe_env abroad_config abroad_route sample_check sample_url port ip
     (pe_http sample_probe_env i j r ip)) = False"
  "at_waf_or_rate_limit (run_http_attempt sample_probe_env abroad_config abroad_route sample_check sample_url port ip
     (pe_http sample_probe_env i j r ip)) = False"
proof -
  have "classify_response sample_check 200 ''fine'' = \<lparr>vd_regional = False, vd_tspu = False, vd_auth = False,
      vd_waf = False, vd_expected = True, vd_content = True, vd_status = ''OK'', vd_reason = []\<rparr>" by code_simp
  then show "at_status (run_http_attempt sample_probe_env abroad_config abroad_route sample_check sample_url port ip
     (pe_http sample_probe_env i j r ip)) = ''OK''"
  "at_regional_block (run_http_attempt sample_probe_env abroad_config abroad_route sample_check sample_url port ip
     (pe_http sample_probe_env i j r ip)) = False"
  "at_suspected_tspu (run_http_attempt sample_probe_env abroad_config abroad_route sample_check sample_url port ip
     (pe_http sample_probe_env i j r ip)) = False"
  "at_authentication_required (run_http_attempt sample_probe_env abroad_config abroad_route sample_check sample_url port ip
     (pe_http sample_probe_env i j r ip)) = False"
  "at_waf_or_rate_limit (run_http_attempt sample_probe_env abroad_config abroad_route sample_check sample_url port ip
     (pe_http sample_probe_env i j r ip)) = False"
    by (simp_all add: run_http_attempt_def sample_probe_env_def Let_def split: prod.splits)
qed

lemma merge_check_blocks [simp]:
  "rr_regional_block (merge_check res ck) = (rr_regional_block res \<or> ck_regional_block ck)"
  "rr_suspected_tspu (merge_check res ck) = (rr_suspected_tspu res \<or> ck_suspected_tspu ck)"
  by (simp_all add: merge_check_def Let_def)

lemma sample_country:
  "probe_external_ip sample_probe_env abroad_config abroad_route = Inr (''8.8.8.8'', ''DE'', [''a'', ''b''])"
  by code_simp

lemma start_result_blocks [simp]:
  "rr_regional_block (start_result d n r) = False" "rr_suspected_tspu (start_result d n r) = False"
  by (simp_all add: start_result_def zero_result_def)

lemma sample_evidence:
  defines "res \<equiv> \<lambda>d n. probe_route sample_probe_env abroad_config d n abroad_service abroad_route"
  shows "selection_evidence (res d n)" and "rr_status (res d n) = ''OK''" and "rr_external_country (res d n) = ''DE''"
    and "rr_egress_consensus (res d n)" and "rr_adapter_revision (res d n) = ''rev-1''" and "rr_service_ok (res d n)"
    and "rr_path_verified (res d n)"
proof -
  let ?ck = "probe_one sample_probe_env abroad_config abroad_route 0 sample_check []"
  have ty: "rt_type abroad_route = ''vless''" "sv_require_non_ru_egress abroad_service" "sv_probe_urls abroad_service = [sample_check]"
    "route_enabled abroad_route" "rt_tag abroad_route = ''v''"
    by (simp_all add: abroad_route_def abroad_service_def zero_route_def route_enabled_def)
  have "resolve_for_route sample_probe_env abroad_config abroad_route h = Inr ([A4 0x08080808], ''system'', ''system'')" for h
    by (simp add: resolve_for_route_def abroad_route_def zero_route_def sample_probe_env_def prefer_ipv4_def is4_def)
  moreover have "nl_parse_url (pe_net sample_probe_env) x = Some sample_url" for x by (simp add: sample_probe_env_def)
  moreover have "\<not> is_unsafe_addr (A4 0x08080808)" by code_simp
  moreover have "rt_type abroad_route \<noteq> ''smart_dns''" by (simp add: abroad_route_def)
  ultimately have ck: "ck_status ?ck = ''OK''" "check_flags ?ck = [True, False, False, False, False]"
    using probe_one_first_answer [of sample_probe_env sample_check sample_url abroad_config abroad_route
        "A4 0x08080808" "[]" "''system''" "''system''" 0] sample_attempt
    by (simp_all add: sample_check_def)
  let ?ran = "run_checks sample_probe_env abroad_config abroad_route [] [sample_check] (start_result d n abroad_route)"
  have ran: "rr_checks ?ran = [?ck]" "\<not> rr_regional_block ?ran" "\<not> rr_suspected_tspu ?ran"
    using ck(2) by (simp_all add: run_checks_checks check_flags_def) (simp_all add: run_checks_def Let_def check_flags_def)
  obtain res1 where je: "judge_egress sample_probe_env abroad_config abroad_service abroad_route ?ran = (res1, False)"
    and de: "rr_external_country res1 = ''DE''" "rr_egress_consensus res1"
    by (simp add: judge_egress_def probes_egress_def sample_country ty Let_def)
  note cont = judge_egress_continue_status [OF je]
  have cks: "rr_checks res1 = [?ck]" using judge_egress_simps(3) [of _ _ _ _ ?ran] ran(1) je by (metis fst_conv)
  have ok: "to_upper (trim_space ''OK'') = ''OK''" and region: "\<not> equal_fold ''OK'' ''REGION_BLOCK''" by code_simp+
  have sv: "rr_service_ok (judge_checks res1)" "rr_status (judge_checks res1) = ''OK''"
    "rr_application_status (judge_checks res1) = ''OK''" "\<not> rr_regional_block (judge_checks res1)"
    "\<not> rr_authentication_required (judge_checks res1)" "\<not> rr_waf_or_rate_limit (judge_checks res1)"
    using ck cont ran by (simp_all add: judge_checks_def cks check_flags_def check_ok_def check_status_is_def Let_def ok)
  have begin_ok: "ps_begin_error (begin_path_proof (pe_begin sample_probe_env) d abroad_route t) = []" for t
    by (simp add: sample_probe_env_def begin_path_proof_def Let_def)
  have "probe_route sample_probe_env abroad_config d n abroad_service abroad_route =
      finish_with_path_proof (pe_verify sample_probe_env) abroad_route (judge_checks res1) (pe_started sample_probe_env)
        (pe_completed sample_probe_env) (pe_elapsed sample_probe_env)
        (begin_path_proof (pe_begin sample_probe_env) d abroad_route (pe_started sample_probe_env))"
    by (simp add: probe_route_def probe_route_family_def ty je Let_def max_probe_urls_per_service_def)
  moreover have "pe_verify sample_probe_env r ob s = Inr (zero_proof\<lparr>pv_adapter_revision := ''rev-1''\<rparr>)" for r ob s
    by (simp add: sample_probe_env_def)
  ultimately obtain ob ms where res: "probe_route sample_probe_env abroad_config d n abroad_service abroad_route =
      accept_path_proof (with_observation (judge_checks res1) ob ms) (zero_proof\<lparr>pv_adapter_revision := ''rev-1''\<rparr>)"
    by (simp add: finish_with_path_proof_def begin_ok Let_def)
  have ty1: "rr_route_type (probe_route sample_probe_env abroad_config d n abroad_service abroad_route) = ''vless''"
    by (simp add: probe_route_def probe_route_honest ty)
  show "selection_evidence (res d n)"
    unfolding selection_evidence_def res_def ty1 unfolding res
    using sv region by (simp add: accept_path_proof_def with_observation_def zero_proof_def Let_def)
  show "rr_status (res d n) = ''OK''" "rr_external_country (res d n) = ''DE''" "rr_egress_consensus (res d n)"
    "rr_adapter_revision (res d n) = ''rev-1''" "rr_service_ok (res d n)" "rr_path_verified (res d n)"
    unfolding res_def res using sv de
    by (simp_all add: accept_path_proof_def with_observation_def zero_proof_def Let_def)
qed

section \<open>The exit country\<close>



section \<open>The DROP outcome\<close>

text \<open>The DROP outcome is not verified: when the proof of an enabled DROP route fails, whatever the
  reason, its result is neither path-verified nor marked as serving, and still counts as evidence,
  also after it was bound to the candidate.\<close>

theorem drop_unverified_accepted:
  assumes "rt_type r = ''drop''" and "route_enabled r" and "length (sv_probe_urls svc) \<le> max_probe_urls_per_service"
    and "\<forall>ob session. isl (pe_verify env r ob session)"
  shows "\<not> rr_path_verified (probe_route env c d n svc r) \<and> \<not> rr_service_ok (probe_route env c d n svc r) \<and>
    selection_evidence (probe_route env c d n svc r) \<and>
    selection_evidence (bind_result_to_candidate (probe_route env c d n svc r) r revision)"
proof -
  define session where "session = (let s = begin_path_proof (pe_begin env) d r (pe_started env) in
    if ps_begin_error s = [] then (case exercise_drop_probe env c r of None \<Rightarrow> s | Some e \<Rightarrow> s\<lparr>ps_begin_error := e\<rparr>) else s)"
  let ?start = "(start_result d n r)\<lparr>rr_application_status := ''DROP''\<rparr>"
  have res: "probe_route env c d n svc r = finish_with_path_proof (pe_verify env) r ?start
      (pe_started env) (pe_completed env) (pe_elapsed env) session"
    using assms(1-3) by (simp add: probe_route_def probe_route_family_def session_def Let_def)
  have "\<exists>e stage. probe_route env c d n svc r = fail_path_proof r (with_observation ?start
      (observation_from_result r ?start (pe_started env) (pe_completed env)) (elapsed_milliseconds (pe_elapsed env))) stage e"
    unfolding res
  proof (rule finish_with_path_proof_cases [of "pe_verify env" r ?start "pe_started env" "pe_completed env" "pe_elapsed env" session])
    fix p
    assume "pe_verify env r (observation_from_result r ?start (pe_started env) (pe_completed env)) session = Inr p"
    with spec [OF spec [OF assms(4), of "observation_from_result r ?start (pe_started env) (pe_completed env)"], of session]
    show "\<exists>e stage. finish_with_path_proof (pe_verify env) r ?start (pe_started env) (pe_completed env) (pe_elapsed env) session =
      fail_path_proof r (with_observation ?start (observation_from_result r ?start (pe_started env) (pe_completed env))
        (elapsed_milliseconds (pe_elapsed env))) stage e" by simp
  qed blast
  then obtain e stage ob ms where f: "probe_route env c d n svc r = fail_path_proof r (with_observation ?start ob ms) stage e"
    by blast
  have "\<not> rr_service_ok (probe_route env c d n svc r)" unfolding f by (simp add: fail_path_proof_def Let_def)
  moreover have p: "\<not> rr_path_verified (probe_route env c d n svc r)" "\<not> rr_simulation (probe_route env c d n svc r)"
    "rr_application_status (probe_route env c d n svc r) = ''DROP''" unfolding f by simp_all
  moreover have ty: "rr_route_type (probe_route env c d n svc r) = ''drop''"
    using assms(1) by (simp add: probe_route_def probe_route_honest)
  moreover have "rr_application_status (bind_result_to_candidate x r revision) = rr_application_status x"
    "rr_simulation (bind_result_to_candidate x r revision) = rr_simulation x"
    "rr_route_type (bind_result_to_candidate x r revision) = rr_route_type x" for x
    by (simp_all add: bind_result_to_candidate_def Let_def)
  ultimately show ?thesis by (simp add: selection_evidence_def)
qed

definition unproved_env :: probe_env where
  "unproved_env = sample_probe_env\<lparr>pe_verify := (\<lambda>r ob s. Inl (plain_error ''route_nft_counter_did_not_advance''))\<rparr>"

theorem drop_unverified_accepted_witness:
  "\<not> rr_path_verified (probe_route unproved_env abroad_config ''w.ex.io'' ''s'' zero_service (zero_route\<lparr>rt_type := ''drop'', rt_tag := ''x''\<rparr>)) \<and>
   selection_evidence (probe_route unproved_env abroad_config ''w.ex.io'' ''s'' zero_service (zero_route\<lparr>rt_type := ''drop'', rt_tag := ''x''\<rparr>))"
proof -
  have "isl (pe_verify unproved_env r ob s)" for r ob s by (simp add: unproved_env_def)
  then show ?thesis
    using drop_unverified_accepted [of "zero_route\<lparr>rt_type := ''drop'', rt_tag := ''x''\<rparr>" zero_service unproved_env
        abroad_config "''w.ex.io''" "''s''" "''rev-1''"]
    by (simp add: route_enabled_def zero_route_def zero_service_def)
qed

section \<open>What a probe may touch\<close>

lemma http_fields:
  "pe_net (env\<lparr>pe_http := h\<rparr>) = pe_net env"
  "pe_dns (env\<lparr>pe_http := h\<rparr>) = pe_dns env"
  "pe_query_id (env\<lparr>pe_http := h\<rparr>) = pe_query_id env"
  "pe_exchange (env\<lparr>pe_http := h\<rparr>) = pe_exchange env"
  "pe_socks_exchange (env\<lparr>pe_http := h\<rparr>) = pe_socks_exchange env"
  "pe_lookup (env\<lparr>pe_http := h\<rparr>) = pe_lookup env"
  "pe_resolve_elapsed (env\<lparr>pe_http := h\<rparr>) = pe_resolve_elapsed env"
  "pe_attempt_elapsed (env\<lparr>pe_http := h\<rparr>) = pe_attempt_elapsed env"
  "pe_check_elapsed (env\<lparr>pe_http := h\<rparr>) = pe_check_elapsed env"
  "pe_get (env\<lparr>pe_http := h\<rparr>) = pe_get env"
  "pe_country_is (env\<lparr>pe_http := h\<rparr>) = pe_country_is env"
  "pe_ipwho_is (env\<lparr>pe_http := h\<rparr>) = pe_ipwho_is env"
  "pe_geo_lookup (env\<lparr>pe_http := h\<rparr>) = pe_geo_lookup env"
  "pe_hash_ip (env\<lparr>pe_http := h\<rparr>) = pe_hash_ip env"
  "pe_drop (env\<lparr>pe_http := h\<rparr>) = pe_drop env"
  "pe_begin (env\<lparr>pe_http := h\<rparr>) = pe_begin env"
  "pe_verify (env\<lparr>pe_http := h\<rparr>) = pe_verify env"
  "pe_started (env\<lparr>pe_http := h\<rparr>) = pe_started env"
  "pe_completed (env\<lparr>pe_http := h\<rparr>) = pe_completed env"
  "pe_elapsed (env\<lparr>pe_http := h\<rparr>) = pe_elapsed env"
  by simp_all

lemma http_unused [simp]:
  "query_dns_one (env\<lparr>pe_http := h\<rparr>) = query_dns_one env"
  "socks_query (env\<lparr>pe_http := h\<rparr>) = socks_query env"
  "lookup_country (env\<lparr>pe_http := h\<rparr>) = lookup_country env"
  "parse_geoip_endpoint (env\<lparr>pe_http := h\<rparr>) = parse_geoip_endpoint env"
  "exercise_drop_probe (env\<lparr>pe_http := h\<rparr>) = exercise_drop_probe env"
  "dialled (env\<lparr>pe_http := h\<rparr>) = dialled env"
  "finalize_check_result (env\<lparr>pe_http := h\<rparr>) = finalize_check_result env"
  "finalize_unverified_result (env\<lparr>pe_http := h\<rparr>) = finalize_unverified_result env"
  by (unfold query_dns_one_def socks_query_def lookup_country_def parse_geoip_endpoint_def
      exercise_drop_probe_def dialled_def finalize_check_result_def finalize_unverified_result_def http_fields, (rule refl)+)

lemma http_unused_resolve [simp]:
  "query_dns (env\<lparr>pe_http := h\<rparr>) = query_dns env"
  "query_dns_tcp_via_socks (env\<lparr>pe_http := h\<rparr>) = query_dns_tcp_via_socks env"
  "run_http_attempt (env\<lparr>pe_http := h\<rparr>) = run_http_attempt env"
  by (unfold query_dns_def query_dns_tcp_via_socks_def run_http_attempt_def http_unused http_fields, (rule refl)+)

lemma http_unused_egress [simp]:
  "resolve_for_route (env\<lparr>pe_http := h\<rparr>) = resolve_for_route env"
  "fetch_text_via_route (env\<lparr>pe_http := h\<rparr>) = fetch_text_via_route env"
  "endpoint_vote (env\<lparr>pe_http := h\<rparr>) = endpoint_vote env"
  "probe_external_ip (env\<lparr>pe_http := h\<rparr>) = probe_external_ip env"
  "judge_egress (env\<lparr>pe_http := h\<rparr>) = judge_egress env"
  by (unfold judge_egress_def probe_external_ip_def endpoint_vote_def fetch_text_via_route_def
      resolve_for_route_def http_unused_resolve http_unused http_fields, (rule refl)+)

definition same_reachable_answers :: "config \<Rightarrow> probe_env \<Rightarrow> (nat \<Rightarrow> nat \<Rightarrow> route \<Rightarrow> addr \<Rightarrow> http_exchange) \<Rightarrow> bool" where
  "same_reachable_answers c env h \<longleftrightarrow> (\<forall>i < max_probe_urls_per_service. \<forall>j < max_route_probe_targets. \<forall>r ip.
     allow_private_probe c \<or> \<not> is_unsafe_addr ip \<longrightarrow> h i j r ip = pe_http env i j r ip)"

lemma probe_targets_reach:
  assumes "same_reachable_answers c env h" and "i < max_probe_urls_per_service"
    and "j + length ips \<le> max_route_probe_targets"
  shows "probe_targets (env\<lparr>pe_http := h\<rparr>) c r check u port dns i j ips res reason =
    probe_targets env c r check u port dns i j ips res reason"
  using assms(3)
proof (induction ips arbitrary: j res reason)
  case (Cons ip ips)
  show ?case
  proof (cases "\<not> allow_private_probe c \<and> is_unsafe_addr ip")
    case True
    with Cons show ?thesis by simp
  next
    case False
    have "j < max_route_probe_targets" using Cons.prems by simp
    with assms(1,2) False have h: "h i j r ip = pe_http env i j r ip"
      by (auto simp: same_reachable_answers_def)
    have http: "pe_http (env\<lparr>pe_http := h\<rparr>) = h" by simp
    have ih: "probe_targets (env\<lparr>pe_http := h\<rparr>) c r check u port dns i (Suc j) ips res reason =
        probe_targets env c r check u port dns i (Suc j) ips res reason" for res reason
      by (rule Cons.IH) (use Cons.prems in simp)
    have guard: "(\<not> allow_private_probe c \<and> is_unsafe_addr ip) = False" using False by simp
    show ?thesis
      unfolding probe_targets.simps guard if_False http h ih http_fields http_unused_resolve Let_def ..
  qed
qed simp

lemma probe_one_reach:
  assumes "same_reachable_answers c env h" and "i < max_probe_urls_per_service"
  shows "probe_one (env\<lparr>pe_http := h\<rparr>) c r i check family = probe_one env c r i check family"
proof -
  have "0 + length (route_probe_targets ips family) \<le> max_route_probe_targets" for ips
    by (simp add: route_probe_targets_def)
  note t = probe_targets_reach [OF assms this]
  show ?thesis unfolding probe_one_def t http_unused_egress http_unused http_fields ..
qed

lemma run_checks_reach:
  assumes "same_reachable_answers c env h" and "length checks \<le> max_probe_urls_per_service"
  shows "run_checks (env\<lparr>pe_http := h\<rparr>) c r family checks res = run_checks env c r family checks res"
proof -
  have "foldl (\<lambda>acc (i, check). merge_check acc (probe_one (env\<lparr>pe_http := h\<rparr>) c r i check family)) acc (List.enumerate k cs) =
      foldl (\<lambda>acc (i, check). merge_check acc (probe_one env c r i check family)) acc (List.enumerate k cs)"
    if "k + length cs \<le> max_probe_urls_per_service" for acc k cs
    using that
  proof (induction cs arbitrary: acc k)
    case (Cons check cs)
    then show ?case by (simp add: probe_one_reach [OF assms(1)])
  qed simp
  from this [of 0 checks] assms(2) show ?thesis by (simp add: run_checks_def)
qed



end
