(* ===== verification/Engine_Check.thy ===== *)
theory Engine_Check
  imports Probe_Evidence Planner_Replay
begin

text \<open>
  The planner on top of the probe engine (\<^verbatim>\<open>planner.CheckDomain\<close> with
  \<^verbatim>\<open>probe.Engine\<close> as its prober): a fresh selection traced through the verification loop to
  the probe that earned it.
\<close>

text \<open>The \<open>i\<close>-th candidate is probed in the world \<open>pe i\<close>.\<close>

definition engine_env :: "(nat \<Rightarrow> probe_env) \<Rightarrow> config \<Rightarrow> check_env \<Rightarrow> check_env" where
  "engine_env pe c env = env\<lparr>ce_probe := (\<lambda>i d n svc r. probe_route (pe i) c d n svc r)\<rparr>"

lemma engine_honest [simp]: "honest_probe (engine_env pe c env)"
  by (simp add: honest_probe_def engine_env_def probe_route_def probe_route_honest)

text \<open>A property of every recorded result, for a loop that keeps a property of the service.\<close>

lemma if_all:
  "(b \<Longrightarrow> \<forall>x \<in> set (f s). P x) \<Longrightarrow> (\<not> b \<Longrightarrow> \<forall>x \<in> set (f t). P x) \<Longrightarrow> \<forall>x \<in> set (f (if b then s else t)). P x"
  by simp

lemma check_loop_results_all:
  assumes "\<And>s. ok s \<Longrightarrow> ok (geo_locked_service s)"
    and "\<And>j svc route. route \<in> set routes0 \<Longrightarrow> ok svc \<Longrightarrow>
      Q (bind_result_to_candidate (ce_probe env j (pf_domain pf) (pf_name pf) svc route) route rv)"
    and "set routes \<subseteq> set routes0" and "ok (ls_service ls)" and "\<forall>r \<in> set (ls_results ls). Q r"
  shows "\<forall>r \<in> set (ls_results (check_loop env c pf st rv i routes ls)). Q r"
  using assms(3-5)
proof (induction routes arbitrary: i ls)
  case (Cons route routes)
  define r where "r = bind_result_to_candidate (ce_probe env i (pf_domain pf) (pf_name pf) (ls_service ls) route) route rv"
  have q: "Q r" unfolding r_def by (rule assms(2)) (use Cons.prems in auto)
  have sub: "set routes \<subseteq> set routes0" using Cons.prems(1) by simp
  have abs: "ok (ls_service (absorb_result route r l))" if "ok (ls_service l)" for l
    using that assms(1) by (simp add: absorb_result_def Let_def)
  have rs: "ls_results (absorb_result route r l) = ls_results l" for l
    by (simp add: absorb_result_def Let_def)
  have grown: "\<forall>x \<in> set (ls_results ls @ [r]). Q x" using Cons.prems(3) q by simp
  note step = Cons.IH [OF sub Cons.prems(2,3), of "Suc i"]
  have later: "\<forall>x \<in> set (ls_results (check_loop env c pf st rv (Suc i) routes (absorb_result route r l))). Q x"
    if "ls_results l = ls_results ls @ [r]" "ls_service l = ls_service ls" for l
    by (rule Cons.IH [OF sub]) (use that abs [of l] rs [of l] grown Cons.prems(2) in simp_all)
  show ?case
    unfolding check_loop.simps r_def [symmetric] Let_def
    by (intro if_all [where f = ls_results]; (rule step later)?) (use grown Cons.prems(3) rs in simp_all)
qed simp

lemma bind_evidence_probe:
  assumes "selection_evidence (bind_result_to_candidate x route rv)" and "rr_route_type x \<noteq> ''drop''"
  shows "selection_evidence x"
proof -
  define r1 where "r1 = (if rt_adapter_mode route = ''system_default'' \<and> rr_path_verified x \<and> rr_adapter_revision x = []
    then x\<lparr>rr_adapter_revision := rv\<rparr> else x)"
  have st: "rr_status (bind_result_to_candidate x route rv) \<noteq> ''UNVERIFIED''"
    using selection_evidenceD(2) [OF assms(1)] assms(2) by auto
  have "bind_mismatch r1 route rv = []"
  proof (rule ccontr)
    assume "bind_mismatch r1 route rv \<noteq> []"
    with st show False by (simp add: bind_result_to_candidate_def Let_def r1_def [symmetric])
  qed
  then have "bind_result_to_candidate x route rv = r1"
    by (simp add: bind_result_to_candidate_def Let_def r1_def [symmetric])
  moreover have "selection_evidence (x\<lparr>rr_adapter_revision := rv\<rparr>) = selection_evidence x"
    by (simp add: selection_evidence_def)
  ultimately show ?thesis using assms(1) by (simp add: r1_def split: if_split_asm)
qed

text \<open>What the probe of a route with evidence went through.\<close>

definition earned :: "(nat \<Rightarrow> probe_env) \<Rightarrow> config \<Rightarrow> bool \<Rightarrow> route list \<Rightarrow> route_result \<Rightarrow> bool" where
  "earned pe c abroad candidates r \<longleftrightarrow>
     (\<exists>route \<in> set candidates. \<exists>i. rt_tag route = rr_route r \<and> rt_type route = rr_route_type r \<and> route_enabled route \<and>
        (\<exists>ob session p. pe_verify (pe i) route ob session = Inr p \<and> ob_route_tag ob = rt_tag route \<and> \<not> pv_simulation p) \<and>
        (abroad \<longrightarrow> (\<exists>ip cc sources. probe_external_ip (pe i) c route = Inr (ip, cc, sources) \<and>
           cc \<noteq> ''RU'' \<and> 2 \<le> length sources)) \<and>
        (\<exists>d n svc. (\<exists>check \<in> set (sv_probe_urls svc). pc_required check) \<and>
           (\<forall>ck \<in> set (rr_checks (probe_route (pe i) c d n svc route)). ck_required ck \<longrightarrow> check_ok ck)))"

lemma probe_earned:
  assumes "selection_evidence (bind_result_to_candidate (probe_route (pe i) c d n svc route) route rv)"
    and "rt_type route \<noteq> ''drop''" and "route \<in> set candidates" and "abroad \<longrightarrow> sv_require_non_ru_egress svc"
  shows "earned pe c abroad candidates (bind_result_to_candidate (probe_route (pe i) c d n svc route) route rv)"
proof -
  let ?x = "probe_route (pe i) c d n svc route"
  have id: "rr_route ?x = rt_tag route" "rr_route_type ?x = rt_type route"
    by (simp_all add: probe_route_def probe_route_honest)
  have "selection_evidence ?x" by (rule bind_evidence_probe [OF assms(1)]) (simp add: id assms(2))
  note e = probe_evidence_earned [OF this assms(2)]
  show ?thesis
    unfolding earned_def bind_ids id
    by (rule bexI [OF _ assms(3)], rule exI [of _ i]) (use e assms(4) in \<open>intro conjI; blast\<close>)
qed


definition abroad_profile :: service_profile where
  "abroad_profile = sample_profile\<lparr>pf_service := abroad_service, pf_name := ''s''\<rparr>"

lemma abroad_plan:
  "cp_candidates (build_plan (\<lambda>_. ''h'') abroad_config abroad_profile sample_options) = [abroad_route]"
  by code_simp


end
