(* ===== verification/Zapret_Catalog.thy ===== *)
theory Zapret_Catalog
  imports Config_Model Net_Addr
begin

text \<open>
  The static side of the adaptive Zapret selection (\<^verbatim>\<open>internal/zapret/catalog.go\<close> and
  \<^verbatim>\<open>bundle.go\<close>): reviewed strategy profiles, the check of a strategy file against its profile,
  and the service bundles with the index that gives every domain at most one bundle.
  \<^verbatim>\<open>Digest\<close> (SHA-256 in hexadecimal) and the JSON text of a bundle are the two functions of
  \<open>zapret_lib\<close>.
\<close>

section \<open>Patterns and numbers\<close>

text \<open>\<^verbatim>\<open>%q\<close> of a string of printable characters without quotes, as identifiers and domains are.\<close>

definition go_quote :: "string \<Rightarrow> string" where
  "go_quote s = ''\"'' @ s @ ''\"''"

definition lower_alnum :: "char \<Rightarrow> bool" where
  "lower_alnum c \<longleftrightarrow> 97 \<le> byte c \<and> byte c \<le> 122 \<or> is_digit c"

text \<open>\<^verbatim>\<open>^[a-z0-9][a-z0-9._-]{0,63}$\<close>\<close>

definition profile_id_ok :: "string \<Rightarrow> bool" where
  "profile_id_ok s = (case s of [] \<Rightarrow> False
     | c # cs \<Rightarrow> lower_alnum c \<and> length cs \<le> 63 \<and> list_all (\<lambda>x. lower_alnum x \<or> x \<in> set ''._-'') cs)"

text \<open>\<^verbatim>\<open>^[0-9]+(?:\.[0-9]+){1,2}$\<close>\<close>

definition version_ok :: "string \<Rightarrow> bool" where
  "version_ok s = (let parts = split_on CHR ''.'' s in
     2 \<le> length parts \<and> length parts \<le> 3 \<and> list_all (\<lambda>p. p \<noteq> [] \<and> list_all is_digit p) parts)"

text \<open>\<^verbatim>\<open>^sha256:[0-9a-f]{64}$\<close>\<close>

definition digest_ok :: "string \<Rightarrow> bool" where
  "digest_ok s \<longleftrightarrow> has_prefix s ''sha256:'' \<and> length s = 71 \<and>
     list_all (\<lambda>c. is_digit c \<or> 97 \<le> byte c \<and> byte c \<le> 102) (drop 7 s)"

text \<open>\<^verbatim>\<open>^[A-Za-z0-9,+._-]+$\<close>\<close>

definition value_ok :: "string \<Rightarrow> bool" where
  "value_ok s \<longleftrightarrow> s \<noteq> [] \<and>
     list_all (\<lambda>c. lower_alnum c \<or> 65 \<le> byte c \<and> byte c \<le> 90 \<or> c \<in> set '',+._-'') s"

text \<open>\<^verbatim>\<open>strconv.ParseUint(s, 10, bits)\<close>, \<open>None\<close> for an error.\<close>

definition parse_uint :: "nat \<Rightarrow> string \<Rightarrow> nat option" where
  "parse_uint bits s =
     (if s \<noteq> [] \<and> list_all is_digit s \<and> parse_dec s < 2 ^ bits then Some (parse_dec s) else None)"

text \<open>\<^verbatim>\<open>strings.Cut(s, "=")\<close>, \<open>None\<close> when the separator does not occur.\<close>

definition cut_at :: "char \<Rightarrow> string \<Rightarrow> (string \<times> string) option" where
  "cut_at d s = (if d \<in> set s then Some (takeWhile (\<lambda>c. c \<noteq> d) s, tl (dropWhile (\<lambda>c. c \<noteq> d) s)) else None)"

section \<open>Profiles\<close>

record nfqws_profile =
  np_id :: string
  np_name :: string
  np_provider :: string
  np_provider_version :: string
  np_binary_digest :: string
  np_route_type :: string
  np_ip_families :: "string list"
  np_transports :: "string list"
  np_ports :: "16 word list"
  np_queue :: "16 word"
  np_safety :: string
  np_strategy_digest :: string
  np_strategy :: string

definition max_profiles :: nat where "max_profiles = 16"
definition max_strategy_bytes :: nat where "max_strategy_bytes = 16 * 1024"
definition max_strategy_lines :: nat where "max_strategy_lines = 64"

definition allowed_options :: "string list" where
  "allowed_options = [''--qnum'', ''--filter-tcp'', ''--filter-udp'', ''--hostlist-domains'', ''--dpi-desync'',
     ''--dpi-desync-split-pos'', ''--dpi-desync-split-seqovl'', ''--dpi-desync-fooling'',
     ''--dpi-desync-repeats'', ''--dpi-desync-ttl'', ''--dpi-desync-fakedsplit-pattern'',
     ''--orig-ttl'', ''--orig-mod-start'', ''--orig-mod-cutoff'']"

text \<open>\<open>seen\<close> are the values before; a value out of the allowed set is reported before a duplicate.\<close>

fun validate_set_from :: "string list \<Rightarrow> string list \<Rightarrow> string \<Rightarrow> string list \<Rightarrow> error option" where
  "validate_set_from seen allowed label [] = None"
| "validate_set_from seen allowed label (v # vs) =
     (if v \<notin> set allowed then Some (''unsupported '' @ label @ '' '' @ go_quote v)
      else if v \<in> set seen then Some (''duplicate '' @ label @ '' '' @ go_quote v)
      else validate_set_from (v # seen) allowed label vs)"

definition validate_set :: "string list \<Rightarrow> string list \<Rightarrow> string \<Rightarrow> error option" where
  "validate_set vs allowed label = validate_set_from [] allowed label vs"

fun duplicate_port :: "16 word list \<Rightarrow> 16 word list \<Rightarrow> 16 word option" where
  "duplicate_port seen [] = None"
| "duplicate_port seen (p # ps) = (if p \<in> set seen then Some p else duplicate_port (p # seen) ps)"

definition validate_ports :: "16 word list \<Rightarrow> error option" where
  "validate_ports ports = map_option (\<lambda>p. ''duplicate port '' @ nat_dec (unat p)) (duplicate_port [] ports)"

section \<open>Strategy files\<close>

text \<open>What the loop over the lines has collected.\<close>

record strategy_scan =
  ss_queue_seen :: bool
  ss_transports :: "string list"
  ss_ports :: "16 word list"

definition scan_ports :: "string \<Rightarrow> string \<Rightarrow> strategy_scan \<Rightarrow> strategy_scan result" where
  "scan_ports transport value scan =
     (let parsed = map (\<lambda>raw. (raw, parse_uint 16 raw)) (split_on CHR '','' value);
          bad = filter (\<lambda>(_, p). p = None \<or> p = Some 0) parsed
      in case bad of
           (raw, _) # _ \<Rightarrow> Inl (''invalid '' @ transport @ '' filter port '' @ go_quote raw)
         | [] \<Rightarrow> Inr (scan\<lparr>ss_transports := List.insert transport (ss_transports scan),
             ss_ports := fold List.insert (map (\<lambda>(_, p). word_of_nat (the p)) parsed) (ss_ports scan)\<rparr>))"

definition bounded_option :: "nat \<Rightarrow> nat \<Rightarrow> string \<Rightarrow> bool" where
  "bounded_option bits limit value =
     (case parse_uint bits value of None \<Rightarrow> False | Some n \<Rightarrow> n \<noteq> 0 \<and> n \<le> limit)"

definition scan_option :: "16 word \<Rightarrow> string \<Rightarrow> string \<Rightarrow> strategy_scan \<Rightarrow> strategy_scan result" where
  "scan_option queue key value scan =
     (if key = ''--qnum'' then
        (if ss_queue_seen scan then Inl ''duplicate queue option''
         else case parse_uint 16 value of
           None \<Rightarrow> Inl ''strategy queue does not match profile''
         | Some n \<Rightarrow> if word_of_nat n \<noteq> queue then Inl ''strategy queue does not match profile''
                    else Inr (scan\<lparr>ss_queue_seen := True\<rparr>))
      else if key = ''--filter-tcp'' then scan_ports ''tcp'' value scan
      else if key = ''--filter-udp'' then scan_ports ''udp'' value scan
      else if key = ''--dpi-desync-repeats'' \<and> \<not> bounded_option 8 20 value
      then Inl ''desync repeats must be between 1 and 20''
      else if key = ''--dpi-desync-split-seqovl'' \<and> \<not> bounded_option 16 4096 value
      then Inl ''desync sequence overlap must be between 1 and 4096''
      else Inr scan)"

definition unsafe_line :: "string \<Rightarrow> bool" where
  "unsafe_line line \<longleftrightarrow> line = [] \<or> list_ex (\<lambda>c. c \<in> set '' ;&|`$/@'' \<or> byte c = 9 \<or> byte c = 92) line"

text \<open>\<open>before\<close> is the line before, \<open>None\<close> at the first one.\<close>

fun scan_lines :: "16 word \<Rightarrow> string option \<Rightarrow> string list \<Rightarrow> strategy_scan \<Rightarrow> strategy_scan result" where
  "scan_lines queue before [] scan = Inr scan"
| "scan_lines queue before (line # rest) scan =
     (if line = ''--new'' then
        (if before = None \<or> rest = [] \<or> before = Some ''--new''
         then Inl ''strategy profile separator is misplaced''
         else scan_lines queue (Some line) rest scan)
      else if unsafe_line line then Inl (''unsafe strategy line '' @ go_quote line)
      else case cut_at CHR ''='' line of
        None \<Rightarrow> Inl (''unsupported strategy option '' @ go_quote line)
      | Some (key, value) \<Rightarrow>
          (if key \<notin> set allowed_options \<or> \<not> value_ok value
           then Inl (''unsupported strategy option '' @ go_quote line)
           else case scan_option queue key value scan of
             Inl e \<Rightarrow> Inl e
           | Inr scan' \<Rightarrow> scan_lines queue (Some line) rest scan'))"

text \<open>Both sides have distinct elements: as many, and each expected one there.\<close>

definition same_set :: "'a list \<Rightarrow> 'a list \<Rightarrow> bool" where
  "same_set actual expected \<longleftrightarrow> length actual = length expected \<and> list_all (\<lambda>v. v \<in> set actual) expected"

definition validate_strategy :: "string \<Rightarrow> 16 word \<Rightarrow> string list \<Rightarrow> 16 word list \<Rightarrow> error option" where
  "validate_strategy raw queue transports ports =
     (if raw = [] \<or> max_strategy_bytes < length raw \<or> list_ex (\<lambda>c. byte c = 13) raw
      then Some ''strategy size or line endings are invalid''
      else
        let lines = split_on (char_of (10 :: nat)) (trim_suffix raw [char_of (10 :: nat)]) in
        if lines = [] \<or> max_strategy_lines < length lines then Some ''strategy line count is invalid''
        else case scan_lines queue None lines \<lparr>ss_queue_seen = False, ss_transports = [], ss_ports = []\<rparr> of
          Inl e \<Rightarrow> Some e
        | Inr scan \<Rightarrow>
            (if \<not> ss_queue_seen scan then Some ''strategy queue is missing''
             else if \<not> same_set (ss_transports scan) transports \<or> \<not> same_set (ss_ports scan) ports
             then Some ''strategy filters do not match profile scope''
             else None))"

section \<open>The profile catalog\<close>

text \<open>The digest and the canonical JSON of a bundle are computed outside of the model.\<close>

datatype 'b zapret_lib = Zapret_lib (zl_digest: "string \<Rightarrow> string") (zl_bundle_json: "'b \<Rightarrow> string")

definition validate_profile :: "'b zapret_lib \<Rightarrow> nfqws_profile \<Rightarrow> error option" where
  "validate_profile lib p =
     (if \<not> profile_id_ok (np_id p) then Some ''invalid profile ID''
      else if np_provider p \<noteq> ''nfqws-v1'' then Some ''unsupported provider''
      else if \<not> version_ok (np_provider_version p) then Some ''invalid provider version''
      else if \<not> digest_ok (np_binary_digest p) \<or> \<not> digest_ok (np_strategy_digest p)
      then Some ''binary and strategy SHA-256 pins are required''
      else if np_route_type p \<noteq> ''zapret'' \<or> np_safety p \<noteq> ''reviewed''
      then Some ''profile must be a reviewed Zapret route''
      else if np_queue p = 0 \<or> np_ip_families p = [] \<or> np_transports p = [] \<or> np_ports p = []
      then Some ''queue, address families, transports and ports are required''
      else case validate_set (np_ip_families p) [''ipv4'', ''ipv6''] ''IP family'' of Some e \<Rightarrow> Some e
      | None \<Rightarrow> (case validate_set (np_transports p) [''tcp'', ''udp''] ''transport'' of Some e \<Rightarrow> Some e
      | None \<Rightarrow>
         (if 0 \<in> set (np_ports p) then Some ''port 0 is not allowed''
          else case validate_ports (np_ports p) of Some e \<Rightarrow> Some e
          | None \<Rightarrow>
             (if zl_digest lib (np_strategy p) \<noteq> np_strategy_digest p then Some ''strategy digest mismatch''
              else validate_strategy (np_strategy p) (np_queue p) (np_transports p) (np_ports p)))))"

type_synonym catalog = "(string \<times> nfqws_profile) list"

fun add_profiles :: "'b zapret_lib \<Rightarrow> catalog \<Rightarrow> nfqws_profile list \<Rightarrow> catalog result" where
  "add_profiles lib c [] = Inr c"
| "add_profiles lib c (p # ps) =
     (case validate_profile lib p of
        Some e \<Rightarrow> Inl (''profile '' @ go_quote (np_id p) @ '': '' @ e)
      | None \<Rightarrow>
          (if map_of c (np_id p) \<noteq> None then Inl (''duplicate Zapret profile '' @ go_quote (np_id p))
           else add_profiles lib (AList.update (np_id p) p c) ps))"

definition new_catalog :: "'b zapret_lib \<Rightarrow> nfqws_profile list \<Rightarrow> catalog result" where
  "new_catalog lib ps =
     (if ps = [] then Inl ''Zapret catalog must contain at least one profile''
      else if max_profiles < length ps then Inl (''Zapret catalog exceeds '' @ nat_dec max_profiles @ '' profiles'')
      else add_profiles lib [] ps)"

section \<open>Service bundles\<close>

record protocol =
  pr_transport :: string
  pr_port :: "16 word"

record bundle_spec =
  bs_id :: string
  bs_category :: string
  bs_required_domains :: "string list"
  bs_optional_domains :: "string list"
  bs_protocols :: "protocol list"
  bs_ip_families :: "string list"
  bs_allowed_profiles :: "string list"
  bs_failure_route :: string
  bs_direct_fallback :: bool

record service_bundle = bundle_spec + sb_digest :: string

record bundle_catalog =
  bc_bundles :: "(string \<times> service_bundle) list"
  bc_owners :: "(string \<times> string) list"

definition max_bundles :: nat where "max_bundles = 64"
definition max_domains_per_bundle :: nat where "max_domains_per_bundle = 256"
definition max_protocols :: nat where "max_protocols = 16"

text \<open>The result is the sorted list and the set of names seen so far.\<close>

fun collect_domains :: "domain_lib \<Rightarrow> string list \<Rightarrow> string list \<Rightarrow> string list \<Rightarrow> (string list \<times> string list) result" where
  "collect_domains dl seen acc [] = Inr (acc, seen)"
| "collect_domains dl seen acc (v # vs) =
     (case normalize_domain dl v of
        Inl _ \<Rightarrow> Inl (''invalid bundle domain '' @ go_quote v)
      | Inr d \<Rightarrow> (if d \<in> set seen then Inl (''duplicate bundle domain '' @ go_quote d)
                 else collect_domains dl (d # seen) (acc @ [d]) vs))"

definition normalize_domains :: "domain_lib \<Rightarrow> string list \<Rightarrow> string list \<Rightarrow> (string list \<times> string list) result" where
  "normalize_domains dl vs existing =
     map_sum id (\<lambda>(ds, seen). (sort ds, seen)) (collect_domains dl existing [] vs)"

definition protocol_key :: "string \<Rightarrow> 16 word \<Rightarrow> string" where
  "protocol_key transport port = transport @ ''/'' @ nat_dec (unat port)"

fun protocol_keys :: "string list \<Rightarrow> protocol list \<Rightarrow> string list result" where
  "protocol_keys seen [] = Inr seen"
| "protocol_keys seen (p # ps) =
     (if pr_transport p \<notin> {''tcp'', ''udp''} \<or> pr_port p = 0 then Inl ''invalid bundle protocol''
      else let key = protocol_key (pr_transport p) (pr_port p) in
        if key \<in> set seen then Inl (''duplicate bundle protocol '' @ key)
        else protocol_keys (key # seen) ps)"

definition protocol_less :: "protocol \<Rightarrow> protocol \<Rightarrow> bool" where
  "protocol_less a b =
     (if pr_transport a \<noteq> pr_transport b then pr_transport a < pr_transport b else pr_port a < pr_port b)"

definition normalize_protocols :: "protocol list \<Rightarrow> (protocol list \<times> string list) result" where
  "normalize_protocols ps =
     (if ps = [] \<or> max_protocols < length ps then Inl ''invalid bundle protocol count''
      else map_sum id (\<lambda>keys. (sort_stable protocol_less ps, keys)) (protocol_keys [] ps))"

fun first_disallowed :: "string list \<Rightarrow> string list \<Rightarrow> string list \<Rightarrow> string option" where
  "first_disallowed allowed seen [] = None"
| "first_disallowed allowed seen (v # vs) =
     (if v \<notin> set allowed \<or> v \<in> set seen then Some v else first_disallowed allowed (v # seen) vs)"

definition normalize_allowed_values :: "string list \<Rightarrow> string list \<Rightarrow> string \<Rightarrow> string list result" where
  "normalize_allowed_values vs allowed label =
     (if vs = [] then Inl (label @ '' list is empty'')
      else case first_disallowed allowed [] vs of
        Some v \<Rightarrow> Inl (''invalid or duplicate '' @ label @ '' '' @ go_quote v)
      | None \<Rightarrow> Inr (sort vs))"

text \<open>The scope check of one profile: its families and its protocols are among those of the bundle.\<close>

definition profile_scope_error :: "string list \<Rightarrow> string list \<Rightarrow> string \<Rightarrow> nfqws_profile \<Rightarrow> error option" where
  "profile_scope_error keys families i p =
     (if list_ex (\<lambda>f. f \<notin> set families) (np_ip_families p)
      then Some (''profile '' @ i @ '' exceeds bundle IP family scope'')
      else if list_ex (\<lambda>t. list_ex (\<lambda>port. protocol_key t port \<notin> set keys) (np_ports p)) (np_transports p)
      then Some (''profile '' @ i @ '' exceeds bundle protocol scope'')
      else None)"

fun profile_ids_error :: "catalog \<Rightarrow> string list \<Rightarrow> string list \<Rightarrow> string list \<Rightarrow> string list \<Rightarrow> error option" where
  "profile_ids_error profiles keys families seen [] = None"
| "profile_ids_error profiles keys families seen (i # is) =
     (if i \<in> set seen then Some (''duplicate allowed profile '' @ go_quote i)
      else case map_of profiles i of
        None \<Rightarrow> Some (''allowed profile '' @ go_quote i @ '' is not in the catalog'')
      | Some p \<Rightarrow>
          (case profile_scope_error keys families i p of
             Some e \<Rightarrow> Some e
           | None \<Rightarrow> profile_ids_error profiles keys families (i # seen) is))"

definition normalize_profile_ids :: "string list \<Rightarrow> catalog \<Rightarrow> string list \<Rightarrow> string list \<Rightarrow> string list result" where
  "normalize_profile_ids vs profiles keys families =
     (if vs = [] \<or> max_profiles < length vs then Inl ''invalid allowed profile count''
      else case profile_ids_error profiles keys families [] vs of
        Some e \<Rightarrow> Inl e
      | None \<Rightarrow> Inr (sort vs))"

definition normalize_bundle ::
    "bundle_spec zapret_lib \<Rightarrow> domain_lib \<Rightarrow> catalog \<Rightarrow> bundle_spec \<Rightarrow> service_bundle result" where
  "normalize_bundle lib dl profiles raw =
     (if \<not> profile_id_ok (bs_id raw) then Inl ''invalid bundle ID''
      else if bs_category raw \<noteq> ''TSPU_RESTRICTED'' then Inl ''adaptive Zapret bundle must be TSPU_RESTRICTED''
      else if \<not> profile_id_ok (bs_failure_route raw) then Inl ''invalid failure route''
      else if bs_required_domains raw = [] \<or>
              max_domains_per_bundle < length (bs_required_domains raw) + length (bs_optional_domains raw)
      then Inl ''invalid bundle domain count''
      else case normalize_domains dl (bs_required_domains raw) [] of Inl e \<Rightarrow> Inl e
      | Inr (required, seen) \<Rightarrow> (case normalize_domains dl (bs_optional_domains raw) seen of Inl e \<Rightarrow> Inl e
      | Inr (optional, _) \<Rightarrow> (case normalize_protocols (bs_protocols raw) of Inl e \<Rightarrow> Inl e
      | Inr (protocols, keys) \<Rightarrow> (case normalize_allowed_values (bs_ip_families raw) [''ipv4'', ''ipv6''] ''IP family'' of Inl e \<Rightarrow> Inl e
      | Inr families \<Rightarrow> (case normalize_profile_ids (bs_allowed_profiles raw) profiles keys families of Inl e \<Rightarrow> Inl e
      | Inr ids \<Rightarrow>
          (let spec = raw\<lparr>bs_required_domains := required, bs_optional_domains := optional,
                 bs_protocols := protocols, bs_ip_families := families, bs_allowed_profiles := ids\<rparr>
           in Inr (bundle_spec.extend spec (service_bundle.fields (zl_digest lib (zl_bundle_json lib spec))))))))))"

text \<open>The walk from a domain to its parents, up to the first one with an owner.\<close>

lemma cut_at_shorter: "cut_at d s = Some (a, b) \<Longrightarrow> length b < length s"
proof -
  assume "cut_at d s = Some (a, b)"
  then have "d \<in> set s" and b: "b = tl (dropWhile (\<lambda>c. c \<noteq> d) s)" by (simp_all add: cut_at_def split: if_splits)
  then obtain x xs where "dropWhile (\<lambda>c. c \<noteq> d) s = x # xs"
    by (cases "dropWhile (\<lambda>c. c \<noteq> d) s") (auto simp: dropWhile_eq_Nil_conv)
  then show ?thesis using length_dropWhile_le [of "\<lambda>c. c \<noteq> d" s] by (simp add: b)
qed

function owner_for_domain :: "(string \<times> string) list \<Rightarrow> string \<Rightarrow> (string \<times> string) option" where
  "owner_for_domain owners current =
     (if current = [] then None
      else case map_of owners current of
        Some owner \<Rightarrow> Some (owner, current)
      | None \<Rightarrow> (case cut_at CHR ''.'' current of
          None \<Rightarrow> None
        | Some (_, parent) \<Rightarrow> owner_for_domain owners parent))"
  by pat_completeness auto
termination
  by (relation "measure (\<lambda>(_, current). length current)") (auto dest: cut_at_shorter)

declare owner_for_domain.simps [simp del]

definition domain_depth :: "string \<Rightarrow> nat" where
  "domain_depth d = length (filter (\<lambda>c. c = CHR ''.'') d)"

text \<open>A declaration is a domain with the bundle that declares it.\<close>

definition declaration_less :: "string \<times> string \<Rightarrow> string \<times> string \<Rightarrow> bool" where
  "declaration_less a b =
     (if domain_depth (fst a) \<noteq> domain_depth (fst b) then domain_depth (fst a) < domain_depth (fst b)
      else fst a < fst b)"

definition declarations_of :: "service_bundle \<Rightarrow> (string \<times> string) list" where
  "declarations_of b = map (\<lambda>d. (d, bs_id b)) (bs_required_domains b @ bs_optional_domains b)"

fun add_bundles ::
    "bundle_spec zapret_lib \<Rightarrow> domain_lib \<Rightarrow> catalog \<Rightarrow> (string \<times> service_bundle) list \<Rightarrow>
     bundle_spec list \<Rightarrow> (string \<times> service_bundle) list result" where
  "add_bundles lib dl profiles bundles [] = Inr bundles"
| "add_bundles lib dl profiles bundles (raw # raws) =
     (case normalize_bundle lib dl profiles raw of
        Inl e \<Rightarrow> Inl (''bundle '' @ go_quote (bs_id raw) @ '': '' @ e)
      | Inr b \<Rightarrow>
          (if map_of bundles (bs_id b) \<noteq> None then Inl (''duplicate service bundle '' @ go_quote (bs_id b))
           else add_bundles lib dl profiles (bundles @ [(bs_id b, b)]) raws))"

text \<open>The owner of a domain that is in the index is found by the walk at its first step.\<close>

fun index_domains :: "(string \<times> string) list \<Rightarrow> (string \<times> string) list \<Rightarrow> (string \<times> string) list result" where
  "index_domains owners [] = Inr owners"
| "index_domains owners ((domain, bundle) # ds) =
     (case owner_for_domain owners domain of
        Some (owner, ancestor) \<Rightarrow>
          (if owner \<noteq> bundle
           then Inl (''domain '' @ domain @ '' overlaps bundle '' @ owner @ '' through '' @ ancestor)
           else index_domains (AList.update domain bundle owners) ds)
      | None \<Rightarrow> index_domains (AList.update domain bundle owners) ds)"

definition new_bundle_catalog ::
    "bundle_spec zapret_lib \<Rightarrow> domain_lib \<Rightarrow> bundle_spec list \<Rightarrow> catalog \<Rightarrow> bundle_catalog result" where
  "new_bundle_catalog lib dl specs profiles =
     (if specs = [] then Inl ''service bundle catalog must not be empty''
      else if max_bundles < length specs
      then Inl (''service bundle catalog exceeds '' @ nat_dec max_bundles @ '' bundles'')
      else case add_bundles lib dl profiles [] specs of
        Inl e \<Rightarrow> Inl e
      | Inr bundles \<Rightarrow>
          map_sum id (\<lambda>owners. \<lparr>bc_bundles = bundles, bc_owners = owners\<rparr>)
            (index_domains [] (sort_stable declaration_less (concat (map (declarations_of \<circ> snd) bundles)))))"

definition lookup_bundle :: "bundle_catalog \<Rightarrow> string \<Rightarrow> service_bundle option" where
  "lookup_bundle c i = map_of (bc_bundles c) i"

definition lookup_domain :: "domain_lib \<Rightarrow> bundle_catalog \<Rightarrow> string \<Rightarrow> service_bundle option" where
  "lookup_domain dl c domain =
     (case normalize_domain dl domain of
        Inl _ \<Rightarrow> None
      | Inr d \<Rightarrow> (case owner_for_domain (bc_owners c) d of
          None \<Rightarrow> None | Some (owner, _) \<Rightarrow> lookup_bundle c owner))"

section \<open>The index of domains\<close>

text \<open>A domain with its parents, nearest first.\<close>

function domain_chain :: "string \<Rightarrow> string list" where
  "domain_chain d = (if d = [] then []
     else d # (case cut_at CHR ''.'' d of None \<Rightarrow> [] | Some (_, parent) \<Rightarrow> domain_chain parent))"
  by pat_completeness auto
termination
  by (relation "measure length") (auto dest: cut_at_shorter)

declare domain_chain.simps [simp del]

lemma domain_chain_cases:
  obtains "d = []" "domain_chain d = []"
  | "d \<noteq> []" "cut_at CHR ''.'' d = None" "domain_chain d = [d]"
  | a parent where "d \<noteq> []" "cut_at CHR ''.'' d = Some (a, parent)" "domain_chain d = d # domain_chain parent"
proof (cases "d = []")
  case True
  then show ?thesis using that(1) domain_chain.simps [of d] by simp
next
  case False
  show ?thesis
  proof (cases "cut_at CHR ''.'' d")
    case None
    then show ?thesis using that(2) domain_chain.simps [of d] False by simp
  next
    case (Some ap)
    then show ?thesis using that(3) domain_chain.simps [of d] False by (cases ap) simp
  qed
qed

lemma owner_for_domain_Nil [simp]: "owner_for_domain owners [] = None"
  by (simp add: owner_for_domain.simps)

lemma owner_for_domain_find:
  "owner_for_domain owners d = map_option (\<lambda>x. (the (map_of owners x), x))
     (find (\<lambda>x. map_of owners x \<noteq> None) (domain_chain d))"
proof (induction d rule: domain_chain.induct)
  case (1 d)
  show ?case
  proof (cases d rule: domain_chain_cases)
    case (3 a parent)
    note ih = 1 [OF 3(1,2) refl]
    show ?thesis
      by (cases "map_of owners d") (simp_all add: owner_for_domain.simps [of owners d] 3 ih)
  next
    case 2
    then show ?thesis by (cases "map_of owners d") (simp_all add: owner_for_domain.simps [of owners d])
  qed simp
qed

lemma cut_at_append:
  assumes "cut_at c s = Some (a, b)"
  shows "s = a @ c # b"
proof -
  from assms have c: "c \<in> set s" and ab: "a = takeWhile (\<lambda>x. x \<noteq> c) s" "b = tl (dropWhile (\<lambda>x. x \<noteq> c) s)"
    by (simp_all add: cut_at_def split: if_splits)
  obtain x xs where x: "dropWhile (\<lambda>x. x \<noteq> c) s = x # xs"
    using c by (cases "dropWhile (\<lambda>x. x \<noteq> c) s") (auto simp: dropWhile_eq_Nil_conv)
  then have "x = c" using hd_dropWhile [of "\<lambda>x. x \<noteq> c" s] by simp
  then show ?thesis using takeWhile_dropWhile_id [of "\<lambda>x. x \<noteq> c" s] x ab by simp
qed

lemma domain_depth_parent: "cut_at CHR ''.'' d = Some (a, parent) \<Longrightarrow> domain_depth parent < domain_depth d"
  by (drule cut_at_append) (simp add: domain_depth_def)

lemma domain_chain_suffix:
  "y \<in> set (domain_chain x) \<Longrightarrow>
   \<exists>pre. domain_chain x = pre @ domain_chain y \<and> (y = x \<or> domain_depth y < domain_depth x)"
proof (induction x rule: domain_chain.induct)
  case (1 x)
  show ?case
  proof (cases x rule: domain_chain_cases)
    case (3 a parent)
    show ?thesis
    proof (cases "y = x")
      case False
      with 1(2) 3(3) have "y \<in> set (domain_chain parent)" by simp
      from 1(1) [OF 3(1,2) refl this]
      obtain pre where "domain_chain parent = pre @ domain_chain y" "y = parent \<or> domain_depth y < domain_depth parent"
        by blast
      with 3(3) domain_depth_parent [OF 3(2)] show ?thesis
        by (intro exI [of _ "x # pre"]) auto
    qed auto
  qed (use 1(2) in auto)
qed

text \<open>The index maps every declared domain to its bundle, and all indexed ancestors of an indexed
  domain to the same bundle.\<close>

definition index_consistent :: "(string \<times> string) list \<Rightarrow> bool" where
  "index_consistent owners \<longleftrightarrow> (\<forall>x o_x. map_of owners x = Some o_x \<longrightarrow>
     (\<forall>y \<in> set (domain_chain x). map_of owners y \<in> {None, Some o_x}))"

lemma owner_of_ancestors:
  assumes "index_consistent owners"
  shows "\<forall>y \<in> set (domain_chain d). map_of owners y \<in> {None, map_option fst (owner_for_domain owners d)}"
proof (induction d rule: domain_chain.induct)
  case (1 d)
  show ?case
  proof (cases d rule: domain_chain_cases)
    case (3 a parent)
    note ih = 1 [OF 3(1,2) refl]
    show ?thesis
    proof (cases "map_of owners d")
      case None
      with 3 have "owner_for_domain owners d = owner_for_domain owners parent"
        by (simp add: owner_for_domain.simps [of owners d])
      with ih None 3(3) show ?thesis by simp
    next
      case (Some ow)
      with 3 have "owner_for_domain owners d = Some (ow, d)" by (simp add: owner_for_domain.simps [of owners d])
      with assms Some show ?thesis unfolding index_consistent_def by simp
    qed
  next
    case 2
    then show ?thesis by (cases "map_of owners d") (simp_all add: owner_for_domain.simps [of owners d])
  qed simp
qed

lemma index_consistent_update:
  assumes "index_consistent owners" and "\<forall>x \<in> set (map fst owners). domain_depth x \<le> domain_depth d"
    and "owner_for_domain owners d = None \<or> (\<exists>z. owner_for_domain owners d = Some (b, z))"
  shows "index_consistent (AList.update d b owners)"
  unfolding index_consistent_def
proof (intro allI impI ballI)
  fix x ow y
  assume x: "map_of (AList.update d b owners) x = Some ow" and y: "y \<in> set (domain_chain x)"
  show "map_of (AList.update d b owners) y \<in> {None, Some ow}"
  proof (cases "x = d")
    case True
    then have "ow = b" using x by (simp add: update_conv')
    with owner_of_ancestors [OF assms(1), of d] y True assms(3) show ?thesis by (auto simp: update_conv')
  next
    case False
    then have xo: "map_of owners x = Some ow" using x by (simp add: update_conv')
    then have "domain_depth x \<le> domain_depth d" using assms(2) by (metis map_of_eq_None_iff image_set option.distinct(1))
    then have "y \<noteq> d" using domain_chain_suffix [OF y] False by auto
    then show ?thesis using assms(1) xo y by (simp add: update_conv' index_consistent_def)
  qed
qed

lemma index_domains_consistent:
  assumes "index_domains owners ds = Inr owners'" and "index_consistent owners"
    and "sorted_wrt (\<lambda>a b. domain_depth (fst a) \<le> domain_depth (fst b)) ds"
    and "\<forall>x \<in> set (map fst owners). \<forall>d \<in> set ds. domain_depth x \<le> domain_depth (fst d)"
    and "\<forall>d \<in> set ds. fst d \<noteq> []"
  shows "index_consistent owners' \<and> (\<forall>x ow. map_of owners x = Some ow \<longrightarrow> map_of owners' x = Some ow) \<and>
    (\<forall>(d, b) \<in> set ds. map_of owners' d = Some b)"
  using assms
proof (induction owners ds arbitrary: owners' rule: index_domains.induct)
  case (2 owners d b ds)
  let ?new = "AList.update d b owners"
  from "2.prems"(1) have ok: "owner_for_domain owners d = None \<or> (\<exists>z. owner_for_domain owners d = Some (b, z))"
    and rest: "index_domains ?new ds = Inr owners'"
    by (auto split: option.splits prod.splits if_splits)
  have cons: "index_consistent ?new"
    by (rule index_consistent_update [OF "2.prems"(2) _ ok]) (use "2.prems"(4) in auto)
  have keep: "map_of ?new x = Some ow" if "map_of owners x = Some ow" for x ow
  proof (cases "x = d")
    case True
    with that "2.prems"(5) have "owner_for_domain owners d = Some (ow, d)"
      by (simp add: owner_for_domain.simps [of owners d])
    with ok True show ?thesis by (auto simp: update_conv')
  qed (simp add: update_conv' that)
  have sub: "x \<in> set (map fst ?new) \<Longrightarrow> x = d \<or> x \<in> set (map fst owners)" for x
    using set_update_subset [of d b owners] by auto
  have bounds: "\<forall>x \<in> set (map fst ?new). \<forall>e \<in> set ds. domain_depth x \<le> domain_depth (fst e)"
  proof (intro ballI)
    fix x e assume x: "x \<in> set (map fst ?new)" and e: "e \<in> set ds"
    show "domain_depth x \<le> domain_depth (fst e)"
      using sub [OF x] "2.prems"(3,4) e by fastforce
  qed
  have sorted: "sorted_wrt (\<lambda>a b. domain_depth (fst a) \<le> domain_depth (fst b)) ds" "\<forall>d \<in> set ds. fst d \<noteq> []"
    using "2.prems"(3,5) by simp_all
  have "index_consistent owners' \<and> (\<forall>x ow. map_of ?new x = Some ow \<longrightarrow> map_of owners' x = Some ow) \<and>
    (\<forall>(d, b) \<in> set ds. map_of owners' d = Some b)"
  proof (cases "owner_for_domain owners d")
    case None
    show ?thesis by (rule "2.IH"(1) [OF None rest cons sorted(1) bounds sorted(2)])
  next
    case (Some oz)
    with ok obtain z where z: "oz = (b, z)" by (cases oz) auto
    show ?thesis by (rule "2.IH"(2) [OF Some z [symmetric] _ rest cons sorted(1) bounds sorted(2)]) simp
  qed
  with keep show ?case by (auto simp: update_conv')
qed simp

lemma index_domains_only:
  "index_domains owners ds = Inr owners' \<Longrightarrow> map_of owners' x = Some ow \<Longrightarrow>
   map_of owners x = Some ow \<or> (x, ow) \<in> set ds"
proof (induction owners ds arbitrary: owners' rule: index_domains.induct)
  case (2 owners d b ds)
  from "2.prems"(1) have rest: "index_domains (AList.update d b owners) ds = Inr owners'"
    by (auto split: option.splits prod.splits if_splits)
  have "map_of (AList.update d b owners) x = Some ow \<or> (x, ow) \<in> set ds"
  proof (cases "owner_for_domain owners d")
    case None
    show ?thesis by (rule "2.IH"(1) [OF None rest "2.prems"(2)])
  next
    case (Some oz)
    then have "\<not> fst oz \<noteq> b" using "2.prems"(1) by (auto split: prod.splits if_splits)
    with "2.IH"(2) [OF Some prod.collapse _ rest "2.prems"(2)] show ?thesis by blast
  qed
  then show ?case by (auto simp: update_conv' split: if_splits)
qed simp

lemma normalize_domain_nonempty: "normalize_domain dl v = Inr d \<Longrightarrow> d \<noteq> []"
  by (auto simp: normalize_domain_def Let_def split: if_splits option.splits list.splits)

lemma collect_domains_nonempty:
  "collect_domains dl seen acc vs = Inr (ds, seen') \<Longrightarrow> \<forall>d \<in> set acc. d \<noteq> [] \<Longrightarrow> \<forall>d \<in> set ds. d \<noteq> []"
proof (induction dl seen acc vs rule: collect_domains.induct)
  case (2 dl seen acc v vs)
  then show ?case
    by (auto split: sum.splits if_splits dest: normalize_domain_nonempty)
qed simp

lemma normalize_domains_nonempty: "normalize_domains dl vs e = Inr (ds, seen) \<Longrightarrow> d \<in> set ds \<Longrightarrow> d \<noteq> []"
  using collect_domains_nonempty [of dl e "[]" vs]
  by (cases "collect_domains dl e [] vs") (auto simp: normalize_domains_def)

lemma case_sum_InrE:
  assumes "(case x of Inl e \<Rightarrow> Inl (g e) | Inr v \<Rightarrow> f v) = Inr r"
  obtains v where "x = Inr v" "f v = Inr r"
  using assms by (cases x) auto

lemma if_InrE:
  assumes "(if b then Inl e else y) = Inr r"
  obtains "\<not> b" "y = Inr r"
  using assms by (cases b) auto

lemma case_prod_eqE:
  assumes "(case p of (x, y) \<Rightarrow> f x y) = r"
  obtains x y where "p = (x, y)" "f x y = r"
  using assms by (cases p) auto

lemma normalize_bundle_parts:
  assumes "normalize_bundle lib dl profiles raw = Inr b"
  obtains required seen optional seen' where
    "normalize_domains dl (bs_required_domains raw) [] = Inr (required, seen)"
    "normalize_domains dl (bs_optional_domains raw) seen = Inr (optional, seen')"
    "bs_required_domains b = required" "bs_optional_domains b = optional" "bs_id b = bs_id raw"
    "profile_id_ok (bs_id raw)"
    "\<exists>keys families. normalize_profile_ids (bs_allowed_profiles raw) profiles keys families = Inr (bs_allowed_profiles b)"
  using assms [unfolded normalize_bundle_def Let_def]
proof (elim if_InrE case_sum_InrE case_prod_eqE)
  fix v required seen va optional seen' vb protocols keys families ids
  assume d: "normalize_domains dl (bs_required_domains raw) [] = Inr v" "v = (required, seen)"
    "normalize_domains dl (bs_optional_domains raw) seen = Inr va" "va = (optional, seen')"
    and ids: "normalize_profile_ids (bs_allowed_profiles raw) profiles keys families = Inr ids"
    and b: "Inr (bundle_spec.extend (raw\<lparr>bs_required_domains := required, bs_optional_domains := optional,
        bs_protocols := protocols, bs_ip_families := families, bs_allowed_profiles := ids\<rparr>)
      (service_bundle.fields (zl_digest lib (zl_bundle_json lib (raw\<lparr>bs_required_domains := required,
        bs_optional_domains := optional, bs_protocols := protocols, bs_ip_families := families,
        bs_allowed_profiles := ids\<rparr>))))) = Inr b"
    and i: "\<not> \<not> profile_id_ok (bs_id raw)"
  have f: "bs_required_domains b = required" "bs_optional_domains b = optional" "bs_id b = bs_id raw"
    "bs_allowed_profiles b = ids"
    using b by (auto simp: bundle_spec.defs service_bundle.defs)
  show thesis
    by (rule that [of required seen optional seen']) (use d ids f i in auto)
qed

lemma normalize_bundle_domains:
  assumes "normalize_bundle lib dl profiles raw = Inr b"
  shows "\<forall>d \<in> set (bs_required_domains b @ bs_optional_domains b). d \<noteq> []" "bs_id b = bs_id raw"
    "profile_id_ok (bs_id b)"
proof -
  from normalize_bundle_parts [OF assms] obtain required seen optional seen' where
    r: "normalize_domains dl (bs_required_domains raw) [] = Inr (required, seen)"
    "normalize_domains dl (bs_optional_domains raw) seen = Inr (optional, seen')"
    and b: "bs_required_domains b = required" "bs_optional_domains b = optional" "bs_id b = bs_id raw"
      "profile_id_ok (bs_id raw)" by metis
  then show "\<forall>d \<in> set (bs_required_domains b @ bs_optional_domains b). d \<noteq> []" "bs_id b = bs_id raw" "profile_id_ok (bs_id b)"
    using normalize_domains_nonempty [OF r(1)] normalize_domains_nonempty [OF r(2)] by auto
qed

definition bundle_entry_ok :: "string \<times> service_bundle \<Rightarrow> bool" where
  "bundle_entry_ok e \<longleftrightarrow> fst e = bs_id (snd e) \<and> (\<forall>d \<in> set (declarations_of (snd e)). fst d \<noteq> [])"

lemma add_bundles_inv:
  assumes "add_bundles lib dl profiles bundles raws = Inr bundles'"
    and "distinct (map fst bundles)" and "\<forall>e \<in> set bundles. bundle_entry_ok e"
  shows "distinct (map fst bundles') \<and> (\<forall>e \<in> set bundles'. bundle_entry_ok e)"
  using assms
proof (induction lib dl profiles bundles raws arbitrary: bundles' rule: add_bundles.induct)
  case (2 lib dl profiles bundles raw raws)
  from "2.prems"(1) obtain b where b: "normalize_bundle lib dl profiles raw = Inr b"
    and new: "map_of bundles (bs_id b) = None"
    and rest: "add_bundles lib dl profiles (bundles @ [(bs_id b, b)]) raws = Inr bundles'"
    unfolding add_bundles.simps by (elim case_sum_InrE if_InrE) blast
  have dist: "distinct (map fst (bundles @ [(bs_id b, b)]))"
    using "2.prems"(2) new by (simp add: map_of_eq_None_iff)
  have "fst d \<noteq> []" if "d \<in> set (declarations_of b)" for d
  proof -
    from that obtain x where "x \<in> set (bs_required_domains b @ bs_optional_domains b)" "d = (x, bs_id b)"
      unfolding declarations_of_def set_map by blast
    with normalize_bundle_domains(1) [OF b] show ?thesis by (metis fst_conv)
  qed
  then have "bundle_entry_ok (bs_id b, b)" by (simp add: bundle_entry_ok_def)
  then have entries: "\<forall>e \<in> set (bundles @ [(bs_id b, b)]). bundle_entry_ok e" using "2.prems"(3) by simp
  show ?case by (rule "2.IH" [OF b _ rest dist entries]) (simp add: new)
qed simp

interpretation by_depth: go_less declaration_less
  by (rule go_less_key [where key = "\<lambda>a. (domain_depth (fst a), fst a)"]) (auto simp: declaration_less_def)

lemma add_profiles_ids:
  "add_profiles lib c ps = Inr c' \<Longrightarrow> \<forall>i \<in> set (map fst c). profile_id_ok i \<Longrightarrow> \<forall>i \<in> set (map fst c'). profile_id_ok i"
proof (induction ps arbitrary: c)
  case (Cons p ps)
  from Cons.prems(1) have v: "validate_profile lib p = None"
    and rest: "add_profiles lib (AList.update (np_id p) p c) ps = Inr c'"
    by (simp_all split: option.splits if_splits)
  from v have "profile_id_ok (np_id p)" by (rule contrapos_pp) (simp add: validate_profile_def)
  with Cons.prems(2) have "\<forall>i \<in> set (map fst (AList.update (np_id p) p c)). profile_id_ok i"
    using set_update_subset [of "np_id p" p c] by fastforce
  from Cons.IH [OF rest this] show ?case .
qed simp

lemma new_catalog_ids: "new_catalog lib ps = Inr c \<Longrightarrow> map_of c i \<noteq> None \<Longrightarrow> profile_id_ok i"
  using add_profiles_ids [of lib "[]" ps c] by (auto simp: new_catalog_def map_of_eq_None_iff split: if_splits)

lemma profile_ids_error_None:
  "profile_ids_error profiles keys families seen is = None \<Longrightarrow>
   distinct is \<and> set is \<inter> set seen = {} \<and> (\<forall>i \<in> set is. map_of profiles i \<noteq> None)"
  by (induction profiles keys families seen "is" rule: profile_ids_error.induct)
    (auto split: if_splits option.splits)

definition allowed_profiles_ok :: "catalog \<Rightarrow> service_bundle \<Rightarrow> bool" where
  "allowed_profiles_ok profiles b \<longleftrightarrow> bs_allowed_profiles b \<noteq> [] \<and> length (bs_allowed_profiles b) \<le> max_profiles \<and>
     distinct (bs_allowed_profiles b) \<and> (\<forall>i \<in> set (bs_allowed_profiles b). map_of profiles i \<noteq> None)"

lemma normalize_profile_ids_ok:
  "normalize_profile_ids vs profiles keys families = Inr ids \<Longrightarrow>
   ids \<noteq> [] \<and> length ids \<le> max_profiles \<and> distinct ids \<and> (\<forall>i \<in> set ids. map_of profiles i \<noteq> None)"
  using profile_ids_error_None [of profiles keys families "[]" vs]
  by (auto simp: normalize_profile_ids_def split: if_splits option.splits dest: arg_cong [of "sort vs" "[]" length])

lemma add_bundles_allowed:
  assumes "add_bundles lib dl profiles bundles raws = Inr bundles'" and "\<forall>e \<in> set bundles. allowed_profiles_ok profiles (snd e)"
  shows "\<forall>e \<in> set bundles'. allowed_profiles_ok profiles (snd e)"
  using assms
proof (induction lib dl profiles bundles raws arbitrary: bundles' rule: add_bundles.induct)
  case (2 lib dl profiles bundles raw raws)
  from "2.prems"(1) obtain b where b: "normalize_bundle lib dl profiles raw = Inr b"
    and new: "\<not> map_of bundles (bs_id b) \<noteq> None"
    and rest: "add_bundles lib dl profiles (bundles @ [(bs_id b, b)]) raws = Inr bundles'"
    unfolding add_bundles.simps by (elim case_sum_InrE if_InrE) blast
  from normalize_bundle_parts [OF b] obtain keys families where
    "normalize_profile_ids (bs_allowed_profiles raw) profiles keys families = Inr (bs_allowed_profiles b)" by metis
  from normalize_profile_ids_ok [OF this] have "allowed_profiles_ok profiles b" by (simp add: allowed_profiles_ok_def)
  then have ok: "\<forall>e \<in> set (bundles @ [(bs_id b, b)]). allowed_profiles_ok profiles (snd e)" using "2.prems"(2) by simp
  show ?case by (rule "2.IH" [OF b new rest ok])
qed simp

lemma lookup_bundle_allowed:
  assumes "new_bundle_catalog lib dl specs profiles = Inr c" and "lookup_bundle c i = Some b"
  shows "allowed_profiles_ok profiles b"
proof -
  from assms(1) [unfolded new_bundle_catalog_def] obtain bundles where bs: "add_bundles lib dl profiles [] specs = Inr bundles"
    and "map_sum id (\<lambda>owners. \<lparr>bc_bundles = bundles, bc_owners = owners\<rparr>)
      (index_domains [] (sort_stable declaration_less (concat (map (declarations_of \<circ> snd) bundles)))) = Inr c"
    by (elim if_InrE case_sum_InrE) (rule that)
  then have "bc_bundles c = bundles"
    by (cases "index_domains [] (sort_stable declaration_less (concat (map (declarations_of \<circ> snd) bundles)))"; auto)
  with assms(2) have mem: "(i, b) \<in> set bundles" by (simp add: lookup_bundle_def map_of_SomeD)
  have "\<forall>e \<in> set bundles. allowed_profiles_ok profiles (snd e)" by (rule add_bundles_allowed [OF bs]) simp
  from bspec [OF this mem] show ?thesis by simp
qed

text \<open>A domain is looked up without ambiguity: in a catalog that was built, the bundle of a domain
  is the one bundle that declares the domain itself or a parent of it, whatever the order in which
  the bundles were listed, and every domain below a declared one has a bundle.\<close>

theorem lookup_domain_iff:
  assumes "new_bundle_catalog lib dl specs profiles = Inr c"
  shows "lookup_domain dl c domain = Some b \<longleftrightarrow>
    (bs_id b, b) \<in> set (bc_bundles c) \<and> (\<exists>d. normalize_domain dl domain = Inr d \<and>
       (\<exists>x \<in> set (bs_required_domains b @ bs_optional_domains b). x \<in> set (domain_chain d)))"
proof -
  let ?ds = "sort_stable declaration_less (concat (map (declarations_of \<circ> snd) (bc_bundles c)))"
  have add: "add_bundles lib dl profiles [] specs = Inr (bc_bundles c)"
    and idx: "index_domains [] ?ds = Inr (bc_owners c)"
  proof -
    from assms [unfolded new_bundle_catalog_def] obtain bundles where bs: "add_bundles lib dl profiles [] specs = Inr bundles"
      and "map_sum id (\<lambda>owners. \<lparr>bc_bundles = bundles, bc_owners = owners\<rparr>)
        (index_domains [] (sort_stable declaration_less (concat (map (declarations_of \<circ> snd) bundles)))) = Inr c"
      by (elim if_InrE case_sum_InrE) (rule that)
    then show "add_bundles lib dl profiles [] specs = Inr (bc_bundles c)" "index_domains [] ?ds = Inr (bc_owners c)"
      by (cases "index_domains [] (sort_stable declaration_less (concat (map (declarations_of \<circ> snd) bundles)))"; auto)+
  qed
  have dist: "distinct (map fst (bc_bundles c))"
    and entries: "\<forall>e \<in> set (bc_bundles c). bundle_entry_ok e"
    using add_bundles_inv [OF add] by simp_all
  have ids: "i = bs_id b" if "(i, b) \<in> set (bc_bundles c)" for i b
    using entries that by (auto simp: bundle_entry_ok_def)
  have "sorted_wrt (\<lambda>a b. \<not> declaration_less b a) ?ds" by (rule by_depth.sorted_sort_stable)
  then have sorted: "sorted_wrt (\<lambda>a b. domain_depth (fst a) \<le> domain_depth (fst b)) ?ds"
    by (rule sorted_wrt_mono_rel [rotated]) (auto simp: declaration_less_def split: if_splits)
  have nonempty: "\<forall>d \<in> set ?ds. fst d \<noteq> []" using entries by (fastforce simp: bundle_entry_ok_def)
  note index = index_domains_consistent [OF idx _ sorted _ nonempty]
  have cons: "index_consistent (bc_owners c)" and owned: "\<forall>(d, b) \<in> set ?ds. map_of (bc_owners c) d = Some b"
    using index by (simp_all add: index_consistent_def)
  have owner_iff: "map_of (bc_owners c) x = Some i \<longleftrightarrow>
      (\<exists>b. (i, b) \<in> set (bc_bundles c) \<and> x \<in> set (bs_required_domains b @ bs_optional_domains b))" for x i
  proof
    assume "map_of (bc_owners c) x = Some i"
    then have "(x, i) \<in> set ?ds" using index_domains_only [OF idx] by simp
    then obtain j b where b: "(j, b) \<in> set (bc_bundles c)" "(x, i) \<in> set (declarations_of b)" by auto
    then have "i = bs_id b" "x \<in> set (bs_required_domains b @ bs_optional_domains b)"
      by (auto simp: declarations_of_def)
    with b ids show "\<exists>b. (i, b) \<in> set (bc_bundles c) \<and> x \<in> set (bs_required_domains b @ bs_optional_domains b)" by blast
  next
    assume "\<exists>b. (i, b) \<in> set (bc_bundles c) \<and> x \<in> set (bs_required_domains b @ bs_optional_domains b)"
    then obtain b where b: "(i, b) \<in> set (bc_bundles c)" "x \<in> set (bs_required_domains b @ bs_optional_domains b)" by blast
    then have "(x, i) \<in> set (declarations_of b)" using ids [OF b(1)] by (auto simp: declarations_of_def)
    with b(1) have "(x, i) \<in> set ?ds" by force
    then show "map_of (bc_owners c) x = Some i" using owned by blast
  qed
  show ?thesis
  proof (cases "normalize_domain dl domain")
    case (Inr d)
    have find: "map_option fst (owner_for_domain (bc_owners c) d) = Some i \<longleftrightarrow>
        (\<exists>x \<in> set (domain_chain d). map_of (bc_owners c) x = Some i)" for i
    proof
      assume "map_option fst (owner_for_domain (bc_owners c) d) = Some i"
      then show "\<exists>x \<in> set (domain_chain d). map_of (bc_owners c) x = Some i"
        unfolding owner_for_domain_find by (auto simp: find_Some_iff)
    next
      assume "\<exists>x \<in> set (domain_chain d). map_of (bc_owners c) x = Some i"
      then show "map_option fst (owner_for_domain (bc_owners c) d) = Some i"
        using owner_of_ancestors [OF cons, of d] by auto
    qed
    have "lookup_domain dl c domain = Some b \<longleftrightarrow>
        (\<exists>i. map_option fst (owner_for_domain (bc_owners c) d) = Some i \<and> map_of (bc_bundles c) i = Some b)"
      by (auto simp: lookup_domain_def Inr lookup_bundle_def split: option.splits)
    also have "\<dots> \<longleftrightarrow> (bs_id b, b) \<in> set (bc_bundles c) \<and>
        (\<exists>x \<in> set (domain_chain d). map_of (bc_owners c) x = Some (bs_id b))"
      unfolding find using dist ids map_of_SomeD map_of_is_SomeI by metis
    also have "\<dots> \<longleftrightarrow> (bs_id b, b) \<in> set (bc_bundles c) \<and>
        (\<exists>x \<in> set (bs_required_domains b @ bs_optional_domains b). x \<in> set (domain_chain d))"
      unfolding owner_iff using dist by (metis map_of_is_SomeI option.inject)
    finally show ?thesis by (simp add: Inr)
  qed (simp add: lookup_domain_def)
qed

end
