(* ===== verification/Zapret_Rank.thy ===== *)
theory Zapret_Rank
  imports Zapret_Catalog Go_Float
begin

text \<open>
  The ranking of strategy profiles from probe observations (\<^verbatim>\<open>internal/zapret/ranking.go\<close>):
  a bounded, time-sorted sample list per decision key and profile, the score of a profile with its
  Wilson interval and its windows, and the order of candidates. The two levels of the map
  \<^verbatim>\<open>samples\<close> are one association list with pairs of decision-key text and profile as keys.
\<close>

section \<open>Data\<close>

definition max_samples_per_profile :: int where "max_samples_per_profile = 256"
definition max_route_cost :: int where "max_route_cost = 1000"
definition max_persisted_observations :: nat where "max_persisted_observations = 4096"

record decision_key =
  zk_bundle_id :: string
  zk_transport :: string
  zk_port :: "16 word"
  zk_ip_family :: string
  zk_network_fingerprint :: string

record probe_observation =
  bo_key :: decision_key
  bo_profile_id :: string
  bo_observed_at :: gotime
  bo_success :: bool
  bo_safety_gate :: bool
  bo_required_checks_passed :: bool
  bo_path_verified :: bool
  bo_hard_failure :: bool
  bo_latency :: duration

record ranking_policy =
  rp_window_duration :: duration
  rp_retention :: duration
  rp_max_samples_per_profile :: int
  rp_min_attempts :: int
  rp_min_stable_windows :: int
  rp_production_min_attempts :: int
  rp_production_success_ratio :: f64val
  rp_recent_safety_windows :: int
  rp_wilson_z :: f64val

record candidate_score =
  sc_key :: decision_key
  sc_profile_id :: string
  sc_attempts :: int
  sc_successes :: int
  sc_safety_gate :: bool
  sc_required_checks_passed :: bool
  sc_recent_hard_failure :: bool
  sc_wilson_lower_bound :: f64val
  sc_wilson_upper_bound :: f64val
  sc_success_ratio :: f64val
  sc_stable_windows :: int
  sc_failed_windows :: int
  sc_failure_streak :: int
  sc_median_latency_ms :: f64val
  sc_p95_latency_ms :: f64val
  sc_route_cost :: int
  sc_eligible :: bool
  sc_production_ready :: bool
  sc_latest_observed_at :: gotime

type_synonym samples = "((string \<times> string) \<times> probe_observation list) list"

record ranker =
  rk_bundles :: bundle_catalog
  rk_profiles :: catalog
  rk_policy :: ranking_policy
  rk_samples :: samples

definition default_ranking_policy :: ranking_policy where
  "default_ranking_policy = \<lparr>rp_window_duration = 5 * minute, rp_retention = 24 * hour,
     rp_max_samples_per_profile = 128, rp_min_attempts = 5, rp_min_stable_windows = 2,
     rp_production_min_attempts = 10, rp_production_success_ratio = f64 (95 / 100),
     rp_recent_safety_windows = 2, rp_wilson_z = f64 (196 / 100)\<rparr>"

definition validate_ranking_policy :: "ranking_policy \<Rightarrow> error option" where
  "validate_ranking_policy p =
     (if rp_window_duration p < 30 * second \<or> 24 * hour < rp_window_duration p
      then Some ''ranking window must be between 30 seconds and 24 hours''
      else if rp_retention p < 2 * rp_window_duration p \<or> 30 * (24 * hour) < rp_retention p
      then Some ''ranking retention is outside the bounded range''
      else if rp_max_samples_per_profile p < 1 \<or> max_samples_per_profile < rp_max_samples_per_profile p
      then Some (''ranking sample limit must be within 1..'' @ int_dec max_samples_per_profile)
      else if rp_min_attempts p < 1 \<or> rp_max_samples_per_profile p < rp_min_attempts p \<or>
              rp_production_min_attempts p < rp_min_attempts p \<or>
              rp_max_samples_per_profile p < rp_production_min_attempts p
      then Some ''ranking attempt thresholds are invalid''
      else if rp_min_stable_windows p < 1 \<or> 32 < rp_min_stable_windows p \<or>
              rp_recent_safety_windows p < 1 \<or> 8 < rp_recent_safety_windows p
      then Some ''ranking window thresholds are invalid''
      else if rp_production_success_ratio p < f64 (1 / 2) \<or> 1 < rp_production_success_ratio p \<or>
              rp_wilson_z p < f64 (1 / 10) \<or> 5 < rp_wilson_z p
      then Some ''ranking statistical thresholds are invalid''
      else None)"

definition new_ranker :: "bundle_catalog \<Rightarrow> catalog \<Rightarrow> ranking_policy \<Rightarrow> ranker result" where
  "new_ranker bundles profiles policy =
     (case validate_ranking_policy policy of
        Some e \<Rightarrow> Inl e
      | None \<Rightarrow> Inr \<lparr>rk_bundles = bundles, rk_profiles = profiles, rk_policy = policy, rk_samples = []\<rparr>)"

definition decision_key_string :: "decision_key \<Rightarrow> string" where
  "decision_key_string k = zk_bundle_id k @ ''|'' @ zk_transport k @ ''|'' @ nat_dec (unat (zk_port k)) @
     ''|'' @ zk_ip_family k @ ''|'' @ zk_network_fingerprint k"

section \<open>Scores\<close>

definition wilson_bounds :: "int \<Rightarrow> int \<Rightarrow> f64val \<Rightarrow> f64val \<times> f64val" where
  "wilson_bounds successes attempts z =
     (if attempts = 0 then (0, 0)
      else
        let n = of_int64 attempts;
            p = fdiv (of_int64 successes) n;
            z2 = fmul z z;
            center = fadd p (fdiv z2 (fmul 2 n));
            margin = fmul z (fsqrt (fdiv (fadd (fmul p (fsub 1 p)) (fdiv z2 (fmul 4 n))) n));
            denominator = fadd 1 (fdiv z2 n)
        in (max 0 (fdiv (fsub center margin) denominator), min 1 (fdiv (fadd center margin) denominator)))"

definition percentile :: "f64val list \<Rightarrow> f64val \<Rightarrow> f64val" where
  "percentile xs fraction =
     (if xs = [] then 0
      else
        let index = \<lceil>fmul fraction (of_int64 (int (length xs)))\<rceil> - 1;
            index1 = max 0 index;
            index2 = (if int (length xs) \<le> index1 then int (length xs) - 1 else index1)
        in xs ! nat index2)"

definition max_float64 :: f64val where
  "max_float64 = of_int ((2 ^ 53 - 1) * 2 ^ 971)"

definition latency_order :: "f64val \<Rightarrow> f64val" where
  "latency_order v = (if v \<le> 0 then max_float64 else v)"

definition active_samples :: "ranking_policy \<Rightarrow> gotime \<Rightarrow> probe_observation list \<Rightarrow> probe_observation list" where
  "active_samples p now samples =
     filter (\<lambda>s. bo_observed_at s \<le> now \<and> now - rp_retention p \<le> bo_observed_at s) samples"

text \<open>The windows that have samples, newest first.\<close>

definition windows_of :: "duration \<Rightarrow> probe_observation list \<Rightarrow> probe_observation list list" where
  "windows_of d active =
     (let start = (\<lambda>s. time_truncate (bo_observed_at s) d);
          starts = sort_stable (\<lambda>a b. b < a) (remdups (map start active))
      in map (\<lambda>t. filter (\<lambda>s. start s = t) active) starts)"

definition zero_score :: "decision_key \<Rightarrow> string \<Rightarrow> int \<Rightarrow> candidate_score" where
  "zero_score key profile cost = \<lparr>sc_key = key, sc_profile_id = profile, sc_attempts = 0, sc_successes = 0,
     sc_safety_gate = False, sc_required_checks_passed = False, sc_recent_hard_failure = False,
     sc_wilson_lower_bound = 0, sc_wilson_upper_bound = 0, sc_success_ratio = 0, sc_stable_windows = 0,
     sc_failed_windows = 0, sc_failure_streak = 0, sc_median_latency_ms = 0, sc_p95_latency_ms = 0,
     sc_route_cost = cost, sc_eligible = False, sc_production_ready = False, sc_latest_observed_at = 0\<rparr>"

definition score_active :: "ranking_policy \<Rightarrow> candidate_score \<Rightarrow> probe_observation list \<Rightarrow> candidate_score" where
  "score_active p score active =
     (let attempts = int (length active);
          successes = int (length (filter bo_success active));
          latencies = sort (map (\<lambda>s. fdiv (of_int64 (bo_latency s)) (of_int64 1000000))
                        (filter (\<lambda>s. bo_success s \<and> 0 < bo_latency s) active));
          (lower, upper) = wilson_bounds successes attempts (rp_wilson_z p);
          ratio = fdiv (of_int64 successes) (of_int64 attempts);
          windows = windows_of (rp_window_duration p) active;
          stable = int (length (takeWhile (list_all bo_success) windows));
          failed = int (length (takeWhile (list_ex (\<lambda>s. \<not> bo_success s)) windows));
          recent = take (nat (rp_recent_safety_windows p)) windows;
          safety = (recent \<noteq> [] \<and> list_all (list_all (\<lambda>s. bo_safety_gate s \<and> \<not> bo_hard_failure s)) recent);
          required = (recent \<noteq> [] \<and>
            list_all (list_all (\<lambda>s. bo_required_checks_passed s \<and> bo_path_verified s)) recent);
          hard = list_ex (list_ex bo_hard_failure) recent;
          eligible = (safety \<and> required \<and> rp_min_attempts p \<le> attempts \<and> rp_min_stable_windows p \<le> stable)
      in score\<lparr>sc_attempts := attempts, sc_latest_observed_at := bo_observed_at (last active),
           sc_successes := successes, sc_success_ratio := ratio,
           sc_wilson_lower_bound := lower, sc_wilson_upper_bound := upper,
           sc_median_latency_ms := percentile latencies (f64 (1 / 2)),
           sc_p95_latency_ms := percentile latencies (f64 (95 / 100)),
           sc_failure_streak := int (length (takeWhile (\<lambda>s. \<not> bo_success s) (rev active))),
           sc_stable_windows := stable, sc_failed_windows := failed,
           sc_safety_gate := safety, sc_required_checks_passed := required, sc_recent_hard_failure := hard,
           sc_eligible := eligible,
           sc_production_ready := (eligible \<and> \<not> hard \<and> rp_production_min_attempts p \<le> attempts \<and>
             rp_production_success_ratio p \<le> ratio)\<rparr>)"

definition samples_at :: "ranker \<Rightarrow> decision_key \<Rightarrow> string \<Rightarrow> probe_observation list" where
  "samples_at r key profile =
     (case map_of (rk_samples r) (decision_key_string key, profile) of None \<Rightarrow> [] | Some s \<Rightarrow> s)"

definition score_profile :: "ranker \<Rightarrow> decision_key \<Rightarrow> string \<Rightarrow> int \<Rightarrow> gotime \<Rightarrow> candidate_score" where
  "score_profile r key profile cost now =
     (let active = active_samples (rk_policy r) now (samples_at r key profile);
          score = zero_score key profile cost
      in if active = [] then score else score_active (rk_policy r) score active)"

text \<open>The chain of tie-breakers that orders candidates, best first.\<close>

definition better_candidate :: "candidate_score \<Rightarrow> candidate_score \<Rightarrow> bool" where
  "better_candidate l r =
     (if sc_eligible l \<noteq> sc_eligible r then sc_eligible l
      else if sc_safety_gate l \<noteq> sc_safety_gate r then sc_safety_gate l
      else if sc_required_checks_passed l \<noteq> sc_required_checks_passed r then sc_required_checks_passed l
      else if sc_wilson_lower_bound l \<noteq> sc_wilson_lower_bound r
      then sc_wilson_lower_bound r < sc_wilson_lower_bound l
      else if sc_success_ratio l \<noteq> sc_success_ratio r then sc_success_ratio r < sc_success_ratio l
      else if sc_stable_windows l \<noteq> sc_stable_windows r then sc_stable_windows r < sc_stable_windows l
      else if sc_failure_streak l \<noteq> sc_failure_streak r then sc_failure_streak l < sc_failure_streak r
      else if latency_order (sc_median_latency_ms l) \<noteq> latency_order (sc_median_latency_ms r)
      then latency_order (sc_median_latency_ms l) < latency_order (sc_median_latency_ms r)
      else if latency_order (sc_p95_latency_ms l) \<noteq> latency_order (sc_p95_latency_ms r)
      then latency_order (sc_p95_latency_ms l) < latency_order (sc_p95_latency_ms r)
      else if sc_route_cost l \<noteq> sc_route_cost r then sc_route_cost l < sc_route_cost r
      else sc_profile_id l < sc_profile_id r)"

section \<open>Operations\<close>

definition normalize_decision_key :: "ranker \<Rightarrow> decision_key \<Rightarrow> (decision_key \<times> service_bundle) result" where
  "normalize_decision_key r key =
     (case lookup_bundle (rk_bundles r) (zk_bundle_id key) of
        None \<Rightarrow> Inl (''unknown service bundle '' @ go_quote (zk_bundle_id key))
      | Some b \<Rightarrow>
          (if \<not> digest_ok (zk_network_fingerprint key)
           then Inl ''network fingerprint must be a SHA-256 digest''
           else if zk_ip_family key \<noteq> ''ipv4'' \<and> zk_ip_family key \<noteq> ''ipv6'' \<or>
                   zk_ip_family key \<notin> set (bs_ip_families b)
           then Inl ''decision key IP family is outside bundle scope''
           else if \<not> list_ex (\<lambda>p. pr_transport p = zk_transport key \<and> pr_port p = zk_port key) (bs_protocols b)
           then Inl ''decision key protocol is outside bundle scope''
           else Inr (key, b)))"

definition normalize_observation :: "ranker \<Rightarrow> probe_observation \<Rightarrow> probe_observation result" where
  "normalize_observation r ob =
     (case normalize_decision_key r (bo_key ob) of
        Inl e \<Rightarrow> Inl e
      | Inr (key, b) \<Rightarrow>
          (if bo_observed_at ob = 0 then Inl ''probe observation time is required''
           else if bo_latency ob < 0 \<or> 10 * minute < bo_latency ob
           then Inl ''probe latency is outside the bounded range''
           else if bo_hard_failure ob \<and> bo_success ob then Inl ''hard failure cannot be successful''
           else if bo_success ob \<and> (\<not> bo_safety_gate ob \<or> \<not> bo_required_checks_passed ob \<or> \<not> bo_path_verified ob)
           then Inl ''successful probe requires safety, required checks and path proof''
           else if bo_profile_id ob \<notin> set (bs_allowed_profiles b)
           then Inl (''profile '' @ bo_profile_id ob @ '' is not allowed for bundle '' @ bs_id b)
           else case map_of (rk_profiles r) (bo_profile_id ob) of
             None \<Rightarrow> Inl ''profile does not cover the decision key''
           | Some p \<Rightarrow>
               (if zk_transport key \<notin> set (np_transports p) \<or> zk_port key \<notin> set (np_ports p) \<or>
                   zk_ip_family key \<notin> set (np_ip_families p)
                then Inl ''profile does not cover the decision key''
                else Inr (ob\<lparr>bo_key := key\<rparr>))))"

definition observed_before :: "probe_observation \<Rightarrow> probe_observation \<Rightarrow> bool" where
  "observed_before a b \<longleftrightarrow> bo_observed_at a < bo_observed_at b"

text \<open>The last \<open>n\<close> elements.\<close>

definition take_last :: "nat \<Rightarrow> 'a list \<Rightarrow> 'a list" where
  "take_last n xs = drop (length xs - n) xs"

definition ranker_observe :: "ranker \<Rightarrow> probe_observation \<Rightarrow> candidate_score result \<times> ranker" where
  "ranker_observe r ob =
     (case normalize_observation r ob of
        Inl e \<Rightarrow> (Inl e, r)
      | Inr n \<Rightarrow>
          (let samples = samples_at r (bo_key n) (bo_profile_id n) @ [n];
               cutoff = bo_observed_at n - rp_retention (rk_policy r);
               kept = sort_stable observed_before (filter (\<lambda>s. cutoff \<le> bo_observed_at s) samples);
               kept1 = take_last (nat (rp_max_samples_per_profile (rk_policy r))) kept;
               r1 = r\<lparr>rk_samples := AList.update (decision_key_string (bo_key n), bo_profile_id n) kept1 (rk_samples r)\<rparr>
           in (Inr (score_profile r1 (bo_key n) (bo_profile_id n) 0 (bo_observed_at n)), r1)))"

text \<open>A route cost that the map does not have is zero.\<close>

definition route_cost :: "(string \<times> int) list \<Rightarrow> string \<Rightarrow> int" where
  "route_cost costs profile = (case map_of costs profile of None \<Rightarrow> 0 | Some c \<Rightarrow> c)"

definition ranker_rank ::
    "ranker \<Rightarrow> decision_key \<Rightarrow> (string \<times> int) list \<Rightarrow> gotime \<Rightarrow> candidate_score list result" where
  "ranker_rank r key costs now =
     (case normalize_decision_key r key of
        Inl e \<Rightarrow> Inl e
      | Inr (n, b) \<Rightarrow>
          (case find (\<lambda>(_, c). c < 0 \<or> max_route_cost < c) costs of
             Some (profile, _) \<Rightarrow>
               Inl (''route cost for '' @ profile @ '' is outside 0..'' @ int_dec max_route_cost)
           | None \<Rightarrow>
               Inr (sort_stable better_candidate
                 (map (\<lambda>i. score_profile r n i (route_cost costs i) now) (bs_allowed_profiles b)))))"

definition ranker_snapshot :: "ranker \<Rightarrow> decision_key \<Rightarrow> string \<Rightarrow> gotime \<Rightarrow> candidate_score result" where
  "ranker_snapshot r key profile now =
     (case normalize_decision_key r key of
        Inl e \<Rightarrow> Inl e
      | Inr (n, b) \<Rightarrow>
          (if profile \<notin> set (bs_allowed_profiles b)
           then Inl (''profile '' @ profile @ '' is not allowed for bundle '' @ bs_id b)
           else Inr (score_profile r n profile 0 now)))"

text \<open>Samples per key, in the order of the snapshot.\<close>

definition append_sample :: "probe_observation \<Rightarrow> samples \<Rightarrow> samples" where
  "append_sample n m =
     (let k = (decision_key_string (bo_key n), bo_profile_id n) in
      AList.update k ((case map_of m k of None \<Rightarrow> [] | Some s \<Rightarrow> s) @ [n]) m)"

fun collect_restored :: "ranker \<Rightarrow> gotime \<Rightarrow> samples \<Rightarrow> probe_observation list \<Rightarrow> samples result" where
  "collect_restored r now m [] = Inr m"
| "collect_restored r now m (raw # raws) =
     (case normalize_observation r raw of
        Inl e \<Rightarrow> Inl (''restore probe observation: '' @ e)
      | Inr n \<Rightarrow>
          (if now < bo_observed_at n then Inl ''persisted probe observation is from the future''
           else if bo_observed_at n < now - rp_retention (rk_policy r) then collect_restored r now m raws
           else collect_restored r now (append_sample n m) raws))"

definition ranker_restore :: "ranker \<Rightarrow> probe_observation list \<Rightarrow> gotime \<Rightarrow> error option \<times> ranker" where
  "ranker_restore r obs now =
     (if now = 0 then (Some ''Zapret ranker and current time are required'', r)
      else if max_persisted_observations < length obs
      then (Some (''persisted observation count exceeds '' @ nat_dec max_persisted_observations), r)
      else case collect_restored r now [] obs of
        Inl e \<Rightarrow> (Some e, r)
      | Inr m \<Rightarrow> (None, r\<lparr>rk_samples := map (\<lambda>(k, s).
          (k, take_last (nat (rp_max_samples_per_profile (rk_policy r))) (sort_stable observed_before s))) m\<rparr>))"

definition observation_less :: "probe_observation \<Rightarrow> probe_observation \<Rightarrow> bool" where
  "observation_less a b =
     (if bo_observed_at a \<noteq> bo_observed_at b then bo_observed_at a < bo_observed_at b
      else decision_key_string (bo_key a) @ ''|'' @ bo_profile_id a <
           decision_key_string (bo_key b) @ ''|'' @ bo_profile_id b)"

text \<open>The snapshot, and the ranker with the samples out of retention dropped.\<close>

definition ranker_observations :: "ranker \<Rightarrow> gotime \<Rightarrow> probe_observation list result \<times> ranker" where
  "ranker_observations r now =
     (if now = 0 then (Inl ''Zapret ranker and current time are required'', r)
      else
        let m = filter (\<lambda>(_, s). s \<noteq> []) (map (\<lambda>(k, s). (k, active_samples (rk_policy r) now s)) (rk_samples r))
        in (Inr (take_last max_persisted_observations (sort_stable observation_less (concat (map snd m)))),
            r\<lparr>rk_samples := m\<rparr>))"

section \<open>The orders\<close>

lemma lex_step:
  assumes "c \<longleftrightarrow> ka \<noteq> (kb :: 'k::linorder)" and "ka \<noteq> kb \<Longrightarrow> P \<longleftrightarrow> ka < kb" and "Q \<longleftrightarrow> x < (y :: 'l::linorder)"
  shows "(if c then P else Q) \<longleftrightarrow> (ka, x) < (kb, y)"
  using assms by auto

definition candidate_rank_key where
  "candidate_rank_key c = (\<not> sc_eligible c, \<not> sc_safety_gate c, \<not> sc_required_checks_passed c,
      - sc_wilson_lower_bound c, - sc_success_ratio c, - sc_stable_windows c, sc_failure_streak c,
      latency_order (sc_median_latency_ms c), latency_order (sc_p95_latency_ms c), sc_route_cost c, sc_profile_id c)"

interpretation candidates: go_less better_candidate
proof (rule go_less_key [where key = candidate_rank_key])
  show "better_candidate l r = (candidate_rank_key l < candidate_rank_key r)" for l r
    unfolding better_candidate_def candidate_rank_key_def by (intro lex_step) auto
qed

interpretation samples: go_less observed_before
  by (rule go_less_key [where key = bo_observed_at]) (simp add: observed_before_def)

interpretation snapshot: go_less observation_less
  by (rule go_less_key [where key = "\<lambda>a. (bo_observed_at a, decision_key_string (bo_key a) @ ''|'' @ bo_profile_id a)"])
    (auto simp: observation_less_def)

text \<open>Sorting commutes with a filter, and does nothing to a sorted list.\<close>

context go_less begin

lemma insert_stable_head: "\<forall>y \<in> set ys. \<not> lt y x \<Longrightarrow> insert_stable lt x ys = x # ys"
  by (cases ys) simp_all

lemma filter_insert_stable:
  "sorted_wrt (\<lambda>a b. \<not> lt b a) ys \<Longrightarrow>
   filter P (insert_stable lt x ys) = (if P x then insert_stable lt x (filter P ys) else filter P ys)"
proof (induction ys)
  case (Cons y ys)
  show ?case
  proof (cases "lt y x")
    case False
    with Cons.prems have "\<forall>z \<in> set (filter P (y # ys)). \<not> lt z x"
      by (auto dest: not_less_trans)
    with False show ?thesis by (simp add: insert_stable_head)
  qed (use Cons in simp)
qed simp

lemma filter_sort_stable: "filter P (sort_stable lt xs) = sort_stable lt (filter P xs)"
  by (induction xs) (simp_all add: filter_insert_stable sorted_sort_stable)

lemma sort_stable_id: "sorted_wrt (\<lambda>a b. \<not> lt b a) xs \<Longrightarrow> sort_stable lt xs = xs"
  by (induction xs) (simp_all add: insert_stable_head)

end

section \<open>The sample store\<close>

lemma normalize_decision_key_samples [simp]:
  "normalize_decision_key (r\<lparr>rk_samples := m\<rparr>) key = normalize_decision_key r key"
  by (simp add: normalize_decision_key_def)

lemma normalize_observation_samples [simp]:
  "normalize_observation (r\<lparr>rk_samples := m\<rparr>) ob = normalize_observation r ob"
proof -
  have "rk_profiles (r\<lparr>rk_samples := m\<rparr>) = rk_profiles r" by simp
  then show ?thesis by (simp only: normalize_observation_def normalize_decision_key_samples)
qed

lemma normalize_decision_key_Inr:
  assumes "normalize_decision_key r key = Inr (n, b)"
  shows "n = key" "lookup_bundle (rk_bundles r) (zk_bundle_id key) = Some b"
  using assms by (auto simp: normalize_decision_key_def split: option.splits if_splits)

lemma normalize_observation_Inr:
  assumes "normalize_observation r ob = Inr n"
  shows "n = ob"
    and "bo_success ob \<Longrightarrow> bo_safety_gate ob \<and> bo_required_checks_passed ob \<and> bo_path_verified ob \<and> \<not> bo_hard_failure ob"
proof -
  from assms obtain key b where k: "normalize_decision_key r (bo_key ob) = Inr (key, b)"
    by (cases "normalize_decision_key r (bo_key ob)") (auto simp: normalize_observation_def)
  note key = normalize_decision_key_Inr(1) [OF k]
  from assms k show "n = ob"
    by (auto simp: normalize_observation_def key split: if_splits option.splits)
  show "bo_success ob \<Longrightarrow> bo_safety_gate ob \<and> bo_required_checks_passed ob \<and> bo_path_verified ob \<and> \<not> bo_hard_failure ob"
    using assms k by (auto simp: normalize_observation_def split: if_splits)
qed

definition samples_ok :: "ranker \<Rightarrow> string \<times> string \<Rightarrow> probe_observation list \<Rightarrow> bool" where
  "samples_ok r kp ss \<longleftrightarrow>
     int (length ss) \<le> rp_max_samples_per_profile (rk_policy r) \<and>
     sorted_wrt (\<lambda>a b. \<not> observed_before b a) ss \<and>
     (\<forall>s \<in> set ss. (decision_key_string (bo_key s), bo_profile_id s) = kp \<and> normalize_observation r s = Inr s)"

definition ranker_ok :: "ranker \<Rightarrow> bool" where
  "ranker_ok r \<longleftrightarrow> validate_ranking_policy (rk_policy r) = None \<and> distinct (map fst (rk_samples r)) \<and>
     (\<forall>kp ss. map_of (rk_samples r) kp = Some ss \<longrightarrow> samples_ok r kp ss)"

lemma samples_ok_samples [simp]: "samples_ok (r\<lparr>rk_samples := m\<rparr>) kp ss = samples_ok r kp ss"
  by (simp add: samples_ok_def)

lemma ranker_okD: "ranker_ok r \<Longrightarrow> samples_ok r (decision_key_string key, p) (samples_at r key p)"
  by (auto simp: ranker_ok_def samples_at_def samples_ok_def validate_ranking_policy_def split: option.splits if_splits)

lemma policy_okD:
  assumes "validate_ranking_policy p = None"
  shows "1 \<le> rp_max_samples_per_profile p" "1 \<le> rp_min_attempts p" "1 \<le> rp_min_stable_windows p"
    "1 \<le> rp_recent_safety_windows p" "30 * second \<le> rp_window_duration p" "0 < rp_retention p"
  using assms by (auto simp: validate_ranking_policy_def split: if_splits)

lemma take_last_props:
  "length (take_last n xs) \<le> n" "set (take_last n xs) \<subseteq> set xs" "length xs \<le> n \<Longrightarrow> take_last n xs = xs"
  "sorted_wrt P xs \<Longrightarrow> sorted_wrt P (take_last n xs)"
  by (auto simp: take_last_def sorted_wrt_drop dest: in_set_dropD)

lemma samples_ok_trim:
  assumes "1 \<le> rp_max_samples_per_profile (rk_policy r)"
    and "\<forall>s \<in> set ss. (decision_key_string (bo_key s), bo_profile_id s) = kp \<and> normalize_observation r s = Inr s"
  shows "samples_ok r kp (take_last (nat (rp_max_samples_per_profile (rk_policy r))) (sort_stable observed_before ss))"
  using assms take_last_props(1,2) [of "nat (rp_max_samples_per_profile (rk_policy r))" "sort_stable observed_before ss"]
    take_last_props(4) [OF samples.sorted_sort_stable [of ss]]
  by (auto simp: samples_ok_def)

lemma ranker_observe_ok:
  assumes "ranker_ok r"
  shows "ranker_ok (snd (ranker_observe r ob))"
proof (cases "normalize_observation r ob")
  case (Inr n)
  let ?kp = "(decision_key_string (bo_key n), bo_profile_id n)"
  let ?old = "samples_at r (bo_key n) (bo_profile_id n)"
  let ?ss = "filter (\<lambda>s. bo_observed_at n - rp_retention (rk_policy r) \<le> bo_observed_at s) (?old @ [n])"
  have n: "n = ob" by (rule normalize_observation_Inr(1) [OF Inr])
  have "samples_ok r ?kp ?old" by (rule ranker_okD [OF assms])
  then have "\<forall>s \<in> set ?ss. (decision_key_string (bo_key s), bo_profile_id s) = ?kp \<and> normalize_observation r s = Inr s"
    using Inr n by (auto simp: samples_ok_def)
  from samples_ok_trim [OF _ this] policy_okD(1) assms
  have "samples_ok r ?kp (take_last (nat (rp_max_samples_per_profile (rk_policy r))) (sort_stable observed_before ?ss))"
    by (simp add: ranker_ok_def)
  with assms show ?thesis
    by (auto simp: ranker_observe_def Inr ranker_ok_def Let_def update_conv' distinct_update)
qed (use assms in \<open>simp add: ranker_observe_def\<close>)

text \<open>The samples a snapshot is restored to, for one key.\<close>

definition restored_at :: "samples \<Rightarrow> string \<times> string \<Rightarrow> probe_observation list" where
  "restored_at m kp = (case map_of m kp of None \<Rightarrow> [] | Some s \<Rightarrow> s)"

definition sample_key :: "probe_observation \<Rightarrow> string \<times> string" where
  "sample_key s = (decision_key_string (bo_key s), bo_profile_id s)"

lemma restored_at_append_sample:
  "restored_at (append_sample n m) kp = restored_at m kp @ (if sample_key n = kp then [n] else [])"
  by (simp add: restored_at_def append_sample_def Let_def update_conv' sample_key_def)

lemma collect_restored_Inr:
  assumes "collect_restored r now m obs = Inr m'" and "distinct (map fst m)"
  shows "distinct (map fst m') \<and> (\<forall>kp. restored_at m' kp =
      restored_at m kp @ filter (\<lambda>s. sample_key s = kp \<and> now - rp_retention (rk_policy r) \<le> bo_observed_at s) obs) \<and>
    (\<forall>s \<in> set obs. normalize_observation r s = Inr s)"
  using assms
proof (induction obs arbitrary: m)
  case (Cons ob obs)
  from Cons.prems(1) obtain n where n: "normalize_observation r ob = Inr n"
    by (cases "normalize_observation r ob") simp_all
  have eq: "n = ob" by (rule normalize_observation_Inr(1) [OF n])
  show ?case
  proof (cases "bo_observed_at ob < now - rp_retention (rk_policy r)")
    case True
    then have "collect_restored r now m obs = Inr m'"
      using Cons.prems(1) n eq by (simp split: if_split_asm)
    from Cons.IH [OF this Cons.prems(2)] True n eq show ?thesis by simp
  next
    case False
    then have rest: "collect_restored r now (append_sample n m) obs = Inr m'"
      using Cons.prems(1) n eq by (simp split: if_split_asm)
    have "distinct (map fst (append_sample n m))"
      using Cons.prems(2) by (simp add: append_sample_def Let_def distinct_update)
    from Cons.IH [OF rest this] False n eq show ?thesis by (simp add: restored_at_append_sample)
  qed
qed simp

lemma map_of_map_value: "map_of (map (\<lambda>(k, s). (k, f s)) m) kp = map_option f (map_of m kp)"
  by (induction m) auto

lemma ranker_restore_ok:
  assumes "ranker_ok r"
  shows "ranker_ok (snd (ranker_restore r obs now))"
proof (cases "collect_restored r now [] obs")
  case (Inr m)
  note c = collect_restored_Inr [OF this] 
  have "samples_ok r kp (take_last (nat (rp_max_samples_per_profile (rk_policy r))) (sort_stable observed_before ss))"
    if "map_of m kp = Some ss" for kp ss
  proof (rule samples_ok_trim)
    show "1 \<le> rp_max_samples_per_profile (rk_policy r)" using assms policy_okD(1) by (simp add: ranker_ok_def)
    have "restored_at m kp = ss" by (simp add: restored_at_def that)
    then have "ss = filter (\<lambda>s. sample_key s = kp \<and> now - rp_retention (rk_policy r) \<le> bo_observed_at s) obs"
      using c by (cases kp) (simp add: restored_at_def)
    then show "\<forall>s \<in> set ss. (decision_key_string (bo_key s), bo_profile_id s) = kp \<and> normalize_observation r s = Inr s"
      using c by (auto simp: sample_key_def)
  qed
  with assms c show ?thesis
    by (auto simp: ranker_restore_def Inr ranker_ok_def map_of_map_value comp_def case_prod_beta)
qed (use assms in \<open>simp add: ranker_restore_def\<close>)

lemma map_of_filter_nonempty:
  "distinct (map fst m) \<Longrightarrow> map_of (filter (\<lambda>(_, s). s \<noteq> []) m) kp = (case map_of m kp of Some s \<Rightarrow> if s = [] then None else Some s | None \<Rightarrow> None)"
  by (simp add: map_of_filter split: option.splits)

lemma ranker_observations_store:
  assumes "ranker_ok r" and "now \<noteq> 0" and "ranker_observations r now = (Inr obs, r1)"
  shows "rk_bundles r1 = rk_bundles r" "rk_profiles r1 = rk_profiles r" "rk_policy r1 = rk_policy r"
    and "distinct (map fst (rk_samples r1))"
    and "map_of (rk_samples r1) kp = (case map_of (rk_samples r) kp of None \<Rightarrow> None
      | Some ss \<Rightarrow> if active_samples (rk_policy r) now ss = [] then None else Some (active_samples (rk_policy r) now ss))"
proof -
  let ?f = "\<lambda>(k, s). (k, active_samples (rk_policy r) now s)"
  have r1: "r1 = r\<lparr>rk_samples := filter (\<lambda>(_, s). s \<noteq> []) (map ?f (rk_samples r))\<rparr>"
    using assms(2,3) by (auto simp: ranker_observations_def Let_def)
  then show "rk_bundles r1 = rk_bundles r" "rk_profiles r1 = rk_profiles r" "rk_policy r1 = rk_policy r" by simp_all
  have d: "distinct (map fst (map ?f (rk_samples r)))"
    using assms(1) by (simp add: ranker_ok_def comp_def case_prod_beta)
  then show "distinct (map fst (rk_samples r1))" by (simp add: r1 distinct_map_filter)
  show "map_of (rk_samples r1) kp = (case map_of (rk_samples r) kp of None \<Rightarrow> None
      | Some ss \<Rightarrow> if active_samples (rk_policy r) now ss = [] then None else Some (active_samples (rk_policy r) now ss))"
    using map_of_filter_nonempty [OF d, of kp] by (simp add: r1 map_of_map_value split: option.splits)
qed

lemma samples_ok_filter: "samples_ok r kp ss \<Longrightarrow> samples_ok r kp (filter P ss)"
proof -
  have "int (length (filter P ss)) \<le> m" if "int (length ss) \<le> m" for m
    by (rule order_trans [OF _ that]) (simp add: length_filter_le)
  then show "samples_ok r kp ss \<Longrightarrow> samples_ok r kp (filter P ss)"
    unfolding samples_ok_def by (auto simp: sorted_wrt_filter)
qed

lemma samples_ok_cong:
  "rk_bundles r1 = rk_bundles r \<Longrightarrow> rk_profiles r1 = rk_profiles r \<Longrightarrow> rk_policy r1 = rk_policy r \<Longrightarrow>
   samples_ok r1 kp ss = samples_ok r kp ss"
  unfolding samples_ok_def normalize_observation_def normalize_decision_key_def by (simp only:)

lemma ranker_observations_ok:
  assumes "ranker_ok r"
  shows "ranker_ok (snd (ranker_observations r now))"
proof (cases "now = 0")
  case False
  obtain obs r1 where r1: "ranker_observations r now = (Inr obs, r1)"
    using False by (auto simp: ranker_observations_def Let_def)
  note st = ranker_observations_store [OF assms False r1]
  show ?thesis
    using assms st(1-4) samples_ok_filter
    by (auto simp: r1 ranker_ok_def st(5) samples_ok_cong [OF st(1-3)] active_samples_def split: option.splits if_splits)
qed (use assms in \<open>simp add: ranker_observations_def\<close>)

section \<open>The invariant of the ranker\<close>

text \<open>The states a ranker goes through, whatever is observed, restored or persisted, in any order.\<close>

inductive ranker_reach :: "bundle_catalog \<Rightarrow> catalog \<Rightarrow> ranking_policy \<Rightarrow> ranker \<Rightarrow> bool"
  for bundles profiles policy where
  new: "new_ranker bundles profiles policy = Inr r \<Longrightarrow> ranker_reach bundles profiles policy r"
| observe: "ranker_reach bundles profiles policy r \<Longrightarrow> ranker_reach bundles profiles policy (snd (ranker_observe r ob))"
| restore: "ranker_reach bundles profiles policy r \<Longrightarrow> ranker_reach bundles profiles policy (snd (ranker_restore r obs now))"
| persist: "ranker_reach bundles profiles policy r \<Longrightarrow> ranker_reach bundles profiles policy (snd (ranker_observations r now))"

lemma ranker_config [simp]:
  "rk_bundles (snd (ranker_observe r ob)) = rk_bundles r" "rk_profiles (snd (ranker_observe r ob)) = rk_profiles r"
  "rk_policy (snd (ranker_observe r ob)) = rk_policy r"
  "rk_bundles (snd (ranker_restore r obs now)) = rk_bundles r" "rk_profiles (snd (ranker_restore r obs now)) = rk_profiles r"
  "rk_policy (snd (ranker_restore r obs now)) = rk_policy r"
  "rk_bundles (snd (ranker_observations r now)) = rk_bundles r" "rk_profiles (snd (ranker_observations r now)) = rk_profiles r"
  "rk_policy (snd (ranker_observations r now)) = rk_policy r"
  by (simp_all add: ranker_observe_def ranker_restore_def ranker_observations_def Let_def split: sum.splits)

lemma ranker_reach_ok:
  assumes "ranker_reach bundles profiles policy r"
  shows "ranker_ok r \<and> rk_bundles r = bundles \<and> rk_profiles r = profiles \<and> rk_policy r = policy"
  using assms
proof induction
  case (new r)
  then show ?case by (auto simp: new_ranker_def ranker_ok_def split: option.splits)
qed (simp_all add: ranker_observe_ok ranker_restore_ok ranker_observations_ok)

section \<open>Restarts\<close>

lemma collect_restored_succeeds:
  assumes "\<forall>s \<in> set obs. normalize_observation r s = Inr s \<and> bo_observed_at s \<le> now"
  shows "\<exists>m'. collect_restored r now m obs = Inr m'"
  using assms
proof (induction obs arbitrary: m)
  case (Cons ob obs)
  have "\<exists>m'. collect_restored r now n obs = Inr m'" for n by (rule Cons.IH) (use Cons.prems in simp)
  with Cons.prems show ?case by simp
qed simp

lemma filter_concat_samples:
  assumes "distinct (map fst m)" and "\<forall>(kp, ss) \<in> set m. \<forall>s \<in> set ss. sample_key s = kp"
  shows "filter (\<lambda>s. sample_key s = kp) (concat (map snd m)) = restored_at m kp"
  using assms
proof (induction m)
  case (Cons e m)
  obtain k ss where e: "e = (k, ss)" by (cases e)
  have keys: "\<forall>s \<in> set ss. sample_key s = k" and rest: "\<forall>(kp, ss) \<in> set m. \<forall>s \<in> set ss. sample_key s = kp"
    using Cons.prems(2) by (simp_all add: e)
  have ih: "filter (\<lambda>s. sample_key s = kp) (concat (map snd m)) = restored_at m kp"
    using Cons.IH [OF _ rest] Cons.prems(1) by simp
  show ?case
  proof (cases "k = kp")
    case True
    then have "map_of m kp = None" using Cons.prems(1) by (simp add: e map_of_eq_None_iff)
    with True keys ih show ?thesis by (simp add: e restored_at_def)
  next
    case False
    then have "filter (\<lambda>s. sample_key s = kp) ss = []" using keys by (auto simp: filter_empty_conv)
    with False ih show ?thesis by (simp add: e restored_at_def)
  qed
qed (simp add: restored_at_def)

lemma active_samples_idem: "active_samples p now (active_samples p now ss) = active_samples p now ss"
  by (simp add: active_samples_def)

lemma samples_at_restored: "samples_at r key p = restored_at (rk_samples r) (decision_key_string key, p)"
  by (simp add: samples_at_def restored_at_def)

lemma restore_observations:
  assumes ok: "ranker_ok r" and now: "now \<noteq> 0" and obs: "ranker_observations r now = (Inr obs, r1)"
    and small: "length (concat (map snd (rk_samples r1))) \<le> max_persisted_observations"
    and same: "rk_bundles r0 = rk_bundles r" "rk_profiles r0 = rk_profiles r" "rk_policy r0 = rk_policy r"
  obtains r2 where "ranker_restore r0 obs now = (None, r2)" "rk_bundles r2 = rk_bundles r"
    "rk_profiles r2 = rk_profiles r" "rk_policy r2 = rk_policy r"
    "\<And>key p. samples_at r2 key p = active_samples (rk_policy r) now (samples_at r key p)"
proof -
  note st = ranker_observations_store [OF ok now obs]
  let ?m = "rk_samples r1"
  have "obs = take_last max_persisted_observations (sort_stable observation_less (concat (map snd ?m)))"
    using obs now by (auto simp: ranker_observations_def Let_def)
  also have "\<dots> = sort_stable observation_less (concat (map snd ?m))"
    by (rule take_last_props(3)) (use small in \<open>simp only: length_sort_stable\<close>)
  finally have obs_eq: "obs = sort_stable observation_less (concat (map snd ?m))" .
  have entry: "samples_ok r kp ss \<and> (\<forall>s \<in> set ss. bo_observed_at s \<le> now \<and> now - rp_retention (rk_policy r) \<le> bo_observed_at s)"
    if "map_of ?m kp = Some ss" for kp ss
  proof -
    from that obtain ss0 where "map_of (rk_samples r) kp = Some ss0" "ss = active_samples (rk_policy r) now ss0"
      by (auto simp: st(5) split: option.splits if_splits)
    moreover from this ok have "samples_ok r kp ss0" unfolding ranker_ok_def by blast
    then have "samples_ok r kp ss" unfolding calculation(2) active_samples_def by (rule samples_ok_filter)
    ultimately show ?thesis by (simp add: active_samples_def)
  qed
  have norm: "normalize_observation r0 s = normalize_observation r s" for s
    unfolding normalize_observation_def normalize_decision_key_def by (simp only: same)
  have member: "normalize_observation r s = Inr s \<and> sample_key s = kp \<and> bo_observed_at s \<le> now \<and>
      now - rp_retention (rk_policy r) \<le> bo_observed_at s" if "(kp, ss) \<in> set ?m" "s \<in> set ss" for kp ss s
    using entry [of kp ss] map_of_is_SomeI [OF st(4) that(1)] that(2) by (auto simp: samples_ok_def sample_key_def)
  have inobs: "s \<in> set obs \<longleftrightarrow> (\<exists>kp ss. (kp, ss) \<in> set ?m \<and> s \<in> set ss)" for s
    by (auto simp: obs_eq; force)
  have obs_ok: "\<forall>s \<in> set obs. normalize_observation r0 s = Inr s \<and> bo_observed_at s \<le> now"
    using member inobs norm by metis
  from collect_restored_succeeds [OF obs_ok, of "[]"] obtain m' where m': "collect_restored r0 now [] obs = Inr m'" by blast
  note c = collect_restored_Inr [OF m', simplified]
  let ?n = "nat (rp_max_samples_per_profile (rk_policy r))"
  define r2 where "r2 = r0\<lparr>rk_samples := map (\<lambda>(k, s). (k, take_last ?n (sort_stable observed_before s))) m'\<rparr>"
  have "length obs \<le> max_persisted_observations" using small by (simp add: obs_eq)
  then have res: "ranker_restore r0 obs now = (None, r2)"
    using now m' same by (simp add: ranker_restore_def r2_def)
  have at: "samples_at r2 key p = active_samples (rk_policy r) now (samples_at r key p)" for key p
  proof -
    let ?kp = "(decision_key_string key, p)"
    let ?ss = "restored_at ?m ?kp"
    have ss_ok: "samples_ok r ?kp ?ss \<and> (\<forall>s \<in> set ?ss. now - rp_retention (rk_policy r) \<le> bo_observed_at s)"
      using entry [of ?kp] ok by (auto simp: restored_at_def samples_ok_def ranker_ok_def dest: policy_okD(1) split: option.splits)
    have "filter (\<lambda>s. sample_key s = ?kp) obs = sort_stable observation_less ?ss"
      unfolding obs_eq snapshot.filter_sort_stable
      by (subst filter_concat_samples [OF st(4)]) (use member in auto)
    also have "\<dots> = ?ss"
    proof (rule snapshot.sort_stable_id)
      have "sorted_wrt (\<lambda>a b. \<not> observed_before b a) ?ss" using ss_ok by (simp add: samples_ok_def)
      then show "sorted_wrt (\<lambda>a b. \<not> observation_less b a) ?ss"
      proof (rule sorted_wrt_mono_rel [rotated])
        fix a b assume "a \<in> set ?ss" "b \<in> set ?ss" "\<not> observed_before b a"
        then show "\<not> observation_less b a" using ss_ok by (auto simp: observation_less_def observed_before_def samples_ok_def)
      qed
    qed
    finally have key: "filter (\<lambda>s. sample_key s = ?kp) obs = ?ss" .
    have f: "filter (\<lambda>s. sample_key s = ?kp \<and> now - rp_retention (rk_policy r0) \<le> bo_observed_at s) obs = ?ss"
    proof -
      have "filter (\<lambda>s. sample_key s = ?kp \<and> now - rp_retention (rk_policy r0) \<le> bo_observed_at s) obs =
          filter (\<lambda>s. now - rp_retention (rk_policy r0) \<le> bo_observed_at s) ?ss"
        unfolding key [symmetric] filter_filter by (rule filter_cong) auto
      also have "\<dots> = ?ss" using ss_ok by (intro filter_True) (simp add: same)
      finally show ?thesis .
    qed
    have "restored_at m' ?kp = ?ss" using c f by (simp add: restored_at_def)
    then have "samples_at r2 key p = take_last ?n (sort_stable observed_before ?ss)"
      by (auto simp: samples_at_restored restored_at_def r2_def map_of_map_value take_last_def split: option.splits)
    also have "\<dots> = ?ss"
    proof -
      have "sort_stable observed_before ?ss = ?ss" "length ?ss \<le> ?n"
        using ss_ok by (auto simp: samples_ok_def intro: samples.sort_stable_id)
      then show ?thesis by (simp add: take_last_props(3))
    qed
    also have "\<dots> = active_samples (rk_policy r) now (samples_at r key p)"
      by (auto simp: restored_at_def st(5) samples_at_def active_samples_def split: option.splits)
    finally show ?thesis .
  qed
  show thesis by (rule that [OF res _ _ _ at]) (simp_all add: r2_def same)
qed

text \<open>C37. A restart keeps the ranking: when the ranker writes its snapshot and a fresh ranker over the same
  catalogs restores it, the restore succeeds and every ranking the new ranker computes at that time,
  for every key and all route costs, is the one the old ranker computes, as long as the samples
  within the retention period are not more than the snapshot holds.\<close>

theorem ranking_survives_restart:
  assumes "ranker_reach bundles profiles policy r" and "now \<noteq> 0"
    and "ranker_observations r now = (Inr obs, r1)"
    and "length (concat (map snd (rk_samples r1))) \<le> max_persisted_observations"
    and "new_ranker bundles profiles policy = Inr r0"
  shows "\<exists>r2. ranker_restore r0 obs now = (None, r2) \<and>
    (\<forall>key costs. ranker_rank r2 key costs now = ranker_rank r key costs now)"
proof -
  have r: "ranker_ok r" "rk_bundles r = bundles" "rk_profiles r = profiles" "rk_policy r = policy"
    using ranker_reach_ok [OF assms(1)] by simp_all
  have same: "rk_bundles r0 = rk_bundles r" "rk_profiles r0 = rk_profiles r" "rk_policy r0 = rk_policy r"
    using assms(5) r by (auto simp: new_ranker_def split: option.splits)
  obtain r2 where r2: "ranker_restore r0 obs now = (None, r2)" "rk_bundles r2 = rk_bundles r"
    "rk_profiles r2 = rk_profiles r" "rk_policy r2 = rk_policy r"
    "\<And>key p. samples_at r2 key p = active_samples (rk_policy r) now (samples_at r key p)"
    using restore_observations [OF r(1) assms(2-4) same] by metis
  have score: "score_profile r2 key p cost now = score_profile r key p cost now" for key p cost
    unfolding score_profile_def r2(4,5) active_samples_idem ..
  have "ranker_rank r2 key costs now = ranker_rank r key costs now" for key costs
    unfolding ranker_rank_def normalize_decision_key_def r2(2) score ..
  with r2(1) show ?thesis by blast
qed

section \<open>What eligibility means\<close>

lemma in_takeWhile_prefix:
  "n \<le> length (takeWhile P xs) \<Longrightarrow> x \<in> set (take n xs) \<Longrightarrow> P x"
proof (induction xs arbitrary: n)
  case (Cons y ys)
  then show ?case by (cases n) (auto split: if_splits)
qed simp

lemma score_profile_simps [simp]:
  "sc_key (score_profile r key p cost now) = key" "sc_profile_id (score_profile r key p cost now) = p"
  "sc_route_cost (score_profile r key p cost now) = cost"
  by (simp_all add: score_profile_def score_active_def zero_score_def Let_def split: prod.splits)

text \<open>
  The observations behind an eligible score: enough of them, and every one in the newest windows a
  success whose path was verified.
\<close>

definition eligible_evidence :: "ranker \<Rightarrow> decision_key \<Rightarrow> string \<Rightarrow> gotime \<Rightarrow> bool" where
  "eligible_evidence r key p now =
     (let pol = rk_policy r; active = active_samples pol now (samples_at r key p);
          windows = windows_of (rp_window_duration pol) active
      in rp_min_attempts pol \<le> int (length active) \<and> rp_min_stable_windows pol \<le> int (length windows) \<and>
         (\<forall>w \<in> set (take (nat (rp_min_stable_windows pol)) windows). w \<noteq> [] \<and>
            (\<forall>s \<in> set w. bo_success s \<and> bo_safety_gate s \<and> bo_required_checks_passed s \<and> bo_path_verified s \<and>
               \<not> bo_hard_failure s \<and> bo_profile_id s = p \<and> decision_key_string (bo_key s) = decision_key_string key)))"

lemma windows_of_member:
  assumes "w \<in> set (windows_of d active)"
  shows "w \<noteq> []" "set w \<subseteq> set active"
  using assms by (auto simp: windows_of_def Let_def filter_empty_conv)

lemma eligible_has_evidence:
  assumes "ranker_ok r" and "sc_eligible (score_profile r key p cost now)"
  shows "eligible_evidence r key p now"
proof -
  let ?pol = "rk_policy r"
  define active where "active = active_samples ?pol now (samples_at r key p)"
  define windows where "windows = windows_of (rp_window_duration ?pol) active"
  have ne: "active \<noteq> []" using assms(2) by (auto simp: score_profile_def zero_score_def active_def [symmetric])
  then have e: "sc_eligible (score_active ?pol (zero_score key p cost) active)"
    using assms(2) by (simp add: score_profile_def active_def [symmetric])
  have el: "rp_min_attempts ?pol \<le> int (length active)"
    "rp_min_stable_windows ?pol \<le> int (length (takeWhile (list_all bo_success) windows))"
    using e by (simp_all add: score_active_def Let_def windows_def [symmetric] split: prod.splits)
  have sub: "set active \<subseteq> set (samples_at r key p)" by (auto simp: active_def active_samples_def)
  have good: "bo_success s \<and> bo_safety_gate s \<and> bo_required_checks_passed s \<and> bo_path_verified s \<and>
      \<not> bo_hard_failure s \<and> bo_profile_id s = p \<and> decision_key_string (bo_key s) = decision_key_string key"
    if "w \<in> set (take (nat (rp_min_stable_windows ?pol)) windows)" "s \<in> set w" for w s
  proof -
    have "list_all bo_success w"
      by (rule in_takeWhile_prefix [OF _ that(1)]) (use el(2) in simp)
    then have "bo_success s" using that(2) by (simp add: list_all_iff)
    have "w \<in> set windows" using that(1) by (rule in_set_takeD)
    then have "s \<in> set (samples_at r key p)" using windows_of_member(2) that(2) sub unfolding windows_def by blast
    then have "normalize_observation r s = Inr s \<and> bo_profile_id s = p \<and> decision_key_string (bo_key s) = decision_key_string key"
      using ranker_okD [OF assms(1), of key p] by (auto simp: samples_ok_def)
    with \<open>bo_success s\<close> show ?thesis using normalize_observation_Inr(2) by blast
  qed
  have "w \<noteq> []" if "w \<in> set (take (nat (rp_min_stable_windows ?pol)) windows)" for w
    using windows_of_member(1) in_set_takeD [OF that] unfolding windows_def by blast
  moreover have "rp_min_stable_windows ?pol \<le> int (length windows)"
    using el(2) length_takeWhile_le [of "list_all bo_success" windows] by simp
  ultimately show ?thesis using el(1) good
    by (simp add: eligible_evidence_def Let_def active_def [symmetric] windows_def [symmetric])
qed

end
