(* ===== verification/Zapret_Switch.thy ===== *)
theory Zapret_Switch
  imports Zapret_Rank
begin

text \<open>
  The controller that switches between strategy profiles and the executor that carries a switch out
  (\<^verbatim>\<open>internal/zapret/switching.go\<close>): pins, quarantine, cooldown and hysteresis, and the
  six-step transaction with its rollback.
\<close>

section \<open>Data\<close>

definition switch_hold :: string where "switch_hold = ''HOLD''"
definition switch_profile :: string where "switch_profile = ''SWITCH''"
definition switch_fallback :: string where "switch_fallback = ''FALLBACK''"
definition switch_drop :: string where "switch_drop = ''DROP''"

record switching_policy =
  wp_failure_threshold :: int
  wp_failed_window_threshold :: int
  wp_challenger_stable_windows :: int
  wp_latency_improvement :: f64val
  wp_cooldown :: duration
  wp_quarantine :: duration

record manual_pin =
  mp_profile_id :: string
  mp_mode :: string
  mp_allowed_fallbacks :: "string list"

record switch_state =
  ws_key :: decision_key
  ws_active_profile_id :: string
  ws_last_switch_at :: gotime
  ws_cooldown_until :: gotime
  ws_pin :: "manual_pin option"
  ws_quarantined_until :: "(string \<times> gotime) list"

record switch_decision =
  wd_key :: decision_key
  wd_action :: string
  wd_from_profile :: string
  wd_to_profile :: string
  wd_reason :: string
  wd_emergency :: bool
  wd_evaluated_at :: gotime

record switch_controller =
  wc_policy :: switching_policy
  wc_states :: "(string \<times> switch_state) list"

definition default_switching_policy :: switching_policy where
  "default_switching_policy = \<lparr>wp_failure_threshold = 3, wp_failed_window_threshold = 2,
     wp_challenger_stable_windows = 3, wp_latency_improvement = f64 (1 / 5),
     wp_cooldown = 30 * minute, wp_quarantine = 6 * hour\<rparr>"

definition validate_switching_policy :: "switching_policy \<Rightarrow> error option" where
  "validate_switching_policy p =
     (if wp_failure_threshold p < 1 \<or> 10 < wp_failure_threshold p \<or>
         wp_failed_window_threshold p < 1 \<or> 10 < wp_failed_window_threshold p \<or>
         wp_challenger_stable_windows p < 1 \<or> 10 < wp_challenger_stable_windows p
      then Some ''switching thresholds are outside the bounded range''
      else if wp_latency_improvement p < f64 (5 / 100) \<or> f64 (75 / 100) < wp_latency_improvement p \<or>
              wp_cooldown p < minute \<or> 24 * hour < wp_cooldown p \<or>
              wp_quarantine p < minute \<or> 7 * (24 * hour) < wp_quarantine p
      then Some ''switching timing policy is outside the bounded range''
      else None)"

definition new_switch_controller :: "switching_policy \<Rightarrow> switch_controller result" where
  "new_switch_controller p =
     (case validate_switching_policy p of
        Some e \<Rightarrow> Inl e | None \<Rightarrow> Inr \<lparr>wc_policy = p, wc_states = []\<rparr>)"

fun valid_fallbacks :: "string \<Rightarrow> string list \<Rightarrow> string list \<Rightarrow> bool" where
  "valid_fallbacks pinned seen [] = True"
| "valid_fallbacks pinned seen (p # ps) =
     (profile_id_ok p \<and> p \<noteq> pinned \<and> p \<notin> set seen \<and> valid_fallbacks pinned (p # seen) ps)"

definition validate_manual_pin :: "manual_pin \<Rightarrow> error option" where
  "validate_manual_pin pin =
     (if \<not> profile_id_ok (mp_profile_id pin) then Some ''valid pinned profile is required''
      else if mp_mode pin \<notin> {''fail_closed'', ''safe_fallback'', ''hold_last''} then Some ''unsupported pin mode''
      else if \<not> valid_fallbacks (mp_profile_id pin) [] (mp_allowed_fallbacks pin)
      then Some ''invalid pinned fallback list''
      else if mp_mode pin \<noteq> ''safe_fallback'' \<and> mp_allowed_fallbacks pin \<noteq> []
      then Some ''fallbacks are only valid for safe_fallback pins''
      else None)"

section \<open>The state of a key\<close>

definition state_at :: "switch_controller \<Rightarrow> decision_key \<Rightarrow> switch_state" where
  "state_at c key =
     (case map_of (wc_states c) (decision_key_string key) of
        Some st \<Rightarrow> st
      | None \<Rightarrow> \<lparr>ws_key = key, ws_active_profile_id = [], ws_last_switch_at = 0, ws_cooldown_until = 0,
                 ws_pin = None, ws_quarantined_until = []\<rparr>)"

definition put_state :: "switch_controller \<Rightarrow> decision_key \<Rightarrow> switch_state \<Rightarrow> switch_controller" where
  "put_state c key st = c\<lparr>wc_states := AList.update (decision_key_string key) st (wc_states c)\<rparr>"

definition set_active :: "switch_controller \<Rightarrow> decision_key \<Rightarrow> string \<Rightarrow> gotime \<Rightarrow> error option \<times> switch_controller" where
  "set_active c key profile now =
     (if profile = [] \<or> now = 0 then (Some ''complete active profile state is required'', c)
      else (None, put_state c key ((state_at c key)\<lparr>ws_active_profile_id := profile, ws_last_switch_at := now\<rparr>)))"

definition set_pin :: "switch_controller \<Rightarrow> decision_key \<Rightarrow> manual_pin \<Rightarrow> error option \<times> switch_controller" where
  "set_pin c key pin =
     (case validate_manual_pin pin of
        Some e \<Rightarrow> (Some e, c)
      | None \<Rightarrow> (None, put_state c key ((state_at c key)\<lparr>ws_pin := Some pin\<rparr>)))"

definition clear_pin :: "switch_controller \<Rightarrow> decision_key \<Rightarrow> switch_controller" where
  "clear_pin c key = put_state c key ((state_at c key)\<lparr>ws_pin := None\<rparr>)"

definition purge_quarantine :: "gotime \<Rightarrow> switch_state \<Rightarrow> switch_state" where
  "purge_quarantine now st =
     st\<lparr>ws_quarantined_until := filter (\<lambda>(_, t). now < t) (ws_quarantined_until st)\<rparr>"

definition quarantined :: "(string \<times> gotime) list \<Rightarrow> string \<Rightarrow> gotime \<Rightarrow> bool" where
  "quarantined q profile now = (case map_of q profile of None \<Rightarrow> False | Some t \<Rightarrow> now < t)"

definition best_available ::
    "candidate_score list \<Rightarrow> (string \<times> gotime) list \<Rightarrow> string \<Rightarrow> gotime \<Rightarrow> candidate_score option" where
  "best_available ranking q exclude now =
     find (\<lambda>s. sc_profile_id s \<noteq> exclude \<and> sc_eligible s \<and> \<not> quarantined q (sc_profile_id s) now) ranking"

fun ranking_entries_ok :: "decision_key \<Rightarrow> string list \<Rightarrow> candidate_score list \<Rightarrow> bool" where
  "ranking_entries_ok key seen [] = True"
| "ranking_entries_ok key seen (s # ss) =
     (decision_key_string (sc_key s) = decision_key_string key \<and> profile_id_ok (sc_profile_id s) \<and>
      sc_profile_id s \<notin> set seen \<and> ranking_entries_ok key (sc_profile_id s # seen) ss)"

definition validate_ranking_for_key :: "decision_key \<Rightarrow> candidate_score list \<Rightarrow> error option" where
  "validate_ranking_for_key key ranking =
     (if ranking = [] \<or> max_profiles < length ranking then Some ''bounded candidate ranking is required''
      else if \<not> ranking_entries_ok key [] ranking
      then Some ''candidate ranking does not match the decision key''
      else if \<not> slice_is_sorted better_candidate ranking then Some ''candidate ranking is not sorted''
      else None)"

section \<open>Decisions\<close>

text \<open>The score of a profile; the code reads the zero value for a profile without one.\<close>

definition score_of :: "candidate_score list \<Rightarrow> string \<Rightarrow> candidate_score option" where
  "score_of ranking profile = find (\<lambda>s. sc_profile_id s = profile) ranking"

definition decide ::
    "switch_decision \<Rightarrow> string \<Rightarrow> string \<Rightarrow> bool \<Rightarrow> string \<Rightarrow> switch_decision" where
  "decide d action target emergency reason =
     d\<lparr>wd_action := action, wd_to_profile := target, wd_emergency := emergency, wd_reason := reason\<rparr>"

definition evaluate_pin ::
    "switch_state \<Rightarrow> manual_pin \<Rightarrow> candidate_score list \<Rightarrow> gotime \<Rightarrow> switch_decision" where
  "evaluate_pin st pin ranking now =
     (let d = \<lparr>wd_key = ws_key st, wd_action = switch_hold, wd_from_profile = ws_active_profile_id st,
               wd_to_profile = [], wd_reason = ''manual_pin_held'', wd_emergency = False, wd_evaluated_at = now\<rparr>;
          pinned = score_of ranking (mp_profile_id pin);
          pinned_safe = (case pinned of None \<Rightarrow> False | Some s \<Rightarrow> sc_safety_gate s \<and> \<not> sc_recent_hard_failure s);
          pinned_eligible = (case pinned of None \<Rightarrow> False | Some s \<Rightarrow> sc_eligible s);
          q = ws_quarantined_until st
      in if ws_active_profile_id st \<noteq> mp_profile_id pin \<and> pinned_eligible \<and> \<not> quarantined q (mp_profile_id pin) now
         then decide d switch_profile (mp_profile_id pin) False ''manual_pin_requested''
         else if ws_active_profile_id st = mp_profile_id pin \<and> pinned_safe then d
         else if mp_mode pin = ''hold_last'' then
           (if pinned_safe then d else decide d switch_drop [] True ''pinned_profile_unsafe'')
         else if mp_mode pin = ''safe_fallback'' then
           (case find (\<lambda>s. sc_profile_id s \<in> set (mp_allowed_fallbacks pin) \<and> sc_eligible s \<and>
                          \<not> quarantined q (sc_profile_id s) now) ranking of
              Some s \<Rightarrow> decide d switch_profile (sc_profile_id s) True ''pinned_safe_fallback''
            | None \<Rightarrow> decide d switch_drop [] True ''pinned_fallback_unavailable'')
         else decide d switch_drop [] True ''pinned_profile_failed_closed'')"

text \<open>Whether the challenger is better enough: \<open>(more reliable, lower latency at like reliability)\<close>.\<close>

definition challenger_better :: "switching_policy \<Rightarrow> candidate_score \<Rightarrow> candidate_score \<Rightarrow> bool \<times> bool" where
  "challenger_better p current challenger =
     (let reliability = sc_wilson_upper_bound current < sc_wilson_lower_bound challenger;
          overlap = (sc_wilson_lower_bound challenger \<le> sc_wilson_upper_bound current \<and>
                     sc_wilson_lower_bound current \<le> sc_wilson_upper_bound challenger);
          latency = (0 < sc_median_latency_ms current \<and> 0 < sc_median_latency_ms challenger \<and>
                     sc_median_latency_ms challenger \<le>
                       fmul (sc_median_latency_ms current) (fsub 1 (wp_latency_improvement p)))
      in (reliability, overlap \<and> latency))"

definition current_degraded :: "switching_policy \<Rightarrow> candidate_score \<Rightarrow> bool" where
  "current_degraded p current \<longleftrightarrow>
     sc_recent_hard_failure current \<or> \<not> sc_safety_gate current \<or>
     wp_failure_threshold p \<le> sc_failure_streak current \<or>
     wp_failed_window_threshold p \<le> sc_failed_windows current"

definition evaluate_unpinned ::
    "switching_policy \<Rightarrow> switch_state \<Rightarrow> switch_decision \<Rightarrow> candidate_score list \<Rightarrow> gotime \<Rightarrow> switch_decision" where
  "evaluate_unpinned p st d ranking now =
     (let q = ws_quarantined_until st; active = ws_active_profile_id st in
      case (if active = [] then None else score_of ranking active) of
        None \<Rightarrow>
          (case best_available ranking q [] now of
             Some s \<Rightarrow> d\<lparr>wd_action := switch_profile, wd_to_profile := sc_profile_id s, wd_reason := ''no_active_profile''\<rparr>
           | None \<Rightarrow> d\<lparr>wd_action := switch_fallback, wd_reason := ''no_eligible_profile''\<rparr>)
      | Some current \<Rightarrow>
          (let emergency = (sc_recent_hard_failure current \<or> \<not> sc_safety_gate current) in
           if current_degraded p current then
             (case best_available ranking q active now of
                Some s \<Rightarrow> decide d switch_profile (sc_profile_id s) emergency
                  (if emergency then ''active_profile_hard_failure'' else ''active_profile_degraded'')
              | None \<Rightarrow> d\<lparr>wd_action := switch_fallback, wd_emergency := emergency,
                          wd_reason := ''active_profile_failed_without_safe_backup''\<rparr>)
           else if now < ws_cooldown_until st then d\<lparr>wd_reason := ''cooldown_active''\<rparr>
           else case best_available ranking q active now of
             None \<Rightarrow> d\<lparr>wd_reason := ''no_stable_challenger''\<rparr>
           | Some s \<Rightarrow>
               (if sc_stable_windows s < wp_challenger_stable_windows p then d\<lparr>wd_reason := ''no_stable_challenger''\<rparr>
                else case challenger_better p current s of (reliable, faster) \<Rightarrow>
                  (if reliable \<or> faster
                   then d\<lparr>wd_action := switch_profile, wd_to_profile := sc_profile_id s,
                          wd_reason := (if reliable then ''challenger_more_reliable'' else ''challenger_lower_latency'')\<rparr>
                   else d\<lparr>wd_reason := ''challenger_improvement_too_small''\<rparr>))))"

definition switch_evaluate ::
    "switch_controller \<Rightarrow> decision_key \<Rightarrow> candidate_score list \<Rightarrow> gotime \<Rightarrow> switch_decision result \<times> switch_controller" where
  "switch_evaluate c key ranking now =
     (if now = 0 then (Inl ''switch controller and evaluation time are required'', c)
      else case validate_ranking_for_key key ranking of
        Some e \<Rightarrow> (Inl e, c)
      | None \<Rightarrow>
          (let st = purge_quarantine now (state_at c key);
               d = \<lparr>wd_key = key, wd_action = switch_hold, wd_from_profile = ws_active_profile_id st,
                    wd_to_profile = [], wd_reason = ''current_profile_retained'', wd_emergency = False,
                    wd_evaluated_at = now\<rparr>
           in (Inr (case ws_pin st of
                      Some pin \<Rightarrow> evaluate_pin st pin ranking now
                    | None \<Rightarrow> evaluate_unpinned (wc_policy c) st d ranking now),
               put_state c key st)))"

section \<open>Recording\<close>

definition record_applied ::
    "switch_controller \<Rightarrow> switch_decision \<Rightarrow> gotime \<Rightarrow> error option \<times> switch_controller" where
  "record_applied c d now =
     (if wd_action d \<noteq> switch_profile \<or> wd_to_profile d = [] \<or> now = 0
      then (Some ''completed profile switch is required'', c)
      else let st = state_at c (wd_key d) in
        if ws_active_profile_id st \<noteq> wd_from_profile d
        then (Some ''active profile changed while switch was running'', c)
        else (None, put_state c (wd_key d) (st\<lparr>ws_active_profile_id := wd_to_profile d, ws_last_switch_at := now,
                ws_cooldown_until := now + wp_cooldown (wc_policy c)\<rparr>)))"

definition record_rollback ::
    "switch_controller \<Rightarrow> switch_decision \<Rightarrow> gotime \<Rightarrow> error option \<times> switch_controller" where
  "record_rollback c d now =
     (if wd_to_profile d = [] \<or> now = 0 then (Some ''rolled back profile switch is required'', c)
      else let st = state_at c (wd_key d) in
        (None, put_state c (wd_key d) (st\<lparr>ws_quarantined_until :=
           AList.update (wd_to_profile d) (now + wp_quarantine (wc_policy c)) (ws_quarantined_until st)\<rparr>)))"

definition switch_snapshot :: "switch_controller \<Rightarrow> decision_key \<Rightarrow> gotime \<Rightarrow> switch_state \<times> switch_controller" where
  "switch_snapshot c key now =
     (let st = purge_quarantine now (state_at c key) in (st, put_state c key st))"

definition switch_restore :: "switch_controller \<Rightarrow> switch_state \<Rightarrow> error option \<times> switch_controller" where
  "switch_restore c st =
     (if zk_bundle_id (ws_key st) = [] \<or> ws_active_profile_id st = []
      then (Some ''complete persisted switch state is required'', c)
      else if \<not> profile_id_ok (ws_active_profile_id st) then (Some ''persisted active profile is invalid'', c)
      else case (case ws_pin st of None \<Rightarrow> None | Some pin \<Rightarrow> validate_manual_pin pin) of
        Some e \<Rightarrow> (Some e, c)
      | None \<Rightarrow>
          (if list_ex (\<lambda>(p, t). \<not> profile_id_ok p \<or> t = 0) (ws_quarantined_until st)
           then (Some ''persisted quarantine state is invalid'', c)
           else (None, put_state c (ws_key st) st)))"

section \<open>The executor\<close>

text \<open>
  One run of the executor reads from outside: the error of the context before each step, the
  error of each step and of the rollback, and what other callers of the controller do to it while
  the steps run (the controller is locked only inside its own operations).
\<close>

record switch_env =
  xe_cancelled :: "string \<Rightarrow> error option"
  xe_step :: "string \<Rightarrow> error option"
  xe_rollback :: "error option"
  xe_others :: "switch_controller \<Rightarrow> switch_controller"

record switch_result =
  xr_decision :: switch_decision
  xr_status :: string
  xr_failed_step :: string
  xr_reason :: string
  xr_rollback_tried :: bool
  xr_rollback_ok :: bool

definition switch_steps :: "string list" where
  "switch_steps = [''prepare'', ''validate'', ''snapshot'', ''apply'', ''verify'', ''commit'']"

text \<open>
  The steps from one on: the failed step with its error and whether the snapshot was complete, or
  \<open>None\<close> when all are done, and the calls made to the applier.
\<close>

fun run_switch_steps ::
    "switch_env \<Rightarrow> bool \<Rightarrow> string list \<Rightarrow> (string \<times> error \<times> bool) option \<times> string list" where
  "run_switch_steps env saved [] = (None, [])"
| "run_switch_steps env saved (step # steps) =
     (case xe_cancelled env step of
        Some e \<Rightarrow> (Some (step, e, saved), [])
      | None \<Rightarrow>
          (case xe_step env step of
             Some e \<Rightarrow> (Some (step, e, saved), [step])
           | None \<Rightarrow>
               (let (failed, calls) = run_switch_steps env (saved \<or> step = ''snapshot'') steps
                in (failed, step # calls))))"

definition fail_switch ::
    "switch_env \<Rightarrow> switch_result \<Rightarrow> switch_decision \<Rightarrow> string \<Rightarrow> error \<Rightarrow> bool \<Rightarrow> gotime \<Rightarrow>
     switch_controller \<Rightarrow> string list \<Rightarrow> switch_result \<times> switch_controller \<times> string list" where
  "fail_switch env res d step cause rollback now c calls =
     (let res1 = res\<lparr>xr_status := ''FAILED'', xr_failed_step := step, xr_reason := cause\<rparr> in
      if \<not> rollback then (res1, c, calls)
      else
        let res2 = res1\<lparr>xr_rollback_tried := True\<rparr>; c1 = snd (record_rollback c d now) in
        case xe_rollback env of
          Some e \<Rightarrow> (res2\<lparr>xr_status := ''ROLLBACK_FAILED'', xr_reason := cause @ ''; rollback: '' @ e\<rparr>,
                     c1, calls @ [''rollback''])
        | None \<Rightarrow> (res2\<lparr>xr_rollback_ok := True\<rparr>, c1, calls @ [''rollback'']))"

definition switch_execute ::
    "switch_env \<Rightarrow> switch_controller \<Rightarrow> switch_decision \<Rightarrow> gotime \<Rightarrow>
     switch_result \<times> switch_controller \<times> string list" where
  "switch_execute env c d now =
     (let res = \<lparr>xr_decision = d, xr_status = ''REJECTED'', xr_failed_step = [], xr_reason = [],
                 xr_rollback_tried = False, xr_rollback_ok = False\<rparr> in
      if wd_action d \<noteq> switch_profile \<or> wd_to_profile d = [] \<or> now = 0
      then (res\<lparr>xr_reason := ''invalid_switch_request''\<rparr>, c, [])
      else
        let (st, c1) = switch_snapshot c (wd_key d) now in
        if ws_active_profile_id st \<noteq> wd_from_profile d
        then (res\<lparr>xr_reason := ''stale_switch_decision''\<rparr>, c1, [])
        else
          let (failed, calls) = run_switch_steps env False switch_steps; c2 = xe_others env c1 in
          case failed of
            Some (step, e, saved) \<Rightarrow> fail_switch env res d step e saved now c2 calls
          | None \<Rightarrow>
              (case record_applied c2 d now of
                 (Some e, c3) \<Rightarrow> fail_switch env res d ''record'' e True now c3 calls
               | (None, c3) \<Rightarrow> (res\<lparr>xr_status := ''COMMITTED''\<rparr>, c3, calls)))"

section \<open>Rankings and decisions\<close>

lemma ranking_entries_okI:
  assumes "distinct (map sc_profile_id ss)" and "set (map sc_profile_id ss) \<inter> set seen = {}"
    and "\<forall>s \<in> set ss. sc_key s = key \<and> profile_id_ok (sc_profile_id s)"
  shows "ranking_entries_ok key seen ss"
  using assms by (induction ss arbitrary: seen) auto

lemma ranker_rank_Inr:
  assumes "ranker_rank r key costs now = Inr ranking"
  shows "\<exists>b. lookup_bundle (rk_bundles r) (zk_bundle_id key) = Some b \<and>
    ranking = sort_stable better_candidate (map (\<lambda>i. score_profile r key i (route_cost costs i) now) (bs_allowed_profiles b))"
proof -
  from assms obtain n b where n: "normalize_decision_key r key = Inr (n, b)"
    by (cases "normalize_decision_key r key") (auto simp: ranker_rank_def)
  note k = normalize_decision_key_Inr [OF n]
  from assms n k(1) have "ranking = sort_stable better_candidate (map (\<lambda>i. score_profile r key i (route_cost costs i) now) (bs_allowed_profiles b))"
    by (auto simp: ranker_rank_def split: option.splits)
  with k(2) show ?thesis by blast
qed

lemma ranker_rank_member:
  assumes "ranker_rank r key costs now = Inr ranking" and "s \<in> set ranking"
  obtains cost where "s = score_profile r key (sc_profile_id s) cost now"
proof -
  obtain b :: service_bundle where "ranking = sort_stable better_candidate (map (\<lambda>i. score_profile r key i (route_cost costs i) now) (bs_allowed_profiles b))"
    using ranker_rank_Inr [OF assms(1)] by blast
  with assms(2) obtain i where "s = score_profile r key i (route_cost costs i) now" by auto
  then show ?thesis using that [of "route_cost costs i"] by simp
qed

lemma scored_ranking_valid:
  assumes "distinct ids" and "\<forall>i \<in> set ids. profile_id_ok i" and "ids \<noteq> []" and "length ids \<le> max_profiles"
  shows "validate_ranking_for_key key
    (sort_stable better_candidate (map (\<lambda>i. score_profile r key i (cost i) now) ids)) = None"
proof -
  let ?ranking = "sort_stable better_candidate (map (\<lambda>i. score_profile r key i (cost i) now) ids)"
  have ids: "mset (map sc_profile_id ?ranking) = mset ids"
    unfolding mset_map mset_sort_stable by (simp add: image_mset.compositionality comp_def)
  have "distinct (map sc_profile_id ?ranking)"
    using assms(1) mset_eq_imp_distinct_iff [OF ids] by simp
  moreover have "\<forall>s \<in> set ?ranking. sc_key s = key \<and> profile_id_ok (sc_profile_id s)"
    using assms(2) by auto
  ultimately have "ranking_entries_ok key [] ?ranking" by (intro ranking_entries_okI) auto
  moreover have "slice_is_sorted better_candidate ?ranking"
    by (simp add: candidates.slice_is_sorted_iff candidates.sorted_sort_stable)
  ultimately show ?thesis using assms(3,4) by (simp add: validate_ranking_for_key_def)
qed

text \<open>C36. A ranking is well-formed input for the controller and the scheduler: every ranking that the
  ranker computes over catalogs that were built passes the check both make of it (bounded,
  of one key, valid and distinct profiles, sorted best first).\<close>

theorem rank_accepted:
  assumes "new_catalog plib ps = Inr profiles" and "new_bundle_catalog lib dl specs profiles = Inr bundles"
    and "ranker_reach bundles profiles policy r" and "ranker_rank r key costs now = Inr ranking"
  shows "validate_ranking_for_key key ranking = None"
proof -
  have r: "rk_bundles r = bundles" using ranker_reach_ok [OF assms(3)] by simp
  obtain b :: service_bundle where b: "lookup_bundle bundles (zk_bundle_id key) = Some b"
    and ranking: "ranking = sort_stable better_candidate (map (\<lambda>i. score_profile r key i (route_cost costs i) now) (bs_allowed_profiles b))"
    using ranker_rank_Inr [OF assms(4)] r by blast
  have "allowed_profiles_ok profiles b" by (rule lookup_bundle_allowed [OF assms(2) b])
  with new_catalog_ids [OF assms(1)] show ?thesis
    unfolding ranking by (intro scored_ranking_valid) (auto simp: allowed_profiles_ok_def)
qed

lemma best_available_Some:
  "best_available ranking q exclude now = Some s \<Longrightarrow>
   s \<in> set ranking \<and> sc_profile_id s \<noteq> exclude \<and> sc_eligible s \<and> \<not> quarantined q (sc_profile_id s) now"
  by (auto simp: best_available_def find_Some_iff)

lemma switch_names [simp]:
  "switch_hold \<noteq> switch_profile" "switch_drop \<noteq> switch_profile" "switch_fallback \<noteq> switch_profile"
  by (simp_all add: switch_hold_def switch_profile_def switch_drop_def switch_fallback_def)

lemma score_of_Some: "score_of ranking p = Some s \<Longrightarrow> s \<in> set ranking \<and> sc_profile_id s = p"
  by (auto simp: score_of_def find_Some_iff)

definition pin_fallback :: "switch_state \<Rightarrow> manual_pin \<Rightarrow> candidate_score list \<Rightarrow> gotime \<Rightarrow> candidate_score option" where
  "pin_fallback st pin ranking now = find (\<lambda>s. sc_profile_id s \<in> set (mp_allowed_fallbacks pin) \<and> sc_eligible s \<and>
     \<not> quarantined (ws_quarantined_until st) (sc_profile_id s) now) ranking"

lemma pin_fallback_Some:
  "pin_fallback st pin ranking now = Some s \<Longrightarrow> s \<in> set ranking \<and> sc_eligible s \<and>
    \<not> quarantined (ws_quarantined_until st) (sc_profile_id s) now \<and> sc_profile_id s \<in> set (mp_allowed_fallbacks pin)"
  by (auto simp: pin_fallback_def find_Some_iff)

lemma evaluate_pin_switch:
  assumes "wd_action (evaluate_pin st pin ranking now) = switch_profile"
  shows "\<exists>s \<in> set ranking. wd_to_profile (evaluate_pin st pin ranking now) = sc_profile_id s \<and> sc_eligible s \<and>
    \<not> quarantined (ws_quarantined_until st) (sc_profile_id s) now \<and>
    sc_profile_id s \<in> insert (mp_profile_id pin) (set (mp_allowed_fallbacks pin))"
proof (cases "ws_active_profile_id st \<noteq> mp_profile_id pin \<and>
    (case score_of ranking (mp_profile_id pin) of None \<Rightarrow> False | Some s \<Rightarrow> sc_eligible s) \<and>
    \<not> quarantined (ws_quarantined_until st) (mp_profile_id pin) now")
  case True
  then obtain s where "score_of ranking (mp_profile_id pin) = Some s" "sc_eligible s"
    by (auto split: option.splits)
  with score_of_Some [OF this(1)] True show ?thesis
    by (intro bexI [of _ s]) (simp_all add: evaluate_pin_def decide_def)
next
  case False
  show ?thesis
  proof (cases "pin_fallback st pin ranking now")
    case None
    with False assms show ?thesis
      unfolding evaluate_pin_def Let_def pin_fallback_def [symmetric] if_not_P [OF False]
      by (simp add: decide_def split: if_splits)
  next
    case (Some s)
    have "wd_to_profile (evaluate_pin st pin ranking now) = sc_profile_id s"
      using assms Some unfolding evaluate_pin_def Let_def pin_fallback_def [symmetric] if_not_P [OF False]
      by (auto simp: decide_def split: if_splits)
    with pin_fallback_Some [OF Some] show ?thesis by (intro bexI [of _ s]) simp_all
  qed
qed

lemma evaluate_unpinned_switch:
  assumes "wd_action (evaluate_unpinned p st d ranking now) = switch_profile" and "wd_action d = switch_hold"
  shows "\<exists>s \<in> set ranking. wd_to_profile (evaluate_unpinned p st d ranking now) = sc_profile_id s \<and> sc_eligible s \<and>
    \<not> quarantined (ws_quarantined_until st) (sc_profile_id s) now \<and>
    (\<forall>current. ws_active_profile_id st \<noteq> [] \<and> score_of ranking (ws_active_profile_id st) = Some current \<longrightarrow>
       sc_profile_id s \<noteq> ws_active_profile_id st \<and>
       (current_degraded p current \<or>
        ws_cooldown_until st \<le> now \<and> wp_challenger_stable_windows p \<le> sc_stable_windows s \<and>
        (fst (challenger_better p current s) \<or> snd (challenger_better p current s))))"
proof (cases "if ws_active_profile_id st = [] then None else score_of ranking (ws_active_profile_id st)")
  case None
  then have "\<not> (ws_active_profile_id st \<noteq> [] \<and> score_of ranking (ws_active_profile_id st) = Some current)" for current
    by (simp split: if_splits)
  with assms None show ?thesis
    by (auto simp: evaluate_unpinned_def Let_def dest!: best_available_Some split: option.splits)
next
  case (Some current)
  then have cur: "ws_active_profile_id st \<noteq> []" "score_of ranking (ws_active_profile_id st) = Some current"
    by (simp_all split: if_splits)
  show ?thesis
  proof (cases "current_degraded p current")
    case True
    with assms cur show ?thesis
      by (auto simp: evaluate_unpinned_def Let_def decide_def dest!: best_available_Some split: option.splits)
  next
    case False
    with assms cur show ?thesis
      by (auto simp: evaluate_unpinned_def Let_def dest!: best_available_Some split: option.splits if_splits prod.splits)
  qed
qed

lemma switch_evaluate_Inr:
  assumes "switch_evaluate c key ranking now = (Inr d, c')"
  obtains st where "st = purge_quarantine now (state_at c key)" "validate_ranking_for_key key ranking = None"
    "d = (case ws_pin st of Some pin \<Rightarrow> evaluate_pin st pin ranking now
      | None \<Rightarrow> evaluate_unpinned (wc_policy c) st \<lparr>wd_key = key, wd_action = switch_hold,
          wd_from_profile = ws_active_profile_id st, wd_to_profile = [], wd_reason = ''current_profile_retained'',
          wd_emergency = False, wd_evaluated_at = now\<rparr> ranking now)"
  using assms by (simp add: switch_evaluate_def Let_def split: if_splits option.splits)


section \<open>The executor as an atomic switch\<close>

text \<open>What a client sees of a controller: the active profile of each key.\<close>

definition active_profile :: "switch_controller \<Rightarrow> string \<Rightarrow> string" where
  "active_profile c k = (case map_of (wc_states c) k of None \<Rightarrow> [] | Some st \<Rightarrow> ws_active_profile_id st)"

text \<open>The abstract transaction: the switch happens as a whole or not at all.\<close>

inductive atomic_switch :: "decision_key \<Rightarrow> string \<Rightarrow> string \<Rightarrow> (string \<Rightarrow> string) \<Rightarrow> bool \<Rightarrow> (string \<Rightarrow> string) \<Rightarrow> bool"
  for key from_id to_id where
  committed: "act (decision_key_string key) = from_id \<Longrightarrow>
    atomic_switch key from_id to_id act True (act(decision_key_string key := to_id))"
| aborted: "atomic_switch key from_id to_id act False act"

lemma active_profile_put [simp]:
  "active_profile (put_state c key st) = (active_profile c)(decision_key_string key := ws_active_profile_id st)"
  by (simp add: active_profile_def put_state_def update_conv' fun_eq_iff)

lemma active_profile_at: "active_profile c (decision_key_string key) = ws_active_profile_id (state_at c key)"
  by (simp add: active_profile_def state_at_def split: option.splits)

lemma record_rollback_active: "active_profile (snd (record_rollback c d now)) = active_profile c"
  by (simp add: record_rollback_def Let_def active_profile_at [symmetric])

lemma record_rollback_quarantine:
  assumes "wd_to_profile d \<noteq> []" and "now \<noteq> 0"
  shows "map_of (ws_quarantined_until (state_at (snd (record_rollback c d now)) (wd_key d))) (wd_to_profile d) =
    Some (now + wp_quarantine (wc_policy c))"
  using assms by (simp add: record_rollback_def Let_def state_at_def put_state_def update_conv')

lemma execute_failing:
  assumes "wd_to_profile d \<noteq> []" and "now \<noteq> 0"
    and "(res, c', calls) = fail_switch env \<lparr>xr_decision = d, xr_status = ''REJECTED'', xr_failed_step = [],
      xr_reason = [], xr_rollback_tried = False, xr_rollback_ok = False\<rparr> d step e saved now c cs"
  shows "xr_status res \<noteq> ''COMMITTED'' \<and> xr_failed_step res = step \<and> xr_rollback_tried res = saved \<and>
    calls = cs @ (if saved then [''rollback''] else []) \<and>
    atomic_switch (wd_key d) (wd_from_profile d) (wd_to_profile d) (active_profile c) False (active_profile c') \<and>
    (saved \<longrightarrow> map_of (ws_quarantined_until (state_at c' (wd_key d))) (wd_to_profile d) =
      Some (now + wp_quarantine (wc_policy c)))"
  using assms record_rollback_quarantine [of d now c]
  by (auto simp: fail_switch_def Let_def record_rollback_active intro: atomic_switch.aborted split: if_splits option.splits)

lemma switch_steps_outcome:
  assumes "run_switch_steps env False switch_steps = (failed, calls)"
  shows "prefix calls switch_steps \<and>
    (case failed of
       None \<Rightarrow> calls = switch_steps
     | Some (step, e, saved) \<Rightarrow> step \<in> set switch_steps \<and> (saved \<longleftrightarrow> step \<in> {''apply'', ''verify'', ''commit''}) \<and>
         (xe_cancelled env step = Some e \<or> xe_step env step = Some e))"
  using assms by (auto simp: switch_steps_def split: option.splits)

lemma run_switch_steps_none:
  "fst (run_switch_steps env saved steps) = None \<longleftrightarrow>
   (\<forall>step \<in> set steps. xe_cancelled env step = None \<and> xe_step env step = None)"
  by (induction env saved steps rule: run_switch_steps.induct) (auto simp: split_def split: option.splits)

lemma record_applied_None:
  "record_applied c d now = (None, c') \<Longrightarrow>
   active_profile c (decision_key_string (wd_key d)) = wd_from_profile d \<and>
   active_profile c' = (active_profile c)(decision_key_string (wd_key d) := wd_to_profile d)"
  by (auto simp: record_applied_def Let_def active_profile_at split: if_splits)

lemma record_applied_Some: "record_applied c d now = (Some e, c') \<Longrightarrow> c' = c"
  by (auto simp: record_applied_def Let_def split: if_splits)

text \<open>C13. The six-step executor refines an atomic switch: against any behaviour of the applier, any
  cancellation and any interference by other callers, a run either commits, after all six steps
  in order, by moving the active profile of the key from the decided one to the decided one and
  touching no other key, or it leaves every active profile as it was; it calls the rollback,
  last and once, exactly when it tried one, which is when the snapshot was complete, and then the target
  profile is in quarantine.\<close>

theorem switch_execute_refines:
  assumes "switch_execute env c d now = (res, c', calls)"
  shows "\<exists>before \<in> {c, xe_others env (snd (switch_snapshot c (wd_key d) now))}.
    atomic_switch (wd_key d) (wd_from_profile d) (wd_to_profile d)
      (active_profile before) (xr_status res = ''COMMITTED'') (active_profile c') \<and>
    (if xr_status res = ''COMMITTED'' then calls = switch_steps
     else if xr_rollback_tried res
     then (\<exists>done. calls = done @ [''rollback''] \<and> prefix done switch_steps) \<and>
          xr_failed_step res \<in> {''apply'', ''verify'', ''commit'', ''record''} \<and>
          map_of (ws_quarantined_until (state_at c' (wd_key d))) (wd_to_profile d) =
            Some (now + wp_quarantine (wc_policy before))
     else prefix calls switch_steps \<and> xr_failed_step res \<in> {[], ''prepare'', ''validate'', ''snapshot''})"
proof -
  let ?key = "wd_key d"
  let ?res = "\<lparr>xr_decision = d, xr_status = ''REJECTED'', xr_failed_step = [], xr_reason = [],
    xr_rollback_tried = False, xr_rollback_ok = False\<rparr>"
  obtain st c1 where snap: "switch_snapshot c ?key now = (st, c1)" by fastforce
  have c1: "active_profile c1 = active_profile c"
    using snap by (auto simp: switch_snapshot_def Let_def purge_quarantine_def active_profile_at [symmetric])
  consider (invalid) "wd_action d \<noteq> switch_profile \<or> wd_to_profile d = [] \<or> now = 0"
    | (stale) "\<not> (wd_action d \<noteq> switch_profile \<or> wd_to_profile d = [] \<or> now = 0)" "ws_active_profile_id st \<noteq> wd_from_profile d"
    | (run) "\<not> (wd_action d \<noteq> switch_profile \<or> wd_to_profile d = [] \<or> now = 0)" "ws_active_profile_id st = wd_from_profile d"
    by blast
  then show ?thesis
  proof cases
    case invalid
    with assms have "res = ?res\<lparr>xr_reason := ''invalid_switch_request''\<rparr>" "c' = c" "calls = []"
      by (auto simp: switch_execute_def)
    then show ?thesis by (intro bexI [of _ c]) (auto intro: atomic_switch.intros)
  next
    case stale
    with assms snap have "res = ?res\<lparr>xr_reason := ''stale_switch_decision''\<rparr>" "c' = c1" "calls = []"
      by (auto simp: switch_execute_def)
    with c1 show ?thesis by (intro bexI [of _ c]) (auto intro: atomic_switch.intros)
  next
    case run
    obtain failed cs where steps: "run_switch_steps env False switch_steps = (failed, cs)" by fastforce
    note out = switch_steps_outcome [OF steps]
    define c2 where "c2 = xe_others env c1"
    have req: "wd_to_profile d \<noteq> []" "now \<noteq> 0" using run(1) by auto
    note failing = execute_failing [OF req]
    show ?thesis
    proof (cases failed)
      case (Some f)
      then obtain step e saved where f: "failed = Some (step, e, saved)" by (metis prod_cases3)
      with assms run snap steps have "(res, c', calls) = fail_switch env ?res d step e saved now c2 cs"
        by (simp add: switch_execute_def c2_def)
      from failing [OF this] out f show ?thesis
        by (intro bexI [of _ c2]) (auto simp: switch_steps_def snap c2_def)
    next
      case None
      obtain e c3 where rec: "record_applied c2 d now = (e, c3)" by fastforce
      show ?thesis
      proof (cases e)
        case (Some e')
        with assms run snap steps None rec record_applied_Some [of c2 d now e' c3]
        have "(res, c', calls) = fail_switch env ?res d ''record'' e' True now c2 cs"
          by (simp add: switch_execute_def c2_def)
        from failing [OF this] out None show ?thesis
          by (intro bexI [of _ c2]) (auto simp: switch_steps_def snap c2_def)
      next
        case None': None
        with assms run snap steps None rec have "res = ?res\<lparr>xr_status := ''COMMITTED''\<rparr>" "c' = c3" "calls = cs"
          by (auto simp: switch_execute_def c2_def)
        with record_applied_None [of c2 d now c3] rec None' out None show ?thesis
          by (intro bexI [of _ c2]) (auto simp: snap c2_def intro: atomic_switch.committed)
      qed
    qed
  qed
qed

section \<open>A pin that keeps switching\<close>

text \<open>A pin with a fallback does not settle: once its fallback is the active profile, every further
  evaluation in the same situation decides again, as an emergency, to switch from that fallback to
  itself.\<close>

theorem pinned_fallback_repeats:
  assumes "ws_pin (state_at c key) = Some pin" and "mp_mode pin = ''safe_fallback''"
    and "st = purge_quarantine now (state_at c key)"
    and "ws_active_profile_id st \<noteq> mp_profile_id pin"
    and "\<forall>s \<in> set ranking. sc_profile_id s = mp_profile_id pin \<longrightarrow> \<not> sc_eligible s"
    and "pin_fallback st pin ranking now = Some s" and "sc_profile_id s = ws_active_profile_id st"
    and "switch_evaluate c key ranking now = (Inr d, c')"
  shows "wd_action d = switch_profile \<and> wd_emergency d \<and> wd_from_profile d = wd_to_profile d"
proof -
  have pin: "ws_pin st = Some pin" using assms(1,3) by (simp add: purge_quarantine_def)
  obtain st' where "st' = purge_quarantine now (state_at c key)" and d: "d = (case ws_pin st' of Some pin \<Rightarrow> evaluate_pin st' pin ranking now
      | None \<Rightarrow> evaluate_unpinned (wc_policy c) st' \<lparr>wd_key = key, wd_action = switch_hold,
          wd_from_profile = ws_active_profile_id st', wd_to_profile = [], wd_reason = ''current_profile_retained'',
          wd_emergency = False, wd_evaluated_at = now\<rparr> ranking now)"
    by (rule switch_evaluate_Inr [OF assms(8)])
  with assms(3) pin have d: "d = evaluate_pin st pin ranking now" by simp
  have "\<not> (case score_of ranking (mp_profile_id pin) of None \<Rightarrow> False | Some s \<Rightarrow> sc_eligible s)"
    using assms(5) by (auto dest: score_of_Some split: option.splits)
  with assms(2,4,6,7) show ?thesis
    unfolding d evaluate_pin_def Let_def pin_fallback_def [symmetric] by (simp add: decide_def)
qed

end
