(* ===== verification/Zapret_Schedule.thy ===== *)
theory Zapret_Schedule
  imports Zapret_Switch "HOL-Library.Word"
begin

text \<open>
  The scheduler of strategy probes (\<^verbatim>\<open>internal/zapret/scheduler.go\<close>): leases with a deadline, a
  daily budget, confirmation probes, jittered intervals, and the state it persists. The digest
  that makes a token is an argument of \<open>scheduler_next\<close>. The maps are association lists; the
  purge walks the leases in the order of the list, which matters only when two expired leases are
  for one profile of one key (Go's order of a map is not fixed).
\<close>

unbundle bit_operations_syntax

section \<open>Data\<close>

record schedule_policy =
  hp_active_interval :: duration
  hp_backup_interval :: duration
  hp_other_interval :: duration
  hp_confirmation_window :: duration
  hp_confirmation_attempts :: int
  hp_probe_deadline :: duration
  hp_max_concurrent :: int
  hp_max_daily_probes :: int
  hp_jitter_fraction :: f64val

record scheduled_probe =
  sp_token :: string
  sp_key :: decision_key
  sp_profile_id :: string
  sp_class :: string
  sp_scheduled_at :: gotime
  sp_deadline :: gotime

record confirmation_state =
  cs_remaining :: int
  cs_deadline :: gotime

record probe_scheduler =
  sd_policy :: schedule_policy
  sd_last_completed :: "(string \<times> gotime) list"
  sd_in_flight :: "(string \<times> scheduled_probe) list"
  sd_confirmations :: "(string \<times> confirmation_state) list"
  sd_budget_day :: gotime
  sd_budget_used :: int
  sd_sequence :: "64 word"

record scheduler_state =
  hs_last_completed :: "(string \<times> gotime) list"
  hs_budget_day :: gotime
  hs_budget_used :: int

definition default_schedule_policy :: schedule_policy where
  "default_schedule_policy = \<lparr>hp_active_interval = 5 * minute, hp_backup_interval = 30 * minute,
     hp_other_interval = 6 * hour, hp_confirmation_window = 2 * minute, hp_confirmation_attempts = 3,
     hp_probe_deadline = 45 * second, hp_max_concurrent = 1, hp_max_daily_probes = 512,
     hp_jitter_fraction = f64 (10 / 100)\<rparr>"

definition validate_schedule_policy :: "schedule_policy \<Rightarrow> error option" where
  "validate_schedule_policy p =
     (if hp_active_interval p < minute \<or> hour < hp_active_interval p \<or>
         hp_backup_interval p < hp_active_interval p \<or> 6 * hour < hp_backup_interval p \<or>
         hp_other_interval p < hp_backup_interval p \<or> 24 * hour < hp_other_interval p
      then Some ''probe intervals are outside the bounded range''
      else if hp_confirmation_window p < 30 * second \<or> 10 * minute < hp_confirmation_window p \<or>
              hp_confirmation_attempts p < 1 \<or> 5 < hp_confirmation_attempts p \<or>
              hp_probe_deadline p < 5 * second \<or> 5 * minute < hp_probe_deadline p
      then Some ''probe confirmation policy is outside the bounded range''
      else if hp_max_concurrent p < 1 \<or> 4 < hp_max_concurrent p \<or>
              hp_max_daily_probes p < 1 \<or> 4096 < hp_max_daily_probes p \<or>
              hp_jitter_fraction p < 0 \<or> f64 (1 / 2) < hp_jitter_fraction p
      then Some ''probe budget is outside the bounded range''
      else None)"

definition new_probe_scheduler :: "schedule_policy \<Rightarrow> probe_scheduler result" where
  "new_probe_scheduler p =
     (case validate_schedule_policy p of
        Some e \<Rightarrow> Inl e
      | None \<Rightarrow> Inr \<lparr>sd_policy = p, sd_last_completed = [], sd_in_flight = [], sd_confirmations = [],
                     sd_budget_day = 0, sd_budget_used = 0, sd_sequence = 0\<rparr>)"

definition schedule_key :: "decision_key \<Rightarrow> string \<Rightarrow> string" where
  "schedule_key key profile = decision_key_string key @ ''|'' @ profile"

section \<open>Time\<close>

text \<open>FNV-1a of 64 bits, as \<^verbatim>\<open>hash/fnv\<close> computes it.\<close>

definition fnv64a :: "string \<Rightarrow> 64 word" where
  "fnv64a s = fold (\<lambda>c h. (h XOR word_of_nat (byte c)) * 1099511628211) s 14695981039346656037"

definition float_trunc :: "f64val \<Rightarrow> int" where
  "float_trunc x = (if x < 0 then \<lceil>x\<rceil> else \<lfloor>x\<rfloor>)"

text \<open>A number in [-1, 1] for a key.\<close>

definition jitter_unit :: "string \<Rightarrow> f64val" where
  "jitter_unit key = fsub (fdiv (of_int64 (int (unat (fnv64a key) mod 20001))) 10000) 1"

definition jittered_interval :: "schedule_policy \<Rightarrow> string \<Rightarrow> duration \<Rightarrow> duration" where
  "jittered_interval p key interval =
     (if interval \<le> 0 \<or> hp_jitter_fraction p = 0 then interval
      else float_trunc (fmul (of_int64 interval) (fadd 1 (fmul (jitter_unit key) (hp_jitter_fraction p)))))"

text \<open>\<^verbatim>\<open>Time.UnixNano\<close>\<close>

definition unix_nano :: "gotime \<Rightarrow> int" where
  "unix_nano t = wrap64 (t - 62135596800 * second)"

section \<open>Budget and leases\<close>

definition reset_budget :: "gotime \<Rightarrow> probe_scheduler \<Rightarrow> probe_scheduler" where
  "reset_budget now s =
     (if utc_day now \<noteq> sd_budget_day s then s\<lparr>sd_budget_day := utc_day now, sd_budget_used := 0\<rparr> else s)"

definition probe_schedule_key :: "scheduled_probe \<Rightarrow> string" where
  "probe_schedule_key p = schedule_key (sp_key p) (sp_profile_id p)"

definition purge_expired :: "gotime \<Rightarrow> probe_scheduler \<Rightarrow> probe_scheduler" where
  "purge_expired now s =
     s\<lparr>sd_in_flight := filter (\<lambda>(_, p). now < sp_deadline p) (sd_in_flight s),
       sd_last_completed := fold (\<lambda>(_, p). AList.update (probe_schedule_key p) (sp_deadline p))
         (filter (\<lambda>(_, p). \<not> now < sp_deadline p) (sd_in_flight s)) (sd_last_completed s),
       sd_confirmations := filter (\<lambda>(_, c). \<not> cs_deadline c < now) (sd_confirmations s)\<rparr>"

definition request_confirmation ::
    "probe_scheduler \<Rightarrow> decision_key \<Rightarrow> string \<Rightarrow> gotime \<Rightarrow> error option \<times> probe_scheduler" where
  "request_confirmation s key profile now =
     (if \<not> profile_id_ok profile \<or> now = 0
      then (Some ''complete degradation confirmation request is required'', s)
      else (None, s\<lparr>sd_confirmations := AList.update (schedule_key key profile)
        \<lparr>cs_remaining = hp_confirmation_attempts (sd_policy s),
         cs_deadline = now + hp_confirmation_window (sd_policy s)\<rparr> (sd_confirmations s)\<rparr>))"

section \<open>The next probe\<close>

record due_candidate =
  dc_profile_id :: string
  dc_class :: string
  dc_interval :: duration
  dc_priority :: int

definition confirming :: "probe_scheduler \<Rightarrow> string \<Rightarrow> gotime \<Rightarrow> bool" where
  "confirming s k now = (case map_of (sd_confirmations s) k of
     None \<Rightarrow> False | Some c \<Rightarrow> 0 < cs_remaining c \<and> \<not> cs_deadline c < now)"

definition candidate_of ::
    "probe_scheduler \<Rightarrow> decision_key \<Rightarrow> string \<Rightarrow> gotime \<Rightarrow> candidate_score \<Rightarrow> due_candidate" where
  "candidate_of s key active now score =
     (let profile = sc_profile_id score; p = sd_policy s in
      if confirming s (schedule_key key profile) now
      then \<lparr>dc_profile_id = profile, dc_class = ''confirmation'', dc_interval = 0, dc_priority = 0\<rparr>
      else if profile = active
      then \<lparr>dc_profile_id = profile, dc_class = ''active'', dc_interval = hp_active_interval p, dc_priority = 1\<rparr>
      else if sc_eligible score
      then \<lparr>dc_profile_id = profile, dc_class = ''backup'', dc_interval = hp_backup_interval p, dc_priority = 2\<rparr>
      else \<lparr>dc_profile_id = profile, dc_class = ''other'', dc_interval = hp_other_interval p, dc_priority = 3\<rparr>)"

definition due_less :: "due_candidate \<Rightarrow> due_candidate \<Rightarrow> bool" where
  "due_less a b =
     (if dc_priority a \<noteq> dc_priority b then dc_priority a < dc_priority b
      else dc_profile_id a < dc_profile_id b)"

text \<open>The zero time stands for a profile that never completed a probe.\<close>

definition candidate_due :: "probe_scheduler \<Rightarrow> decision_key \<Rightarrow> gotime \<Rightarrow> due_candidate \<Rightarrow> bool" where
  "candidate_due s key now c =
     (let k = schedule_key key (dc_profile_id c);
          last = (case map_of (sd_last_completed s) k of None \<Rightarrow> 0 | Some t \<Rightarrow> t)
      in dc_class c = ''confirmation'' \<or> last = 0 \<or>
         \<not> now < last + jittered_interval (sd_policy s) k (dc_interval c))"

definition use_confirmation :: "string \<Rightarrow> (string \<times> confirmation_state) list \<Rightarrow> (string \<times> confirmation_state) list" where
  "use_confirmation k cs =
     (case map_of cs k of
        None \<Rightarrow> cs
      | Some c \<Rightarrow> (if cs_remaining c - 1 = 0 then AList.delete k cs
                  else AList.update k (c\<lparr>cs_remaining := cs_remaining c - 1\<rparr>) cs))"

definition lease_probe ::
    "(string \<Rightarrow> string) \<Rightarrow> probe_scheduler \<Rightarrow> decision_key \<Rightarrow> gotime \<Rightarrow> due_candidate \<Rightarrow>
     scheduled_probe \<times> probe_scheduler" where
  "lease_probe dg s key now c =
     (let k = schedule_key key (dc_profile_id c);
          q = sd_sequence s + 1;
          token = dg (k @ ''|'' @ int_dec (unix_nano now) @ ''|'' @ nat_dec (unat q));
          probe = \<lparr>sp_token = token, sp_key = key, sp_profile_id = dc_profile_id c, sp_class = dc_class c,
                   sp_scheduled_at = now, sp_deadline = now + hp_probe_deadline (sd_policy s)\<rparr>
      in (probe, s\<lparr>sd_in_flight := AList.update token probe (sd_in_flight s),
                   sd_confirmations := (if dc_class c = ''confirmation'' then use_confirmation k (sd_confirmations s)
                                        else sd_confirmations s),
                   sd_budget_used := sd_budget_used s + 1, sd_sequence := q\<rparr>))"

definition scheduler_next ::
    "(string \<Rightarrow> string) \<Rightarrow> probe_scheduler \<Rightarrow> decision_key \<Rightarrow> string \<Rightarrow> candidate_score list \<Rightarrow> gotime \<Rightarrow>
     scheduled_probe option result \<times> probe_scheduler" where
  "scheduler_next dg s key active ranking now =
     (if now = 0 then (Inl ''probe scheduler and current time are required'', s)
      else case validate_ranking_for_key key ranking of
        Some e \<Rightarrow> (Inl e, s)
      | None \<Rightarrow>
          (let s1 = purge_expired now (reset_budget now s) in
           if hp_max_concurrent (sd_policy s1) \<le> int (length (sd_in_flight s1)) \<or>
              hp_max_daily_probes (sd_policy s1) \<le> sd_budget_used s1
           then (Inr None, s1)
           else if active \<noteq> [] \<and> active \<notin> set (map sc_profile_id ranking)
           then (Inl ''active profile is absent from ranking'', s1)
           else case find (candidate_due s1 key now)
                       (sort_stable due_less (map (candidate_of s1 key active now) ranking)) of
             None \<Rightarrow> (Inr None, s1)
           | Some c \<Rightarrow> map_prod (Inr \<circ> Some) id (lease_probe dg s1 key now c)))"

section \<open>The end of a lease\<close>

definition scheduler_complete :: "probe_scheduler \<Rightarrow> string \<Rightarrow> gotime \<Rightarrow> error option \<times> probe_scheduler" where
  "scheduler_complete s token finished =
     (if token = [] \<or> finished = 0 then (Some ''complete probe lease is required'', s)
      else case map_of (sd_in_flight s) token of
        None \<Rightarrow> (Some ''probe lease is unknown or expired'', s)
      | Some p \<Rightarrow>
          (let s1 = s\<lparr>sd_in_flight := AList.delete token (sd_in_flight s)\<rparr>;
               done = (\<lambda>t. s1\<lparr>sd_last_completed := AList.update (probe_schedule_key p) t (sd_last_completed s1)\<rparr>)
           in if finished < sp_scheduled_at p \<or> sp_deadline p < finished
              then (Some ''probe completed outside its lease'', done (sp_deadline p))
              else (None, done finished)))"

definition scheduler_cancel :: "probe_scheduler \<Rightarrow> string \<Rightarrow> error option \<times> probe_scheduler" where
  "scheduler_cancel s token =
     (if token = [] then (Some ''cancel probe lease is required'', s)
      else if map_of (sd_in_flight s) token = None then (Some ''probe lease is unknown or expired'', s)
      else (None, s\<lparr>sd_in_flight := AList.delete token (sd_in_flight s)\<rparr>))"

definition scheduler_budget :: "probe_scheduler \<Rightarrow> gotime \<Rightarrow> (int \<times> int \<times> int) \<times> probe_scheduler" where
  "scheduler_budget s now =
     (let s1 = purge_expired now (reset_budget now s)
      in ((sd_budget_used s1, hp_max_daily_probes (sd_policy s1), int (length (sd_in_flight s1))), s1))"

definition scheduler_snapshot :: "probe_scheduler \<Rightarrow> gotime \<Rightarrow> scheduler_state result \<times> probe_scheduler" where
  "scheduler_snapshot s now =
     (if now = 0 then (Inl ''probe scheduler and current time are required'', s)
      else let s1 = purge_expired now (reset_budget now s) in
        (Inr \<lparr>hs_last_completed = sd_last_completed s1, hs_budget_day = sd_budget_day s1,
              hs_budget_used = sd_budget_used s1\<rparr>, s1))"

definition scheduler_restore :: "probe_scheduler \<Rightarrow> scheduler_state \<Rightarrow> gotime \<Rightarrow> error option \<times> probe_scheduler" where
  "scheduler_restore s snap now =
     (if now = 0 then (Some ''probe scheduler and current time are required'', s)
      else if max_persisted_observations < length (hs_last_completed snap) \<or> hs_budget_used snap < 0 \<or>
              hp_max_daily_probes (sd_policy s) < hs_budget_used snap
      then (Some ''persisted probe scheduler state is outside bounded limits'', s)
      else if list_ex (\<lambda>(_, t). now < t) (hs_last_completed snap)
      then (Some ''persisted probe completion is from the future'', s)
      else (None, s\<lparr>sd_last_completed := hs_last_completed snap, sd_in_flight := [], sd_confirmations := [],
                    sd_budget_day := utc_day now,
                    sd_budget_used := (if hs_budget_day snap = utc_day now then hs_budget_used snap else 0)\<rparr>))"

section \<open>The order of candidates\<close>

interpretation due: go_less due_less
  by (rule go_less_key [where key = "\<lambda>c. (dc_priority c, dc_profile_id c)"]) (auto simp: due_less_def)

lemma schedule_key_inj [simp]: "schedule_key key p = schedule_key key q \<longleftrightarrow> p = q"
  by (simp add: schedule_key_def)

lemma candidate_of_id [simp]: "dc_profile_id (candidate_of s key active now score) = sc_profile_id score"
  by (simp add: candidate_of_def Let_def)

section \<open>The jitter\<close>

lemma f64_half: "\<bar>i\<bar> \<le> 2 ^ 51 \<Longrightarrow> f64 (of_int i / 2) = of_int i / 2"
proof -
  have pos: "f64 (of_int m / 2) = of_int m / 2" if "0 < m" "m \<le> 2 ^ 51" for m :: int
  proof -
    have "(of_int m :: rat) \<le> of_int (2 ^ 51)" using that by (simp only: of_int_le_iff)
    then have "ulp_exp (of_int m * pow2 (- 1)) \<le> - 1"
      using that by (intro ulp_exp_le [where e = 51]) (simp_all add: pow2_def)
    with f64_exact [of m "- 1"] that show ?thesis by (simp add: pow2_def)
  qed
  assume i: "\<bar>i\<bar> \<le> 2 ^ 51"
  consider "0 < i" | "i = 0" | "i < 0" by linarith
  then show ?thesis
  proof cases
    case 3
    with i have "f64 (of_int (- i) / 2) = of_int (- i) / 2" by (intro pos) auto
    then show ?thesis using f64_minus [of "of_int i / 2"] by simp
  qed (use i pos in auto)
qed

lemma f64_between: "a \<le> x \<Longrightarrow> x \<le> b \<Longrightarrow> f64 a = a \<Longrightarrow> f64 b = b \<Longrightarrow> a \<le> f64 x \<and> f64 x \<le> b"
  using f64_ge_rep f64_le_rep by blast

lemma jitter_unit_bounds: "- 1 \<le> jitter_unit key" "jitter_unit key \<le> 1"
proof -
  define h where "h = int (unat (fnv64a key) mod 20001)"
  have h: "0 \<le> h" "h \<le> 20000" unfolding h_def by linarith+
  have "f64 (of_int h) = (of_int h :: rat)" using h by (intro f64_of_int_exact) simp
  moreover have "(of_int h :: rat) \<le> of_int 20000" using h(2) by (simp only: of_int_le_iff)
  ultimately have q: "0 \<le> fdiv (of_int64 h) 10000" "fdiv (of_int64 h) 10000 \<le> 2"
    unfolding fdiv_def of_int64_def using h f64_of_int_exact [of 2]
    by (auto intro!: f64_nonneg f64_le_rep)
  then show "- 1 \<le> jitter_unit key" "jitter_unit key \<le> 1"
    unfolding jitter_unit_def h_def [symmetric] fsub_def using f64_of_int_exact [of "- 1"]
    by (auto intro!: f64_ge_rep f64_le_rep)
qed

lemma jitter_factor_bounds:
  assumes "0 \<le> fraction" and "fraction \<le> 1 / 2"
  shows "1 / 2 \<le> fadd 1 (fmul (jitter_unit key) fraction)" "fadd 1 (fmul (jitter_unit key) fraction) \<le> 3 / 2"
proof -
  let ?u = "jitter_unit key"
  have halves: "f64 (1 / 2) = 1 / 2" "f64 (- 1 / 2) = - 1 / 2" "f64 (3 / 2) = 3 / 2"
    using f64_half [of 1] f64_half [of "- 1"] f64_half [of 3] by simp_all
  have "- fraction \<le> ?u * fraction" "?u * fraction \<le> fraction"
    using mult_right_mono [OF jitter_unit_bounds(1) assms(1), of key]
      mult_right_mono [OF jitter_unit_bounds(2) assms(1), of key] by simp_all
  with assms(2) have "- 1 / 2 \<le> ?u * fraction" "?u * fraction \<le> 1 / 2" by linarith+
  from f64_between [OF this halves(2,1)]
  have "1 / 2 \<le> 1 + fmul ?u fraction" "1 + fmul ?u fraction \<le> 3 / 2" unfolding fmul_def by linarith+
  from f64_between [OF this halves(1,3)]
  show "1 / 2 \<le> fadd 1 (fmul ?u fraction)" "fadd 1 (fmul ?u fraction) \<le> 3 / 2" unfolding fadd_def by blast+
qed

lemma schedule_policy_jitter:
  assumes "validate_schedule_policy p = None"
  shows "0 \<le> hp_jitter_fraction p" "hp_jitter_fraction p \<le> 1 / 2"
  using assms f64_half [of 1] by (auto simp: validate_schedule_policy_def split: if_splits)

text \<open>The jitter stays inside its bounds: under every valid policy and for every key, an interval
  that the policy may hold (one minute to one day) becomes one between its half and three halves,
  rounding included, so it is never empty and never wraps.\<close>
lemma jittered_interval_range:
  assumes "validate_schedule_policy p = None" and "minute \<le> interval" and "interval \<le> 24 * hour"
  shows "interval - 1 \<le> 2 * jittered_interval p key interval \<and> 2 * jittered_interval p key interval \<le> 3 * interval \<and>
    0 < jittered_interval p key interval"
proof (cases "hp_jitter_fraction p = 0")
  case True
  with assms(2) show ?thesis by (simp add: jittered_interval_def go_time)
next
  case False
  let ?f = "fadd 1 (fmul (jitter_unit key) (hp_jitter_fraction p))"
  define v where "v = fmul (of_int64 interval) ?f"
  have small: "0 < interval" "\<bar>interval\<bar> \<le> 2 ^ 47" using assms(2,3) by (simp_all add: go_time)
  note f = jitter_factor_bounds [OF schedule_policy_jitter [OF assms(1)], of key]
  have i: "of_int64 interval = of_int interval"
    unfolding of_int64_def using small by (intro f64_of_int_exact) simp
  have prod: "of_int interval / 2 \<le> of_int interval * ?f" "of_int interval * ?f \<le> of_int (3 * interval) / 2"
    using mult_left_mono [OF f(1), of "of_int interval"] mult_left_mono [OF f(2), of "of_int interval"] small
    by simp_all
  have "f64 (of_int interval / 2) = of_int interval / 2" "f64 (of_int (3 * interval) / 2) = of_int (3 * interval) / 2"
    using small by (intro f64_half; simp)+
  from f64_between [OF prod this] have v: "of_int interval / 2 \<le> v" "v \<le> of_int (3 * interval) / 2"
    unfolding v_def fmul_def i by blast+
  moreover have "(0 :: rat) \<le> of_int interval / 2" using small by simp
  ultimately have "0 \<le> v" by linarith
  then have j: "jittered_interval p key interval = \<lfloor>v\<rfloor>"
    using False small by (simp add: jittered_interval_def float_trunc_def v_def)
  have "of_int interval \<le> 2 * v" "2 * v \<le> of_int (3 * interval)" using v by simp_all
  then have "of_int (interval - 2) < (of_int (2 * \<lfloor>v\<rfloor>) :: rat)" "(of_int (2 * \<lfloor>v\<rfloor>) :: rat) \<le> of_int (3 * interval)"
    using floor_correct [of v] unfolding of_int_diff of_int_mult [of 2] of_int_numeral of_int_add of_int_1 by linarith+
  then have "interval - 2 < 2 * \<lfloor>v\<rfloor>" "2 * \<lfloor>v\<rfloor> \<le> 3 * interval" by (simp_all only: of_int_less_iff of_int_le_iff)
  moreover have "2 < interval" using assms(2) by (simp add: go_time)
  ultimately show ?thesis unfolding j by linarith
qed

lemmas jitter_positive = jittered_interval_range [THEN conjunct2, THEN conjunct2]

section \<open>Runs\<close>

text \<open>
  A clean restart at one instant: the state is persisted, and a new scheduler of the same policy
  restores it; where the restore is refused, the daemon does not start and the old state stands.
\<close>

definition scheduler_restart :: "probe_scheduler \<Rightarrow> gotime \<Rightarrow> probe_scheduler" where
  "scheduler_restart s now =
     (case scheduler_snapshot s now of
        (Inl _, s1) \<Rightarrow> s1
      | (Inr snap, s1) \<Rightarrow>
          (case new_probe_scheduler (sd_policy s) of
             Inl _ \<Rightarrow> s1
           | Inr fresh \<Rightarrow>
               (case scheduler_restore fresh snap now of (Some _, _) \<Rightarrow> s1 | (None, s2) \<Rightarrow> s2)))"

text \<open>One call at an instant, with the probe it leases.\<close>

inductive sched_step ::
    "(string \<Rightarrow> string) \<Rightarrow> gotime \<Rightarrow> probe_scheduler \<Rightarrow> scheduled_probe option \<Rightarrow> probe_scheduler \<Rightarrow> bool"
  for dg now s where
  leased: "scheduler_next dg s key active ranking now = (Inr p, s') \<Longrightarrow> sched_step dg now s p s'"
| refused: "scheduler_next dg s key active ranking now = (Inl e, s') \<Longrightarrow> sched_step dg now s None s'"
| completed: "scheduler_complete s token finished = (e, s') \<Longrightarrow> sched_step dg now s None s'"
| cancelled: "scheduler_cancel s token = (e, s') \<Longrightarrow> sched_step dg now s None s'"
| confirmed: "request_confirmation s key profile t = (e, s') \<Longrightarrow> sched_step dg now s None s'"
| observed: "scheduler_budget s now = (r, s') \<Longrightarrow> sched_step dg now s None s'"
| persisted: "scheduler_snapshot s now = (r, s') \<Longrightarrow> sched_step dg now s None s'"
| restarted: "sched_step dg now s None (scheduler_restart s now)"

text \<open>The probes leased so far, on a clock that does not run backwards.\<close>

inductive sched_trace ::
    "(string \<Rightarrow> string) \<Rightarrow> schedule_policy \<Rightarrow> gotime \<Rightarrow> probe_scheduler \<Rightarrow> scheduled_probe list \<Rightarrow> bool"
  for dg policy where
  start: "new_probe_scheduler policy = Inr s \<Longrightarrow> sched_trace dg policy 0 s []"
| step: "sched_trace dg policy t s ps \<Longrightarrow> t \<le> now \<Longrightarrow> sched_step dg now s p s' \<Longrightarrow>
    sched_trace dg policy now s' (ps @ case_option [] (\<lambda>x. [x]) p)"

definition leased_on :: "gotime \<Rightarrow> scheduled_probe list \<Rightarrow> int" where
  "leased_on day ps = int (length (filter (\<lambda>p. utc_day (sp_scheduled_at p) = day) ps))"

text \<open>What every operation keeps: the policy, and the bounds it sets.\<close>

definition sched_ok :: "schedule_policy \<Rightarrow> probe_scheduler \<Rightarrow> bool" where
  "sched_ok policy s \<longleftrightarrow> sd_policy s = policy \<and> 0 \<le> sd_budget_used s \<and>
     sd_budget_used s \<le> hp_max_daily_probes policy \<and>
     int (length (sd_in_flight s)) \<le> hp_max_concurrent policy"

text \<open>What the trace adds: the budget counts the leases of the budget day, and no day had too many.\<close>

definition budget_ok :: "schedule_policy \<Rightarrow> gotime \<Rightarrow> probe_scheduler \<Rightarrow> scheduled_probe list \<Rightarrow> bool" where
  "budget_ok policy t s ps \<longleftrightarrow> sd_budget_day s \<le> utc_day t \<and>
     (\<forall>p \<in> set ps. utc_day (sp_scheduled_at p) \<le> sd_budget_day s) \<and>
     leased_on (sd_budget_day s) ps \<le> sd_budget_used s \<and>
     (\<forall>day. leased_on day ps \<le> hp_max_daily_probes policy)"

lemma reset_budget_fields [simp]:
  "sd_policy (reset_budget now s) = sd_policy s" "sd_in_flight (reset_budget now s) = sd_in_flight s"
  "sd_last_completed (reset_budget now s) = sd_last_completed s"
  "sd_confirmations (reset_budget now s) = sd_confirmations s"
  "sd_budget_day (reset_budget now s) = utc_day now"
  "sd_budget_used (reset_budget now s) = (if utc_day now = sd_budget_day s then sd_budget_used s else 0)"
  by (auto simp: reset_budget_def)

lemma purge_expired_fields [simp]:
  "sd_policy (purge_expired now s) = sd_policy s" "sd_budget_day (purge_expired now s) = sd_budget_day s"
  "sd_budget_used (purge_expired now s) = sd_budget_used s" "sd_sequence (purge_expired now s) = sd_sequence s"
  by (simp_all add: purge_expired_def)

lemma purge_in_flight: "length (sd_in_flight (purge_expired now s)) \<le> length (sd_in_flight s)"
  by (simp add: purge_expired_def)

lemma lease_probe_fields [simp]:
  "sd_policy (snd (lease_probe dg s key now c)) = sd_policy s"
  "sd_budget_day (snd (lease_probe dg s key now c)) = sd_budget_day s"
  "sd_budget_used (snd (lease_probe dg s key now c)) = sd_budget_used s + 1"
  "sd_last_completed (snd (lease_probe dg s key now c)) = sd_last_completed s"
  "sp_scheduled_at (fst (lease_probe dg s key now c)) = now"
  "sp_profile_id (fst (lease_probe dg s key now c)) = dc_profile_id c"
  "sp_class (fst (lease_probe dg s key now c)) = dc_class c"
  "sp_key (fst (lease_probe dg s key now c)) = key"
  "sp_deadline (fst (lease_probe dg s key now c)) = now + hp_probe_deadline (sd_policy s)"
  "sd_in_flight (snd (lease_probe dg s key now c)) =
     AList.update (sp_token (fst (lease_probe dg s key now c))) (fst (lease_probe dg s key now c)) (sd_in_flight s)"
  by (simp_all add: lease_probe_def Let_def)

lemma scheduler_next_cases:
  assumes "scheduler_next dg s key active ranking now = (r, s')"
  obtains (unchanged) e where "r = Inl e" "s' = s"
  | (idle) "r = Inr None \<or> (\<exists>e. r = Inl e)" "s' = purge_expired now (reset_budget now s)"
  | (lease) c where "r = Inr (Some (fst (lease_probe dg (purge_expired now (reset_budget now s)) key now c)))"
      "s' = snd (lease_probe dg (purge_expired now (reset_budget now s)) key now c)"
      "int (length (sd_in_flight (purge_expired now (reset_budget now s)))) < hp_max_concurrent (sd_policy s)"
      "sd_budget_used (reset_budget now s) < hp_max_daily_probes (sd_policy s)"
      "find (candidate_due (purge_expired now (reset_budget now s)) key now)
         (sort_stable due_less (map (candidate_of (purge_expired now (reset_budget now s)) key active now) ranking)) = Some c"
proof -
  let ?s1 = "purge_expired now (reset_budget now s)"
  let ?full = "hp_max_concurrent (sd_policy ?s1) \<le> int (length (sd_in_flight ?s1)) \<or>
    hp_max_daily_probes (sd_policy ?s1) \<le> sd_budget_used ?s1"
  let ?absent = "active \<noteq> [] \<and> active \<notin> set (map sc_profile_id ranking)"
  let ?found = "find (candidate_due ?s1 key now) (sort_stable due_less (map (candidate_of ?s1 key active now) ranking))"
  note eqn = assms [unfolded scheduler_next_def Let_def]
  show ?thesis
  proof (cases "now = 0 \<or> validate_ranking_for_key key ranking \<noteq> None")
    case True
    with eqn unchanged show ?thesis by (auto split: if_splits)
  next
    case False
    then have eq: "(r, s') = (if ?full then (Inr None, ?s1) else if ?absent then (Inl ''active profile is absent from ranking'', ?s1)
      else case ?found of None \<Rightarrow> (Inr None, ?s1) | Some c \<Rightarrow> map_prod (Inr \<circ> Some) id (lease_probe dg ?s1 key now c))"
      using eqn by simp
    show ?thesis
    proof (cases "?full \<or> ?absent \<or> ?found = None")
      case True
      with eq have "r = Inr None \<or> (\<exists>e. r = Inl e)" "s' = ?s1" by (simp_all split: if_splits)
      then show ?thesis by (rule idle)
    next
      case False
      then obtain c where c: "?found = Some c" by blast
      have "(r, s') = map_prod (Inr \<circ> Some) id (lease_probe dg ?s1 key now c)"
        using False unfolding eq by (simp only: de_Morgan_disj if_not_P c option.case if_False simp_thms)
      then have "r = Inr (Some (fst (lease_probe dg ?s1 key now c)))" "s' = snd (lease_probe dg ?s1 key now c)"
        by (simp_all add: map_prod_def split_def)
      then show ?thesis by (rule lease) (use False c in \<open>simp_all add: not_le\<close>)
    qed
  qed
qed

lemma sched_ok_purge:
  assumes "sched_ok policy s" and "0 < hp_max_daily_probes policy"
  shows "sched_ok policy (purge_expired now (reset_budget now s))"
  using assms purge_in_flight [of now "reset_budget now s"] by (simp add: sched_ok_def)

lemma sched_ok_next:
  assumes "scheduler_next dg s key active ranking now = (r, s')" and "sched_ok policy s" and "0 < hp_max_daily_probes policy"
  shows "sched_ok policy s'"
  using assms(1)
proof (cases rule: scheduler_next_cases)
  case (lease c)
  have "length (sd_in_flight s') \<le> Suc (length (sd_in_flight (purge_expired now (reset_budget now s))))"
    unfolding lease(2) lease_probe_fields by (rule update_length_le)
  moreover have "sd_policy s' = sd_policy s" "sd_budget_used s' = sd_budget_used (reset_budget now s) + 1"
    by (simp_all add: lease(2))
  moreover have "0 \<le> sd_budget_used (reset_budget now s)" using assms(2) by (simp add: sched_ok_def)
  ultimately show ?thesis
    using assms(2) lease(3,4) by (auto simp: sched_ok_def simp del: reset_budget_fields(6))
qed (use assms sched_ok_purge in simp_all)

lemma sched_ok_complete:
  "scheduler_complete s token finished = (e, s') \<Longrightarrow>
   sd_policy s' = sd_policy s \<and> sd_budget_used s' = sd_budget_used s \<and> sd_budget_day s' = sd_budget_day s \<and>
   length (sd_in_flight s') \<le> length (sd_in_flight s)"
  using delete_length_le [of token "sd_in_flight s"]
  by (auto simp: scheduler_complete_def Let_def split: if_splits option.splits)

lemma sched_ok_cancel:
  "scheduler_cancel s token = (e, s') \<Longrightarrow>
   sd_policy s' = sd_policy s \<and> sd_budget_used s' = sd_budget_used s \<and> sd_budget_day s' = sd_budget_day s \<and>
   length (sd_in_flight s') \<le> length (sd_in_flight s)"
  using delete_length_le [of token "sd_in_flight s"] by (auto simp: scheduler_cancel_def split: if_splits)

lemma sched_ok_confirm:
  "request_confirmation s key profile t = (e, s') \<Longrightarrow>
   sd_policy s' = sd_policy s \<and> sd_budget_used s' = sd_budget_used s \<and> sd_budget_day s' = sd_budget_day s \<and>
   length (sd_in_flight s') \<le> length (sd_in_flight s)"
  by (auto simp: request_confirmation_def split: if_splits)

lemma new_probe_scheduler_Inr:
  "new_probe_scheduler p = Inr s \<Longrightarrow> validate_schedule_policy p = None \<and> sd_policy s = p \<and> sd_in_flight s = [] \<and>
   sd_confirmations s = [] \<and> sd_budget_day s = 0 \<and> sd_budget_used s = 0"
  by (auto simp: new_probe_scheduler_def split: option.splits)

lemma scheduler_restart_cases:
  obtains "scheduler_restart s now = s"
  | "scheduler_restart s now = purge_expired now (reset_budget now s)"
  | "sd_policy (scheduler_restart s now) = sd_policy s" "sd_in_flight (scheduler_restart s now) = []"
    "sd_budget_day (scheduler_restart s now) = utc_day now"
    "sd_budget_used (scheduler_restart s now) = sd_budget_used (reset_budget now s)"
proof (cases "now = 0")
  case True
  then show ?thesis using that(1) by (simp add: scheduler_restart_def scheduler_snapshot_def)
next
  case False
  let ?s1 = "purge_expired now (reset_budget now s)"
  let ?snap = "\<lparr>hs_last_completed = sd_last_completed ?s1, hs_budget_day = sd_budget_day ?s1, hs_budget_used = sd_budget_used ?s1\<rparr>"
  have snap: "scheduler_snapshot s now = (Inr ?snap, ?s1)" using False by (simp add: scheduler_snapshot_def Let_def)
  show ?thesis
  proof (cases "new_probe_scheduler (sd_policy s)")
    case (Inl e)
    then show ?thesis using that(2) by (simp add: scheduler_restart_def snap)
  next
    case (Inr fresh)
    obtain e s2 where restore: "scheduler_restore fresh ?snap now = (e, s2)" by fastforce
    show ?thesis
    proof (cases e)
      case (Some e')
      with Inr restore that(2) show ?thesis by (simp add: scheduler_restart_def snap)
    next
      case None
      with Inr restore have eq: "scheduler_restart s now = s2" by (simp add: scheduler_restart_def snap)
      from restore None have "sd_policy s2 = sd_policy fresh" "sd_in_flight s2 = []" "sd_budget_day s2 = utc_day now"
        "sd_budget_used s2 = sd_budget_used ?s1"
        by (auto simp: scheduler_restore_def split: if_splits)
      with new_probe_scheduler_Inr [OF Inr] that(3) eq show ?thesis by simp
    qed
  qed
qed

lemma leased_on_append: "leased_on day (ps @ qs) = leased_on day ps + leased_on day qs"
  by (simp add: leased_on_def)

lemma leased_on_later: "\<forall>p \<in> set ps. utc_day (sp_scheduled_at p) \<le> d \<Longrightarrow> d < day \<Longrightarrow> leased_on day ps = 0"
  by (auto simp: leased_on_def filter_empty_conv)

lemma utc_day_mono: "s \<le> t \<Longrightarrow> utc_day s \<le> utc_day t"
  unfolding utc_day_def by (rule time_truncate_mono) simp

text \<open>The budget bound survives a state with the same day and budget, and the reset at a later time.\<close>

lemma budget_ok_same:
  "budget_ok policy t s ps \<Longrightarrow> t \<le> now \<Longrightarrow> sd_budget_day s' = sd_budget_day s \<Longrightarrow>
   sd_budget_used s' = sd_budget_used s \<Longrightarrow> budget_ok policy now s' ps"
  using utc_day_mono [of t now] unfolding budget_ok_def by auto

lemma budget_ok_reset:
  assumes "budget_ok policy t s ps" and "t \<le> now" and "sd_budget_day s' = utc_day now"
    and "sd_budget_used s' = sd_budget_used (reset_budget now s)"
  shows "budget_ok policy now s' ps"
proof -
  have le: "sd_budget_day s \<le> utc_day now" using assms(1) utc_day_mono [OF assms(2)] by (simp add: budget_ok_def)
  have "leased_on (utc_day now) ps \<le> sd_budget_used s'"
  proof (cases "utc_day now = sd_budget_day s")
    case True
    with assms show ?thesis by (simp add: budget_ok_def)
  next
    case False
    with le have "leased_on (utc_day now) ps = 0"
      using assms(1) by (intro leased_on_later [of ps "sd_budget_day s"]) (auto simp: budget_ok_def)
    with False assms(4) show ?thesis by simp
  qed
  with assms le show ?thesis unfolding budget_ok_def by auto
qed

lemma budget_ok_lease:
  assumes "budget_ok policy now s ps" and "sd_budget_day s = utc_day now" and "sp_scheduled_at p = now"
    and "sd_budget_used s < hp_max_daily_probes policy"
    and "sd_budget_day s' = sd_budget_day s" and "sd_budget_used s' = sd_budget_used s + 1"
  shows "budget_ok policy now s' (ps @ [p])"
proof -
  have one: "leased_on day [p] = (if day = utc_day now then 1 else 0)" for day
    by (auto simp: leased_on_def assms(3))
  have "leased_on day (ps @ [p]) \<le> hp_max_daily_probes policy" for day
    using assms(1,2,4) one [of day] by (cases "day = utc_day now") (auto simp: budget_ok_def leased_on_append)
  with assms one show ?thesis by (auto simp: budget_ok_def leased_on_append)
qed

lemma budget_ok_next:
  assumes "scheduler_next dg s key active ranking now = (r, s')" and "budget_ok policy t s ps" and "t \<le> now"
    and "sd_policy s = policy"
  shows "budget_ok policy now s' (ps @ (case r of Inr (Some p) \<Rightarrow> [p] | _ \<Rightarrow> []))"
  using assms(1)
proof (cases rule: scheduler_next_cases)
  case (unchanged e)
  with budget_ok_same [OF assms(2,3)] show ?thesis by simp
next
  case idle
  with budget_ok_reset [OF assms(2,3), of s'] show ?thesis by (auto split: sum.splits option.splits)
next
  case (lease c)
  let ?s1 = "purge_expired now (reset_budget now s)"
  have "budget_ok policy now ?s1 ps" by (rule budget_ok_reset [OF assms(2,3)]) simp_all
  then have "budget_ok policy now s' (ps @ [fst (lease_probe dg ?s1 key now c)])"
    by (rule budget_ok_lease) (use lease assms(4) in simp_all)
  then show ?thesis by (simp add: lease(1))
qed

lemma sched_step_ok:
  assumes "sched_step dg now s p s'" and "sched_ok policy s" and "budget_ok policy t s ps" and "t \<le> now"
    and "0 < hp_max_daily_probes policy" and "0 < hp_max_concurrent policy"
  shows "sched_ok policy s' \<and> budget_ok policy now s' (ps @ case_option [] (\<lambda>x. [x]) p)"
proof -
  have policy: "sd_policy s = policy" using assms(2) by (simp add: sched_ok_def)
  have keep: "sched_ok policy s' \<and> budget_ok policy now s' ps"
    if "sd_policy s' = sd_policy s \<and> sd_budget_used s' = sd_budget_used s \<and> sd_budget_day s' = sd_budget_day s \<and>
      length (sd_in_flight s') \<le> length (sd_in_flight s)" for s'
    using that assms(2) budget_ok_same [OF assms(3,4), of s'] by (auto simp: sched_ok_def)
  have read: "sched_ok policy s' \<and> budget_ok policy now s' ps" if "s' = purge_expired now (reset_budget now s)" for s'
    using that sched_ok_purge [OF assms(2,5)] budget_ok_reset [OF assms(3,4), of s'] by simp
  show ?thesis
    using assms(1)
  proof cases
    case (leased key active ranking)
    with sched_ok_next [OF leased(1) assms(2,5)] budget_ok_next [OF leased(1) assms(3,4) policy] show ?thesis
      by (simp split: option.splits)
  next
    case (refused key active ranking e)
    with sched_ok_next [OF refused(2) assms(2,5)] budget_ok_next [OF refused(2) assms(3,4) policy] show ?thesis
      by simp
  next
    case (observed r)
    then show ?thesis using read [of s'] by (simp add: scheduler_budget_def Let_def)
  next
    case (persisted r)
    then show ?thesis using read [of s'] keep [of s'] by (auto simp: scheduler_snapshot_def Let_def split: if_splits)
  next
    case restarted
    show ?thesis
    proof (cases rule: scheduler_restart_cases [of s now])
      case 3
      have "0 \<le> sd_budget_used (reset_budget now s) \<and> sd_budget_used (reset_budget now s) \<le> hp_max_daily_probes policy"
        using assms(2,5) by (simp add: sched_ok_def)
      with 3 restarted assms(6) policy budget_ok_reset [OF assms(3,4), of s'] show ?thesis by (simp add: sched_ok_def)
    qed (use restarted read [of s'] keep [of s'] in simp_all)
  qed (use keep [of s'] sched_ok_complete sched_ok_cancel sched_ok_confirm in \<open>simp; blast\<close>)+
qed

lemma sched_trace_ok:
  "sched_trace dg policy t s ps \<Longrightarrow> validate_schedule_policy policy = None \<and> sched_ok policy s \<and> budget_ok policy t s ps"
proof (induction rule: sched_trace.induct)
  case (start s)
  from new_probe_scheduler_Inr [OF start] have v: "validate_schedule_policy policy = None" by simp
  then have "1 \<le> hp_max_daily_probes policy" "1 \<le> hp_max_concurrent policy"
    by (auto simp: validate_schedule_policy_def split: if_splits)
  with new_probe_scheduler_Inr [OF start] v show ?case
    by (simp add: sched_ok_def budget_ok_def leased_on_def utc_day_def time_truncate_def)
next
  case (step t s ps now s' p)
  then have "0 < hp_max_daily_probes policy" "0 < hp_max_concurrent policy"
    by (auto simp: validate_schedule_policy_def split: if_splits)
  with step sched_step_ok [OF step(3)] show ?case by blast
qed

text \<open>C14. The probe budget holds: in every run of the scheduler on a clock that does not run backwards,
  with any interleaving of leases, completions, cancellations, confirmations, snapshots and clean
  restarts, no UTC day has more probes than the policy allows and no more leases than it allows are
  open at once.\<close>

theorem probe_budget_holds:
  assumes "sched_trace dg policy t s ps"
  shows "leased_on day ps \<le> hp_max_daily_probes policy \<and> int (length (sd_in_flight s)) \<le> hp_max_concurrent policy"
  using sched_trace_ok [OF assms] by (simp add: sched_ok_def budget_ok_def)

section \<open>Every due profile gets its probe\<close>

text \<open>One round of the probe loop whose probe finishes at once, and the probes of up to \<open>n\<close> rounds.\<close>

definition probe_round ::
    "(string \<Rightarrow> string) \<Rightarrow> probe_scheduler \<Rightarrow> decision_key \<Rightarrow> string \<Rightarrow> candidate_score list \<Rightarrow> gotime \<Rightarrow>
     scheduled_probe option \<times> probe_scheduler" where
  "probe_round dg s key active ranking now =
     (case scheduler_next dg s key active ranking now of
        (Inr (Some p), s1) \<Rightarrow> (Some p, snd (scheduler_complete s1 (sp_token p) now))
      | (_, s1) \<Rightarrow> (None, s1))"

fun probe_rounds ::
    "(string \<Rightarrow> string) \<Rightarrow> nat \<Rightarrow> probe_scheduler \<Rightarrow> decision_key \<Rightarrow> string \<Rightarrow> candidate_score list \<Rightarrow> gotime \<Rightarrow>
     scheduled_probe list \<times> probe_scheduler" where
  "probe_rounds dg 0 s key active ranking now = ([], s)"
| "probe_rounds dg (Suc n) s key active ranking now =
     (case probe_round dg s key active ranking now of
        (None, s1) \<Rightarrow> ([], s1)
      | (Some p, s1) \<Rightarrow> map_prod ((#) p) id (probe_rounds dg n s1 key active ranking now))"

definition due_list ::
    "probe_scheduler \<Rightarrow> decision_key \<Rightarrow> string \<Rightarrow> candidate_score list \<Rightarrow> gotime \<Rightarrow> due_candidate list" where
  "due_list s key active ranking now =
     filter (candidate_due s key now) (sort_stable due_less (map (candidate_of s key active now) ranking))"

text \<open>A scheduler between rounds at an instant: nothing to reset, to purge or to confirm.\<close>

definition settled :: "probe_scheduler \<Rightarrow> decision_key \<Rightarrow> candidate_score list \<Rightarrow> gotime \<Rightarrow> bool" where
  "settled s key ranking now \<longleftrightarrow> validate_schedule_policy (sd_policy s) = None \<and> sd_budget_day s = utc_day now \<and>
     sd_in_flight s = [] \<and> (\<forall>(_, c) \<in> set (sd_confirmations s). \<not> cs_deadline c < now) \<and>
     (\<forall>score \<in> set ranking. \<not> confirming s (schedule_key key (sc_profile_id score)) now)"

lemma settled_purge:
  assumes "settled s key ranking now"
  shows "purge_expired now (reset_budget now s) = s"
proof -
  have "filter (\<lambda>(_, c). \<not> cs_deadline c < now) (sd_confirmations s) = sd_confirmations s"
    using assms by (intro filter_True) (auto simp: settled_def)
  with assms show ?thesis by (simp add: settled_def reset_budget_def purge_expired_def)
qed

lemma candidate_of_settled:
  assumes "settled s key ranking now" and "score \<in> set ranking"
  shows "candidate_of s key active now score =
    (let p = sd_policy s in
     if sc_profile_id score = active
     then \<lparr>dc_profile_id = sc_profile_id score, dc_class = ''active'', dc_interval = hp_active_interval p, dc_priority = 1\<rparr>
     else if sc_eligible score
     then \<lparr>dc_profile_id = sc_profile_id score, dc_class = ''backup'', dc_interval = hp_backup_interval p, dc_priority = 2\<rparr>
     else \<lparr>dc_profile_id = sc_profile_id score, dc_class = ''other'', dc_interval = hp_other_interval p, dc_priority = 3\<rparr>)"
  using assms by (auto simp: settled_def candidate_of_def Let_def)

lemma candidate_of_interval:
  assumes "settled s key ranking now" and "score \<in> set ranking"
  shows "0 < jittered_interval (sd_policy s) k (dc_interval (candidate_of s key active now score))"
    and "dc_class (candidate_of s key active now score) \<noteq> ''confirmation''"
proof -
  have v: "validate_schedule_policy (sd_policy s) = None" using assms(1) by (simp add: settled_def)
  have "minute \<le> dc_interval (candidate_of s key active now score)" "dc_interval (candidate_of s key active now score) \<le> 24 * hour"
    using v unfolding candidate_of_settled [OF assms]
    by (auto simp: validate_schedule_policy_def Let_def split: if_splits)
  from jitter_positive [OF v this]
  show "0 < jittered_interval (sd_policy s) k (dc_interval (candidate_of s key active now score))" .
  show "dc_class (candidate_of s key active now score) \<noteq> ''confirmation''"
    unfolding candidate_of_settled [OF assms] by (simp add: Let_def)
qed

text \<open>What a round does to a settled scheduler: it probes the first due candidate, which is then no longer due.\<close>

lemma due_list_Nil:
  "due_list s key active ranking now = [] \<Longrightarrow>
   find (candidate_due s key now) (sort_stable due_less (map (candidate_of s key active now) ranking)) = None"
  by (simp add: due_list_def find_None_iff filter_empty_conv)

lemma probe_round_idle:
  assumes "settled s key ranking now" and "due_list s key active ranking now = []"
  shows "fst (probe_round dg s key active ranking now) = None"
    and "fst (scheduler_next dg s key active ranking now) \<in> {Inr None} \<union> range Inl"
proof -
  obtain r s' where r: "scheduler_next dg s key active ranking now = (r, s')" by fastforce
  then have "r = Inr None \<or> (\<exists>e. r = Inl e)"
  proof (cases rule: scheduler_next_cases)
    case (lease c)
    then show ?thesis using due_list_Nil [OF assms(2)] unfolding settled_purge [OF assms(1)] by simp
  qed auto
  then show "fst (probe_round dg s key active ranking now) = None"
    and "fst (scheduler_next dg s key active ranking now) \<in> {Inr None} \<union> range Inl"
    by (auto simp: probe_round_def r)
qed

lemma probe_round_idle_state:
  assumes "settled s key ranking now" and "due_list s key active ranking now = []"
  shows "snd (probe_round dg s key active ranking now) = s"
proof -
  obtain r s' where r: "scheduler_next dg s key active ranking now = (r, s')" by fastforce
  from r have "s' = s \<and> (r = Inr None \<or> (\<exists>e. r = Inl e))"
  proof (cases rule: scheduler_next_cases)
    case (lease c)
    then show ?thesis using due_list_Nil [OF assms(2)] unfolding settled_purge [OF assms(1)] by simp
  qed (use settled_purge [OF assms(1)] in auto)
  then show ?thesis by (auto simp: probe_round_def r)
qed

lemma find_filter_head: "filter P xs = y # ys \<Longrightarrow> find P xs = Some y"
  by (induction xs) (auto split: if_splits)

lemma probe_round_lease:
  assumes settled: "settled s key ranking now" and due: "due_list s key active ranking now = c # cs"
    and ok: "validate_ranking_for_key key ranking = None" "now \<noteq> 0" "active = [] \<or> active \<in> set (map sc_profile_id ranking)"
    and budget: "sd_budget_used s < hp_max_daily_probes (sd_policy s)" and token: "\<And>t. dg t \<noteq> []"
  shows "probe_round dg s key active ranking now =
    (Some (fst (lease_probe dg s key now c)),
     s\<lparr>sd_last_completed := AList.update (schedule_key key (dc_profile_id c)) now (sd_last_completed s),
       sd_in_flight := [], sd_budget_used := sd_budget_used s + 1, sd_sequence := sd_sequence s + 1\<rparr>)"
proof -
  let ?p = "fst (lease_probe dg s key now c)" and ?s1 = "snd (lease_probe dg s key now c)"
  have "c \<in> set (due_list s key active ranking now)" using due by simp
  then obtain score where score: "score \<in> set ranking" "c = candidate_of s key active now score"
    by (auto simp: due_list_def)
  have cls: "dc_class c \<noteq> ''confirmation''" using candidate_of_interval(2) [OF settled score(1)] score(2) by simp
  have policy: "1 \<le> hp_max_concurrent (sd_policy s)" "0 < hp_probe_deadline (sd_policy s)"
    using settled by (auto simp: settled_def validate_schedule_policy_def split: if_splits)
  have none: "sd_in_flight s = []" using settled by (simp add: settled_def)
  have absent: "\<not> (active \<noteq> [] \<and> active \<notin> set (map sc_profile_id ranking))" using ok(3) by blast
  have found: "find (candidate_due s key now) (sort_stable due_less (map (candidate_of s key active now) ranking)) = Some c"
    using due unfolding due_list_def by (rule find_filter_head)
  have "scheduler_next dg s key active ranking now = map_prod (Inr \<circ> Some) id (lease_probe dg s key now c)"
    unfolding scheduler_next_def Let_def settled_purge [OF settled] if_not_P [OF ok(2)] ok(1) option.case if_not_P [OF absent] found
    using budget policy none by simp
  then have eqn: "scheduler_next dg s key active ranking now = (Inr (Some ?p), ?s1)"
    by (simp add: map_prod_def split_def)
  have s1: "?s1 = s\<lparr>sd_in_flight := [(sp_token ?p, ?p)], sd_budget_used := sd_budget_used s + 1, sd_sequence := sd_sequence s + 1\<rparr>"
    using cls none by (simp add: lease_probe_def Let_def)
  have "sp_token ?p \<noteq> []" using token by (simp add: lease_probe_def Let_def)
  moreover have "probe_schedule_key ?p = schedule_key key (dc_profile_id c)"
    by (simp add: probe_schedule_key_def)
  ultimately have "snd (scheduler_complete ?s1 (sp_token ?p) now) =
    s\<lparr>sd_last_completed := AList.update (schedule_key key (dc_profile_id c)) now (sd_last_completed s),
      sd_in_flight := [], sd_budget_used := sd_budget_used s + 1, sd_sequence := sd_sequence s + 1\<rparr>"
    using ok(2) policy unfolding s1 by (simp add: scheduler_complete_def Let_def)
  then show ?thesis by (simp add: probe_round_def eqn)
qed

lemma ranking_entries_distinct:
  "ranking_entries_ok key seen ss \<Longrightarrow> distinct (map sc_profile_id ss) \<and> set (map sc_profile_id ss) \<inter> set seen = {}"
  by (induction key seen ss rule: ranking_entries_ok.induct) auto

lemma validate_ranking_distinct:
  "validate_ranking_for_key key ranking = None \<Longrightarrow> distinct (map sc_profile_id ranking)"
  using ranking_entries_distinct [of key "[]" ranking] by (simp add: validate_ranking_for_key_def split: if_splits)

text \<open>The state after the round of \<open>c\<close>, and what is due in it.\<close>

abbreviation after_round :: "probe_scheduler \<Rightarrow> decision_key \<Rightarrow> gotime \<Rightarrow> due_candidate \<Rightarrow> probe_scheduler" where
  "after_round s key now c \<equiv>
     s\<lparr>sd_last_completed := AList.update (schedule_key key (dc_profile_id c)) now (sd_last_completed s),
       sd_in_flight := [], sd_budget_used := sd_budget_used s + 1, sd_sequence := sd_sequence s + 1\<rparr>"

lemma settled_after_round: "settled s key ranking now \<Longrightarrow> settled (after_round s key now c) key ranking now"
  by (simp add: settled_def confirming_def)

lemma candidate_of_after_round [simp]:
  "candidate_of (after_round s key now c) key active now = candidate_of s key active now"
  by (rule ext) (simp add: candidate_of_def confirming_def)

lemma candidate_due_after_round:
  assumes "settled s key ranking now" and "now \<noteq> 0" and "x = candidate_of s key active now score" and "score \<in> set ranking"
  shows "candidate_due (after_round s key now c) key now x \<longleftrightarrow> candidate_due s key now x \<and> dc_profile_id x \<noteq> dc_profile_id c"
  using candidate_of_interval(1) [OF assms(1,4), where active = active and k = "schedule_key key (dc_profile_id c)"]
    candidate_of_interval(2) [OF assms(1,4), where active = active] assms(2)
  unfolding assms(3) by (auto simp: candidate_due_def Let_def update_conv' not_less)

lemma filter_drop_head:
  assumes "filter P xs = c # cs" and "distinct (map f xs)" and "\<And>x. x \<in> set xs \<Longrightarrow> Q x \<longleftrightarrow> P x \<and> f x \<noteq> f c"
  shows "filter Q xs = cs"
proof -
  have d: "distinct (map f (c # cs))" using distinct_map_filter [OF assms(2), of P] assms(1) by simp
  have "filter Q xs = filter (\<lambda>x. P x \<and> f x \<noteq> f c) xs"
    using assms(3) by (intro filter_cong) simp_all
  also have "\<dots> = filter (\<lambda>x. f x \<noteq> f c) (filter P xs)" by (simp add: conj_commute)
  also have "\<dots> = filter (\<lambda>x. f x \<noteq> f c) cs" unfolding assms(1) by simp
  also have "\<dots> = cs"
  proof (rule filter_True)
    from d have "f c \<notin> f ` set cs" by simp
    then show "\<forall>x \<in> set cs. f x \<noteq> f c" by (metis imageI)
  qed
  finally show ?thesis .
qed

lemma due_list_after_round:
  assumes "settled s key ranking now" and "now \<noteq> 0" and "validate_ranking_for_key key ranking = None"
    and "due_list s key active ranking now = c # cs"
  shows "due_list (after_round s key now c) key active ranking now = cs"
proof -
  let ?L = "sort_stable due_less (map (candidate_of s key active now) ranking)"
  have "mset (map dc_profile_id ?L) = mset (map sc_profile_id ranking)"
    unfolding mset_map mset_sort_stable by (simp add: image_mset.compositionality comp_def)
  then have distinct: "distinct (map dc_profile_id ?L)"
    using validate_ranking_distinct [OF assms(3)] mset_eq_imp_distinct_iff by blast
  have "filter (candidate_due (after_round s key now c) key now) ?L = cs"
  proof (rule filter_drop_head [OF _ distinct])
    show "filter (candidate_due s key now) ?L = c # cs" using assms(4) by (simp add: due_list_def)
    show "candidate_due (after_round s key now c) key now x \<longleftrightarrow> candidate_due s key now x \<and> dc_profile_id x \<noteq> dc_profile_id c"
      if "x \<in> set ?L" for x
      using that candidate_due_after_round [OF assms(1,2)] by auto
  qed
  then show ?thesis by (simp add: due_list_def)
qed


text \<open>Whatever the ranking, the budget and the profiles are, a round leases nothing or the first due candidate.\<close>

lemma probe_round_cases:
  assumes "settled s key ranking now" and "\<And>t. dg t \<noteq> []"
  obtains (idle) s1 where "probe_round dg s key active ranking now = (None, s1)"
  | (lease) p c cs where "due_list s key active ranking now = c # cs" "now \<noteq> 0" "validate_ranking_for_key key ranking = None"
      "probe_round dg s key active ranking now = (Some p, after_round s key now c)"
proof (cases "fst (probe_round dg s key active ranking now)")
  case None
  then show ?thesis using idle by (metis prod.collapse)
next
  case (Some p)
  then obtain q s1 where eqn: "scheduler_next dg s key active ranking now = (Inr (Some q), s1)"
    by (auto simp: probe_round_def split: sum.splits option.splits prod.splits)
  then obtain c where found: "find (candidate_due s key now) (sort_stable due_less (map (candidate_of s key active now) ranking)) = Some c"
    and budget: "sd_budget_used s < hp_max_daily_probes (sd_policy s)"
  proof (cases rule: scheduler_next_cases)
    case (lease c)
    with assms(1) that [of c] show ?thesis unfolding settled_purge [OF assms(1)] by (simp add: settled_def)
  qed auto
  have ok: "validate_ranking_for_key key ranking = None" "now \<noteq> 0" "active = [] \<or> active \<in> set (map sc_profile_id ranking)"
    using eqn by (auto simp: scheduler_next_def Let_def split: if_splits option.splits)
  from found have "due_list s key active ranking now \<noteq> []"
    using due_list_Nil [of s key active ranking now] by auto
  then obtain d cs where due: "due_list s key active ranking now = d # cs" by (cases "due_list s key active ranking now") auto
  from probe_round_lease [OF assms(1) due ok budget assms(2)] show ?thesis by (rule lease [OF due ok(2,1)])
qed


section \<open>Two ways the scheduler misses its purpose\<close>

text \<open>A second lease for the same probe: a lease does not make its profile less due, so where the policy
  allows a second lease, the next call gives it to the same profile again.\<close>

theorem same_profile_leased_twice:
  assumes "scheduler_next dg s key active ranking now = (Inr (Some p), s1)" and "sp_class p \<noteq> ''confirmation''"
    and "validate_schedule_policy (sd_policy s) = None"
    and "int (length (sd_in_flight s1)) < hp_max_concurrent (sd_policy s1)"
    and "sd_budget_used s1 < hp_max_daily_probes (sd_policy s1)"
  shows "\<exists>p' s2. scheduler_next dg s1 key active ranking now = (Inr (Some p'), s2) \<and> sp_profile_id p' = sp_profile_id p"
  using assms(1)
proof (cases rule: scheduler_next_cases)
  case (lease c)
  let ?s0 = "purge_expired now (reset_budget now s)"
  have p: "p = fst (lease_probe dg ?s0 key now c)" using lease(1) by simp
  have deadline: "now < sp_deadline p" using assms(3) by (auto simp: p validate_schedule_policy_def split: if_splits)
  have s1: "sd_policy s1 = sd_policy ?s0" "sd_confirmations s1 = sd_confirmations ?s0"
    "sd_last_completed s1 = sd_last_completed ?s0" "sd_in_flight s1 = AList.update (sp_token p) p (sd_in_flight ?s0)"
    "sd_budget_day s1 = utc_day now"
    using assms(2) by (simp_all add: lease(2) p lease_probe_def Let_def)
  have "\<forall>(t, q) \<in> set (sd_in_flight s1). now < sp_deadline q"
    using set_update_subset [of "sp_token p" p "sd_in_flight ?s0"] deadline unfolding s1(4)
    by (auto simp: purge_expired_def)
  moreover have "\<forall>(k, q) \<in> set (sd_confirmations s1). \<not> cs_deadline q < now"
    unfolding s1(2) by (auto simp: purge_expired_def)
  ultimately have purge: "purge_expired now (reset_budget now s1) = s1"
    using s1(5) by (simp add: purge_expired_def reset_budget_def filter_id_conv split_def)
  have same: "candidate_due s1 key now = candidate_due ?s0 key now" "candidate_of s1 key active now = candidate_of ?s0 key active now"
    by (rule ext; simp add: candidate_due_def candidate_of_def confirming_def Let_def s1(1-3))+
  have ok: "now \<noteq> 0" "validate_ranking_for_key key ranking = None" "\<not> (active \<noteq> [] \<and> active \<notin> set (map sc_profile_id ranking))"
    using assms(1) by (auto simp: scheduler_next_def Let_def split: if_splits option.splits)
  have "scheduler_next dg s1 key active ranking now = map_prod (Inr \<circ> Some) id (lease_probe dg s1 key now c)"
    unfolding scheduler_next_def Let_def purge if_not_P [OF ok(1)] ok(2) option.case if_not_P [OF ok(3)] same lease(5)
    using assms(4,5) by simp
  then show ?thesis by (simp add: map_prod_def split_def p)
qed simp_all

lemma update_length_ge: "length m \<le> length (AList.update k v m)"
  by (induction m) auto

text \<open>A state that cannot be restored: completed probes are never dropped, and once more of them are
  kept than the limit the snapshot still succeeds but every scheduler refuses to restore it.\<close>

theorem snapshot_not_restorable:
  assumes "scheduler_snapshot s now = (Inr snap, s1)" and "max_persisted_observations < length (sd_last_completed s)"
    and "later \<noteq> 0"
  shows "scheduler_restore fresh snap later =
    (Some ''persisted probe scheduler state is outside bounded limits'', fresh)"
proof -
  let ?ps = "filter (\<lambda>(_, p). \<not> now < sp_deadline p) (sd_in_flight s)"
  have grows: "length m \<le> length (fold (\<lambda>(_, p). AList.update (probe_schedule_key p) (sp_deadline p)) ps m)" for ps m
    by (induction ps arbitrary: m) (auto intro: order_trans [OF update_length_ge])
  have "hs_last_completed snap = fold (\<lambda>(_, p). AList.update (probe_schedule_key p) (sp_deadline p)) ?ps (sd_last_completed s)"
    using assms(1) by (auto simp: scheduler_snapshot_def Let_def purge_expired_def split: if_splits)
  with less_le_trans [OF assms(2) grows [of "sd_last_completed s" ?ps]]
  have "max_persisted_observations < length (hs_last_completed snap)" by simp
  with assms(3) show ?thesis by (simp add: scheduler_restore_def)
qed

end
