(* ===== verification/Zapret_Examples.thy ===== *)
theory Zapret_Examples
  imports Zapret_Schedule Policy_Override
begin

text \<open>
  One strategy profile, one service bundle, a ranker, a controller and a scheduler over them, and
  the properties of the Zapret theories applied to these. The digest is a constant function here.
\<close>

section \<open>A catalog\<close>

definition video_digest :: string where
  "video_digest = ''sha256:'' @ replicate 64 CHR ''0''"

definition zapret_sample_lib :: "'b zapret_lib" where
  "zapret_sample_lib = Zapret_lib (\<lambda>_. video_digest) (\<lambda>_. [])"

definition video_profile :: "string \<Rightarrow> nfqws_profile" where
  "video_profile i = \<lparr>np_id = i, np_name = ''sample'', np_provider = ''nfqws-v1'', np_provider_version = ''1.0'',
     np_binary_digest = video_digest, np_route_type = ''zapret'', np_ip_families = [''ipv4''],
     np_transports = [''tcp''], np_ports = [443], np_queue = 200, np_safety = ''reviewed'',
     np_strategy_digest = video_digest,
     np_strategy = ''--qnum=200'' @ [CHR 0x0A] @ ''--filter-tcp=443''\<rparr>"

definition video_profiles :: catalog where
  "video_profiles = [(''a'', video_profile ''a''), (''b'', video_profile ''b'')]"

definition video_spec :: bundle_spec where
  "video_spec = \<lparr>bs_id = ''video'', bs_category = ''TSPU_RESTRICTED'', bs_required_domains = [''v.io''],
     bs_optional_domains = [], bs_protocols = [\<lparr>pr_transport = ''tcp'', pr_port = 443\<rparr>], bs_ip_families = [''ipv4''],
     bs_allowed_profiles = [''a'', ''b''], bs_failure_route = ''vless'', bs_direct_fallback = False\<rparr>"

definition video_bundle :: service_bundle where
  "video_bundle = bundle_spec.extend video_spec (service_bundle.fields video_digest)"

definition video_bundles :: bundle_catalog where
  "video_bundles = \<lparr>bc_bundles = [(''video'', video_bundle)], bc_owners = [(''v.io'', ''video'')]\<rparr>"

lemma video_numbers: "parse_uint 16 ''200'' = Some 200" "parse_uint 16 ''443'' = Some 443"
  by (simp_all add: parse_uint_def parse_dec_def is_digit_def byte_def)

lemma video_lines:
  "cut_at CHR ''='' ''--qnum=200'' = Some (''--qnum'', ''200'')"
  "cut_at CHR ''='' ''--filter-tcp=443'' = Some (''--filter-tcp'', ''443'')"
  "split_on CHR '','' ''443'' = [''443'']"
  "value_ok ''200''" "value_ok ''443''" "\<not> unsafe_line ''--qnum=200''" "\<not> unsafe_line ''--filter-tcp=443''"
  by code_simp+

lemma video_strategy_ok: "validate_strategy (''--qnum=200'' @ [CHR 0x0A] @ ''--filter-tcp=443'') 200 [''tcp''] [443] = None"
proof -
  have "scan_lines 200 None [''--qnum=200'', ''--filter-tcp=443''] \<lparr>ss_queue_seen = False, ss_transports = [], ss_ports = []\<rparr> =
    Inr \<lparr>ss_queue_seen = True, ss_transports = [''tcp''], ss_ports = [443]\<rparr>"
    by (simp add: video_lines video_numbers allowed_options_def scan_option_def scan_ports_def)
  moreover have "split_on (char_of (10 :: nat)) (trim_suffix (''--qnum=200'' @ [CHR 0x0A] @ ''--filter-tcp=443'') [char_of (10 :: nat)]) =
    [''--qnum=200'', ''--filter-tcp=443'']" by code_simp
  moreover have "\<not> list_ex (\<lambda>c. byte c = 13) (''--qnum=200'' @ [CHR 0x0A] @ ''--filter-tcp=443'')" by code_simp
  ultimately show ?thesis unfolding validate_strategy_def Let_def
    by (simp add: max_strategy_bytes_def max_strategy_lines_def same_set_def)
qed

lemma video_patterns: "profile_id_ok ''a''" "profile_id_ok ''b''" "profile_id_ok ''video''" "profile_id_ok ''vless''"
  "digest_ok video_digest" "version_ok ''1.0''"
  by code_simp+

lemma video_profile_ok: "i \<in> {''a'', ''b''} \<Longrightarrow> validate_profile zapret_sample_lib (video_profile i) = None"
  using video_strategy_ok video_patterns
  by (auto simp: validate_profile_def zapret_sample_lib_def video_profile_def validate_set_def validate_ports_def)

lemma video_profiles_built:
  "new_catalog zapret_sample_lib [video_profile ''a'', video_profile ''b''] = Inr video_profiles"
  by (simp add: new_catalog_def max_profiles_def video_profile_ok video_profiles_def)
    (simp add: video_profile_def)

lemma video_bundles_built:
  "new_bundle_catalog zapret_sample_lib ascii_lib [video_spec] video_profiles = Inr video_bundles"
  by code_simp

lemma lookup_domain_witness:
  "lookup_domain ascii_lib video_bundles ''cdn.v.io'' = Some video_bundle"
proof -
  have "(bs_id video_bundle, video_bundle) \<in> set (bc_bundles video_bundles)" by code_simp
  moreover have "normalize_domain ascii_lib ''cdn.v.io'' = Inr ''cdn.v.io''" by code_simp
  moreover have "''v.io'' \<in> set (bs_required_domains video_bundle @ bs_optional_domains video_bundle)" by code_simp
  moreover have "''v.io'' \<in> set (domain_chain ''cdn.v.io'')" by code_simp
  ultimately show ?thesis using lookup_domain_iff [OF video_bundles_built] by blast
qed

section \<open>A ranker\<close>

definition video_ranking_policy :: ranking_policy where
  "video_ranking_policy = \<lparr>rp_window_duration = 5 * minute, rp_retention = 24 * hour,
     rp_max_samples_per_profile = 8, rp_min_attempts = 1, rp_min_stable_windows = 1,
     rp_production_min_attempts = 1, rp_production_success_ratio = 1, rp_recent_safety_windows = 1, rp_wilson_z = 2\<rparr>"

definition video_key :: decision_key where
  "video_key = \<lparr>zk_bundle_id = ''video'', zk_transport = ''tcp'', zk_port = 443, zk_ip_family = ''ipv4'',
     zk_network_fingerprint = video_digest\<rparr>"

definition video_now :: gotime where "video_now = 100 * hour"

definition video_observation :: probe_observation where
  "video_observation = \<lparr>bo_key = video_key, bo_profile_id = ''a'', bo_observed_at = video_now - hour, bo_success = True,
     bo_safety_gate = True, bo_required_checks_passed = True, bo_path_verified = True, bo_hard_failure = False,
     bo_latency = 20000000\<rparr>"

definition video_ranker :: "probe_observation list \<Rightarrow> ranker" where
  "video_ranker obs = \<lparr>rk_bundles = video_bundles, rk_profiles = video_profiles, rk_policy = video_ranking_policy,
     rk_samples = (if obs = [] then [] else [((decision_key_string video_key, ''a''), obs)])\<rparr>"

lemma video_ranking_policy_ok: "validate_ranking_policy video_ranking_policy = None"
  by code_simp

lemma video_ranker_new: "new_ranker video_bundles video_profiles video_ranking_policy = Inr (video_ranker [])"
  by (simp add: new_ranker_def video_ranking_policy_ok video_ranker_def)

lemma video_key_ok: "normalize_decision_key (video_ranker obs) video_key = Inr (video_key, video_bundle)"
proof -
  have "lookup_bundle video_bundles ''video'' = Some video_bundle" by code_simp
  moreover have "zk_ip_family video_key \<in> set (bs_ip_families video_bundle)" by code_simp
  moreover have "list_ex (\<lambda>p. pr_transport p = zk_transport video_key \<and> pr_port p = zk_port video_key) (bs_protocols video_bundle)"
    by code_simp
  ultimately show ?thesis using video_patterns(5)
    by (simp add: normalize_decision_key_def video_ranker_def video_key_def)
qed

lemma video_observation_ok: "normalize_observation (video_ranker obs) video_observation = Inr video_observation"
proof -
  have "''a'' \<in> set (bs_allowed_profiles video_bundle)" by code_simp
  moreover have "map_of video_profiles ''a'' = Some (video_profile ''a'')" by (simp add: video_profiles_def)
  ultimately show ?thesis using video_key_ok [of obs]
    by (simp add: normalize_observation_def video_observation_def video_now_def)
      (simp add: video_ranker_def video_profile_def video_key_def)
qed

lemma video_observed: "snd (ranker_observe (video_ranker []) video_observation) = video_ranker [video_observation]"
  by (simp add: ranker_observe_def video_observation_ok Let_def samples_at_def take_last_def)
    (simp add: video_ranker_def video_observation_def video_ranking_policy_def)

lemma video_reach: "ranker_reach video_bundles video_profiles video_ranking_policy (video_ranker [video_observation])"
  using ranker_reach.observe [OF ranker_reach.new [OF video_ranker_new], of video_observation]
  by (simp add: video_observed)

lemma video_samples:
  "active_samples video_ranking_policy video_now
     (samples_at (video_ranker [video_observation]) video_key p) = (if p = ''a'' then [video_observation] else [])"
  by (simp add: active_samples_def samples_at_def video_ranker_def video_observation_def video_ranking_policy_def video_now_def)

lemma video_score:
  "sc_eligible (score_profile (video_ranker [video_observation]) video_key p cost video_now) \<longleftrightarrow> p = ''a''"
proof -
  have pol: "rk_policy (video_ranker [video_observation]) = video_ranking_policy" by (simp add: video_ranker_def)
  have "sc_eligible (score_active video_ranking_policy score [video_observation])" for score
    by (simp add: score_active_def Let_def windows_of_def split_def video_observation_def video_ranking_policy_def)
  then show ?thesis
    by (simp add: score_profile_def pol video_samples Let_def zero_score_def)
qed

definition video_ranking :: "candidate_score list" where
  "video_ranking = sort_stable better_candidate
     (map (\<lambda>i. score_profile (video_ranker [video_observation]) video_key i 0 video_now) [''a'', ''b''])"

lemma video_ranked: "ranker_rank (video_ranker [video_observation]) video_key [] video_now = Inr video_ranking"
proof -
  have "bs_allowed_profiles video_bundle = [''a'', ''b'']" by code_simp
  then show ?thesis by (simp add: ranker_rank_def video_key_ok route_cost_def video_ranking_def)
qed

lemma video_ranking_id: "s \<in> set video_ranking \<Longrightarrow> sc_eligible s \<longleftrightarrow> sc_profile_id s = ''a''"
proof -
  assume "s \<in> set video_ranking"
  then obtain i where "s = score_profile (video_ranker [video_observation]) video_key i 0 video_now"
    unfolding video_ranking_def set_sort_stable set_map by blast
  then show ?thesis using video_score [of i 0] by simp
qed

lemma video_ranking_valid: "validate_ranking_for_key video_key video_ranking = None"
  unfolding video_ranking_def using video_patterns
  by (intro scored_ranking_valid [where cost = "\<lambda>_. 0"]) (auto simp: max_profiles_def)

lemma rank_accepted_witness: "validate_ranking_for_key video_key video_ranking = None"
  by (rule rank_accepted [OF video_profiles_built video_bundles_built video_reach video_ranked])

lemma ranking_survives_restart_witness:
  "\<exists>r2. ranker_restore (video_ranker []) [video_observation] video_now = (None, r2) \<and>
    ranker_rank r2 video_key [] video_now = Inr video_ranking"
proof -
  have obs: "ranker_observations (video_ranker [video_observation]) video_now =
    (Inr [video_observation], video_ranker [video_observation])"
    by (simp add: ranker_observations_def video_ranker_def active_samples_def take_last_def)
      (simp add: video_observation_def video_ranking_policy_def video_now_def max_persisted_observations_def)
  have len: "length (concat (map snd (rk_samples (video_ranker [video_observation])))) \<le> max_persisted_observations"
    by (simp add: video_ranker_def max_persisted_observations_def)
  have "video_now \<noteq> 0" by (simp add: video_now_def)
  from ranking_survives_restart [OF video_reach this obs len video_ranker_new]
  obtain r2 where "ranker_restore (video_ranker []) [video_observation] video_now = (None, r2)"
    "ranker_rank r2 video_key [] video_now = ranker_rank (video_ranker [video_observation]) video_key [] video_now"
    by blast
  then show ?thesis by (simp add: video_ranked)
qed

section \<open>A switch\<close>

definition video_controller :: switch_controller where
  "video_controller = \<lparr>wc_policy = default_switching_policy, wc_states = []\<rparr>"

lemma video_best: "\<exists>s \<in> set video_ranking. best_available video_ranking [] [] video_now = Some s \<and> sc_profile_id s = ''a''"
proof -
  have "''a'' \<in> sc_profile_id ` set video_ranking" unfolding video_ranking_def set_sort_stable by simp
  then obtain s where "s \<in> set video_ranking" "sc_profile_id s = ''a''" by auto
  with video_ranking_id have "best_available video_ranking [] [] video_now \<noteq> None"
    by (auto simp: best_available_def find_None_iff quarantined_def)
  then obtain t where t: "best_available video_ranking [] [] video_now = Some t" by blast
  from best_available_Some [OF t] video_ranking_id have "t \<in> set video_ranking" "sc_profile_id t = ''a''" by auto
  with t show ?thesis by blast
qed

lemma video_evaluated:
  "\<exists>c'. switch_evaluate video_controller video_key video_ranking video_now =
     (Inr \<lparr>wd_key = video_key, wd_action = switch_profile, wd_from_profile = [], wd_to_profile = ''a'',
           wd_reason = ''no_active_profile'', wd_emergency = False, wd_evaluated_at = video_now\<rparr>, c')"
proof -
  obtain s where s: "best_available video_ranking [] [] video_now = Some s" "sc_profile_id s = ''a''"
    using video_best by blast
  have ok: "validate_ranking_for_key video_key video_ranking = None"
    using video_ranking_valid .
  have "purge_quarantine video_now (state_at video_controller video_key) =
    \<lparr>ws_key = video_key, ws_active_profile_id = [], ws_last_switch_at = 0, ws_cooldown_until = 0, ws_pin = None, ws_quarantined_until = []\<rparr>"
    by (simp add: purge_quarantine_def state_at_def video_controller_def)
  then show ?thesis
    using s ok by (simp add: switch_evaluate_def Let_def evaluate_unpinned_def video_now_def [symmetric])
      (simp add: video_now_def)
qed


definition video_switch :: switch_decision where
  "video_switch = \<lparr>wd_key = video_key, wd_action = switch_profile, wd_from_profile = [], wd_to_profile = ''a'',
     wd_reason = [], wd_emergency = False, wd_evaluated_at = 5\<rparr>"

text \<open>The verification fails: the run is rolled back.\<close>

definition video_env :: switch_env where
  "video_env = \<lparr>xe_cancelled = (\<lambda>_. None), xe_step = (\<lambda>s. if s = ''verify'' then Some ''no path'' else None),
     xe_rollback = None, xe_others = (\<lambda>c. c)\<rparr>"

lemma switch_execute_refines_witness:
  "\<exists>res c'. switch_execute video_env video_controller video_switch 5 =
      (res, c', [''prepare'', ''validate'', ''snapshot'', ''apply'', ''verify'', ''rollback'']) \<and>
    map_of (ws_quarantined_until (state_at c' video_key)) ''a'' = Some (5 + 6 * hour)"
proof -
  obtain res c' calls where run: "switch_execute video_env video_controller video_switch 5 = (res, c', calls)"
    by (metis prod_cases3)
  have "xr_status (fst (switch_execute video_env video_controller video_switch 5)) = ''FAILED''"
    "xr_rollback_tried (fst (switch_execute video_env video_controller video_switch 5))"
    "snd (snd (switch_execute video_env video_controller video_switch 5)) =
      [''prepare'', ''validate'', ''snapshot'', ''apply'', ''verify'', ''rollback'']"
    by code_simp+
  with run have "xr_status res = ''FAILED''" "xr_rollback_tried res"
    "calls = [''prepare'', ''validate'', ''snapshot'', ''apply'', ''verify'', ''rollback'']" by simp_all
  moreover have "wc_policy (xe_others video_env (snd (switch_snapshot video_controller (wd_key video_switch) 5))) = default_switching_policy"
    "wc_policy video_controller = default_switching_policy" "wd_key video_switch = video_key" "wd_to_profile video_switch = ''a''"
    by (simp_all add: video_env_def switch_snapshot_def Let_def put_state_def video_controller_def video_switch_def)
  ultimately show ?thesis using switch_execute_refines [OF run] run
    by (auto simp: default_switching_policy_def)
qed

section \<open>A schedule\<close>

definition video_schedule_policy :: schedule_policy where
  "video_schedule_policy = default_schedule_policy\<lparr>hp_jitter_fraction := 0\<rparr>"

definition video_scheduler :: "gotime \<Rightarrow> probe_scheduler" where
  "video_scheduler now = \<lparr>sd_policy = video_schedule_policy, sd_last_completed = [], sd_in_flight = [],
     sd_confirmations = [], sd_budget_day = utc_day now, sd_budget_used = 0, sd_sequence = 0\<rparr>"

definition video_scores :: "candidate_score list" where
  "video_scores = [zero_score video_key ''a'' 0, zero_score video_key ''b'' 0]"

lemma video_scores_ok: "validate_ranking_for_key video_key video_scores = None"
  by code_simp

lemma half_ok: "f64 (1 / 2) = 1 / 2"
  using f64_half [of 1] by simp

lemma video_schedule_policy_ok: "validate_schedule_policy video_schedule_policy = None"
  by (simp add: validate_schedule_policy_def video_schedule_policy_def default_schedule_policy_def half_ok)

lemma video_settled: "settled (video_scheduler video_now) video_key video_scores video_now"
  by (simp add: settled_def video_scheduler_def video_schedule_policy_ok confirming_def)

lemma video_due:
  "map dc_profile_id (due_list (video_scheduler video_now) video_key ''b'' video_scores video_now) = [''b'', ''a'']"
  by code_simp



lemma probe_budget_holds_witness:
  "\<exists>p s. scheduler_next (\<lambda>_. ''t'') (video_scheduler 0) video_key [] video_scores 1 = (Inr (Some p), s) \<and>
     leased_on 0 [p] \<le> 512 \<and> int (length (sd_in_flight s)) \<le> 1"
proof -
  let ?next = "scheduler_next (\<lambda>_. ''t'') (video_scheduler 0) video_key [] video_scores 1"
  have "case fst ?next of Inr (Some p) \<Rightarrow> True | _ \<Rightarrow> False" by code_simp
  then obtain p s where eqn: "?next = (Inr (Some p), s)"
    by (cases ?next) (auto split: sum.splits option.splits)
  have "new_probe_scheduler video_schedule_policy = Inr (video_scheduler 0)"
    by (simp add: new_probe_scheduler_def video_schedule_policy_ok video_scheduler_def utc_day_def time_truncate_def)
  from sched_trace.step [OF sched_trace.start [OF this] _ sched_step.leased [OF eqn]]
  have "sched_trace (\<lambda>_. ''t'') video_schedule_policy 1 s [p]" by simp
  from probe_budget_holds [OF this, of 0] eqn show ?thesis
    by (simp add: video_schedule_policy_def default_schedule_policy_def)
qed

end
