(* ===== verification/Tx_Types.thy ===== *)
theory Tx_Types
  imports Config_Model
begin

text \<open>
  The data of candidate transactions and the checks on what an adapter reports
  (\<^verbatim>\<open>internal/adapter/adapter.go\<close>, \<^verbatim>\<open>internal/api/types.go\<close>, \<^verbatim>\<open>internal/api/transaction.go\<close>,
  \<^verbatim>\<open>internal/api/recovery.go\<close>).
\<close>

section \<open>What an adapter reports\<close>

text \<open>A value of the evidence map: the code asserts strings and booleans only.\<close>

datatype evidence_value = Ev_string string | Ev_bool bool | Ev_other

record step_result =
  sr_protocol_version :: int
  sr_request_id :: string
  sr_operation :: string
  sr_step :: string
  sr_status :: string
  sr_ok :: bool
  sr_management_verified :: bool
  sr_data_plane_verified :: bool
  sr_reason :: string
  sr_evidence :: "(string \<times> evidence_value) list"
  sr_semantic_state :: string
  sr_committed :: bool
  sr_rollback_capable :: bool
  sr_generation :: string

record transaction =
  tx_id :: string
  tx_revision_id :: string
  tx_change_id :: string
  tx_base_version :: int
  tx_candidate_version :: int
  tx_candidate_hash :: string
  tx_candidate_path :: string
  tx_artifact_root :: string
  tx_artifact_manifest_hash :: string
  tx_artifacts_ready :: bool
  tx_artifact_block_reason :: string
  tx_artifacts_simulation :: bool
  tx_rollback_token_hash :: string
  tx_capability_path :: string
  tx_binding_path :: string
  tx_created_at :: gotime
  tx_expires_at :: gotime
  tx_rollback_timeout_seconds :: int

record recovery_target =
  rt_transaction_id :: string
  rt_revision_id :: string
  rt_candidate_hash :: string
  rt_artifact_manifest_hash :: string

definition adapter_protocol_version :: int where "adapter_protocol_version = 1"

definition step_ok :: "step_result \<Rightarrow> bool" where
  "step_ok r \<longleftrightarrow> sr_ok r \<and> sr_status r = ''OK''"

text \<open>The empty string for a missing key or another type.\<close>

definition evidence_string :: "step_result \<Rightarrow> string \<Rightarrow> string" where
  "evidence_string r k = (case map_of (sr_evidence r) k of Some (Ev_string s) \<Rightarrow> s | _ \<Rightarrow> [])"

definition bound_evidence_fields :: "transaction \<Rightarrow> (string \<times> string) list" where
  "bound_evidence_fields tx = [(''transaction_id'', tx_id tx), (''revision_id'', tx_revision_id tx),
     (''candidate_hash'', tx_candidate_hash tx), (''artifact_manifest_hash'', tx_artifact_manifest_hash tx)]"

text \<open>
  The loop over the expected fields. Go walks the map in any order, which decides only which of
  several mismatches the error names.
\<close>

fun check_bound_fields :: "string \<Rightarrow> bool \<Rightarrow> step_result \<Rightarrow> (string \<times> string) list \<Rightarrow> error option" where
  "check_bound_fields operation strict r [] = None"
| "check_bound_fields operation strict r ((k, expected) # rest) =
     (case map_of (sr_evidence r) k of
        Some v \<Rightarrow>
          (if v \<noteq> Ev_string expected
           then Some (''adapter '' @ operation @ '' binding mismatch for '' @ k)
           else check_bound_fields operation strict r rest)
      | None \<Rightarrow>
          (if strict then Some (''adapter '' @ operation @ '' omitted binding field '' @ k)
           else check_bound_fields operation strict r rest))"

definition validate_binding :: "step_result \<Rightarrow> string \<Rightarrow> transaction \<Rightarrow> error option" where
  "validate_binding r operation tx =
     (if \<not> sr_ok r \<or> sr_status r \<noteq> ''OK''
      then Some (''adapter '' @ operation @ '' failed: '' @ sr_reason r)
      else if sr_operation r \<noteq> [] \<and> sr_operation r \<noteq> operation
      then Some (''adapter operation mismatch: got \"'' @ sr_operation r @ ''\" want \"'' @ operation @ ''\"'')
      else if sr_protocol_version r \<noteq> 0 \<and> sr_protocol_version r \<noteq> adapter_protocol_version
      then Some (''unsupported adapter protocol version '' @ int_dec (sr_protocol_version r))
      else check_bound_fields operation (sr_protocol_version r \<noteq> 0 \<or> sr_operation r \<noteq> []) r
             (bound_evidence_fields tx))"

definition validate_prepared_commit :: "step_result \<Rightarrow> transaction \<Rightarrow> error option" where
  "validate_prepared_commit r tx =
     (case validate_binding r ''commit-prepared'' tx of
        Some e \<Rightarrow> Some e
      | None \<Rightarrow>
          (if sr_committed r \<or> sr_semantic_state r = ''committed'' \<or> sr_semantic_state r \<noteq> ''adapter_activated''
           then Some ''adapter committed before control-plane finalization''
           else case map_of (sr_evidence r) ''rollback_capable'' of
             Some v \<Rightarrow>
               (if v \<noteq> Ev_bool True
                then Some ''adapter did not prove rollback capability after prepared commit'' else None)
           | None \<Rightarrow>
               (if \<not> sr_rollback_capable r
                then Some ''adapter did not prove rollback capability after prepared commit'' else None)))"

definition validate_finalized_commit :: "step_result \<Rightarrow> transaction \<Rightarrow> error option" where
  "validate_finalized_commit r tx =
     (case validate_binding r ''finalize-commit'' tx of
        Some e \<Rightarrow> Some e
      | None \<Rightarrow>
          (if \<not> sr_committed r \<or> sr_semantic_state r \<noteq> ''committed''
           then Some ''adapter did not prove committed state'' else None))"

definition validate_rollback :: "step_result \<Rightarrow> transaction \<Rightarrow> error option" where
  "validate_rollback r tx =
     (case validate_binding r ''rollback'' tx of
        Some e \<Rightarrow> Some e
      | None \<Rightarrow>
          (if (case map_of (sr_evidence r) ''rollback'' of None \<Rightarrow> False | Some v \<Rightarrow> v \<noteq> Ev_bool True)
           then Some ''adapter reported rollback=false''
           else if sr_semantic_state r = ''committed'' \<or> sr_committed r
           then Some ''adapter is committed; rollback result is ambiguous''
           else if sr_protocol_version r \<noteq> 0 \<and> sr_semantic_state r \<noteq> ''rolled_back''
           then Some ''adapter rollback state is not rolled_back''
           else None))"

definition artifact_evidence_matches :: "step_result \<Rightarrow> transaction \<Rightarrow> bool" where
  "artifact_evidence_matches r tx \<longleftrightarrow>
     evidence_string r ''transaction_id'' = tx_id tx \<and> evidence_string r ''revision_id'' = tx_revision_id tx \<and>
     evidence_string r ''candidate_hash'' = tx_candidate_hash tx \<and>
     evidence_string r ''artifact_manifest_hash'' = tx_artifact_manifest_hash tx"

text \<open>What the status of the adapter says about the active deployment.\<close>

definition status_matches :: "step_result \<Rightarrow> transaction \<Rightarrow> bool" where
  "status_matches r tx \<longleftrightarrow>
     step_ok r \<and> evidence_string r ''active_revision'' = tx_revision_id tx \<and>
     evidence_string r ''active_transaction'' = tx_id tx \<and>
     evidence_string r ''active_candidate_hash'' = tx_candidate_hash tx \<and>
     evidence_string r ''active_artifact_manifest_hash'' = tx_artifact_manifest_hash tx"

section \<open>Changes and records\<close>

record validation =
  vd_level :: string
  vd_code :: string
  vd_message :: string

text \<open>Operations on the configuration and the diff are lists of \<open>'op\<close> here.\<close>

record 'op change_set =
  ch_id :: string
  ch_state :: string
  ch_title :: string
  ch_description :: string
  ch_base_version :: int
  ch_version :: int
  ch_candidate_version :: int
  ch_candidate_hash :: string
  ch_candidate_path :: string
  ch_artifact_manifest_hash :: string
  ch_artifacts_ready :: bool
  ch_artifact_block_reason :: string
  ch_artifacts_simulation :: bool
  ch_revision_id :: string
  ch_transaction_id :: string
  ch_adapter_status :: string
  ch_commit_phase :: string
  ch_noop :: bool
  ch_operations :: "'op list"
  ch_validation :: "validation list"
  ch_diff :: "'op list"
  ch_steps :: "step_result list"
  ch_management_verified :: bool
  ch_data_plane_verified :: bool
  ch_updated_at :: gotime
  ch_expires_at :: gotime
  ch_author :: string

text \<open>The canonical text of a candidate is a function of its configuration, of type \<open>'cfg\<close>.\<close>

record 'cfg candidate_record =
  cr_change_id :: string
  cr_base_version :: int
  cr_candidate_version :: int
  cr_hash :: string
  cr_artifact_manifest_hash :: string
  cr_artifacts_ready :: bool
  cr_artifact_block_reason :: string
  cr_artifacts_simulation :: bool
  cr_config :: 'cfg
  cr_created_at :: gotime

record transaction_record =
  tr_transaction :: transaction
  tr_state :: string
  tr_commit_phase :: string
  tr_steps :: "step_result list"
  tr_updated_at :: gotime
  tr_completed_at :: "gotime option"

record revision_record =
  rv_revision_id :: string
  rv_kind :: string
  rv_change_id :: string
  rv_transaction_id :: string
  rv_base_version :: int
  rv_version :: int
  rv_candidate_hash :: string
  rv_artifact_manifest_hash :: string
  rv_state :: string
  rv_created_at :: gotime
  rv_committed_at :: "gotime option"

record recovery_status =
  rs_status :: string
  rs_reason_code :: string
  rs_reason :: string
  rs_transaction_id :: string
  rs_revision_id :: string
  rs_candidate_hash :: string
  rs_artifact_manifest_hash :: string
  rs_commit_phase :: string

record action_failure =
  af_status :: int
  af_code :: string
  af_message :: string

definition conflict :: "string \<Rightarrow> string \<Rightarrow> action_failure" where
  "conflict code message = \<lparr>af_status = 409, af_code = code, af_message = message\<rparr>"

definition internal_failure :: "error \<Rightarrow> action_failure" where
  "internal_failure e = \<lparr>af_status = 500, af_code = ''state_store_failed'', af_message = e\<rparr>"

definition recovery_failure :: "string \<Rightarrow> action_failure" where
  "recovery_failure message = \<lparr>af_status = 503, af_code = ''recovery_required'', af_message = message\<rparr>"

definition is_terminal_state :: "string \<Rightarrow> bool" where
  "is_terminal_state s \<longleftrightarrow>
     s \<in> {''committed'', ''rolled_back'', ''failed'', ''rollback_failed'', ''expired'', ''requires_device''}"

definition has_validation_error :: "validation list \<Rightarrow> bool" where
  "has_validation_error vs = list_ex (\<lambda>v. vd_level v = ''error'') vs"

definition validate_transaction_binding :: "'op change_set \<Rightarrow> transaction \<Rightarrow> action_failure option" where
  "validate_transaction_binding cs tx =
     (if tx_id tx = [] \<or> tx_revision_id tx = [] \<or> tx_id tx \<noteq> ch_transaction_id cs \<or>
         tx_revision_id tx \<noteq> ch_revision_id cs \<or> tx_change_id tx \<noteq> ch_id cs
      then Some (conflict ''transaction_binding_mismatch'' ''transaction id or revision id does not match ChangeSet'')
      else if tx_revision_id tx = ''rev-manual'' \<or> tx_candidate_hash tx \<noteq> ch_candidate_hash cs \<or>
              tx_candidate_path tx \<noteq> ch_candidate_path cs \<or>
              tx_artifact_manifest_hash tx \<noteq> ch_artifact_manifest_hash cs \<or>
              tx_artifacts_ready tx \<noteq> ch_artifacts_ready cs \<or>
              tx_artifact_block_reason tx \<noteq> ch_artifact_block_reason cs \<or>
              tx_artifacts_simulation tx \<noteq> ch_artifacts_simulation cs
      then Some (conflict ''transaction_binding_mismatch'' ''transaction metadata does not match candidate'')
      else None)"

definition safe_path_component :: "string \<Rightarrow> bool" where
  "safe_path_component v \<longleftrightarrow> v \<noteq> [] \<and>
     list_all (\<lambda>c. 97 \<le> byte c \<and> byte c \<le> 122 \<or> 65 \<le> byte c \<and> byte c \<le> 90 \<or> 48 \<le> byte c \<and> byte c \<le> 57 \<or>
       c = CHR ''_'' \<or> c = CHR ''-'') v"

definition recovery_target_of :: "transaction \<Rightarrow> recovery_target" where
  "recovery_target_of tx = \<lparr>rt_transaction_id = tx_id tx, rt_revision_id = tx_revision_id tx,
     rt_candidate_hash = tx_candidate_hash tx, rt_artifact_manifest_hash = tx_artifact_manifest_hash tx\<rparr>"

definition recovery_of :: "string \<Rightarrow> string \<Rightarrow> string \<Rightarrow> recovery_target \<Rightarrow> string \<Rightarrow> recovery_status" where
  "recovery_of status code reason target phase = \<lparr>rs_status = status, rs_reason_code = code, rs_reason = reason,
     rs_transaction_id = rt_transaction_id target, rs_revision_id = rt_revision_id target,
     rs_candidate_hash = rt_candidate_hash target, rs_artifact_manifest_hash = rt_artifact_manifest_hash target,
     rs_commit_phase = phase\<rparr>"

definition failed_recovery :: "string \<Rightarrow> string \<Rightarrow> recovery_target \<Rightarrow> recovery_status" where
  "failed_recovery code reason target =
     recovery_of ''error'' code (if reason = [] then ''recovery failed: '' @ code else reason) target []"

definition recovery_required :: "string \<Rightarrow> string \<Rightarrow> recovery_target \<Rightarrow> string \<Rightarrow> recovery_status" where
  "recovery_required code reason target phase = recovery_of ''recovery_required'' code reason target phase"

definition recovery_allows_mutation :: "recovery_status \<Rightarrow> bool" where
  "recovery_allows_mutation s \<longleftrightarrow>
     rs_status s = ''ok'' \<or>
     rs_status s = ''not_required'' \<and> rs_commit_phase s = ''baseline_confirmed'' \<and> rs_revision_id s \<noteq> [] \<and>
     rs_candidate_hash s \<noteq> []"

definition mutation_failure :: "recovery_status \<Rightarrow> action_failure option" where
  "mutation_failure s =
     (if recovery_allows_mutation s then None
      else Some \<lparr>af_status = 503,
        af_code = (if rs_status s = ''recovery_required'' then ''recovery_required'' else ''recovery_not_safe''),
        af_message = (if rs_reason s = [] then ''recovery status \"'' @ rs_status s @ ''\" is not safe for network changes''
                      else rs_reason s)\<rparr>)"

end
