(* ===== verification/Json_Patch.thy ===== *)
theory Json_Patch
  imports State_Store Tx_Types
begin

text \<open>
  The edits of a candidate configuration (\<^verbatim>\<open>internal/api/transaction.go\<close>,
  \<^verbatim>\<open>internal/api/server.go\<close>): decoded JSON values, JSON pointers, the operations of a change,
  the diff between two documents and the construction of a candidate from the active configuration.

  A JSON object is the list of its members in key order: Go maps have no order and the code sorts
  keys before it walks them. A value is what \<^verbatim>\<open>encoding/json\<close> decodes into \<^verbatim>\<open>any\<close>, so
  that a number is a float64 and \<open>J_null\<close> is the nil interface. The typed configuration and its
  JSON form are parameters of \<open>build_candidate\<close>.
\<close>

section \<open>Decoded JSON\<close>

datatype json =
    J_null
  | J_bool bool
  | J_num f64val
  | J_str string
  | J_arr "json list"
  | J_obj "(string \<times> json) list"

record change_op =
  op_type :: string
  op_path :: string
  op_value :: json
  op_before :: json

section \<open>Pointers\<close>

text \<open>\<^verbatim>\<open>strings.ReplaceAll\<close> with a pattern of one or of two bytes.\<close>

fun replace_byte :: "char \<Rightarrow> string \<Rightarrow> string \<Rightarrow> string" where
  "replace_byte a r [] = []"
| "replace_byte a r (c # s) = (if c = a then r @ replace_byte a r s else c # replace_byte a r s)"

fun replace_pair :: "char \<Rightarrow> char \<Rightarrow> string \<Rightarrow> string \<Rightarrow> string" where
  "replace_pair a b r [] = []"
| "replace_pair a b r [c] = [c]"
| "replace_pair a b r (c # d # s) =
     (if c = a \<and> d = b then r @ replace_pair a b r s else c # replace_pair a b r (d # s))"

definition escape_json_pointer :: "string \<Rightarrow> string" where
  "escape_json_pointer v = replace_byte (CHR ''/'') ''~1'' (replace_byte (CHR ''~'') ''~0'' v)"

text \<open>\<^verbatim>\<open>url.PathUnescape\<close>; the quoted text of the error is shown as it is.\<close>

fun path_unescape :: "string \<Rightarrow> string result" where
  "path_unescape [] = Inr []"
| "path_unescape (c # s) =
     (if c \<noteq> CHR ''%'' then map_sum id (\<lambda>t. c # t) (path_unescape s)
      else case s of
        h # l # rest \<Rightarrow>
          (case (hex_digit h, hex_digit l) of
             (Some x, Some y) \<Rightarrow> map_sum id (\<lambda>t. char_of (16 * x + y) # t) (path_unescape rest)
           | _ \<Rightarrow> Inl (''invalid URL escape \"'' @ take 3 (c # s) @ ''\"''))
      | _ \<Rightarrow> Inl (''invalid URL escape \"'' @ take 3 (c # s) @ ''\"''))"

definition unescape_segment :: "string \<Rightarrow> string result" where
  "unescape_segment part =
     path_unescape (replace_pair (CHR ''~'') (CHR ''0'') ''~'' (replace_pair (CHR ''~'') (CHR ''1'') ''/'' part))"

fun unescape_segments :: "string list \<Rightarrow> string list result" where
  "unescape_segments [] = Inr []"
| "unescape_segments (p # ps) =
     (case unescape_segment p of
        Inl e \<Rightarrow> Inl e
      | Inr u \<Rightarrow> map_sum id (\<lambda>us. u # us) (unescape_segments ps))"

definition split_json_pointer :: "string \<Rightarrow> string list result" where
  "split_json_pointer path =
     (if \<not> has_prefix path ''/'' then Inl ''path must start with /''
      else unescape_segments (split_on (CHR ''/'') (drop 1 path)))"

text \<open>\<^verbatim>\<open>strconv.Atoi\<close>: an optional sign and digits, in the range of a 64-bit integer.\<close>

definition digits_value :: "string \<Rightarrow> int option" where
  "digits_value s =
     (if s \<noteq> [] \<and> list_all (\<lambda>c. 48 \<le> byte c \<and> byte c \<le> 57) s
      then Some (int (foldl (\<lambda>n c. 10 * n + (byte c - 48)) 0 s)) else None)"

definition atoi :: "string \<Rightarrow> int option" where
  "atoi s =
     (let (negative, digits) =
        (case s of c # t \<Rightarrow> (if c = CHR ''-'' then (True, t) else if c = CHR ''+'' then (False, t) else (False, s))
         | [] \<Rightarrow> (False, s))
      in case digits_value digits of
           None \<Rightarrow> None
         | Some n \<Rightarrow> (let v = (if negative then - n else n) in
             if - (2 ^ 63) \<le> v \<and> v < 2 ^ 63 then Some v else None))"

text \<open>The element of an array a path segment names.\<close>

definition array_index :: "json list \<Rightarrow> string \<Rightarrow> nat result" where
  "array_index xs key =
     (case atoi key of
        None \<Rightarrow> Inl ''array index required''
      | Some idx \<Rightarrow> (if idx < 0 \<or> int (length xs) \<le> idx then Inl ''array index out of range''
                     else Inr (nat idx)))"

fun pointer_parent :: "json \<Rightarrow> string list \<Rightarrow> json result" where
  "pointer_parent cur [] = Inr cur"
| "pointer_parent cur (part # parts) =
     (case cur of
        J_obj m \<Rightarrow> (case map_of m part of
            None \<Rightarrow> Inl (''path segment does not exist: '' @ part)
          | Some child \<Rightarrow> pointer_parent child parts)
      | J_arr xs \<Rightarrow> (case array_index xs part of
            Inl e \<Rightarrow> Inl e
          | Inr i \<Rightarrow> pointer_parent (xs ! i) parts)
      | _ \<Rightarrow> Inl (''path segment is not a container: '' @ part))"

section \<open>Operations\<close>

text \<open>
  The code changes the parent in place. Here \<open>edit_parent\<close> gives the changed parent and
  \<open>replace_at\<close> the document with it in the place of the old one.
\<close>

definition edit_parent :: "change_op \<Rightarrow> string \<Rightarrow> json \<Rightarrow> json result" where
  "edit_parent op key parent =
     (case parent of
        J_obj p \<Rightarrow>
          (if op_type op = ''delete''
           then (if map_of p key = None then Inl ''delete target does not exist''
                 else Inr (J_obj (bucket_delete key p)))
           else if op_type op = ''update'' \<and> map_of p key = None then Inl ''update target does not exist''
           else if op_type op = ''add'' \<and> map_of p key \<noteq> None then Inl ''add target already exists''
           else Inr (J_obj (bucket_put key (op_value op) p)))
      | J_arr xs \<Rightarrow>
          (if op_type op = ''add'' \<or> op_type op = ''delete'' then Inl ''array add/delete is not supported''
           else case array_index xs key of
             Inl e \<Rightarrow> Inl e
           | Inr i \<Rightarrow> Inr (J_arr (xs[i := op_value op])))
      | _ \<Rightarrow> Inl ''parent is not editable'')"

fun replace_at :: "json \<Rightarrow> string list \<Rightarrow> json \<Rightarrow> json" where
  "replace_at cur [] new = new"
| "replace_at cur (part # parts) new =
     (case cur of
        J_obj m \<Rightarrow> (case map_of m part of
            None \<Rightarrow> cur
          | Some child \<Rightarrow> J_obj (bucket_put part (replace_at child parts new) m))
      | J_arr xs \<Rightarrow> (case array_index xs part of
            Inl e \<Rightarrow> cur
          | Inr i \<Rightarrow> J_arr (xs[i := replace_at (xs ! i) parts new]))
      | _ \<Rightarrow> cur)"

text \<open>\<open>apply_parts\<close> is the operation once its path is split; the root must have the first segment.\<close>

definition apply_parts :: "json \<Rightarrow> change_op \<Rightarrow> string list \<Rightarrow> json result" where
  "apply_parts candidate op parts =
     (if parts = [] then Inl ''empty path''
      else if (case candidate of J_obj m \<Rightarrow> map_of m (hd parts) = None | _ \<Rightarrow> True)
      then Inl ''path is outside typed config model''
      else case pointer_parent candidate (butlast parts) of
        Inl e \<Rightarrow> Inl e
      | Inr parent \<Rightarrow>
          (case edit_parent op (last parts) parent of
             Inl e \<Rightarrow> Inl e
           | Inr new \<Rightarrow> Inr (replace_at candidate (butlast parts) new)))"

definition apply_config_operation :: "json \<Rightarrow> change_op \<Rightarrow> json result" where
  "apply_config_operation candidate op =
     (case split_json_pointer (op_path op) of
        Inl e \<Rightarrow> Inl e
      | Inr parts \<Rightarrow> apply_parts candidate op parts)"

definition supported_operation :: "string \<Rightarrow> bool" where
  "supported_operation t \<longleftrightarrow> t = ''set'' \<or> t = ''add'' \<or> t = ''update'' \<or> t = ''delete''"

definition operation_root_allowed :: "string \<Rightarrow> bool" where
  "operation_root_allowed path =
     (case split_json_pointer path of
        Inl e \<Rightarrow> False
      | Inr [] \<Rightarrow> False
      | Inr (seg # rest) \<Rightarrow>
          (if seg \<in> {''policy'', ''routes'', ''services'', ''overrides''} then True
           else if seg = ''storage'' then rest \<in> {[''state_dir''], [''database'']}
           else if seg = ''xray''
           then rest \<in> {[''outbound_bundle_sha256''], [''activation_mode''], [''subscription_secret_file''],
                        [''last_good_config'']}
           else if seg = ''zapret''
           then rest \<in> {[''activation_mode''], [''provider_source''], [''provider_version''], [''binary_sha256''],
                        [''adaptive_enabled''], [''adaptive_catalog_file''], [''adaptive_assignments'']}
           else if seg = ''openwrt'' then rest = [''flow_offloading_policy'']
           else if seg = ''geoip'' then rest = [''database'']
           else False))"

section \<open>Diff\<close>

text \<open>Both member lists are in key order, so one pass over them visits the sorted union of the keys.\<close>

function diff_json :: "json \<Rightarrow> json \<Rightarrow> string \<Rightarrow> change_op list"
  and diff_members :: "(string \<times> json) list \<Rightarrow> (string \<times> json) list \<Rightarrow> string \<Rightarrow> change_op list" where
  "diff_json before after path =
     (if before = after then []
      else case (before, after) of
        (J_obj bm, J_obj am) \<Rightarrow> diff_members bm am path
      | _ \<Rightarrow> [\<lparr>op_type = ''update'', op_path = path, op_value = after, op_before = before\<rparr>])"
| "diff_members [] [] path = []"
| "diff_members [] ((k, av) # am) path =
     \<lparr>op_type = ''add'', op_path = path @ ''/'' @ escape_json_pointer k, op_value = av, op_before = J_null\<rparr>
     # diff_members [] am path"
| "diff_members ((k, bv) # bm) [] path =
     \<lparr>op_type = ''delete'', op_path = path @ ''/'' @ escape_json_pointer k, op_value = J_null, op_before = bv\<rparr>
     # diff_members bm [] path"
| "diff_members ((k, bv) # bm) ((k', av) # am) path =
     (if k = k' then diff_json bv av (path @ ''/'' @ escape_json_pointer k) @ diff_members bm am path
      else if k < k' then
        \<lparr>op_type = ''delete'', op_path = path @ ''/'' @ escape_json_pointer k, op_value = J_null, op_before = bv\<rparr>
        # diff_members bm ((k', av) # am) path
      else
        \<lparr>op_type = ''add'', op_path = path @ ''/'' @ escape_json_pointer k', op_value = av, op_before = J_null\<rparr>
        # diff_members ((k, bv) # bm) am path)"
  by pat_completeness auto
termination
  by (relation "measure (\<lambda>x. case x of
       Inl (b, a, p) \<Rightarrow> size b + size a
     | Inr (bm, am, p) \<Rightarrow> size_list (size_prod (\<lambda>_. 0) size) bm + size_list (size_prod (\<lambda>_. 0) size) am)") auto

section \<open>Candidates\<close>

text \<open>
  The value of an operation is put into the document by reference, so that a later operation that
  edits below it edits the value of the earlier operation too, and with it the change that holds the
  operations. \<open>ps_done\<close> keeps, with each processed operation, where its value sits in the
  document; \<open>settle_alias\<close> is what an edit at \<open>q\<close> does to the value at \<open>p\<close>.
\<close>

record patch_state =
  ps_candidate :: json
  ps_done :: "(string list option \<times> change_op) list"
  ps_validations :: "validation list"

fun canonical_parts :: "json \<Rightarrow> string list \<Rightarrow> string list" where
  "canonical_parts cur [] = []"
| "canonical_parts cur (part # parts) =
     (case cur of
        J_obj m \<Rightarrow> part # (case map_of m part of None \<Rightarrow> parts | Some child \<Rightarrow> canonical_parts child parts)
      | J_arr xs \<Rightarrow> (case array_index xs part of
            Inl e \<Rightarrow> part # parts
          | Inr i \<Rightarrow> nat_dec i # canonical_parts (xs ! i) parts)
      | _ \<Rightarrow> part # parts)"

definition is_container :: "json \<Rightarrow> bool" where
  "is_container j = (case j of J_arr xs \<Rightarrow> True | J_obj m \<Rightarrow> True | _ \<Rightarrow> False)"

definition settle_alias ::
    "json \<Rightarrow> string list \<Rightarrow> string list option \<times> change_op \<Rightarrow> string list option \<times> change_op" where
  "settle_alias candidate q x =
     (case x of
        (None, op) \<Rightarrow> (None, op)
      | (Some p, op) \<Rightarrow>
          (if take (length q) p = q then (None, op)
           else if take (length p) q = p
           then (Some p, op\<lparr>op_value := (case pointer_parent candidate p of Inr v \<Rightarrow> v | Inl e \<Rightarrow> op_value op)\<rparr>)
           else (Some p, op)))"

definition skip_operation :: "patch_state \<Rightarrow> change_op \<Rightarrow> string \<Rightarrow> string \<Rightarrow> patch_state" where
  "skip_operation s op code message =
     s\<lparr>ps_done := ps_done s @ [(None, op)],
       ps_validations := ps_validations s @ [\<lparr>vd_level = ''error'', vd_code = code, vd_message = message\<rparr>]\<rparr>"

definition apply_operation :: "patch_state \<Rightarrow> change_op \<Rightarrow> patch_state" where
  "apply_operation s op =
     (if \<not> supported_operation (op_type op)
      then skip_operation s op ''operation_type_denied'' (''unsupported operation: '' @ op_type op)
      else if \<not> operation_root_allowed (op_path op)
      then skip_operation s op ''operation_path_denied''
             (''immutable or unsupported config path: '' @ op_path op)
      else if op_type op \<noteq> ''delete'' \<and> op_value op = J_null
      then skip_operation s op ''operation_value_required'' (op_path op)
      else case apply_config_operation (ps_candidate s) op of
        Inl e \<Rightarrow> skip_operation s op ''operation_not_applied'' (op_path op @ '': '' @ e)
      | Inr candidate \<Rightarrow>
          (let q = canonical_parts (ps_candidate s)
                     (case split_json_pointer (op_path op) of Inr parts \<Rightarrow> parts | Inl e \<Rightarrow> []) in
           s\<lparr>ps_candidate := candidate,
             ps_done := map (settle_alias candidate q) (ps_done s) @
               [(if op_type op \<noteq> ''delete'' \<and> is_container (op_value op) then Some q else None, op)]\<rparr>))"

text \<open>
  The candidate, its diff against the active configuration, the findings, and the operations as the
  edits left their values. The canonical text is the JSON form of the candidate.
\<close>

record 'cfg build_result =
  br_candidate :: "'cfg option"
  br_diff :: "change_op list"
  br_validations :: "validation list"
  br_operations :: "change_op list"

definition build_error :: "validation list \<Rightarrow> string \<Rightarrow> string \<Rightarrow> change_op list \<Rightarrow> 'cfg build_result" where
  "build_error vs code message ops =
     \<lparr>br_candidate = None, br_diff = [],
      br_validations = vs @ [\<lparr>vd_level = ''error'', vd_code = code, vd_message = message\<rparr>], br_operations = ops\<rparr>"

definition build_candidate ::
    "('cfg \<Rightarrow> json) \<Rightarrow> (json \<Rightarrow> 'cfg result) \<Rightarrow> ('cfg \<Rightarrow> error option) \<Rightarrow> 'cfg option \<Rightarrow> change_op list \<Rightarrow>
       'cfg build_result" where
  "build_candidate to_json of_json check active operations =
     (case active of
        None \<Rightarrow> build_error [] ''active_config_missing'' ''active config is missing'' operations
      | Some config \<Rightarrow>
     (if operations = []
      then build_error [] ''empty_operations'' ''at least one operation is required'' operations
      else
        let s = foldl apply_operation
                  \<lparr>ps_candidate = to_json config, ps_done = [], ps_validations = []\<rparr> operations;
            ops = map snd (ps_done s); vs = ps_validations s in
        if has_validation_error vs
        then \<lparr>br_candidate = None, br_diff = [], br_validations = vs, br_operations = ops\<rparr>
        else case of_json (ps_candidate s) of
          Inl e \<Rightarrow> build_error vs ''candidate_type_failed'' e ops
        | Inr typed \<Rightarrow>
            (case check typed of
               Some e \<Rightarrow> build_error vs ''candidate_semantic_failed'' e ops
             | None \<Rightarrow>
                 (let diff = diff_json (to_json config) (to_json typed) [] in
                  if diff = []
                  then \<lparr>br_candidate = Some typed, br_diff = [],
                        br_validations = vs @ [\<lparr>vd_level = ''error'', vd_code = ''candidate_noop'',
                          vd_message = ''operations produced no config change''\<rparr>], br_operations = ops\<rparr>
                  else \<lparr>br_candidate = Some typed, br_diff = diff,
                        br_validations = vs @ [\<lparr>vd_level = ''info'', vd_code = ''candidate_semantic_ok'',
                          vd_message = ''all operations were applied and the full typed candidate validates''\<rparr>],
                        br_operations = ops\<rparr>))))"

section \<open>Pointers round trip\<close>

lemma replace_pair_skip: "c \<noteq> a \<Longrightarrow> replace_pair a b r (c # s) = c # replace_pair a b r s"
  by (cases s) auto

lemma unescape_slash:
  "replace_pair (CHR ''~'') (CHR ''1'') ''/'' (escape_json_pointer s) = replace_byte (CHR ''~'') ''~0'' s"
  unfolding escape_json_pointer_def by (induction s) (auto simp: replace_pair_skip)

lemma unescape_tilde:
  "replace_pair (CHR ''~'') (CHR ''0'') ''~'' (replace_byte (CHR ''~'') ''~0'' s) = s"
  by (induction s) (auto simp: replace_pair_skip)

lemma path_unescape_plain: "CHR ''%'' \<notin> set s \<Longrightarrow> path_unescape s = Inr s"
  by (induction s) auto

lemma unescape_segment_escape: "CHR ''%'' \<notin> set k \<Longrightarrow> unescape_segment (escape_json_pointer k) = Inr k"
  unfolding unescape_segment_def by (simp add: unescape_slash unescape_tilde path_unescape_plain)

lemma escape_no_slash: "CHR ''/'' \<notin> set (escape_json_pointer k)"
  unfolding escape_json_pointer_def by (induction k) auto

lemma split_on_append: "d \<notin> set u \<Longrightarrow> split_on d (u @ d # v) = u # split_on d v"
  by (induction u) auto

lemma split_on_single: "d \<notin> set u \<Longrightarrow> split_on d u = [u]"
  by (induction u) auto

text \<open>The pointer \<open>diff_json\<close> builds for a path of keys.\<close>

definition pointer_of :: "string list \<Rightarrow> string" where
  "pointer_of ks = concat (map (\<lambda>k. ''/'' @ escape_json_pointer k) ks)"

lemma pointer_of_snoc: "pointer_of (ks @ [k]) = pointer_of ks @ ''/'' @ escape_json_pointer k"
  unfolding pointer_of_def by simp

lemma pointer_of_Cons: "pointer_of (k # ks) = CHR ''/'' # escape_json_pointer k @ pointer_of ks"
  unfolding pointer_of_def by simp

lemma split_pointer_of:
  "split_on (CHR ''/'') (escape_json_pointer k @ pointer_of ks) = map escape_json_pointer (k # ks)"
proof (induction ks arbitrary: k)
  case Nil
  then show ?case by (simp add: pointer_of_def split_on_single escape_no_slash)
next
  case (Cons k' ks)
  then show ?case by (simp add: pointer_of_Cons split_on_append escape_no_slash)
qed

lemma unescape_segments_escape:
  "\<forall>k\<in>set ks. CHR ''%'' \<notin> set k \<Longrightarrow> unescape_segments (map escape_json_pointer ks) = Inr ks"
  by (induction ks) (auto simp: unescape_segment_escape)

lemma split_json_pointer_of:
  assumes "ks \<noteq> []" "\<forall>k\<in>set ks. CHR ''%'' \<notin> set k"
  shows "split_json_pointer (pointer_of ks) = Inr ks"
proof (cases ks)
  case (Cons k rest)
  with assms(2) show ?thesis
    unfolding split_json_pointer_def
    by (simp add: pointer_of_Cons has_prefix_def split_pointer_of unescape_segments_escape
        unescape_segment_escape)
qed (use assms in simp)

section \<open>Replacing along a path of objects\<close>

fun object_path :: "json \<Rightarrow> string list \<Rightarrow> bool" where
  "object_path d [] = True"
| "object_path d (k # ks) =
     (case d of J_obj m \<Rightarrow> (case map_of m k of None \<Rightarrow> False | Some c \<Rightarrow> object_path c ks) | _ \<Rightarrow> False)"

lemma bucket_put_twice: "bucket_put k v (bucket_put k u b) = bucket_put k v b"
  by (induction k u b rule: bucket_put.induct) auto

lemma object_path_replace:
  "object_path d ks \<Longrightarrow> pointer_parent (replace_at d ks x) ks = Inr x \<and> object_path (replace_at d ks x) ks"
  by (induction d ks rule: object_path.induct)
    (auto simp: map_of_bucket_put split: json.splits option.splits)

lemma replace_at_snoc:
  "object_path d ks \<Longrightarrow> replace_at (replace_at d ks x) (ks @ [k]) y = replace_at d ks (replace_at x [k] y)"
  by (induction d ks rule: object_path.induct)
    (auto simp: map_of_bucket_put bucket_put_twice split: json.splits option.splits)

lemma pointer_parent_snoc:
  "object_path d ks \<Longrightarrow> pointer_parent (replace_at d ks x) (ks @ [k]) = pointer_parent x [k]"
  by (induction d ks rule: object_path.induct)
    (auto simp: map_of_bucket_put split: json.splits option.splits)

lemma replace_at_twice: "object_path d ks \<Longrightarrow> replace_at (replace_at d ks x) ks y = replace_at d ks y"
  by (induction d ks rule: object_path.induct)
    (auto simp: map_of_bucket_put bucket_put_twice split: json.splits option.splits)

lemma object_path_snoc:
  "object_path d ks \<Longrightarrow> map_of m k = Some v \<Longrightarrow> object_path (replace_at d ks (J_obj m)) (ks @ [k])"
  by (induction d ks rule: object_path.induct)
    (auto simp: map_of_bucket_put split: json.splits option.splits)

lemma object_path_root:
  "object_path d (k # ks) \<Longrightarrow> \<exists>m c. replace_at d (k # ks) x = J_obj m \<and> map_of m k = Some c"
  by (auto simp: map_of_bucket_put split: json.splits option.splits)

text \<open>An operation whose path is the one of a member of the object at \<open>ks\<close> edits that object.\<close>

lemma apply_at:
  assumes path: "object_path d ks" and split: "split_json_pointer (op_path op) = Inr (ks @ [k])"
    and root: "ks = [] \<longrightarrow> map_of m k \<noteq> None"
  shows "apply_config_operation (replace_at d ks (J_obj m)) op =
    map_sum id (replace_at d ks) (edit_parent op k (J_obj m))"
proof -
  have hd: "(case replace_at d ks (J_obj m) of J_obj m' \<Rightarrow> map_of m' (hd (ks @ [k])) = None | _ \<Rightarrow> True) = False"
    using root object_path_root [of d "hd ks" "tl ks" "J_obj m"] path by (cases ks) auto
  show ?thesis
    unfolding apply_config_operation_def apply_parts_def split
    using object_path_replace [OF path] hd
    by (simp add: replace_at_twice [OF path] split: sum.splits)
qed

section \<open>Replaying a diff\<close>

fun apply_all :: "json \<Rightarrow> change_op list \<Rightarrow> json result" where
  "apply_all d [] = Inr d"
| "apply_all d (op # ops) =
     (case apply_config_operation d op of Inl e \<Rightarrow> Inl e | Inr d' \<Rightarrow> apply_all d' ops)"

text \<open>Objects in key order, with no percent sign in a key.\<close>

fun plain_json :: "json \<Rightarrow> bool" where
  "plain_json (J_obj m) =
     (sorted_wrt (<) (map fst m) \<and> list_all (\<lambda>(k, v). CHR ''%'' \<notin> set k \<and> plain_json v) m)"
| "plain_json j = True"

lemma apply_all_append:
  "apply_all d (xs @ ys) = (case apply_all d xs of Inl e \<Rightarrow> Inl e | Inr d' \<Rightarrow> apply_all d' ys)"
  by (induction xs arbitrary: d) (auto split: sum.splits)

lemma bucket_put_middle:
  "\<forall>x\<in>fst ` set dn. x < k \<Longrightarrow> \<forall>x\<in>fst ` set b. k < x \<Longrightarrow> bucket_put k v (dn @ b) = dn @ (k, v) # b"
proof (induction dn)
  case Nil
  then show ?case by (cases b) auto
qed fastforce

lemma bucket_put_same:
  "\<forall>x\<in>fst ` set dn. x < k \<Longrightarrow> bucket_put k v (dn @ (k, u) # b) = dn @ (k, v) # b"
  by (induction dn) fastforce+

lemma bucket_delete_middle:
  "\<forall>x\<in>fst ` set dn. x < k \<Longrightarrow> \<forall>x\<in>fst ` set b. k < x \<Longrightarrow> bucket_delete k (dn @ (k, u) # b) = dn @ b"
proof -
  assume "\<forall>x\<in>fst ` set dn. x < k" "\<forall>x\<in>fst ` set b. k < x"
  then have "filter (\<lambda>(k', v). k' \<noteq> k) dn = dn" "filter (\<lambda>(k', v). k' \<noteq> k) b = b"
    by (auto simp: filter_id_conv)
  then show ?thesis unfolding bucket_delete_def by simp
qed

lemma map_of_fresh: "k \<notin> fst ` set m \<Longrightarrow> map_of m k = None"
  by (simp add: map_of_eq_None_iff)

lemma sorted_middle:
  assumes "sorted_wrt (<) (map fst (dn @ (k, v) # b))"
  shows "\<forall>x\<in>fst ` set dn. x < k" "\<forall>x\<in>fst ` set b. k < x" "sorted_wrt (<) (map fst (dn @ b))"
  using assms by (auto simp: sorted_wrt_append)

text \<open>One step of the replay for each kind of entry of the diff.\<close>

lemma split_member:
  assumes "\<forall>k\<in>set ks. CHR ''%'' \<notin> set k" "CHR ''%'' \<notin> set k"
  shows "split_json_pointer (pointer_of ks @ ''/'' @ escape_json_pointer k) = Inr (ks @ [k])"
  unfolding pointer_of_snoc [symmetric] using assms by (intro split_json_pointer_of) auto

lemma apply_member:
  assumes "object_path d ks" "\<forall>k\<in>set ks. CHR ''%'' \<notin> set k" "CHR ''%'' \<notin> set k"
    "ks = [] \<longrightarrow> map_of m k \<noteq> None" "op_path op = pointer_of ks @ ''/'' @ escape_json_pointer k"
  shows "apply_config_operation (replace_at d ks (J_obj m)) op =
    map_sum id (replace_at d ks) (edit_parent op k (J_obj m))"
  using assms split_member [of ks k] by (intro apply_at) simp_all

lemma object_path_parent:
  "object_path d (ks @ [k]) \<Longrightarrow> \<exists>m. object_path d ks \<and> map_of m k \<noteq> None \<and>
     (\<forall>x. replace_at d (ks @ [k]) x = replace_at d ks (J_obj (bucket_put k x m)))"
proof (induction ks arbitrary: d)
  case Nil
  then show ?case by (auto split: json.splits option.splits)
next
  case (Cons k' ks)
  then obtain m c where d: "d = J_obj m" "map_of m k' = Some c" "object_path c (ks @ [k])"
    by (auto split: json.splits option.splits)
  from Cons.IH [OF d(3)] show ?case using d by auto
qed

lemma replay_update:
  assumes "ks \<noteq> []" "\<forall>k\<in>set ks. CHR ''%'' \<notin> set k" "object_path d ks"
  shows "apply_config_operation (replace_at d ks b)
    \<lparr>op_type = ''update'', op_path = pointer_of ks, op_value = a, op_before = b\<rparr> = Inr (replace_at d ks a)"
proof -
  obtain ks' k where ks: "ks = ks' @ [k]" using assms(1) by (metis rev_exhaust)
  then obtain m where m: "object_path d ks'" "map_of m k \<noteq> None"
      "\<And>x. replace_at d ks x = replace_at d ks' (J_obj (bucket_put k x m))"
    using object_path_parent assms(3) by blast
  have "apply_config_operation (replace_at d ks' (J_obj (bucket_put k b m)))
      \<lparr>op_type = ''update'', op_path = pointer_of ks, op_value = a, op_before = b\<rparr> =
    map_sum id (replace_at d ks')
      (edit_parent \<lparr>op_type = ''update'', op_path = pointer_of ks, op_value = a, op_before = b\<rparr> k
        (J_obj (bucket_put k b m)))"
    using assms(2) m ks by (intro apply_member) (auto simp: map_of_bucket_put pointer_of_snoc)
  then show ?thesis
    unfolding m(3) by (simp add: edit_parent_def map_of_bucket_put bucket_put_twice)
qed

lemma plain_obj_Cons:
  "plain_json (J_obj (dn @ (k, v) # m)) \<Longrightarrow>
     CHR ''%'' \<notin> set k \<and> plain_json v \<and> plain_json (J_obj (dn @ m)) \<and>
     (\<forall>x\<in>fst ` set dn. x < k) \<and> (\<forall>x\<in>fst ` set m. k < x)"
  by (auto simp: sorted_wrt_append)

lemma plain_obj_snoc:
  assumes "plain_json (J_obj (dn @ (k, av) # am))" "plain_json (J_obj (dn @ bm))" "\<forall>x\<in>fst ` set bm. k < x"
  shows "plain_json (J_obj (dn @ (k, av) # bm))"
  using assms by (auto simp: sorted_wrt_append)

lemma replay_delete:
  assumes "object_path d ks" "\<forall>k\<in>set ks. CHR ''%'' \<notin> set k" "plain_json (J_obj (dn @ (k, bv) # m))"
  shows "apply_config_operation (replace_at d ks (J_obj (dn @ (k, bv) # m)))
    \<lparr>op_type = ''delete'', op_path = pointer_of ks @ ''/'' @ escape_json_pointer k, op_value = v, op_before = b\<rparr> =
    Inr (replace_at d ks (J_obj (dn @ m)))"
proof -
  have k: "map_of (dn @ (k, bv) # m) k \<noteq> None" by (auto simp: map_add_def split: option.splits)
  note p = plain_obj_Cons [OF assms(3)]
  show ?thesis
    using apply_member [OF assms(1,2), of k "dn @ (k, bv) # m"] p k
    by (simp add: edit_parent_def bucket_delete_middle del: map_of_append)
qed

lemma replay_add:
  assumes "object_path d ks" "ks \<noteq> []" "\<forall>k\<in>set ks. CHR ''%'' \<notin> set k"
    "plain_json (J_obj (dn @ (k, av) # am))" "plain_json (J_obj (dn @ m))" "\<forall>x\<in>fst ` set m. k < x"
  shows "apply_config_operation (replace_at d ks (J_obj (dn @ m)))
    \<lparr>op_type = ''add'', op_path = pointer_of ks @ ''/'' @ escape_json_pointer k, op_value = av, op_before = b\<rparr> =
    Inr (replace_at d ks (J_obj (dn @ (k, av) # m)))"
proof -
  note p = plain_obj_Cons [OF assms(4)]
  have k: "map_of (dn @ m) k = None"
    using p assms(6) by (auto simp: map_of_eq_None_iff simp del: map_of_append)
  show ?thesis
    using apply_member [OF assms(1,3), of k "dn @ m"] p k assms(2,6)
    by (simp add: edit_parent_def bucket_put_middle del: map_of_append)
qed

lemma map_of_middle: "\<forall>x\<in>fst ` set dn. x < k \<Longrightarrow> map_of (dn @ (k, v) # m) k = Some v" for k :: string
  by (induction dn) auto

lemma object_path_member:
  "object_path d ks \<Longrightarrow> \<forall>x\<in>fst ` set dn. x < k \<Longrightarrow>
     object_path (replace_at d ks (J_obj (dn @ (k, v) # m))) (ks @ [k])"
  by (rule object_path_snoc) (auto simp: map_of_middle simp del: map_of_append)

lemma replace_member:
  assumes "object_path d ks" "\<forall>x\<in>fst ` set dn. x < k"
  shows "replace_at (replace_at d ks (J_obj (dn @ (k, v) # m))) (ks @ [k]) x =
    replace_at d ks (J_obj (dn @ (k, x) # m))"
  using assms map_of_middle [OF assms(2)]
  by (simp add: replace_at_snoc [OF assms(1)] bucket_put_same del: map_of_append)

lemma diff_replay:
  "\<lbrakk>path = pointer_of ks; ks \<noteq> []; \<forall>k\<in>set ks. CHR ''%'' \<notin> set k; object_path d ks; plain_json b;
    plain_json a\<rbrakk> \<Longrightarrow>
     apply_all (replace_at d ks b) (diff_json b a path) = Inr (replace_at d ks a)"
  "\<lbrakk>path = pointer_of ks; ks = [] \<longrightarrow> map fst bm = map fst am; \<forall>k\<in>set ks. CHR ''%'' \<notin> set k;
    object_path d ks; plain_json (J_obj (dn @ bm)); plain_json (J_obj (dn @ am))\<rbrakk> \<Longrightarrow>
     apply_all (replace_at d ks (J_obj (dn @ bm))) (diff_members bm am path) =
       Inr (replace_at d ks (J_obj (dn @ am)))"
proof (induction b a path and bm am path arbitrary: d ks and d ks dn rule: diff_json_diff_members.induct)
  case (1 before after path)
  show ?case
  proof (cases "\<exists>bm am. before = J_obj bm \<and> after = J_obj am \<and> before \<noteq> after")
    case True
    then obtain bm am where e: "before = J_obj bm" "after = J_obj am" "before \<noteq> after" by blast
    have "apply_all (replace_at d ks (J_obj ([] @ bm))) (diff_members bm am path) =
        Inr (replace_at d ks (J_obj ([] @ am)))"
      using 1(2-) e by (intro "1.IH") simp_all
    with e show ?thesis by simp
  next
    case False
    then show ?thesis using 1(2-) replay_update [of ks d before after]
      by (auto simp del: replace_at.simps split: json.splits)
  qed
next
  case (2 path)
  then show ?case by simp
next
  case (3 k av am path)
  then have "ks \<noteq> []" by auto
  note step = replay_add [OF 3(5) this 3(4) 3(7) 3(6)]
  have "apply_all (replace_at d ks (J_obj ((dn @ [(k, av)]) @ []))) (diff_members [] am path) =
      Inr (replace_at d ks (J_obj ((dn @ [(k, av)]) @ am)))"
    using 3(2-) \<open>ks \<noteq> []\<close> plain_obj_snoc [OF 3(7) 3(6)] by (intro "3.IH") simp_all
  with step 3(2) show ?case by simp
next
  case (4 k bv bm path)
  then have "ks \<noteq> []" by auto
  note step = replay_delete [OF 4(5,4) 4(6)]
  have "apply_all (replace_at d ks (J_obj (dn @ bm))) (diff_members bm [] path) =
      Inr (replace_at d ks (J_obj (dn @ [])))"
    using 4(2-) \<open>ks \<noteq> []\<close> plain_obj_Cons [OF 4(6)] by (intro "4.IH") simp_all
  with step 4(2) show ?case by simp
next
  case (5 k bv bm k' av am path)
  note pb = plain_obj_Cons [OF 5(9)] and pa = plain_obj_Cons [OF 5(10)]
  consider (same) "k = k'" | (less) "k < k'" | (greater) "k' < k" using less_linear by blast
  then show ?case
  proof cases
    case same
    have s: "\<forall>x\<in>fst ` set dn. x < k" using pb by blast
    have "apply_all (replace_at (replace_at d ks (J_obj (dn @ (k, bv) # bm))) (ks @ [k]) bv)
        (diff_json bv av (path @ ''/'' @ escape_json_pointer k)) =
      Inr (replace_at (replace_at d ks (J_obj (dn @ (k, bv) # bm))) (ks @ [k]) av)"
      using 5(5-) same pa pb by (intro "5.IH"(1)) (auto simp: pointer_of_snoc intro!: object_path_member)
    then have one: "apply_all (replace_at d ks (J_obj (dn @ (k, bv) # bm)))
        (diff_json bv av (path @ ''/'' @ escape_json_pointer k)) =
      Inr (replace_at d ks (J_obj (dn @ (k, av) # bm)))"
      by (simp only: replace_member [OF 5(8) s])
    have "apply_all (replace_at d ks (J_obj ((dn @ [(k, av)]) @ bm))) (diff_members bm am path) =
        Inr (replace_at d ks (J_obj ((dn @ [(k, av)]) @ am)))"
      using 5(5-) same plain_obj_snoc [OF 5(10), of bm] pb by (intro "5.IH"(2)) simp_all
    with one same show ?thesis by (simp add: apply_all_append)
  next
    case less
    then have ne: "ks \<noteq> []" using 5(6) by auto
    note step = replay_delete [OF 5(8,7) 5(9)]
    have "apply_all (replace_at d ks (J_obj (dn @ bm))) (diff_members bm ((k', av) # am) path) =
        Inr (replace_at d ks (J_obj (dn @ (k', av) # am)))"
      using 5(5-) less ne pb by (intro "5.IH"(3)) simp_all
    with step 5(5) less less_imp_neq [OF less] show ?thesis by simp
  next
    case greater
    then have ne: "ks \<noteq> []" using 5(6) by auto
    have above: "\<forall>x\<in>fst ` set ((k, bv) # bm). k' < x" using greater pb by (auto intro: less_trans)
    note step = replay_add [OF 5(8) ne 5(7) 5(10) 5(9) above]
    have "apply_all (replace_at d ks (J_obj ((dn @ [(k', av)]) @ (k, bv) # bm)))
        (diff_members ((k, bv) # bm) am path) =
        Inr (replace_at d ks (J_obj ((dn @ [(k', av)]) @ am)))"
      using 5(5-) greater ne plain_obj_snoc [OF 5(10) 5(9) above] by (intro "5.IH"(4)) simp_all
    with step 5(5) greater less_imp_neq [OF greater] less_not_sym [OF greater] show ?thesis by simp
  qed
qed

text \<open>C9. Replaying a diff: when two documents have the same top-level keys and no key holds a percent
  sign, applying the operations of \<^verbatim>\<open>diffJSON\<close> in order to the first document, each through
  its JSON pointer, gives the second, and no operation is refused.
\<close>

theorem diff_replays:
  assumes "plain_json (J_obj bm)" "plain_json (J_obj am)" "map fst bm = map fst am"
  shows "apply_all (J_obj bm) (diff_json (J_obj bm) (J_obj am) []) = Inr (J_obj am)"
proof (cases "bm = am")
  case False
  then show ?thesis
    using diff_replay(2) [of "[]" "[]" bm am "J_null" "[]"] assms by (simp add: pointer_of_def)
qed simp

definition sample_before :: "(string \<times> json) list" where
  "sample_before = [(''routes'', J_obj [(''wan'', J_obj [(''tag'', J_str ''wan'')])]),
     (''services'', J_obj [(''a/b'', J_arr [J_null]), (''x~y'', J_obj [(''n'', J_num 1)])])]"

definition sample_after :: "(string \<times> json) list" where
  "sample_after = [(''routes'', J_obj [(''vpn'', J_bool True), (''wan'', J_obj [(''tag'', J_str ''lan'')])]),
     (''services'', J_obj [(''x~y'', J_obj [(''m'', J_null), (''n'', J_num 1)])])]"

lemma diff_replays_witness:
  "apply_all (J_obj sample_before) (diff_json (J_obj sample_before) (J_obj sample_after) []) =
     Inr (J_obj sample_after) \<and>
   map op_path (diff_json (J_obj sample_before) (J_obj sample_after) []) =
     [''/routes/vpn'', ''/routes/wan/tag'', ''/services/a~1b'', ''/services/x~0y/m'']"
  using diff_replays [of sample_before sample_after]
  by (simp add: sample_before_def sample_after_def escape_json_pointer_def)

text \<open>
  The percent sign is not escaped, but the pointer is percent-decoded when it is read: the pointer
  of the key \<^verbatim>\<open>a%41\<close> names the key \<^verbatim>\<open>aA\<close>.
\<close>

lemma percent_key_misread:
  "split_json_pointer (''/'' @ escape_json_pointer ''services'' @ ''/'' @ escape_json_pointer ''a%41'') =
     Inr [''services'', ''aA'']"
  by code_simp

section \<open>What operations cannot reach\<close>

definition open_roots :: "string set" where
  "open_roots = {''policy'', ''routes'', ''services'', ''overrides''}"

definition open_fields :: "string \<Rightarrow> string set" where
  "open_fields r =
     (if r = ''storage'' then {''state_dir'', ''database''}
      else if r = ''xray''
      then {''outbound_bundle_sha256'', ''activation_mode'', ''subscription_secret_file'', ''last_good_config''}
      else if r = ''zapret''
      then {''activation_mode'', ''provider_source'', ''provider_version'', ''binary_sha256'',
            ''adaptive_enabled'', ''adaptive_catalog_file'', ''adaptive_assignments''}
      else if r = ''openwrt'' then {''flow_offloading_policy''}
      else if r = ''geoip'' then {''database''}
      else {})"

lemma operation_root_allowed_cases:
  assumes "operation_root_allowed path"
  obtains (whole) r rest where "split_json_pointer path = Inr (r # rest)" "r \<in> open_roots"
  | (field) r k where "split_json_pointer path = Inr [r, k]" "r \<notin> open_roots" "k \<in> open_fields r"
proof (cases "split_json_pointer path")
  case (Inl e)
  with assms show ?thesis by (simp add: operation_root_allowed_def)
next
  case (Inr parts)
  then obtain r rest where r: "parts = r # rest"
    using assms by (cases parts) (simp_all add: operation_root_allowed_def)
  show ?thesis
  proof (cases "r \<in> open_roots")
    case True
    then show ?thesis using Inr r whole by simp
  next
    case False
    then have "length rest = 1 \<and> hd rest \<in> open_fields r"
      using assms Inr r unfolding operation_root_allowed_def open_roots_def open_fields_def
      by (auto split: if_splits)
    then have "\<exists>k. rest = [k] \<and> k \<in> open_fields r" by (cases rest) auto
    then show ?thesis using Inr r False field by blast
  qed
qed

text \<open>\<open>sealed m m'\<close>: \<open>m'\<close> agrees with \<open>m\<close> wherever operations must not write.\<close>

definition sealed :: "(string \<times> json) list \<Rightarrow> (string \<times> json) list \<Rightarrow> bool" where
  "sealed m m' \<longleftrightarrow>
     (\<forall>r. r \<notin> open_roots \<and> open_fields r = {} \<longrightarrow> map_of m' r = map_of m r) \<and>
     (\<forall>r sub. r \<notin> open_roots \<and> map_of m r = Some (J_obj sub) \<longrightarrow>
        (\<exists>sub'. map_of m' r = Some (J_obj sub') \<and> (\<forall>k. k \<notin> open_fields r \<longrightarrow> map_of sub' k = map_of sub k)))"

lemma sealed_refl: "sealed m m"
  unfolding sealed_def by simp

lemma sealed_trans: "sealed m m' \<Longrightarrow> sealed m' m'' \<Longrightarrow> sealed m m''"
  unfolding sealed_def by (metis (no_types))

lemma sealed_outside: "r \<in> open_roots \<Longrightarrow> (\<And>r'. r' \<noteq> r \<Longrightarrow> map_of m' r' = map_of m r') \<Longrightarrow> sealed m m'"
  unfolding sealed_def by metis

lemma edit_parent_object:
  assumes "edit_parent op k (J_obj sub) = Inr j"
  obtains sub' where "j = J_obj sub'" "\<And>k'. k' \<noteq> k \<Longrightarrow> map_of sub' k' = map_of sub k'"
  using assms that unfolding edit_parent_def
  by (auto simp: map_of_bucket_put map_of_bucket_delete split: if_splits)

lemma apply_parts_object:
  assumes "apply_parts (J_obj m) op (r # rest) = Inr j"
  shows "\<exists>m'. j = J_obj m' \<and> (\<forall>r'. r' \<noteq> r \<longrightarrow> map_of m' r' = map_of m r')"
proof (cases rest)
  case Nil
  with assms have "edit_parent op r (J_obj m) = Inr j"
    by (auto simp: apply_parts_def split: if_splits sum.splits)
  then obtain sub' where "j = J_obj sub'" "\<And>k'. k' \<noteq> r \<Longrightarrow> map_of sub' k' = map_of m k'"
    by (rule edit_parent_object) blast
  then show ?thesis by blast
next
  case (Cons r2 rest2)
  with assms show ?thesis
    by (auto simp: apply_parts_def map_of_bucket_put split: if_splits sum.splits option.splits)
qed

lemma apply_parts_field:
  assumes "apply_parts (J_obj m) op [r, k] = Inr j" "map_of m r = Some (J_obj sub)"
  shows "\<exists>m' sub'. j = J_obj m' \<and> map_of m' r = Some (J_obj sub') \<and>
    (\<forall>k'. k' \<noteq> k \<longrightarrow> map_of sub' k' = map_of sub k')"
proof -
  from assms obtain new where new: "edit_parent op k (J_obj sub) = Inr new"
      "j = J_obj (bucket_put r new m)"
    by (auto simp: apply_parts_def split: if_splits sum.splits)
  from new(1) obtain sub' where "new = J_obj sub'" "\<And>k'. k' \<noteq> k \<Longrightarrow> map_of sub' k' = map_of sub k'"
    by (rule edit_parent_object) blast
  with new(2) show ?thesis by (auto simp: map_of_bucket_put)
qed

lemma apply_config_operation_sealed:
  assumes "apply_config_operation (J_obj m) op = Inr j" "operation_root_allowed (op_path op)"
  shows "\<exists>m'. j = J_obj m' \<and> sealed m m'"
  using assms(2)
proof (cases rule: operation_root_allowed_cases)
  case (whole r rest)
  with assms(1) have "apply_parts (J_obj m) op (r # rest) = Inr j"
    by (simp add: apply_config_operation_def)
  then obtain m' where "j = J_obj m'" "\<forall>r'. r' \<noteq> r \<longrightarrow> map_of m' r' = map_of m r'"
    using apply_parts_object by blast
  then show ?thesis using sealed_outside [OF whole(2), of m' m] by blast
next
  case (field r k)
  with assms(1) have a: "apply_parts (J_obj m) op [r, k] = Inr j"
    by (simp add: apply_config_operation_def)
  from apply_parts_object [OF a] obtain m' where m': "j = J_obj m'" "\<forall>r'. r' \<noteq> r \<longrightarrow> map_of m' r' = map_of m r'"
    by blast
  have "sealed m m'"
    unfolding sealed_def
  proof (intro conjI allI impI)
    fix r' assume "r' \<notin> open_roots \<and> open_fields r' = {}"
    then have "r' \<noteq> r" using field(3) by auto
    then show "map_of m' r' = map_of m r'" using m'(2) by blast
  next
    fix r' sub assume r': "r' \<notin> open_roots \<and> map_of m r' = Some (J_obj sub)"
    show "\<exists>sub'. map_of m' r' = Some (J_obj sub') \<and> (\<forall>k. k \<notin> open_fields r' \<longrightarrow> map_of sub' k = map_of sub k)"
    proof (cases "r' = r")
      case True
      with r' have "map_of m r = Some (J_obj sub)" by simp
      from apply_parts_field [OF a this] obtain sub' where
          "map_of m' r = Some (J_obj sub')" "\<forall>k'. k' \<noteq> k \<longrightarrow> map_of sub' k' = map_of sub k'"
        using m'(1) by auto
      with True field(3) show ?thesis by (intro exI [of _ sub']) auto
    next
      case False
      with r' m'(2) show ?thesis by (intro exI [of _ sub]) auto
    qed
  qed
  with m'(1) show ?thesis by blast
qed

lemma apply_operation_sealed:
  assumes "ps_candidate s = J_obj m"
  shows "\<exists>m'. ps_candidate (apply_operation s op) = J_obj m' \<and> sealed m m'"
  using assms apply_config_operation_sealed [of m op] sealed_refl
  by (auto simp: apply_operation_def skip_operation_def Let_def split: sum.splits)

lemma apply_operations_sealed:
  "ps_candidate s = J_obj m \<Longrightarrow> \<exists>m'. ps_candidate (foldl apply_operation s ops) = J_obj m' \<and> sealed m m'"
proof (induction ops arbitrary: s m)
  case Nil
  then show ?case using sealed_refl by simp
next
  case (Cons op ops)
  from apply_operation_sealed [OF Cons.prems, of op] obtain m1 where
      one: "ps_candidate (apply_operation s op) = J_obj m1" "sealed m m1" by blast
  from Cons.IH [OF one(1)] obtain m' where
      "ps_candidate (foldl apply_operation (apply_operation s op) ops) = J_obj m'" "sealed m1 m'" by blast
  with sealed_trans [OF one(2)] show ?case by auto
qed

lemma build_candidate_cases:
  assumes "br_candidate (build_candidate to_json of_json check (Some config) ops) = Some typed"
  shows "of_json (ps_candidate (foldl apply_operation
      \<lparr>ps_candidate = to_json config, ps_done = [], ps_validations = []\<rparr> ops)) = Inr typed \<and> check typed = None"
  using assms unfolding build_candidate_def build_error_def Let_def
  by (auto split: if_splits sum.splits option.splits)

text \<open>C8. Operations cannot write outside the editable part of the configuration: the candidate is decoded
  from a document that, whatever the operations and the escapes in their paths, keeps every
  member of the active configuration except \<^verbatim>\<open>policy\<close>, \<^verbatim>\<open>routes\<close>,
  \<^verbatim>\<open>services\<close>, \<^verbatim>\<open>overrides\<close> and the listed fields of \<^verbatim>\<open>storage\<close>,
  \<^verbatim>\<open>xray\<close>, \<^verbatim>\<open>zapret\<close>, \<^verbatim>\<open>openwrt\<close> and \<^verbatim>\<open>geoip\<close>; and it
  has passed the validation of the configuration.
\<close>

theorem candidate_sealed:
  assumes "br_candidate (build_candidate to_json of_json check (Some config) ops) = Some typed"
    "to_json config = J_obj m"
  shows "\<exists>m'. of_json (J_obj m') = Inr typed \<and> check typed = None \<and> sealed m m'"
  using build_candidate_cases [OF assms(1)] assms(2)
    apply_operations_sealed [of "\<lparr>ps_candidate = J_obj m, ps_done = [], ps_validations = []\<rparr>" m ops]
  by auto

definition sample_op :: "string \<Rightarrow> string \<Rightarrow> json \<Rightarrow> change_op" where
  "sample_op t path v = \<lparr>op_type = t, op_path = path, op_value = v, op_before = J_null\<rparr>"

definition sample_doc :: "(string \<times> json) list" where
  "sample_doc = [(''schema'', J_num 1), (''services'', J_obj []), (''storage'', J_obj [(''max'', J_num 9)])]"

definition sample_ops :: "change_op list" where
  "sample_ops = [sample_op ''add'' ''/services/x'' (J_obj [(''a'', J_num 1)]),
     sample_op ''set'' ''/%73torage/database'' (J_str ''db'')]"

lemma sample_build:
  "build_candidate (\<lambda>j. j) Inr (\<lambda>j. None) (Some (J_obj sample_doc)) sample_ops =
   \<lparr>br_candidate = Some (J_obj [(''schema'', J_num 1), (''services'', J_obj [(''x'', J_obj [(''a'', J_num 1)])]),
      (''storage'', J_obj [(''database'', J_str ''db''), (''max'', J_num 9)])]),
    br_diff = [sample_op ''add'' ''/services/x'' (J_obj [(''a'', J_num 1)]),
      sample_op ''add'' ''/storage/database'' (J_str ''db'')],
    br_validations = [\<lparr>vd_level = ''info'', vd_code = ''candidate_semantic_ok'',
      vd_message = ''all operations were applied and the full typed candidate validates''\<rparr>],
    br_operations = sample_ops\<rparr>"
  unfolding sample_doc_def sample_ops_def sample_op_def by code_simp

lemma candidate_sealed_witness:
  "\<exists>m'. (Inr :: json \<Rightarrow> json result) (J_obj m') =
     Inr (J_obj [(''schema'', J_num 1), (''services'', J_obj [(''x'', J_obj [(''a'', J_num 1)])]),
      (''storage'', J_obj [(''database'', J_str ''db''), (''max'', J_num 9)])]) \<and> sealed sample_doc m'"
  using candidate_sealed [of "\<lambda>j. j" Inr "\<lambda>j. None" "J_obj sample_doc" sample_ops _ sample_doc] sample_build
  by simp

text \<open>
  An operation that edits inside the value of an earlier one changes the recorded earlier operation:
  here the second operation removes the member the first one added, the change keeps the first
  operation with an empty object, and building the same change again fails.
\<close>

definition alias_ops :: "change_op list" where
  "alias_ops = [sample_op ''add'' ''/services/x'' (J_obj [(''a'', J_num 1), (''b'', J_num 2)]),
     sample_op ''delete'' ''/services/x/a'' J_null]"

lemma recorded_operation_rewritten:
  "let r = build_candidate (\<lambda>j. j) Inr (\<lambda>j. None) (Some (J_obj sample_doc)) alias_ops;
       r2 = build_candidate (\<lambda>j. j) Inr (\<lambda>j. None) (Some (J_obj sample_doc)) (br_operations r) in
     \<not> has_validation_error (br_validations r) \<and> br_operations r \<noteq> alias_ops \<and>
     map vd_message (br_validations r2) = [''/services/x/a: delete target does not exist'']"
  unfolding sample_doc_def alias_ops_def sample_op_def by code_simp

end
