(* ===== verification/Tx_Server.thy ===== *)
theory Tx_Server
  imports Json_Patch "HOL-Library.State_Monad"
begin

text \<open>
  The state of the API server and its effects (\<^verbatim>\<open>internal/api/server.go\<close>,
  \<^verbatim>\<open>internal/api/transaction.go\<close>, \<^verbatim>\<open>internal/api/recovery.go\<close>).

  An operation is a program of the state monad. Its effects are: one atomic write of the store, one
  read, one call of the adapter, one look at the clock or at a file. Each effect advances the clock
  \<open>sv_clock\<close>, and the environment says, at each instant, what the effect yields: the time, a
  write or read error, the answer of the adapter, the contents of a file, the randomness, and whether
  the process dies there. A process that died has no more effects: the rest of its program changes
  neither the store nor the log. The log holds the writes and the adapter calls, newest first; it is
  not part of the program.

  The buckets of the store are typed here; \<^verbatim>\<open>State_Store\<close> has the store itself. The
  configuration is of any type \<open>'cfg\<close>: the environment has its JSON form, its validation and its
  hash.
\<close>

section \<open>The durable state\<close>

type_synonym change = "change_op change_set"

record cleanup_result =
  cl_transaction_id :: string
  cl_revision_id :: string
  cl_status :: string
  cl_errors :: "string list"

record 'cfg durable =
  du_active_config :: "'cfg option"
  du_active_revision :: "string option"
  du_config_version :: "int option"
  du_recovery_status :: "recovery_status option"
  du_cleanup_result :: "cleanup_result option"
  du_candidates :: "'cfg candidate_record bucket"
  du_transactions :: "transaction_record bucket"
  du_revisions :: "revision_record bucket"
  du_changes :: "change bucket"

datatype 'cfg tx_entry =
    Active_config 'cfg
  | Active_revision string
  | Config_version int
  | Recovery_entry recovery_status
  | Cleanup_entry cleanup_result
  | Candidate_entry string "'cfg candidate_record"
  | Transaction_entry string transaction_record
  | Revision_entry string revision_record
  | Change_entry string change

fun entry_key_missing :: "'cfg tx_entry \<Rightarrow> bool" where
  "entry_key_missing (Candidate_entry k _) = (k = [])"
| "entry_key_missing (Transaction_entry k _) = (k = [])"
| "entry_key_missing (Revision_entry k _) = (k = [])"
| "entry_key_missing (Change_entry k _) = (k = [])"
| "entry_key_missing _ = False"

fun write_entry :: "'cfg tx_entry \<Rightarrow> 'cfg durable \<Rightarrow> 'cfg durable" where
  "write_entry (Active_config c) d = d\<lparr>du_active_config := Some c\<rparr>"
| "write_entry (Active_revision r) d = d\<lparr>du_active_revision := Some r\<rparr>"
| "write_entry (Config_version v) d = d\<lparr>du_config_version := Some v\<rparr>"
| "write_entry (Recovery_entry r) d = d\<lparr>du_recovery_status := Some r\<rparr>"
| "write_entry (Cleanup_entry r) d = d\<lparr>du_cleanup_result := Some r\<rparr>"
| "write_entry (Candidate_entry k v) d = d\<lparr>du_candidates := bucket_put k v (du_candidates d)\<rparr>"
| "write_entry (Transaction_entry k v) d = d\<lparr>du_transactions := bucket_put k v (du_transactions d)\<rparr>"
| "write_entry (Revision_entry k v) d = d\<lparr>du_revisions := bucket_put k v (du_revisions d)\<rparr>"
| "write_entry (Change_entry k v) d = d\<lparr>du_changes := bucket_put k v (du_changes d)\<rparr>"

definition write_entries :: "'cfg tx_entry list \<Rightarrow> 'cfg durable \<Rightarrow> 'cfg durable" where
  "write_entries es d = foldl (\<lambda>d e. write_entry e d) d es"

section \<open>The environment\<close>

datatype adapter_call =
    Prepare transaction
  | Validate_candidate transaction
  | Snapshot_current transaction
  | Apply_candidate transaction
  | Verify_management_path transaction
  | Verify_data_plane transaction
  | Commit transaction
  | Commit_prepared transaction
  | Finalize_commit transaction
  | Rollback transaction
  | Adapter_status
  | Reconcile recovery_target
  | Clear_guard_for transaction
  | Clear_guard
  | Clear_guard_for_baseline string string

datatype cleanup_action =
    Retire_capability transaction
  | Remove_proof transaction
  | Cleanup_committed transaction
  | Cleanup_obsolete string string

text \<open>The optional interface of the adapter to clear the boot guard.\<close>

datatype boot_guard = Bound_clearer | Unbound_clearer | No_clearer

text \<open>A candidate file cannot be read, does not decode, or holds a configuration.\<close>

datatype 'cfg candidate_file = File_error error | File_invalid | File_config 'cfg

record artifact_manifest =
  mf_deployment_ready :: bool
  mf_block_reason :: string
  mf_simulation :: bool
  mf_warnings :: "string list"

record 'cfg environment =
  ev_crash :: "nat \<Rightarrow> bool"
  ev_now :: "nat \<Rightarrow> gotime"
  ev_write_error :: "nat \<Rightarrow> error option"
  ev_read_error :: "nat \<Rightarrow> error option"
  ev_adapter :: "nat \<Rightarrow> adapter_call \<Rightarrow> step_result"
  ev_split_commit :: bool
  ev_boot_guard :: boot_guard
  ev_baseline_clearer :: bool
  ev_cleanup :: "nat \<Rightarrow> cleanup_action \<Rightarrow> error option"
  ev_management_proofs :: bool
  ev_require_proof :: bool
  ev_automatic_proof :: "nat \<Rightarrow> transaction \<Rightarrow> action_failure option"
  ev_verify_proof :: "nat \<Rightarrow> transaction \<Rightarrow> string result"
  ev_issue_lan :: "nat \<Rightarrow> transaction \<Rightarrow> int \<Rightarrow> error option"
  ev_verify_lan :: "nat \<Rightarrow> transaction \<Rightarrow> error option"
  ev_loopback :: bool
  ev_persist_binding :: "nat \<Rightarrow> transaction \<Rightarrow> error option"
  ev_persist_capability :: "nat \<Rightarrow> transaction \<Rightarrow> error option"
  ev_capability :: "nat \<Rightarrow> transaction \<Rightarrow> bool"
  ev_write_candidate :: "nat \<Rightarrow> transaction \<Rightarrow> 'cfg \<Rightarrow> error option"
  ev_candidate_file :: "nat \<Rightarrow> string \<Rightarrow> string \<Rightarrow> 'cfg candidate_file"
  ev_diagnostics :: "nat \<Rightarrow> 'cfg \<Rightarrow> error option"
  ev_generate :: "nat \<Rightarrow> 'cfg \<Rightarrow> transaction \<Rightarrow> (artifact_manifest \<times> string) result"
  ev_verify_artifacts :: "nat \<Rightarrow> transaction \<Rightarrow> artifact_manifest result"
  ev_bind_adaptive :: "nat \<Rightarrow> transaction \<Rightarrow> 'cfg \<Rightarrow> transaction result"
  ev_adaptive_runtime :: "nat \<Rightarrow> 'cfg \<Rightarrow> error option"
  ev_smart_dns :: "nat \<Rightarrow> 'cfg \<Rightarrow> 'cfg \<Rightarrow> validation list"
  ev_random :: "nat \<Rightarrow> nat \<Rightarrow> string result"
  ev_cancelled :: "nat \<Rightarrow> bool"
  ev_route_assignments :: "nat \<Rightarrow> error option"
  ev_other_data :: "nat \<Rightarrow> bool"
  ev_other_expired :: "nat \<Rightarrow> bool"
  ev_change_retention :: duration
  ev_transaction_retention :: duration
  ev_startup_config :: 'cfg
  ev_defer_recovery :: bool
  ev_rollback_seconds :: int
  ev_state_dir :: string
  ev_token_hash :: "string \<Rightarrow> string"
  ev_development :: bool
  ev_to_json :: "'cfg \<Rightarrow> json"
  ev_of_json :: "json \<Rightarrow> 'cfg result"
  ev_config_error :: "'cfg \<Rightarrow> error option"
  ev_hash :: "'cfg \<Rightarrow> string"

section \<open>The server\<close>

datatype 'cfg event = Wrote "'cfg tx_entry list" | Called adapter_call step_result

record 'cfg server =
  sv_durable :: "'cfg durable"
  sv_alive :: bool
  sv_clock :: nat
  sv_log :: "'cfg event list"
  sv_changes :: "change bucket"
  sv_active_config :: 'cfg
  sv_active_revision :: string
  sv_config_version :: int
  sv_recovery :: recovery_status
  sv_deferred :: bool
  sv_timers :: "change bucket"

type_synonym ('cfg, 'a) act = "('cfg server, 'a) state"

definition reads :: "('cfg server \<Rightarrow> 'a) \<Rightarrow> ('cfg, 'a) act" where
  "reads f = State (\<lambda>s. (f s, s))"

definition updates :: "('cfg server \<Rightarrow> 'cfg server) \<Rightarrow> ('cfg, unit) act" where
  "updates f = State (\<lambda>s. ((), f s))"

text \<open>The next instant; the process may die at it.\<close>

definition instant :: "'cfg environment \<Rightarrow> ('cfg, nat) act" where
  "instant env = State (\<lambda>s. (sv_clock s,
     s\<lparr>sv_clock := Suc (sv_clock s), sv_alive := sv_alive s \<and> \<not> ev_crash env (sv_clock s)\<rparr>))"

definition now :: "'cfg environment \<Rightarrow> ('cfg, gotime) act" where
  "now env = do { t \<leftarrow> instant env; State_Monad.return (ev_now env t) }"

definition save_entries :: "'cfg environment \<Rightarrow> 'cfg tx_entry list \<Rightarrow> ('cfg, error option) act" where
  "save_entries env es = do {
     t \<leftarrow> instant env;
     live \<leftarrow> reads sv_alive;
     if \<not> live then State_Monad.return (Some ''process stopped'')
     else if list_ex entry_key_missing es then State_Monad.return (Some err_key_required)
     else (case ev_write_error env t of
         Some e \<Rightarrow> State_Monad.return (Some e)
       | None \<Rightarrow> do {
           updates (\<lambda>s. s\<lparr>sv_durable := write_entries es (sv_durable s), sv_log := Wrote es # sv_log s\<rparr>);
           State_Monad.return None }) }"

definition load :: "'cfg environment \<Rightarrow> ('cfg durable \<Rightarrow> 'v bucket) \<Rightarrow> string \<Rightarrow> ('cfg, 'v result) act" where
  "load env bucket k = do {
     t \<leftarrow> instant env;
     d \<leftarrow> reads sv_durable;
     State_Monad.return (case ev_read_error env t of
         Some e \<Rightarrow> Inl e
       | None \<Rightarrow> (case map_of (bucket d) k of None \<Rightarrow> Inl err_not_found | Some v \<Rightarrow> Inr v)) }"

definition adapter :: "'cfg environment \<Rightarrow> adapter_call \<Rightarrow> ('cfg, step_result) act" where
  "adapter env c = do {
     t \<leftarrow> instant env;
     live \<leftarrow> reads sv_alive;
     let r = ev_adapter env t c;
     (if live then updates (\<lambda>s. s\<lparr>sv_log := Called c r # sv_log s\<rparr>) else State_Monad.return ());
     State_Monad.return r }"

text \<open>A question to the environment that changes nothing the model keeps.\<close>

definition ask :: "'cfg environment \<Rightarrow> (nat \<Rightarrow> 'a) \<Rightarrow> ('cfg, 'a) act" where
  "ask env f = do { t \<leftarrow> instant env; State_Monad.return (f t) }"

definition set_change :: "change \<Rightarrow> ('cfg, unit) act" where
  "set_change cs = updates (\<lambda>s. s\<lparr>sv_changes := bucket_put (ch_id cs) cs (sv_changes s)\<rparr>)"

definition cancel_expiry :: "string \<Rightarrow> ('cfg, unit) act" where
  "cancel_expiry cid = updates (\<lambda>s. s\<lparr>sv_timers := bucket_delete cid (sv_timers s)\<rparr>)"

text \<open>A timer keeps the change it was set for; a change without an expiry time gets none.\<close>

definition schedule_expiry :: "change \<Rightarrow> ('cfg, unit) act" where
  "schedule_expiry cs =
     (if ch_expires_at cs = 0 then State_Monad.return ()
      else updates (\<lambda>s. s\<lparr>sv_timers := bucket_put (ch_id cs) cs (sv_timers s)\<rparr>))"

section \<open>The recovery fence\<close>

definition set_recovery_status :: "'cfg environment \<Rightarrow> recovery_status \<Rightarrow> ('cfg, error option) act" where
  "set_recovery_status env status = do {
     updates (\<lambda>s. s\<lparr>sv_recovery := status\<rparr>);
     r \<leftarrow> save_entries env [Recovery_entry status];
     (case r of
        None \<Rightarrow> State_Monad.return None
      | Some e \<Rightarrow> do {
          updates (\<lambda>s. s\<lparr>sv_recovery := status\<lparr>rs_status := ''recovery_required'',
            rs_reason_code := ''recovery_status_persist_failed'',
            rs_reason := ''could not persist recovery status \"'' @ rs_status status @ ''\": '' @ e\<rparr>\<rparr>);
          State_Monad.return (Some e) }) }"

definition mark_recovery_required ::
    "'cfg environment \<Rightarrow> recovery_target \<Rightarrow> string \<Rightarrow> string \<Rightarrow> string \<Rightarrow> ('cfg, unit) act" where
  "mark_recovery_required env target code reason phase = do {
     set_recovery_status env (recovery_required code reason target phase);
     State_Monad.return () }"

text \<open>The lease of an operation that changes state: refused while the fence is up.\<close>

definition acquire_mutation_lease :: "('cfg, action_failure option) act" where
  "acquire_mutation_lease = reads (\<lambda>s. mutation_failure (sv_recovery s))"

section \<open>Saving progress\<close>

definition save_progress ::
    "'cfg environment \<Rightarrow> change \<Rightarrow> transaction \<Rightarrow> string \<Rightarrow> ('cfg, error option \<times> change) act" where
  "save_progress env cs tx next_state =
     (case validate_transaction_binding cs tx of
        Some f \<Rightarrow> State_Monad.return (Some (af_message f), cs)
      | None \<Rightarrow> do {
          t1 \<leftarrow> now env;
          t2 \<leftarrow> now env;
          let cs' = cs\<lparr>ch_state := next_state, ch_version := ch_version cs + 1,
                       ch_updated_at := time_truncate t1 second\<rparr>;
          r \<leftarrow> save_entries env
            [Transaction_entry (tx_id tx) \<lparr>tr_transaction = tx, tr_state = next_state,
               tr_commit_phase = ch_commit_phase cs, tr_steps = ch_steps cs, tr_updated_at = t2,
               tr_completed_at = (if is_terminal_state next_state then Some t2 else None)\<rparr>,
             Change_entry (ch_id cs') cs'];
          (case r of
             Some e \<Rightarrow> State_Monad.return (Some e, cs')
           | None \<Rightarrow> do { set_change cs'; State_Monad.return (None, cs') }) })"

definition save_change :: "'cfg environment \<Rightarrow> change \<Rightarrow> string \<Rightarrow> ('cfg, error option \<times> change) act" where
  "save_change env cs state_name = do {
     t \<leftarrow> now env;
     let cs' = cs\<lparr>ch_state := state_name, ch_version := ch_version cs + 1,
                  ch_updated_at := time_truncate t second\<rparr>;
     r \<leftarrow> save_entries env [Change_entry (ch_id cs') cs'];
     (case r of
        Some e \<Rightarrow> State_Monad.return (Some e, cs')
      | None \<Rightarrow> do { set_change cs'; State_Monad.return (None, cs') }) }"

section \<open>Loading a transaction\<close>

definition load_transaction :: "'cfg environment \<Rightarrow> change \<Rightarrow> ('cfg, action_failure + transaction) act" where
  "load_transaction env cs = do {
     r \<leftarrow> load env du_transactions (ch_transaction_id cs);
     State_Monad.return (case r of
         Inl e \<Rightarrow> Inl (internal_failure e)
       | Inr record \<Rightarrow> (case validate_transaction_binding cs (tr_transaction record) of
             Some f \<Rightarrow> Inl f
           | None \<Rightarrow> Inr (tr_transaction record))) }"

definition capability_matches :: "'cfg environment \<Rightarrow> transaction \<Rightarrow> ('cfg, bool) act" where
  "capability_matches env tx = ask env (\<lambda>t. ev_capability env t tx)"

definition current_transaction_paths :: "transaction \<Rightarrow> action_failure option" where
  "current_transaction_paths tx =
     (if \<not> safe_path_component (tx_revision_id tx) \<or> \<not> safe_path_component (tx_id tx)
      then Some (conflict ''transaction_path_invalid'' ''transaction or revision id cannot form a state path'')
      else None)"

text \<open>The checks on the artifacts of a candidate, once the manifest is read.\<close>

definition check_manifest ::
    "change \<Rightarrow> transaction \<Rightarrow> 'cfg candidate_record \<Rightarrow> artifact_manifest result \<Rightarrow> action_failure option" where
  "check_manifest cs tx record verified =
     (case verified of
        Inl e \<Rightarrow> Some (conflict ''artifact_manifest_mismatch'' e)
      | Inr mf \<Rightarrow>
          (if cr_artifact_manifest_hash record \<noteq> tx_artifact_manifest_hash tx \<or>
              ch_artifact_manifest_hash cs \<noteq> tx_artifact_manifest_hash tx
           then Some (conflict ''artifact_manifest_mismatch''
                  ''candidate, transaction and ChangeSet artifact hashes differ'')
           else if mf_deployment_ready mf \<noteq> tx_artifacts_ready tx \<or>
                mf_deployment_ready mf \<noteq> cr_artifacts_ready record \<or>
                mf_deployment_ready mf \<noteq> ch_artifacts_ready cs \<or>
                mf_block_reason mf \<noteq> tx_artifact_block_reason tx \<or>
                mf_block_reason mf \<noteq> cr_artifact_block_reason record \<or>
                mf_block_reason mf \<noteq> ch_artifact_block_reason cs \<or>
                mf_simulation mf \<noteq> tx_artifacts_simulation tx \<or>
                mf_simulation mf \<noteq> cr_artifacts_simulation record \<or>
                mf_simulation mf \<noteq> ch_artifacts_simulation cs
           then Some (conflict ''artifact_readiness_mismatch''
                  ''candidate, manifest, transaction and ChangeSet readiness differ'')
           else None))"

definition load_verified_candidate ::
    "'cfg environment \<Rightarrow> change \<Rightarrow> transaction \<Rightarrow> ('cfg, action_failure + 'cfg) act" where
  "load_verified_candidate env cs tx = do {
     r \<leftarrow> load env du_candidates (ch_id cs);
     (case r of
        Inl e \<Rightarrow> State_Monad.return (Inl (internal_failure e))
      | Inr record \<Rightarrow>
     (let hash = ev_hash env (cr_config record) in
      if hash \<noteq> cr_hash record \<or> hash \<noteq> ch_candidate_hash cs \<or> hash \<noteq> tx_candidate_hash tx
      then State_Monad.return (Inl (conflict ''candidate_hash_mismatch''
             ''candidate hash does not match the full canonical config''))
      else case current_transaction_paths tx of
        Some f \<Rightarrow> State_Monad.return (Inl f)
      | None \<Rightarrow> do {
          file \<leftarrow> ask env (\<lambda>t. ev_candidate_file env t (tx_revision_id tx) (tx_id tx));
          (case file of
             File_error e \<Rightarrow> State_Monad.return (Inl (internal_failure e))
           | File_invalid \<Rightarrow>
               State_Monad.return (Inl (conflict ''candidate_file_invalid'' ''candidate file is invalid''))
           | File_config config \<Rightarrow>
               (if ev_hash env config \<noteq> hash
                then State_Monad.return (Inl (conflict ''candidate_file_hash_mismatch''
                       ''candidate file differs from bbolt candidate''))
                else case ev_config_error env config of
                  Some e \<Rightarrow> State_Monad.return (Inl (conflict ''candidate_invalid'' e))
                | None \<Rightarrow> do {
                    verified \<leftarrow> ask env (\<lambda>t. ev_verify_artifacts env t tx);
                    State_Monad.return (case check_manifest cs tx record verified of
                        Some f \<Rightarrow> Inl f
                      | None \<Rightarrow> Inr config) })) })) }"

definition load_verified_transaction ::
    "'cfg environment \<Rightarrow> change \<Rightarrow> ('cfg, action_failure + transaction) act" where
  "load_verified_transaction env cs = do {
     r \<leftarrow> load_transaction env cs;
     (case r of
        Inl f \<Rightarrow> State_Monad.return (Inl f)
      | Inr tx \<Rightarrow> do {
          c \<leftarrow> load_verified_candidate env cs tx;
          (case c of
             Inl f \<Rightarrow> State_Monad.return (Inl f)
           | Inr config \<Rightarrow> do {
               ok \<leftarrow> capability_matches env tx;
               State_Monad.return (if \<not> ok
                 then Inl (conflict ''rollback_token_invalid'' ''stored rollback token failed verification'')
                 else Inr tx) }) }) }"

text \<open>
  The other change an active transaction belongs to, if any. The code returns the first one an
  iteration over the Go map meets; here it is the first in key order, which only the message shows.
\<close>

definition active_states :: "string list" where
  "active_states = [''prepared'', ''applying'', ''verifying'', ''awaiting_confirmation'', ''committing'',
     ''rolling_back'']"

definition active_transaction :: "string \<Rightarrow> ('cfg, string option) act" where
  "active_transaction except_id =
     reads (\<lambda>s. map_option fst (List.find (\<lambda>(k, cs). k \<noteq> except_id \<and> ch_state cs \<in> set active_states)
       (sv_changes s)))"

end
