(* ===== verification/Tx_Protocol.thy ===== *)
theory Tx_Protocol
  imports Tx_Server
begin

text \<open>
  The operations on a change (\<^verbatim>\<open>internal/api/transaction.go\<close>,
  \<^verbatim>\<open>internal/api/management_proof.go\<close>, \<^verbatim>\<open>internal/api/server.go\<close>): create, validate,
  apply, confirm, roll back, delete. An operation returns the change as it left it and, if it was
  refused or failed, why. The code holds the locks of the change and of the transaction around
  each operation, so each is one step here.
\<close>

type_synonym outcome = "change \<times> action_failure option"

section \<open>Roll back\<close>

text \<open>One clean-up action; its error, if any, is labelled and collected.\<close>

definition cleanup_step ::
    "'cfg environment \<Rightarrow> string \<Rightarrow> cleanup_action \<Rightarrow> string list \<Rightarrow> ('cfg, string list) act" where
  "cleanup_step env what action failures = do {
     r \<leftarrow> ask env (\<lambda>t. ev_cleanup env t action);
     State_Monad.return (case r of None \<Rightarrow> failures | Some e \<Rightarrow> failures @ [what @ '': '' @ e]) }"

definition cleanup_proof :: "'cfg environment \<Rightarrow> transaction \<Rightarrow> string list \<Rightarrow> ('cfg, string list) act" where
  "cleanup_proof env tx failures =
     (if ev_management_proofs env then cleanup_step env ''management proof'' (Remove_proof tx) failures
      else State_Monad.return failures)"

definition save_cleanup_status :: "'cfg environment \<Rightarrow> transaction \<Rightarrow> string list \<Rightarrow> ('cfg, unit) act" where
  "save_cleanup_status env tx failures = do {
     save_entries env [Cleanup_entry \<lparr>cl_transaction_id = tx_id tx, cl_revision_id = tx_revision_id tx,
       cl_status = (if failures = [] then ''complete'' else ''partial''), cl_errors = failures\<rparr>];
     State_Monad.return () }"

definition cleanup_rolled_back :: "'cfg environment \<Rightarrow> transaction \<Rightarrow> ('cfg, unit) act" where
  "cleanup_rolled_back env tx = do {
     f1 \<leftarrow> cleanup_step env ''rollback capability'' (Retire_capability tx) [];
     f2 \<leftarrow> cleanup_proof env tx f1;
     f3 \<leftarrow> cleanup_step env ''transaction artifacts'' (Cleanup_obsolete (tx_revision_id tx) (tx_id tx)) f2;
     save_cleanup_status env tx f3 }"

text \<open>What the reported outcome of a roll back is worth; legacy adapters report no binding.\<close>

definition rollback_error :: "step_result \<Rightarrow> transaction \<Rightarrow> error option" where
  "rollback_error result tx =
     (if sr_operation result \<noteq> [] \<or> sr_protocol_version result \<noteq> 0 then validate_rollback result tx else None)"

definition finish_rollback ::
    "'cfg environment \<Rightarrow> change \<Rightarrow> transaction \<Rightarrow> step_result \<Rightarrow> string \<Rightarrow> string \<Rightarrow> ('cfg, outcome) act" where
  "finish_rollback env cs tx result final_state reason =
     (case rollback_error result tx of
        Some e \<Rightarrow> do {
          (r, cs) \<leftarrow> save_progress env cs tx ''rollback_failed'';
          let e' = (case r of None \<Rightarrow> e | Some p \<Rightarrow> e @ ''; persist rollback_failed state: '' @ p);
          mark_recovery_required env (recovery_target_of tx) ''adapter_rollback_ambiguous'' e' (ch_commit_phase cs);
          State_Monad.return (cs, Some (recovery_failure e')) }
      | None \<Rightarrow>
          (if \<not> step_ok result
           then do {
             (r, cs) \<leftarrow> save_progress env cs tx ''rollback_failed'';
             State_Monad.return (cs, Some (case r of
                 Some e \<Rightarrow> internal_failure e
               | None \<Rightarrow> \<lparr>af_status = 500, af_code = ''rollback_failed'', af_message = sr_reason result\<rparr>)) }
           else do {
             let cs = cs\<lparr>ch_management_verified := False, ch_data_plane_verified := False,
               ch_validation := ch_validation cs @
                 [\<lparr>vd_level = ''info'', vd_code = reason, vd_message = ''adapter rollback completed''\<rparr>]\<rparr>;
             (r, cs) \<leftarrow> save_progress env cs tx final_state;
             (case r of
                Some e \<Rightarrow> do {
                  mark_recovery_required env (recovery_target_of tx) ''rollback_state_persist_failed'' e
                    (ch_commit_phase cs);
                  State_Monad.return (cs, Some (recovery_failure
                    ''rollback completed externally but control-plane state is ambiguous'')) }
              | None \<Rightarrow> do {
                  cancel_expiry (ch_id cs);
                  cleanup_rolled_back env tx;
                  State_Monad.return (cs, None) }) }))"

definition rollback_locked ::
    "'cfg environment \<Rightarrow> change \<Rightarrow> transaction \<Rightarrow> string \<Rightarrow> string \<Rightarrow> ('cfg, outcome) act" where
  "rollback_locked env cs tx final_state reason = do {
     (r, cs) \<leftarrow> save_progress env cs tx ''rolling_back'';
     (case r of
        Some e \<Rightarrow> State_Monad.return (cs, Some (internal_failure e))
      | None \<Rightarrow> do {
          result \<leftarrow> adapter env (Rollback tx);
          finish_rollback env (cs\<lparr>ch_steps := ch_steps cs @ [result], ch_adapter_status := sr_status result\<rparr>)
            tx result final_state reason }) }"

definition rollback_states :: "string list" where
  "rollback_states = [''validated'', ''prepared'', ''applying'', ''verifying'', ''awaiting_confirmation'',
     ''committing'', ''failed'', ''requires_device'']"

definition rollback_change_set :: "'cfg environment \<Rightarrow> change \<Rightarrow> bool \<Rightarrow> ('cfg, outcome) act" where
  "rollback_change_set env cs expired = do {
     lease \<leftarrow> acquire_mutation_lease;
     (case lease of
        Some f \<Rightarrow> State_Monad.return (cs, Some f)
      | None \<Rightarrow>
          (if ch_state cs = ''rolled_back'' \<or> ch_state cs = ''expired'' then State_Monad.return (cs, None)
           else if ch_state cs \<notin> set rollback_states
           then State_Monad.return (cs, Some (conflict ''invalid_transition''
                  (''change cannot be rolled back from '' @ ch_state cs)))
           else do {
             r \<leftarrow> load_transaction env cs;
             (case r of
                Inl f \<Rightarrow> State_Monad.return (cs, Some f)
              | Inr tx \<Rightarrow> do {
                  ok \<leftarrow> capability_matches env tx;
                  (if \<not> ok
                   then do {
                     (r, cs) \<leftarrow> save_progress env cs tx ''rollback_failed'';
                     State_Monad.return (cs, Some (case r of
                         Some e \<Rightarrow> internal_failure e
                       | None \<Rightarrow> \<lparr>af_status = 403, af_code = ''rollback_capability_invalid'',
                           af_message = ''stored rollback capability failed verification''\<rparr>)) }
                   else rollback_locked env cs tx (if expired then ''expired'' else ''rolled_back'')
                          ''rollback_requested'') }) })) }"

section \<open>Validate\<close>

text \<open>\<^verbatim>\<open>adapter.NewTransaction\<close>; \<open>ev_random\<close> is \<^verbatim>\<open>secureRandomHex\<close>.\<close>

definition new_transaction ::
    "'cfg environment \<Rightarrow> string \<Rightarrow> string \<Rightarrow> int \<Rightarrow> int \<Rightarrow> 'cfg \<Rightarrow> ('cfg, transaction result) act" where
  "new_transaction env change_id revision_id base_version candidate_version config = do {
     r \<leftarrow> ask env (\<lambda>t. ev_random env t 8);
     (case r of
        Inl e \<Rightarrow> State_Monad.return (Inl (''generate transaction ID: '' @ e))
      | Inr hex \<Rightarrow> do {
          k \<leftarrow> ask env (\<lambda>t. ev_random env t 32);
          (case k of
             Inl e \<Rightarrow> State_Monad.return (Inl (''generate rollback capability: '' @ e))
           | Inr token \<Rightarrow> do {
               t \<leftarrow> now env;
               let tid = ''tx_'' @ hex;
               let dir = ev_state_dir env @ ''/transactions/'' @ revision_id @ ''/'' @ tid;
               let ttl = (if ev_rollback_seconds env \<le> 0 then 120 else ev_rollback_seconds env);
               State_Monad.return (Inr \<lparr>tx_id = tid, tx_revision_id = revision_id, tx_change_id = change_id,
                 tx_base_version = base_version, tx_candidate_version = candidate_version,
                 tx_candidate_hash = ev_hash env config, tx_candidate_path = dir @ ''/candidate.json'',
                 tx_artifact_root = dir @ ''/generated'', tx_artifact_manifest_hash = [],
                 tx_artifacts_ready = False, tx_artifact_block_reason = [], tx_artifacts_simulation = False,
                 tx_rollback_token_hash = ev_token_hash env token, tx_capability_path = dir @ ''/rollback.cap'',
                 tx_binding_path = dir @ ''/binding.env'', tx_created_at = t, tx_expires_at = t + seconds ttl,
                 tx_rollback_timeout_seconds = ttl\<rparr>) }) }) }"

text \<open>An error after the capability was written: the capability is retired.\<close>

definition retire_after :: "'cfg environment \<Rightarrow> transaction \<Rightarrow> error \<Rightarrow> ('cfg, error) act" where
  "retire_after env tx e = do {
     r \<leftarrow> ask env (\<lambda>t. ev_cleanup env t (Retire_capability tx));
     State_Monad.return (case r of None \<Rightarrow> e | Some c \<Rightarrow> e @ ''; cleanup rollback capability: '' @ c) }"

text \<open>The files of a new candidate: the bound transaction and the manifest.\<close>

definition prepare_candidate ::
    "'cfg environment \<Rightarrow> transaction \<Rightarrow> 'cfg \<Rightarrow>
       ('cfg, action_failure + transaction \<times> artifact_manifest \<times> gotime) act" where
  "prepare_candidate env tx candidate = do {
     w \<leftarrow> ask env (\<lambda>t. ev_write_candidate env t tx candidate);
     (case w of
        Some e \<Rightarrow> State_Monad.return (Inl (internal_failure e))
      | None \<Rightarrow> do {
          c \<leftarrow> ask env (\<lambda>t. ev_persist_capability env t tx);
          (case c of
             Some e \<Rightarrow> State_Monad.return (Inl (internal_failure e))
           | None \<Rightarrow> do {
               d \<leftarrow> ask env (\<lambda>t. ev_diagnostics env t candidate);
               (case d of
                  Some e \<Rightarrow> do { e' \<leftarrow> retire_after env tx e; State_Monad.return (Inl (internal_failure e')) }
                | None \<Rightarrow> do {
                    generated_at \<leftarrow> now env;
                    g \<leftarrow> ask env (\<lambda>t. ev_generate env t candidate tx);
                    (case g of
                       Inl e \<Rightarrow> do { e' \<leftarrow> retire_after env tx e; State_Monad.return (Inl (internal_failure e')) }
                     | Inr (mf, mhash) \<Rightarrow> do {
                         let tx1 = tx\<lparr>tx_artifact_manifest_hash := mhash,
                           tx_artifacts_ready := mf_deployment_ready mf,
                           tx_artifact_block_reason := mf_block_reason mf,
                           tx_artifacts_simulation := mf_simulation mf\<rparr>;
                         b \<leftarrow> ask env (\<lambda>t. ev_bind_adaptive env t tx1 candidate);
                         (case b of
                            Inl e \<Rightarrow> do {
                              e' \<leftarrow> retire_after env tx1 e;
                              State_Monad.return (Inl \<lparr>af_status = 422,
                                af_code = ''adaptive_candidate_invalid'', af_message = e'\<rparr>) }
                          | Inr tx2 \<Rightarrow> do {
                              p \<leftarrow> ask env (\<lambda>t. ev_persist_binding env t tx2);
                              (case p of
                                 Some e \<Rightarrow> do {
                                   e' \<leftarrow> retire_after env tx2 e;
                                   State_Monad.return (Inl (internal_failure e')) }
                               | None \<Rightarrow> State_Monad.return (Inr (tx2, mf, generated_at))) }) }) }) }) }) }"

definition warning :: "string \<Rightarrow> string \<Rightarrow> validation" where
  "warning code message = \<lparr>vd_level = ''warning'', vd_code = code, vd_message = message\<rparr>"

text \<open>The change of a candidate that is ready to apply.\<close>

definition validated_change ::
    "change \<Rightarrow> transaction \<Rightarrow> artifact_manifest \<Rightarrow> int \<Rightarrow> change_op list \<Rightarrow> gotime \<Rightarrow> change" where
  "validated_change cs tx mf candidate_version diff t =
     cs\<lparr>ch_state := ''validated'', ch_candidate_version := candidate_version,
       ch_candidate_hash := tx_candidate_hash tx, ch_candidate_path := tx_candidate_path tx,
       ch_artifact_manifest_hash := tx_artifact_manifest_hash tx,
       ch_artifacts_ready := mf_deployment_ready mf, ch_artifact_block_reason := mf_block_reason mf,
       ch_artifacts_simulation := mf_simulation mf,
       ch_validation := ch_validation cs @
         (if mf_deployment_ready mf then []
          else [warning (mf_block_reason mf) ''generated data-plane artifacts require verified device diagnostics'']) @
         map (\<lambda>w. warning w ''candidate changes OpenWrt flow offloading and requires explicit apply confirmation'')
           (mf_warnings mf),
       ch_revision_id := tx_revision_id tx, ch_transaction_id := tx_id tx,
       ch_expires_at := time_truncate (tx_expires_at tx) second, ch_diff := diff,
       ch_adapter_status := ''NOT_STARTED'', ch_version := ch_version cs + 1,
       ch_updated_at := time_truncate t second\<rparr>"

definition validate_new ::
    "'cfg environment \<Rightarrow> change \<Rightarrow> 'cfg \<Rightarrow> change_op list \<Rightarrow> int \<Rightarrow> ('cfg, outcome) act" where
  "validate_new env cs candidate diff current_version = do {
     let candidate_version = current_version + 1;
     rnd \<leftarrow> ask env (\<lambda>t. ev_random env t 6);
     (case rnd of
        Inl e \<Rightarrow> State_Monad.return (cs, Some (internal_failure (''generate revision ID: '' @ e)))
      | Inr hex \<Rightarrow> do {
          n \<leftarrow> new_transaction env (ch_id cs) (''rev_'' @ int_dec candidate_version @ ''_'' @ hex)
                 (ch_base_version cs) candidate_version candidate;
          (case n of
             Inl e \<Rightarrow> State_Monad.return (cs, Some (internal_failure e))
           | Inr tx0 \<Rightarrow> do {
               p \<leftarrow> prepare_candidate env tx0 candidate;
               (case p of
                  Inl f \<Rightarrow> State_Monad.return (cs, Some f)
                | Inr (tx, mf, generated_at) \<Rightarrow> do {
                    t \<leftarrow> now env;
                    let cs' = validated_change cs tx mf candidate_version diff t;
                    let record = \<lparr>cr_change_id = ch_id cs, cr_base_version = ch_base_version cs,
                      cr_candidate_version = candidate_version, cr_hash = tx_candidate_hash tx,
                      cr_artifact_manifest_hash = tx_artifact_manifest_hash tx,
                      cr_artifacts_ready = mf_deployment_ready mf, cr_artifact_block_reason = mf_block_reason mf,
                      cr_artifacts_simulation = mf_simulation mf, cr_config = candidate,
                      cr_created_at = generated_at\<rparr>;
                    t2 \<leftarrow> now env;
                    r \<leftarrow> save_entries env
                      [Candidate_entry (ch_id cs) record,
                       Transaction_entry (tx_id tx) \<lparr>tr_transaction = tx, tr_state = ''validated'',
                         tr_commit_phase = [], tr_steps = [], tr_updated_at = t2, tr_completed_at = None\<rparr>,
                       Revision_entry (tx_revision_id tx) \<lparr>rv_revision_id = tx_revision_id tx, rv_kind = [],
                         rv_change_id = ch_id cs, rv_transaction_id = tx_id tx,
                         rv_base_version = ch_base_version cs, rv_version = candidate_version,
                         rv_candidate_hash = tx_candidate_hash tx,
                         rv_artifact_manifest_hash = tx_artifact_manifest_hash tx, rv_state = ''validated'',
                         rv_created_at = tx_created_at tx, rv_committed_at = None\<rparr>,
                       Change_entry (ch_id cs) cs'];
                    (case r of
                       Some e \<Rightarrow> State_Monad.return (cs', Some (internal_failure e))
                     | None \<Rightarrow> do { set_change cs'; State_Monad.return (cs', None) }) }) }) }) }"

text \<open>A candidate that equals the active configuration, when its revision is committed.\<close>

definition validate_noop :: "'cfg environment \<Rightarrow> change \<Rightarrow> revision_record \<Rightarrow> int \<Rightarrow> ('cfg, outcome) act" where
  "validate_noop env cs revision current_version = do {
     t \<leftarrow> now env;
     let cs' = cs\<lparr>ch_state := ''validated'', ch_noop := True, ch_candidate_version := current_version,
       ch_candidate_hash := rv_candidate_hash revision,
       ch_artifact_manifest_hash := rv_artifact_manifest_hash revision,
       ch_revision_id := rv_revision_id revision, ch_transaction_id := rv_transaction_id revision,
       ch_diff := [], ch_adapter_status := ''NOOP_PENDING'', ch_version := ch_version cs + 1,
       ch_updated_at := time_truncate t second\<rparr>;
     r \<leftarrow> save_entries env [Change_entry (ch_id cs') cs'];
     (case r of
        Some e \<Rightarrow> State_Monad.return (cs', Some (internal_failure e))
      | None \<Rightarrow> do { set_change cs'; State_Monad.return (cs', None) }) }"

definition relax_noop :: "change_op list \<Rightarrow> validation list \<Rightarrow> validation list" where
  "relax_noop diff vs =
     (if diff \<noteq> [] then vs
      else map (\<lambda>v. if vd_code v = ''candidate_noop''
        then v\<lparr>vd_level := ''info'', vd_message := ''candidate matches the active configuration''\<rparr> else v) vs)"

text \<open>
  The operations of the change are shared with the change in memory, so that the values the build
  rewrites (see \<open>build_candidate\<close>) change there at once.
\<close>

definition validate_change_set :: "'cfg environment \<Rightarrow> change \<Rightarrow> ('cfg, outcome) act" where
  "validate_change_set env cs0 = do {
     lease \<leftarrow> acquire_mutation_lease;
     current_version \<leftarrow> reads sv_config_version;
     active \<leftarrow> reads sv_active_config;
     active_id \<leftarrow> reads sv_active_revision;
     (case lease of
        Some f \<Rightarrow> State_Monad.return (cs0, Some f)
      | None \<Rightarrow>
     (if ch_state cs0 \<noteq> ''draft''
      then State_Monad.return (cs0, Some (conflict ''invalid_transition''
             (''change cannot be validated from '' @ ch_state cs0)))
      else if ch_base_version cs0 \<noteq> current_version
      then State_Monad.return (cs0, Some (conflict ''base_version_conflict''
             ''base_version does not match current revision''))
      else do {
        let b = build_candidate (ev_to_json env) (ev_of_json env) (ev_config_error env) (Some active)
                  (ch_operations cs0);
        updates (\<lambda>s. s\<lparr>sv_changes := (case map_of (sv_changes s) (ch_id cs0) of
            None \<Rightarrow> sv_changes s
          | Some m \<Rightarrow> bucket_put (ch_id cs0) (m\<lparr>ch_operations := br_operations b\<rparr>) (sv_changes s))\<rparr>);
        extra \<leftarrow> (case br_candidate b of
            None \<Rightarrow> State_Monad.return []
          | Some candidate \<Rightarrow> ask env (\<lambda>t. ev_smart_dns env t active candidate));
        let vs = relax_noop (br_diff b) (br_validations b @ extra);
        let cs = cs0\<lparr>ch_operations := br_operations b, ch_validation := vs\<rparr>;
        (if has_validation_error vs
         then do {
           (r, cs) \<leftarrow> save_change env cs ''draft'';
           State_Monad.return (cs, Some (case r of
               Some e \<Rightarrow> internal_failure e
             | None \<Rightarrow> \<lparr>af_status = 422, af_code = ''candidate_invalid'',
                 af_message = ''candidate config validation failed''\<rparr>)) }
         else case br_candidate b of
           None \<Rightarrow> State_Monad.return (cs, Some (internal_failure ''candidate is missing''))
         | Some candidate \<Rightarrow>
             (if br_diff b = [] \<and> active_id \<noteq> []
              then do {
                r \<leftarrow> load env du_revisions active_id;
                (case r of
                   Inr revision \<Rightarrow>
                     (if rv_state revision = ''committed'' \<and> rv_candidate_hash revision = ev_hash env candidate
                      then validate_noop env cs revision current_version
                      else validate_new env cs candidate (br_diff b) current_version)
                 | Inl e \<Rightarrow> validate_new env cs candidate (br_diff b) current_version) }
              else validate_new env cs candidate (br_diff b) current_version)) })) }"

section \<open>Management proof\<close>

definition refresh_rollback_window ::
    "'cfg environment \<Rightarrow> change \<Rightarrow> transaction \<Rightarrow> int \<Rightarrow> ('cfg, change \<times> transaction \<times> action_failure option) act" where
  "refresh_rollback_window env cs tx secs =
     (if secs < 1 \<or> 3600 < secs
      then State_Monad.return (cs, tx, Some (conflict ''rollback_window_invalid''
             ''rollback window must be between 1 and 3600 seconds''))
      else do {
        t \<leftarrow> now env;
        let tx' = tx\<lparr>tx_rollback_timeout_seconds := secs, tx_expires_at := t + seconds secs\<rparr>;
        p \<leftarrow> ask env (\<lambda>i. ev_persist_binding env i tx');
        (case p of
           Some e \<Rightarrow> State_Monad.return (cs, tx', Some (internal_failure e))
         | None \<Rightarrow> do {
             r \<leftarrow> load env du_transactions (tx_id tx');
             (case r of
                Inl e \<Rightarrow> State_Monad.return (cs, tx', Some (internal_failure e))
              | Inr record \<Rightarrow> do {
                  let cs' = cs\<lparr>ch_expires_at := time_truncate (tx_expires_at tx') second,
                    ch_version := ch_version cs + 1, ch_updated_at := time_truncate t second\<rparr>;
                  w \<leftarrow> save_entries env
                    [Transaction_entry (tx_id tx') (record\<lparr>tr_transaction := tx', tr_updated_at := t\<rparr>),
                     Change_entry (ch_id cs') cs'];
                  (case w of
                     Some e \<Rightarrow> State_Monad.return (cs', tx', Some (internal_failure e))
                   | None \<Rightarrow> do { set_change cs'; State_Monad.return (cs', tx', None) }) }) }) })"

definition prepare_management_proof :: "'cfg environment \<Rightarrow> string \<Rightarrow> change \<Rightarrow> ('cfg, outcome) act" where
  "prepare_management_proof env management_mode cs = do {
     lease \<leftarrow> acquire_mutation_lease;
     (case lease of
        Some f \<Rightarrow> State_Monad.return (cs, Some f)
      | None \<Rightarrow> do {
          l \<leftarrow> load_verified_transaction env cs;
          (case l of
             Inl f \<Rightarrow> State_Monad.return (cs, Some f)
           | Inr tx \<Rightarrow>
               (let trimmed = to_lower (trim_space management_mode);
                    mode = (if trimmed = [] then ''lan'' else trimmed);
                    timeout = tx_rollback_timeout_seconds tx in
                if mode = ''lan''
                then do {
                  (cs, tx, f) \<leftarrow> refresh_rollback_window env cs tx (if timeout \<le> 0 then 120 else timeout);
                  (case f of
                     Some f \<Rightarrow> State_Monad.return (cs, Some f)
                   | None \<Rightarrow> do {
                       i \<leftarrow> ask env (\<lambda>t. ev_issue_lan env t tx (if timeout \<le> 0 then 120 else timeout));
                       State_Monad.return (cs, case i of None \<Rightarrow> None
                         | Some e \<Rightarrow> Some (conflict ''management_proof_unavailable'' e)) }) }
                else if mode = ''headless''
                then do {
                  v \<leftarrow> ask env (\<lambda>t. ev_verify_proof env t tx);
                  (case v of
                     Inl e \<Rightarrow> State_Monad.return (cs, Some (conflict ''headless_management_proof_invalid'' e))
                   | Inr proof_mode \<Rightarrow>
                       (if proof_mode \<noteq> ''headless''
                        then State_Monad.return (cs, Some (conflict ''headless_management_proof_invalid''
                               ''headless apply requires an SSH-issued proof''))
                        else do {
                          (cs, tx, f) \<leftarrow> refresh_rollback_window env cs tx
                            (if timeout * 3 < 600 then 600 else if 3600 < timeout * 3 then 3600 else timeout * 3);
                          State_Monad.return (cs, f) })) }
                else State_Monad.return (cs, Some \<lparr>af_status = 400, af_code = ''management_mode_invalid'',
                       af_message = ''management_mode must be lan or headless''\<rparr>))) }) }"

definition verify_management_confirmation ::
    "'cfg environment \<Rightarrow> string \<Rightarrow> change \<Rightarrow> ('cfg, action_failure option) act" where
  "verify_management_confirmation env management_mode cs = do {
     l \<leftarrow> load_verified_transaction env cs;
     (case l of
        Inl f \<Rightarrow> State_Monad.return (Some f)
      | Inr tx \<Rightarrow> do {
          v \<leftarrow> ask env (\<lambda>t. ev_verify_proof env t tx);
          (case v of
             Inl e \<Rightarrow> State_Monad.return (Some (conflict ''management_proof_invalid'' e))
           | Inr mode \<Rightarrow>
               (if mode = ''lan''
                then do {
                  c \<leftarrow> ask env (\<lambda>t. ev_verify_lan env t tx);
                  State_Monad.return (map_option (conflict ''management_confirmation_path_mismatch'') c) }
                else if mode = ''headless''
                then State_Monad.return
                  (if to_lower (trim_space management_mode) \<noteq> ''headless'' \<or> \<not> ev_loopback env
                   then Some (conflict ''headless_confirmation_required''
                     ''headless confirmation must be explicit and submitted through the router loopback API'')
                   else None)
                else if mode = ''automatic''
                then State_Monad.return (Some (conflict ''automatic_confirmation_forbidden''
                       ''automatic proof cannot be confirmed through the management API''))
                else State_Monad.return (Some (conflict ''management_proof_invalid''
                       ''management proof mode is invalid'')))) }) }"

end
