(* ===== verification/Tx_Commit.thy ===== *)
theory Tx_Commit
  imports Tx_Protocol
begin

text \<open>
  Applying and confirming a change (\<^verbatim>\<open>internal/api/transaction.go\<close>): the adapter steps up to
  the confirmation window, the no-op, the two commit protocols, the clean-up after a commit; creating
  and deleting changes and the dispatch of a request (\<^verbatim>\<open>internal/api/server.go\<close>,
  \<^verbatim>\<open>internal/api/xray_subscription.go\<close>).
\<close>

section \<open>Baseline revisions\<close>

text \<open>
  \<^verbatim>\<open>validateBaselineRevision\<close>; \<open>hash\<close> is the hash of the active configuration, whose text
  after \<^verbatim>\<open>sha256:\<close> begins with the six bytes of the revision id.
\<close>

definition baseline_revision_id :: "string \<Rightarrow> string" where
  "baseline_revision_id hash = ''rev_1_'' @ take 12 (drop 7 hash)"

definition validate_baseline_revision :: "revision_record \<Rightarrow> string \<Rightarrow> string \<Rightarrow> error option" where
  "validate_baseline_revision revision active_revision hash =
     (if rv_kind revision \<noteq> ''baseline'' \<or> rv_state revision \<noteq> ''committed'' \<or> rv_version revision \<noteq> 1 \<or>
         rv_base_version revision \<noteq> 0 \<or> rv_revision_id revision = [] \<or>
         rv_revision_id revision \<noteq> active_revision \<or> rv_change_id revision \<noteq> [] \<or>
         rv_transaction_id revision \<noteq> [] \<or> rv_artifact_manifest_hash revision \<noteq> [] \<or>
         rv_candidate_hash revision = [] \<or> rv_created_at revision = 0 \<or> rv_committed_at revision = None
      then Some ''baseline revision record is incomplete''
      else if rv_candidate_hash revision \<noteq> hash \<or> rv_revision_id revision \<noteq> baseline_revision_id hash
      then Some ''baseline config hash does not match revision''
      else None)"

section \<open>Apply\<close>

definition save_committed_noop :: "'cfg environment \<Rightarrow> change \<Rightarrow> step_result list \<Rightarrow> ('cfg, outcome) act" where
  "save_committed_noop env cs steps = do {
     t \<leftarrow> now env;
     let cs' = cs\<lparr>ch_state := ''committed'', ch_adapter_status := ''NOOP'', ch_management_verified := True,
       ch_data_plane_verified := True, ch_steps := ch_steps cs @ steps, ch_version := ch_version cs + 1,
       ch_updated_at := time_truncate t second\<rparr>;
     r \<leftarrow> save_entries env [Change_entry (ch_id cs') cs'];
     (case r of
        Some e \<Rightarrow> State_Monad.return (cs', Some (internal_failure e))
      | None \<Rightarrow> do { set_change cs'; State_Monad.return (cs', None) }) }"

definition revision_deployed :: "step_result \<Rightarrow> revision_record \<Rightarrow> bool" where
  "revision_deployed status revision \<longleftrightarrow>
     step_ok status \<and> evidence_string status ''active_revision'' = rv_revision_id revision \<and>
     evidence_string status ''active_transaction'' = rv_transaction_id revision \<and>
     evidence_string status ''active_candidate_hash'' = rv_candidate_hash revision \<and>
     evidence_string status ''active_artifact_manifest_hash'' = rv_artifact_manifest_hash revision"

definition apply_noop_change_set :: "'cfg environment \<Rightarrow> change \<Rightarrow> ('cfg, outcome) act" where
  "apply_noop_change_set env cs = do {
     r \<leftarrow> load env du_revisions (ch_revision_id cs);
     active \<leftarrow> reads sv_active_config;
     (case (if ch_revision_id cs = [] then None
            else case r of Inl e \<Rightarrow> None
              | Inr revision \<Rightarrow> if rv_state revision \<noteq> ''committed'' then None else Some revision) of
        None \<Rightarrow> State_Monad.return (cs, Some (conflict ''noop_revision_missing''
          ''active committed revision is unavailable; validate again''))
      | Some revision \<Rightarrow>
          (if rv_kind revision = ''baseline''
           then (case validate_baseline_revision revision (ch_revision_id cs) (ev_hash env active) of
               Some e \<Rightarrow> State_Monad.return (cs, Some (conflict ''noop_baseline_invalid'' e))
             | None \<Rightarrow> save_committed_noop env cs [])
           else do {
             status \<leftarrow> adapter env Adapter_status;
             (if \<not> revision_deployed status revision
              then State_Monad.return (cs, Some (conflict ''noop_deployment_drift''
                     ''active deployment no longer matches the committed revision''))
              else save_committed_noop env cs [status]) })) }"

text \<open>The steps: the state the change must be in before the call, and the call.\<close>

definition adapter_steps :: "(string \<times> (transaction \<Rightarrow> adapter_call)) list" where
  "adapter_steps = [([], Prepare), (''prepared'', Validate_candidate), (''prepared'', Snapshot_current),
     (''applying'', Apply_candidate), (''verifying'', Verify_management_path), (''verifying'', Verify_data_plane)]"

text \<open>
  What follows a call: \<open>Inl\<close> is the outcome of the operation, \<open>Inr\<close> goes on with the change
  and whether the data plane was applied. Which step a result belongs to is what the adapter
  reports.
\<close>

definition finish_step ::
    "'cfg environment \<Rightarrow> bool \<Rightarrow> change \<Rightarrow> transaction \<Rightarrow> step_result \<Rightarrow> ('cfg, outcome + change \<times> bool) act" where
  "finish_step env applied cs tx result =
     (if \<not> step_ok result
      then (if sr_status result = ''SKIPPED'' \<or> sr_status result = ''UNVERIFIED''
        then (let cs = cs\<lparr>ch_management_verified := False, ch_data_plane_verified := False,
                ch_adapter_status := ''REQUIRES_DEVICE''\<rparr> in
          if applied
          then do {
            o1 \<leftarrow> rollback_locked env cs tx ''requires_device'' ''verification_requires_device'';
            State_Monad.return (Inl o1) }
          else do {
            (r, cs) \<leftarrow> save_progress env cs tx ''requires_device'';
            State_Monad.return (Inl (cs, map_option internal_failure r)) })
        else do {
          o1 \<leftarrow> rollback_locked env cs tx
            (if sr_step result = ''verify_management_path'' \<or> sr_step result = ''verify_data_plane''
             then ''rolled_back'' else ''failed'') ''adapter_step_failed'';
          State_Monad.return (Inl o1) })
      else if sr_step result = ''apply_candidate'' \<and> \<not> artifact_evidence_matches result tx
      then do {
        o1 \<leftarrow> rollback_locked env cs tx ''failed'' ''applied_artifact_binding_mismatch'';
        State_Monad.return (Inl o1) }
      else State_Monad.return (Inr
        (cs\<lparr>ch_management_verified := (if sr_step result = ''verify_management_path''
               then sr_management_verified result else ch_management_verified cs),
            ch_data_plane_verified := (if sr_step result = ''verify_data_plane''
               then sr_data_plane_verified result else ch_data_plane_verified cs)\<rparr>,
         applied \<or> sr_step result = ''apply_candidate'')))"

definition apply_step ::
    "'cfg environment \<Rightarrow> bool \<Rightarrow> bool \<Rightarrow> change \<Rightarrow> transaction \<Rightarrow> string \<times> (transaction \<Rightarrow> adapter_call) \<Rightarrow>
       ('cfg, outcome + change \<times> bool) act" where
  "apply_step env initial applied cs0 tx step = do {
     (r0, cs) \<leftarrow> (if fst step \<noteq> [] \<and> ch_state cs0 \<noteq> fst step then save_progress env cs0 tx (fst step)
                 else State_Monad.return (None, cs0));
     (case r0 of
        Some e \<Rightarrow> State_Monad.return (Inl (cs, Some (internal_failure e)))
      | None \<Rightarrow>
          (case validate_transaction_binding cs tx of
             Some f \<Rightarrow> State_Monad.return (Inl (cs, Some f))
           | None \<Rightarrow> do {
               result \<leftarrow> adapter env (snd step tx);
               let cs1 = cs\<lparr>ch_steps := ch_steps cs @ [result], ch_adapter_status := sr_status result,
                 ch_state := (if initial \<and> step_ok result then ''prepared'' else ch_state cs)\<rparr>;
               (r1, cs2) \<leftarrow> save_progress env cs1 tx (ch_state cs1);
               (case r1 of
                  Some e \<Rightarrow> State_Monad.return (Inl (cs2, Some (internal_failure e)))
                | None \<Rightarrow> finish_step env applied cs2 tx result) })) }"

fun apply_steps ::
    "'cfg environment \<Rightarrow> bool \<Rightarrow> bool \<Rightarrow> change \<Rightarrow> transaction \<Rightarrow> (string \<times> (transaction \<Rightarrow> adapter_call)) list \<Rightarrow>
       ('cfg, outcome + change) act" where
  "apply_steps env initial applied cs tx [] = State_Monad.return (Inr cs)"
| "apply_steps env initial applied cs tx (step # rest) = do {
     r \<leftarrow> apply_step env initial applied cs tx step;
     (case r of
        Inl out \<Rightarrow> State_Monad.return (Inl out)
      | Inr (cs, applied) \<Rightarrow> apply_steps env False applied cs tx rest) }"

definition require_device :: "'cfg environment \<Rightarrow> change \<Rightarrow> transaction \<Rightarrow> ('cfg, outcome) act" where
  "require_device env cs tx = do {
     (r, cs) \<leftarrow> save_progress env cs tx ''requires_device'';
     State_Monad.return (cs, map_option internal_failure r) }"

definition apply_transaction :: "'cfg environment \<Rightarrow> change \<Rightarrow> transaction \<Rightarrow> ('cfg, outcome) act" where
  "apply_transaction env cs tx = do {
     r \<leftarrow> apply_steps env True False cs tx adapter_steps;
     (case r of
        Inl out \<Rightarrow> State_Monad.return out
      | Inr cs \<Rightarrow>
          (if \<not> ch_management_verified cs \<or> \<not> ch_data_plane_verified cs
           then rollback_locked env cs tx ''rolled_back'' ''verification_flags_missing''
           else do {
             (r, cs) \<leftarrow> save_progress env (cs\<lparr>ch_adapter_status := ''OK''\<rparr>) tx ''awaiting_confirmation'';
             (case r of
                Some e \<Rightarrow> State_Monad.return (cs, Some (internal_failure e))
              | None \<Rightarrow> do { schedule_expiry cs; State_Monad.return (cs, None) }) })) }"

definition apply_change_set :: "'cfg environment \<Rightarrow> change \<Rightarrow> ('cfg, outcome) act" where
  "apply_change_set env cs = do {
     lease \<leftarrow> acquire_mutation_lease;
     other \<leftarrow> active_transaction (ch_id cs);
     current_version \<leftarrow> reads sv_config_version;
     active \<leftarrow> reads sv_active_config;
     (case lease of
        Some f \<Rightarrow> State_Monad.return (cs, Some f)
      | None \<Rightarrow>
     (if ch_state cs \<noteq> ''validated''
      then State_Monad.return (cs, Some (conflict ''invalid_transition''
             (''change cannot be applied from '' @ ch_state cs)))
      else case other of
        Some busy \<Rightarrow> State_Monad.return (cs, Some (conflict ''transaction_busy''
          (''another transaction is active: '' @ busy)))
      | None \<Rightarrow>
     (if ch_base_version cs \<noteq> current_version
      then State_Monad.return (cs, Some (conflict ''base_version_conflict''
             ''candidate was built from a stale config version''))
      else if ch_noop cs then apply_noop_change_set env cs
      else do {
        l \<leftarrow> load_verified_transaction env cs;
        (case l of
           Inl f \<Rightarrow> State_Monad.return (cs, Some f)
         | Inr tx \<Rightarrow> do {
             c \<leftarrow> load_verified_candidate env cs tx;
             (case c of
                Inl f \<Rightarrow> State_Monad.return (cs, Some f)
              | Inr candidate \<Rightarrow> do {
                  vs \<leftarrow> ask env (\<lambda>t. ev_smart_dns env t active candidate);
                  (if has_validation_error vs
                   then State_Monad.return (cs, Some (conflict ''smart_dns_validation_expired''
                          ''Smart DNS validation is missing or expired; validate the candidate again''))
                   else do {
                     p \<leftarrow> ask env (\<lambda>t. ev_automatic_proof env t tx);
                     (case p of
                        Some f \<Rightarrow> State_Monad.return (cs, Some f)
                      | None \<Rightarrow>
                          (if \<not> tx_artifacts_ready tx
                           then require_device env (cs\<lparr>ch_adapter_status := ''REQUIRES_DEVICE''\<rparr>) tx
                           else if tx_artifacts_simulation tx \<and> \<not> ev_development env
                           then require_device env (cs\<lparr>ch_adapter_status := ''REQUIRES_DEVICE'',
                             ch_validation := ch_validation cs @ [warning ''simulated_diagnostics_refused''
                               ''production apply requires non-simulated device diagnostics'']\<rparr>) tx
                           else apply_transaction env cs tx)) }) }) }) }))) }"

section \<open>Commit\<close>

definition clear_boot_guard :: "'cfg environment \<Rightarrow> transaction \<Rightarrow> ('cfg, action_failure option) act" where
  "clear_boot_guard env tx =
     (case ev_boot_guard env of
        No_clearer \<Rightarrow> State_Monad.return None
      | guard \<Rightarrow> do {
          result \<leftarrow> adapter env (if guard = Bound_clearer then Clear_guard_for tx else Clear_guard);
          State_Monad.return (if step_ok result then None
            else Some \<lparr>af_status = 503, af_code = ''boot_guard_clear_failed'',
              af_message = (if sr_reason result = [] then ''adapter did not prove boot guard removal''
                else sr_reason result)\<rparr>) })"

definition cleanup_committed_resources ::
    "'cfg environment \<Rightarrow> transaction \<Rightarrow> revision_record option \<Rightarrow> ('cfg, unit) act" where
  "cleanup_committed_resources env tx previous = do {
     f1 \<leftarrow> cleanup_step env ''rollback capability'' (Retire_capability tx) [];
     f2 \<leftarrow> cleanup_proof env tx f1;
     f3 \<leftarrow> cleanup_step env ''current transaction'' (Cleanup_committed tx) f2;
     f4 \<leftarrow> (case previous of
         None \<Rightarrow> State_Monad.return f3
       | Some p \<Rightarrow>
           (if rv_revision_id p \<noteq> [] \<and> rv_transaction_id p \<noteq> [] \<and> rv_transaction_id p \<noteq> tx_id tx
            then cleanup_step env ''previous transaction''
                   (Cleanup_obsolete (rv_revision_id p) (rv_transaction_id p)) f3
            else State_Monad.return f3));
     save_cleanup_status env tx f4 }"

definition revision_of :: "change \<Rightarrow> transaction \<Rightarrow> string \<Rightarrow> gotime option \<Rightarrow> revision_record" where
  "revision_of cs tx state committed_at =
     \<lparr>rv_revision_id = tx_revision_id tx, rv_kind = [], rv_change_id = ch_id cs, rv_transaction_id = tx_id tx,
      rv_base_version = tx_base_version tx, rv_version = tx_candidate_version tx,
      rv_candidate_hash = tx_candidate_hash tx, rv_artifact_manifest_hash = tx_artifact_manifest_hash tx,
      rv_state = state, rv_created_at = tx_created_at tx, rv_committed_at = committed_at\<rparr>"

definition record_of :: "change \<Rightarrow> transaction \<Rightarrow> string \<Rightarrow> string \<Rightarrow> gotime \<Rightarrow> gotime option \<Rightarrow> transaction_record" where
  "record_of cs tx state phase updated completed =
     \<lparr>tr_transaction = tx, tr_state = state, tr_commit_phase = phase, tr_steps = ch_steps cs,
      tr_updated_at = updated, tr_completed_at = completed\<rparr>"

text \<open>The batch that makes a candidate the active configuration.\<close>

definition activation_entries ::
    "change \<Rightarrow> transaction \<Rightarrow> 'cfg \<Rightarrow> revision_record \<Rightarrow> transaction_record \<Rightarrow> 'cfg tx_entry list" where
  "activation_entries cs tx candidate revision record =
     [Active_config candidate, Active_revision (tx_revision_id tx), Config_version (tx_candidate_version tx),
      Revision_entry (tx_revision_id tx) revision, Transaction_entry (tx_id tx) record,
      Change_entry (ch_id cs) cs]"

definition activate_memory :: "change \<Rightarrow> transaction \<Rightarrow> 'cfg \<Rightarrow> ('cfg, unit) act" where
  "activate_memory cs tx candidate = do {
     updates (\<lambda>s. s\<lparr>sv_active_config := candidate, sv_active_revision := tx_revision_id tx,
       sv_config_version := tx_candidate_version tx\<rparr>);
     set_change cs }"

definition finish_commit ::
    "'cfg environment \<Rightarrow> change \<Rightarrow> transaction \<Rightarrow> 'cfg \<Rightarrow> revision_record option \<Rightarrow> ('cfg, outcome) act" where
  "finish_commit env cs tx candidate previous = do {
     activate_memory cs tx candidate;
     cancel_expiry (ch_id cs);
     cleanup_committed_resources env tx previous;
     State_Monad.return (cs, None) }"

text \<open>
  The split protocol: activate in the adapter, make the candidate durable, finalize in the adapter.
  After each boundary a failure raises the recovery fence; nothing is rolled back.
\<close>

definition finalize_split ::
    "'cfg environment \<Rightarrow> change \<Rightarrow> transaction \<Rightarrow> 'cfg \<Rightarrow> revision_record option \<Rightarrow> ('cfg, outcome) act" where
  "finalize_split env cs tx candidate previous = do {
     finalized \<leftarrow> adapter env (Finalize_commit tx);
     let cs1 = cs\<lparr>ch_steps := ch_steps cs @ [finalized], ch_adapter_status := sr_status finalized\<rparr>;
     (case validate_finalized_commit finalized tx of
        Some e \<Rightarrow> do {
          let cs2 = cs1\<lparr>ch_commit_phase := ''finalize_ambiguous''\<rparr>;
          t \<leftarrow> now env;
          r \<leftarrow> save_entries env [Transaction_entry (tx_id tx)
            (record_of cs2 tx ''control_plane_committed'' ''finalize_ambiguous'' t None)];
          let e' = (case r of None \<Rightarrow> e | Some p \<Rightarrow> e @ ''; persist finalize_ambiguous state: '' @ p);
          mark_recovery_required env (recovery_target_of tx) ''adapter_finalize_ambiguous'' e' ''finalize_ambiguous'';
          State_Monad.return (cs2, Some (recovery_failure e')) }
      | None \<Rightarrow> do {
          t \<leftarrow> now env;
          let cs2 = cs1\<lparr>ch_commit_phase := ''adapter_finalized'', ch_state := ''committed'',
            ch_version := ch_version cs1 + 1, ch_updated_at := time_truncate t second\<rparr>;
          r \<leftarrow> save_entries env
            [Revision_entry (tx_revision_id tx) (revision_of cs2 tx ''committed'' (Some t)),
             Transaction_entry (tx_id tx) (record_of cs2 tx ''committed'' ''adapter_finalized'' t (Some t)),
             Change_entry (ch_id cs2) cs2];
          (case r of
             Some e \<Rightarrow> do {
               mark_recovery_required env (recovery_target_of tx) ''control_plane_finalize_persist_failed'' e
                 ''adapter_finalized'';
               State_Monad.return (cs2, Some (recovery_failure
                 ''adapter finalized but commit completion persistence is ambiguous'')) }
           | None \<Rightarrow> do {
               g \<leftarrow> clear_boot_guard env tx;
               (case g of
                  Some f \<Rightarrow> do {
                    mark_recovery_required env (recovery_target_of tx) ''boot_guard_clear_failed'' (af_message f)
                      ''adapter_finalized'';
                    State_Monad.return (cs2, Some f) }
                | None \<Rightarrow> finish_commit env cs2 tx candidate previous) }) }) }"

definition commit_control_plane ::
    "'cfg environment \<Rightarrow> change \<Rightarrow> transaction \<Rightarrow> 'cfg \<Rightarrow> revision_record option \<Rightarrow> ('cfg, outcome) act" where
  "commit_control_plane env cs tx candidate previous = do {
     t \<leftarrow> now env;
     let cs1 = cs\<lparr>ch_version := ch_version cs + 1, ch_updated_at := time_truncate t second,
       ch_commit_phase := ''control_plane_committed''\<rparr>;
     r \<leftarrow> save_entries env (activation_entries cs1 tx candidate
       (revision_of cs1 tx ''control_plane_committed'' None)
       (record_of cs1 tx ''control_plane_committed'' ''control_plane_committed'' t None));
     (case r of
        Some e \<Rightarrow> do {
          mark_recovery_required env (recovery_target_of tx) ''control_plane_commit_persist_failed'' e
            ''control_plane_committed'';
          State_Monad.return (cs1, Some (recovery_failure
            ''adapter is activated but active revision persistence is ambiguous'')) }
      | None \<Rightarrow> do {
          activate_memory cs1 tx candidate;
          finalize_split env cs1 tx candidate previous }) }"

definition commit_split ::
    "'cfg environment \<Rightarrow> change \<Rightarrow> transaction \<Rightarrow> 'cfg \<Rightarrow> revision_record option \<Rightarrow> ('cfg, outcome) act" where
  "commit_split env cs tx candidate previous = do {
     prepared \<leftarrow> adapter env (Commit_prepared tx);
     let cs1 = cs\<lparr>ch_steps := ch_steps cs @ [prepared], ch_adapter_status := sr_status prepared\<rparr>;
     (case validate_prepared_commit prepared tx of
        Some e \<Rightarrow> do {
          (r, cs2) \<leftarrow> save_progress env (cs1\<lparr>ch_commit_phase := ''adapter_activation_ambiguous''\<rparr>) tx ''committing'';
          mark_recovery_required env (recovery_target_of tx) ''adapter_commit_prepared_ambiguous'' e
            (ch_commit_phase cs2);
          State_Monad.return (cs2, Some (recovery_failure e)) }
      | None \<Rightarrow> do {
          (r, cs2) \<leftarrow> save_progress env (cs1\<lparr>ch_commit_phase := ''adapter_activated''\<rparr>) tx ''committing'';
          (case r of
             Some e \<Rightarrow> do {
               mark_recovery_required env (recovery_target_of tx) ''adapter_commit_progress_failed'' e
                 (ch_commit_phase cs2);
               State_Monad.return (cs2, Some (recovery_failure
                 ''adapter is activated but transaction progress could not be persisted'')) }
           | None \<Rightarrow> commit_control_plane env cs2 tx candidate previous) }) }"

text \<open>The legacy protocol: one irreversible commit.\<close>

definition commit_legacy ::
    "'cfg environment \<Rightarrow> change \<Rightarrow> transaction \<Rightarrow> 'cfg \<Rightarrow> revision_record option \<Rightarrow> ('cfg, outcome) act" where
  "commit_legacy env cs tx candidate previous = do {
     commit \<leftarrow> adapter env (Commit tx);
     let cs1 = cs\<lparr>ch_steps := ch_steps cs @ [commit], ch_adapter_status := sr_status commit\<rparr>;
     (if (sr_operation commit \<noteq> [] \<or> sr_protocol_version commit \<noteq> 0) \<and>
         validate_binding commit ''commit'' tx \<noteq> None
      then rollback_locked env cs1 tx ''failed'' ''commit_binding_invalid''
      else do {
        (r, cs2) \<leftarrow> save_progress env cs1 tx ''committing'';
        (case r of
           Some e \<Rightarrow> do {
             mark_recovery_required env (recovery_target_of tx) ''legacy_commit_progress_persist_failed'' e
               ''legacy_commit_progress'';
             State_Monad.return (cs2, Some (recovery_failure
               ''adapter commit result is ambiguous; recovery is required'')) }
         | None \<Rightarrow>
             (if \<not> step_ok commit then rollback_locked env cs2 tx ''failed'' ''commit_failed''
              else do {
                t \<leftarrow> now env;
                let cs3 = cs2\<lparr>ch_state := ''committed'', ch_version := ch_version cs2 + 1,
                  ch_updated_at := time_truncate t second\<rparr>;
                w \<leftarrow> save_entries env (activation_entries cs3 tx candidate
                  (revision_of cs3 tx ''committed'' (Some t))
                  (record_of cs3 tx ''committed'' ''legacy_committed'' t (Some t)));
                (case w of
                   Some e \<Rightarrow> do {
                     mark_recovery_required env (recovery_target_of tx) ''legacy_commit_persist_failed'' e
                       ''legacy_committed'';
                     State_Monad.return (cs3, Some (recovery_failure
                       ''adapter committed but active revision persistence is ambiguous'')) }
                 | None \<Rightarrow> do {
                     g \<leftarrow> clear_boot_guard env tx;
                     (case g of
                        Some f \<Rightarrow> do {
                          mark_recovery_required env (recovery_target_of tx) ''boot_guard_clear_failed''
                            (af_message f) ''legacy_committed'';
                          State_Monad.return (cs3, Some f) }
                      | None \<Rightarrow> finish_commit env cs3 tx candidate previous) }) })) }) }"

text \<open>The checks of a confirmation that hold a verified transaction.\<close>

definition confirm_transaction ::
    "'cfg environment \<Rightarrow> change \<Rightarrow> transaction \<Rightarrow> revision_record option \<Rightarrow> ('cfg, outcome) act" where
  "confirm_transaction env cs tx previous = do {
     t \<leftarrow> now env;
     (if tx_expires_at tx < t
      then do {
        (cs, f) \<leftarrow> rollback_locked env cs tx ''expired'' ''confirmation_expired'';
        State_Monad.return (cs, Some (conflict ''transaction_expired'' ''transaction expired and was rolled back'')) }
      else do {
        status \<leftarrow> adapter env Adapter_status;
        let cs = cs\<lparr>ch_steps := ch_steps cs @ [status]\<rparr>;
        (if \<not> status_matches status tx
         then rollback_locked env cs tx ''failed'' ''adapter_revision_mismatch''
         else do {
           c \<leftarrow> load_verified_candidate env cs tx;
           (case c of
              Inl f \<Rightarrow> rollback_locked env cs tx ''failed'' ''candidate_recheck_failed''
            | Inr candidate \<Rightarrow> do {
                a \<leftarrow> ask env (\<lambda>t. ev_adaptive_runtime env t candidate);
                (case a of
                   Some e \<Rightarrow> rollback_locked env cs tx ''failed'' ''adaptive_runtime_invalid''
                 | None \<Rightarrow> do {
                     (r, cs) \<leftarrow> save_progress env cs tx ''committing'';
                     (case r of
                        Some e \<Rightarrow> State_Monad.return (cs, Some (internal_failure e))
                      | None \<Rightarrow>
                          (if ev_split_commit env then commit_split env cs tx candidate previous
                           else commit_legacy env cs tx candidate previous)) }) }) }) }) }"

text \<open>The record of the active revision; an error reads as no record.\<close>

definition previous_revision :: "'cfg environment \<Rightarrow> ('cfg, revision_record option) act" where
  "previous_revision env = do {
     active_id \<leftarrow> reads sv_active_revision;
     r \<leftarrow> load env du_revisions active_id;
     State_Monad.return (case r of Inl e \<Rightarrow> None | Inr v \<Rightarrow> Some v) }"

definition confirm_change_set :: "'cfg environment \<Rightarrow> change \<Rightarrow> ('cfg, outcome) act" where
  "confirm_change_set env cs = do {
     lease \<leftarrow> acquire_mutation_lease;
     (case lease of
        Some f \<Rightarrow> State_Monad.return (cs, Some f)
      | None \<Rightarrow>
     (if ch_state cs \<noteq> ''awaiting_confirmation''
      then State_Monad.return (cs, Some (conflict ''invalid_transition''
             (''change cannot be confirmed from '' @ ch_state cs)))
      else if \<not> ch_management_verified cs \<or> \<not> ch_data_plane_verified cs
      then State_Monad.return (cs, Some (conflict ''data_plane_not_verified''
             ''management and data plane verification are required''))
      else do {
        previous \<leftarrow> previous_revision env;
        l \<leftarrow> load_verified_transaction env cs;
        (case l of
           Inl f \<Rightarrow> State_Monad.return (cs, Some f)
         | Inr tx \<Rightarrow> confirm_transaction env cs tx previous) })) }"

section \<open>Requests\<close>

definition create_draft_change ::
    "'cfg environment \<Rightarrow> string \<Rightarrow> string \<Rightarrow> int \<Rightarrow> change_op list \<Rightarrow> string \<Rightarrow> ('cfg, action_failure + change) act" where
  "create_draft_change env title description base_version operations author = do {
     lease \<leftarrow> acquire_mutation_lease;
     current_version \<leftarrow> reads sv_config_version;
     (case lease of
        Some f \<Rightarrow> State_Monad.return (Inl f)
      | None \<Rightarrow>
     (if base_version \<noteq> current_version
      then State_Monad.return (Inl (conflict ''base_version_conflict''
             ''base_version does not match current revision''))
      else do {
        t \<leftarrow> now env;
        r \<leftarrow> ask env (\<lambda>i. ev_random env i 8);
        (case r of
           Inl e \<Rightarrow> State_Monad.return (Inl (internal_failure (''generate change ID: '' @ e)))
         | Inr hex \<Rightarrow> do {
             let cs = \<lparr>ch_id = ''chg_'' @ hex, ch_state = ''draft'', ch_title = title,
               ch_description = description, ch_base_version = base_version, ch_version = 1,
               ch_candidate_version = 0, ch_candidate_hash = [], ch_candidate_path = [],
               ch_artifact_manifest_hash = [], ch_artifacts_ready = False, ch_artifact_block_reason = [],
               ch_artifacts_simulation = False, ch_revision_id = [], ch_transaction_id = [],
               ch_adapter_status = [], ch_commit_phase = [], ch_noop = False, ch_operations = operations,
               ch_validation = [], ch_diff = [], ch_steps = [], ch_management_verified = False,
               ch_data_plane_verified = False, ch_updated_at = time_truncate t second, ch_expires_at = 0,
               ch_author = author\<rparr>;
             set_change cs;
             w \<leftarrow> save_entries env [Change_entry (ch_id cs) cs];
             (case w of
                Some e \<Rightarrow> do {
                  updates (\<lambda>s. s\<lparr>sv_changes := bucket_delete (ch_id cs) (sv_changes s)\<rparr>);
                  State_Monad.return (Inl (internal_failure e)) }
              | None \<Rightarrow> State_Monad.return (Inr cs)) }) })) }"

text \<open>\<^verbatim>\<open>Store.Delete\<close>: one write, atomic like the others; the log does not record it.\<close>

definition delete_entry :: "'cfg environment \<Rightarrow> string \<Rightarrow> ('cfg, error option) act" where
  "delete_entry env k = do {
     t \<leftarrow> instant env;
     live \<leftarrow> reads sv_alive;
     if \<not> live then State_Monad.return (Some ''process stopped'')
     else (case ev_write_error env t of
         Some e \<Rightarrow> State_Monad.return (Some e)
       | None \<Rightarrow> do {
           updates (\<lambda>s. s\<lparr>sv_durable := (sv_durable s)
             \<lparr>du_changes := bucket_delete k (du_changes (sv_durable s))\<rparr>\<rparr>);
           State_Monad.return None }) }"

definition deletable_states :: "string list" where
  "deletable_states = [''draft'', ''rolled_back'', ''expired'', ''failed'', ''requires_device'']"

definition delete_change :: "'cfg environment \<Rightarrow> change \<Rightarrow> ('cfg, outcome) act" where
  "delete_change env cs =
     (if ch_state cs \<notin> set deletable_states
      then State_Monad.return (cs, Some (conflict ''invalid_transition'' ''only inactive changes can be deleted''))
      else do {
        lease \<leftarrow> acquire_mutation_lease;
        (case lease of
           Some f \<Rightarrow> State_Monad.return (cs, Some f)
         | None \<Rightarrow> do {
             updates (\<lambda>s. s\<lparr>sv_changes := bucket_delete (ch_id cs) (sv_changes s)\<rparr>);
             r \<leftarrow> delete_entry env (ch_id cs);
             State_Monad.return (cs, map_option internal_failure r) }) })"

datatype change_action =
    Do_validate
  | Do_apply string
  | Do_confirm string
  | Do_rollback
  | Do_delete

definition not_found :: action_failure where
  "not_found = \<lparr>af_status = 404, af_code = ''not_found'', af_message = ''change not found''\<rparr>"

text \<open>\<^verbatim>\<open>handleChangeByID\<close> for a POST; \<open>version\<close> is 0 when the request names none.\<close>

definition handle_change ::
    "'cfg environment \<Rightarrow> string \<Rightarrow> int \<Rightarrow> change_action \<Rightarrow> ('cfg, action_failure option) act" where
  "handle_change env cid version action = do {
     found \<leftarrow> reads (\<lambda>s. map_of (sv_changes s) cid);
     (case found of
        None \<Rightarrow> State_Monad.return (Some not_found)
      | Some cs \<Rightarrow>
     (if version \<noteq> 0 \<and> version \<noteq> ch_version cs
      then State_Monad.return (Some (conflict ''change_version_conflict'' ''change version is stale''))
      else case action of
        Do_validate \<Rightarrow> do { (cs, f) \<leftarrow> validate_change_set env cs; State_Monad.return f }
      | Do_apply mode \<Rightarrow> do {
          (cs, f) \<leftarrow> (if ev_require_proof env \<and> \<not> ch_noop cs then prepare_management_proof env mode cs
                     else State_Monad.return (cs, None));
          (case f of
             Some f \<Rightarrow> State_Monad.return (Some f)
           | None \<Rightarrow> do { (cs, f) \<leftarrow> apply_change_set env cs; State_Monad.return f }) }
      | Do_confirm mode \<Rightarrow> do {
          f \<leftarrow> (if ev_require_proof env \<and> \<not> ch_noop cs then verify_management_confirmation env mode cs
               else State_Monad.return None);
          (case f of
             Some f \<Rightarrow> State_Monad.return (Some f)
           | None \<Rightarrow> do { (cs, f) \<leftarrow> confirm_change_set env cs; State_Monad.return f }) }
      | Do_rollback \<Rightarrow> do { (cs, f) \<leftarrow> rollback_change_set env cs False; State_Monad.return f }
      | Do_delete \<Rightarrow> do { (cs, f) \<leftarrow> delete_change env cs; State_Monad.return f })) }"

text \<open>The timer of a change fires: the change is rolled back if it still awaits confirmation.\<close>

definition expire_change :: "'cfg environment \<Rightarrow> string \<Rightarrow> ('cfg, unit) act" where
  "expire_change env cid = do {
     timer \<leftarrow> reads (\<lambda>s. map_of (sv_timers s) cid);
     current \<leftarrow> reads (\<lambda>s. map_of (sv_changes s) cid);
     (case timer of
        None \<Rightarrow> State_Monad.return ()
      | Some cs \<Rightarrow> do {
          cancel_expiry cid;
          (case current of
             None \<Rightarrow> State_Monad.return ()
           | Some c \<Rightarrow>
               (if ch_state c \<noteq> ''awaiting_confirmation'' \<or> ch_transaction_id c \<noteq> ch_transaction_id cs \<or>
                   ch_revision_id c \<noteq> ch_revision_id cs
                then State_Monad.return ()
                else do { rollback_change_set env c True; State_Monad.return () })) }) }"

end
