(* ===== verification/Tx_Recovery.thy ===== *)
theory Tx_Recovery
  imports Tx_Commit
begin

text \<open>
  Starting the server and bringing a dead one back (\<^verbatim>\<open>internal/api/transaction.go\<close>,
  \<^verbatim>\<open>internal/api/recovery.go\<close>, \<^verbatim>\<open>internal/api/bootstrap.go\<close>,
  \<^verbatim>\<open>internal/api/server.go\<close>): what is done with every change a crash left active, the check of
  the active revision against the adapter, retention, the baseline, and the construction of a server
  from the store.
\<close>

section \<open>Interrupted transactions\<close>

definition finalize_recovered_commit ::
    "'cfg environment \<Rightarrow> change \<Rightarrow> transaction \<Rightarrow> ('cfg, error option \<times> change) act" where
  "finalize_recovered_commit env cs tx = do {
     previous \<leftarrow> previous_revision env;
     c \<leftarrow> load_verified_candidate env cs tx;
     (case c of
        Inl f \<Rightarrow> State_Monad.return (Some (af_message f), cs)
      | Inr candidate \<Rightarrow> do {
          t \<leftarrow> now env;
          let cs' = cs\<lparr>ch_state := ''committed'', ch_version := ch_version cs + 1,
            ch_updated_at := time_truncate t second, ch_commit_phase := ''adapter_finalized''\<rparr>;
          r \<leftarrow> save_entries env (activation_entries cs' tx candidate
            (revision_of cs' tx ''committed'' (Some t))
            (record_of cs' tx ''committed'' ''adapter_finalized'' t (Some t)));
          (case r of
             Some e \<Rightarrow> State_Monad.return (Some e, cs')
           | None \<Rightarrow> do {
               g \<leftarrow> clear_boot_guard env tx;
               (case g of
                  Some f \<Rightarrow> State_Monad.return (Some (af_message f), cs')
                | None \<Rightarrow> do {
                    activate_memory cs' tx candidate;
                    cancel_expiry (ch_id cs');
                    cleanup_committed_resources env tx previous;
                    State_Monad.return (None, cs') }) }) }) }"

text \<open>An unclear state after the durable commit: raise the fence and stop.\<close>

definition recovery_stop ::
    "'cfg environment \<Rightarrow> transaction \<Rightarrow> string \<Rightarrow> string \<Rightarrow> string \<Rightarrow> error \<Rightarrow> ('cfg, error option) act" where
  "recovery_stop env tx code reason phase message = do {
     mark_recovery_required env (recovery_target_of tx) code reason phase;
     State_Monad.return (Some message) }"

text \<open>Finalization after a durable commit: a failure raises the fence.\<close>

definition recover_finalized :: "'cfg environment \<Rightarrow> change \<Rightarrow> transaction \<Rightarrow> ('cfg, error option) act" where
  "recover_finalized env cs tx = do {
     (r, cs) \<leftarrow> finalize_recovered_commit env (cs\<lparr>ch_commit_phase := ''adapter_finalized''\<rparr>) tx;
     (case r of
        None \<Rightarrow> State_Monad.return None
      | Some e \<Rightarrow> recovery_stop env tx ''control_plane_finalize_persist_failed'' e (ch_commit_phase cs) e) }"

definition recover_pending :: "'cfg environment \<Rightarrow> change \<Rightarrow> transaction \<Rightarrow> string \<Rightarrow> ('cfg, error option) act" where
  "recover_pending env cs tx phase =
     (if \<not> ev_split_commit env
      then recovery_stop env tx ''adapter_finalize_unavailable''
             ''control plane is active but adapter finalize is unavailable'' phase
             ''adapter finalize is unavailable''
      else do {
        finalized \<leftarrow> adapter env (Finalize_commit tx);
        (case validate_finalized_commit finalized tx of
           Some e \<Rightarrow> recovery_stop env tx ''adapter_finalize_ambiguous'' e phase e
         | None \<Rightarrow> recover_finalized env (cs\<lparr>ch_steps := ch_steps cs @ [finalized]\<rparr>) tx) })"

definition control_committed :: "string \<Rightarrow> bool" where
  "control_committed phase \<longleftrightarrow> phase = ''control_plane_committed'' \<or> phase = ''finalize_ambiguous''"

text \<open>A change that was not committing, or whose commit can still be undone.\<close>

definition recover_uncommitted ::
    "'cfg environment \<Rightarrow> change \<Rightarrow> transaction \<Rightarrow> string \<Rightarrow> bool \<Rightarrow> ('cfg, error option) act" where
  "recover_uncommitted env cs tx phase matches = do {
     t1 \<leftarrow> now env;
     (if ch_state cs = ''awaiting_confirmation'' \<and> matches \<and> t1 < tx_expires_at tx
      then do { schedule_expiry cs; State_Monad.return None }
      else if ch_state cs = ''committing'' \<and> control_committed phase
      then recovery_stop env tx ''adapter_control_plane_binding_mismatch''
             ''control-plane active revision does not match adapter state'' phase
             ''adapter/control-plane binding mismatch after commit''
      else do {
        t2 \<leftarrow> now env;
        (cs, f) \<leftarrow> rollback_locked env cs tx
          (if ch_state cs = ''awaiting_confirmation'' \<and> \<not> t2 < tx_expires_at tx then ''expired'' else ''rolled_back'')
          ''recovery_fail_closed'';
        State_Monad.return (map_option af_message f) }) }"

definition recover_decide ::
    "'cfg environment \<Rightarrow> change \<Rightarrow> transaction \<Rightarrow> string \<Rightarrow> bool \<Rightarrow> string \<Rightarrow> ('cfg, error option) act" where
  "recover_decide env cs tx phase matches adapter_state =
     (if ch_state cs = ''committing'' \<and> matches
      then
       (if phase = [] \<and> adapter_state = ''committed''
        then do { (r, cs) \<leftarrow> finalize_recovered_commit env cs tx; State_Monad.return r }
        else if control_committed phase \<and> adapter_state = ''adapter_activated''
        then recover_pending env cs tx phase
        else if control_committed phase \<and> adapter_state = ''committed''
        then recover_finalized env cs tx
        else if phase = ''adapter_activated'' \<and> adapter_state = ''adapter_activated''
        then recover_uncommitted env cs tx phase matches
        else if adapter_state = ''committed''
        then recovery_stop env tx ''adapter_control_plane_split_brain''
               ''adapter is committed but control-plane commit phase is not finalized'' phase
               ''adapter/control-plane commit split-brain''
        else if phase = ''control_plane_committed''
        then recovery_stop env tx ''adapter_control_plane_state_unknown''
               ''control-plane commit is durable but adapter state is not provable'' phase
               ''adapter state is unknown after control-plane commit''
        else recover_uncommitted env cs tx phase matches)
      else recover_uncommitted env cs tx phase matches)"

definition recover_change :: "'cfg environment \<Rightarrow> string \<Rightarrow> ('cfg, error option) act" where
  "recover_change env cid = do {
     found \<leftarrow> reads (\<lambda>s. map_of (sv_changes s) cid);
     (case found of
        None \<Rightarrow> State_Monad.return (Some err_not_found)
      | Some cs \<Rightarrow> do {
          l \<leftarrow> load_transaction env cs;
          (case l of
             Inl f \<Rightarrow> State_Monad.return (Some (af_message f))
           | Inr tx \<Rightarrow> do {
               r \<leftarrow> load env du_transactions (tx_id tx);
               (case r of
                  Inl e \<Rightarrow> State_Monad.return (Some e)
                | Inr record \<Rightarrow> do {
                    status \<leftarrow> adapter env Adapter_status;
                    recover_decide env cs tx (tr_commit_phase record) (status_matches status tx)
                      (evidence_string status ''transaction_state'') }) }) }) }"

fun recover_changes :: "'cfg environment \<Rightarrow> string list \<Rightarrow> ('cfg, error option) act" where
  "recover_changes env [] = State_Monad.return None"
| "recover_changes env (cid # rest) = do {
     r \<leftarrow> recover_change env cid;
     (case r of
        Some e \<Rightarrow> State_Monad.return (Some e)
      | None \<Rightarrow> recover_changes env rest) }"

definition active_change_ids :: "change bucket \<Rightarrow> string list" where
  "active_change_ids cs = map fst (filter (\<lambda>(k, c). ch_state c \<in> set active_states) cs)"

definition recover_transactions :: "'cfg environment \<Rightarrow> ('cfg, error option) act" where
  "recover_transactions env = do {
     ids \<leftarrow> reads (\<lambda>s. active_change_ids (sv_changes s));
     recover_changes env ids }"

section \<open>The active revision\<close>

definition adapter_busy :: "step_result \<Rightarrow> bool" where
  "adapter_busy r \<longleftrightarrow> map_of (sr_evidence r) ''adapter_busy'' = Some (Ev_bool True)"

text \<open>At most \<open>Suc n\<close> attempts; a cancelled wait returns the last answer.\<close>

fun reconcile_attempts :: "'cfg environment \<Rightarrow> nat \<Rightarrow> recovery_target \<Rightarrow> ('cfg, step_result) act" where
  "reconcile_attempts env 0 target = adapter env (Reconcile target)"
| "reconcile_attempts env (Suc n) target = do {
     result \<leftarrow> adapter env (Reconcile target);
     (if step_ok result \<or> \<not> adapter_busy result then State_Monad.return result
      else do {
        cancelled \<leftarrow> ask env (ev_cancelled env);
        (if cancelled then State_Monad.return result else reconcile_attempts env n target) }) }"

definition max_reconcile_attempts :: nat where
  "max_reconcile_attempts = 31"

definition reconcile_committed_target :: "'cfg environment \<Rightarrow> recovery_target \<Rightarrow> ('cfg, step_result) act" where
  "reconcile_committed_target env target = reconcile_attempts env (max_reconcile_attempts - 1) target"

definition revision_target :: "revision_record \<Rightarrow> recovery_target" where
  "revision_target rv = \<lparr>rt_transaction_id = rv_transaction_id rv, rt_revision_id = rv_revision_id rv,
     rt_candidate_hash = rv_candidate_hash rv, rt_artifact_manifest_hash = rv_artifact_manifest_hash rv\<rparr>"

definition no_target :: recovery_target where
  "no_target = \<lparr>rt_transaction_id = [], rt_revision_id = [], rt_candidate_hash = [],
     rt_artifact_manifest_hash = []\<rparr>"

text \<open>A baseline: no transaction to compare with, only the hash of the configuration.\<close>

definition recover_baseline ::
    "'cfg environment \<Rightarrow> revision_record \<Rightarrow> string \<Rightarrow> 'cfg \<Rightarrow> ('cfg, recovery_status) act" where
  "recover_baseline env revision active_id active =
     (let target = no_target\<lparr>rt_revision_id := active_id, rt_candidate_hash := rv_candidate_hash revision\<rparr>;
          confirmed = recovery_of ''not_required'' [] [] target ''baseline_confirmed'' in
      case validate_baseline_revision revision active_id (ev_hash env active) of
        Some e \<Rightarrow> State_Monad.return (failed_recovery ''active_baseline_invalid'' e target)
      | None \<Rightarrow>
          (if \<not> ev_baseline_clearer env then State_Monad.return confirmed
           else do {
             r \<leftarrow> adapter env (Clear_guard_for_baseline active_id (rv_candidate_hash revision));
             State_Monad.return (if step_ok r then confirmed
               else failed_recovery ''baseline_boot_guard_clear_failed''
                 (if sr_reason r = [] then ''baseline boot guard removal was not proven'' else sr_reason r) target) }))"

text \<open>The adapter is asked to reconcile and its status must name the revision as committed.\<close>

definition recover_adapter :: "'cfg environment \<Rightarrow> recovery_target \<Rightarrow> ('cfg, recovery_status) act" where
  "recover_adapter env target = do {
     reconcile \<leftarrow> reconcile_committed_target env target;
     (if \<not> step_ok reconcile
      then State_Monad.return (failed_recovery ''adapter_reconcile_failed''
             (if sr_reason reconcile = [] then ''adapter reconcile failed'' else sr_reason reconcile) target)
      else do {
        status \<leftarrow> adapter env Adapter_status;
        State_Monad.return (if \<not> step_ok status \<or>
            evidence_string status ''active_revision'' \<noteq> rt_revision_id target \<or>
            evidence_string status ''active_transaction'' \<noteq> rt_transaction_id target \<or>
            evidence_string status ''active_candidate_hash'' \<noteq> rt_candidate_hash target \<or>
            evidence_string status ''active_artifact_manifest_hash'' \<noteq> rt_artifact_manifest_hash target \<or>
            evidence_string status ''transaction_state'' \<noteq> ''committed''
          then failed_recovery ''adapter_recovery_binding_mismatch''
                 ''adapter status does not match committed recovery target'' target
          else recovery_of ''ok'' [] [] target []) }) }"

definition recover_revision ::
    "'cfg environment \<Rightarrow> revision_record \<Rightarrow> string \<Rightarrow> 'cfg \<Rightarrow> ('cfg, recovery_status) act" where
  "recover_revision env revision active_id active =
     (let target = revision_target revision in
      if rv_state revision = ''control_plane_committed''
      then State_Monad.return (recovery_required ''active_revision_pending_finalize''
             ''active revision is durable but adapter finalization is not proven'' target ''control_plane_committed'')
      else if rv_state revision \<noteq> ''committed'' \<or> rv_revision_id revision \<noteq> active_id \<or>
              rv_transaction_id revision = [] \<or> rv_candidate_hash revision = [] \<or>
              rv_artifact_manifest_hash revision = []
      then State_Monad.return (failed_recovery ''active_revision_invalid''
             ''active revision record is incomplete or not committed'' target)
      else do {
        l \<leftarrow> load env du_transactions (rv_transaction_id revision);
        (case l of
           Inl e \<Rightarrow> State_Monad.return (failed_recovery ''active_transaction_load_failed'' e target)
         | Inr record \<Rightarrow>
             (let tx = tr_transaction record in
              if tr_state record \<noteq> ''committed'' \<or> recovery_target_of tx \<noteq> target
              then State_Monad.return (failed_recovery ''active_transaction_mismatch''
                     ''active revision and transaction bindings differ'' target)
              else do {
                found \<leftarrow> reads (\<lambda>s. map_of (sv_changes s) (rv_change_id revision));
                (case (case found of None \<Rightarrow> None
                       | Some cs \<Rightarrow> if ch_state cs \<noteq> ''committed'' \<or>
                           ch_transaction_id cs \<noteq> rt_transaction_id target \<or>
                           ch_revision_id cs \<noteq> rt_revision_id target then None else Some cs) of
                   None \<Rightarrow> State_Monad.return (failed_recovery ''active_changeset_mismatch''
                     ''committed ChangeSet is missing or does not match the active revision'' target)
                 | Some cs \<Rightarrow> do {
                     c \<leftarrow> load_verified_candidate env cs tx;
                     (case c of
                        Inl f \<Rightarrow> State_Monad.return (failed_recovery ''active_candidate_verification_failed''
                          (af_message f) target)
                      | Inr candidate \<Rightarrow>
                          (if ev_hash env active \<noteq> rt_candidate_hash target \<or>
                              ev_hash env candidate \<noteq> rt_candidate_hash target
                           then State_Monad.return (failed_recovery ''active_config_mismatch''
                                  ''persisted active config differs from committed candidate'' target)
                           else recover_adapter env target)) }) })) })"

definition active_recovery_status :: "'cfg environment \<Rightarrow> ('cfg, recovery_status) act" where
  "active_recovery_status env = do {
     active_id \<leftarrow> reads sv_active_revision;
     version \<leftarrow> reads sv_config_version;
     active \<leftarrow> reads sv_active_config;
     (if active_id = []
      then State_Monad.return (if 1 < version
        then failed_recovery ''active_revision_missing'' ''committed config version has no active revision'' no_target
        else recovery_of ''not_required'' [] [] no_target [])
      else do {
        l \<leftarrow> load env du_revisions active_id;
        (case l of
           Inl e \<Rightarrow> State_Monad.return (failed_recovery ''active_revision_load_failed'' e
             (no_target\<lparr>rt_revision_id := active_id\<rparr>))
         | Inr revision \<Rightarrow>
             (if rv_kind revision = ''baseline'' then recover_baseline env revision active_id active
              else recover_revision env revision active_id active)) }) }"

definition recover_committed_dataplane :: "'cfg environment \<Rightarrow> ('cfg, unit) act" where
  "recover_committed_dataplane env = do {
     status \<leftarrow> active_recovery_status env;
     set_recovery_status env status;
     State_Monad.return () }"

text \<open>Recovery followed, when it opened the gate, by the route assignments.\<close>

definition recover_and_assign :: "'cfg environment \<Rightarrow> ('cfg, unit) act" where
  "recover_and_assign env = do {
     recover_committed_dataplane env;
     allowed \<leftarrow> reads (\<lambda>s. recovery_allows_mutation (sv_recovery s));
     (if \<not> allowed then State_Monad.return ()
      else do {
        a \<leftarrow> ask env (ev_route_assignments env);
        (case a of
           None \<Rightarrow> State_Monad.return ()
         | Some e \<Rightarrow> do {
             active_id \<leftarrow> reads sv_active_revision;
             set_recovery_status env (failed_recovery ''route_assignment_reconcile_failed'' e
               (no_target\<lparr>rt_revision_id := active_id\<rparr>));
             State_Monad.return () }) }) }"

section \<open>Retention\<close>

definition change_view :: "change json_view" where
  "change_view = \<lparr>jv_object = (\<lambda>_. True), jv_state = ch_state,
     jv_time = (\<lambda>c f. if f = ''updated_at'' then Some (ch_updated_at c) else None)\<rparr>"

definition transaction_view :: "transaction_record json_view" where
  "transaction_view = \<lparr>jv_object = (\<lambda>_. True), jv_state = tr_state,
     jv_time = (\<lambda>r f. if f = ''completed_at'' then tr_completed_at r
                     else if f = ''updated_at'' then Some (tr_updated_at r) else None)\<rparr>"

text \<open>The expired entries of a bucket, dropped as \<^verbatim>\<open>State_Store\<close> drops them.\<close>

definition without_expired :: "'v json_view \<Rightarrow> gotime \<Rightarrow> string list \<Rightarrow> 'v bucket \<Rightarrow> 'v bucket" where
  "without_expired view cutoff names b =
     (case delete_expired view cutoff names (Some terminal_states) (Some b) of
        Inr (Some kept, n) \<Rightarrow> kept
      | _ \<Rightarrow> b)"

definition retain :: "'cfg environment \<Rightarrow> gotime \<Rightarrow> 'cfg durable \<Rightarrow> 'cfg durable" where
  "retain env t d =
     (let kept = without_expired change_view (t - ev_change_retention env) [''updated_at''] (du_changes d) in
      d\<lparr>du_changes := kept,
        du_candidates := filter (\<lambda>(k, v). map_of kept k \<noteq> None) (du_candidates d),
        du_transactions := without_expired transaction_view (t - ev_transaction_retention env)
          [''completed_at'', ''updated_at''] (du_transactions d)\<rparr>)"

text \<open>Whether clean-up writes at all; the other buckets are the business of the environment.\<close>

definition retention_needed :: "'cfg environment \<Rightarrow> nat \<Rightarrow> gotime \<Rightarrow> 'cfg durable \<Rightarrow> bool" where
  "retention_needed env i t d \<longleftrightarrow>
     ev_other_expired env i \<or>
     has_expired change_view (t - ev_change_retention env) [''updated_at''] (Some terminal_states)
       (Some (du_changes d)) \<or>
     has_expired transaction_view (t - ev_transaction_retention env) [''completed_at'', ''updated_at'']
       (Some terminal_states) (Some (du_transactions d)) \<or>
     list_ex (\<lambda>(k, v). map_of (du_changes d) k = None) (du_candidates d)"

text \<open>The clean-up of \<^verbatim>\<open>Maintain\<close>: one write transaction. Its backups are not kept here.\<close>

definition maintain :: "'cfg environment \<Rightarrow> ('cfg, error option) act" where
  "maintain env = do {
     t \<leftarrow> now env;
     i \<leftarrow> instant env;
     live \<leftarrow> reads sv_alive;
     d \<leftarrow> reads sv_durable;
     (if \<not> live then State_Monad.return (Some ''process stopped'')
      else if \<not> retention_needed env i t d then State_Monad.return None
      else case ev_write_error env i of
        Some e \<Rightarrow> State_Monad.return (Some e)
      | None \<Rightarrow> do {
          updates (\<lambda>s. s\<lparr>sv_durable := retain env t (sv_durable s)\<rparr>);
          State_Monad.return None }) }"

section \<open>Start\<close>

definition durable_empty :: "'cfg durable \<Rightarrow> bool" where
  "durable_empty d \<longleftrightarrow>
     du_active_config d = None \<and> du_active_revision d = None \<and> du_config_version d = None \<and>
     du_recovery_status d = None \<and> du_cleanup_result d = None \<and> du_candidates d = [] \<and>
     du_transactions d = [] \<and> du_revisions d = [] \<and> du_changes d = []"

definition baseline_revision :: "string \<Rightarrow> gotime \<Rightarrow> revision_record" where
  "baseline_revision hash t =
     \<lparr>rv_revision_id = baseline_revision_id hash, rv_kind = ''baseline'', rv_change_id = [],
      rv_transaction_id = [], rv_base_version = 0, rv_version = 1, rv_candidate_hash = hash,
      rv_artifact_manifest_hash = [], rv_state = ''committed'', rv_created_at = t, rv_committed_at = Some t\<rparr>"

definition ensure_baseline_revision :: "'cfg environment \<Rightarrow> ('cfg, error option) act" where
  "ensure_baseline_revision env =
     (let config = ev_startup_config env; hash = ev_hash env config in
      case ev_config_error env config of
        Some e \<Rightarrow> State_Monad.return (Some (''baseline config is invalid: '' @ e))
      | None \<Rightarrow> do {
          t \<leftarrow> now env;
          other \<leftarrow> ask env (ev_other_data env);
          d \<leftarrow> reads sv_durable;
          (if other \<or> \<not> durable_empty d then State_Monad.return None
           else do {
             r \<leftarrow> save_entries env [Active_config config, Active_revision (baseline_revision_id hash),
               Config_version 1, Revision_entry (baseline_revision_id hash) (baseline_revision hash t)];
             State_Monad.return (map_option (\<lambda>e. ''initialize baseline revision: '' @ e) r) }) })"

definition no_recovery :: recovery_status where
  "no_recovery = recovery_of [] [] [] no_target []"

text \<open>The memory of a new process, before it has read the store.\<close>

definition new_process :: "'cfg environment \<Rightarrow> 'cfg server \<Rightarrow> 'cfg server" where
  "new_process env s = s\<lparr>sv_alive := True, sv_changes := [], sv_active_config := ev_startup_config env,
     sv_active_revision := [], sv_config_version := 1, sv_recovery := no_recovery,
     sv_deferred := False, sv_timers := []\<rparr>"

text \<open>\<^verbatim>\<open>loadPersistedChangeSets\<close>: the changes of the bucket by their ids.\<close>

definition persisted_changes :: "change bucket \<Rightarrow> change bucket" where
  "persisted_changes b =
     foldl (\<lambda>m (k, cs). if ch_id cs = [] then m else bucket_put (ch_id cs) cs m) [] b"

definition load_state :: "'cfg environment \<Rightarrow> ('cfg, error option) act" where
  "load_state env = do {
     i \<leftarrow> instant env;
     d \<leftarrow> reads sv_durable;
     (case ev_read_error env i of
        Some e \<Rightarrow> State_Monad.return (Some e)
      | None \<Rightarrow>
          (case (case du_active_config d of None \<Rightarrow> None | Some c \<Rightarrow> ev_config_error env c) of
             Some e \<Rightarrow> State_Monad.return (Some (''persisted active config is invalid: '' @ e))
           | None \<Rightarrow> do {
               updates (\<lambda>s. s\<lparr>sv_changes := persisted_changes (du_changes d),
                 sv_config_version := (case du_config_version d of None \<Rightarrow> 1 | Some v \<Rightarrow> v),
                 sv_active_config := (case du_active_config d of None \<Rightarrow> ev_startup_config env | Some c \<Rightarrow> c),
                 sv_active_revision := (case du_active_revision d of None \<Rightarrow> [] | Some r \<Rightarrow> r)\<rparr>);
               State_Monad.return None })) }"

definition build_runtime :: "'cfg environment \<Rightarrow> ('cfg, error option) act" where
  "build_runtime env = do {
     active \<leftarrow> reads sv_active_config;
     ask env (\<lambda>t. ev_adaptive_runtime env t active) }"

text \<open>Run a step unless an earlier one failed.\<close>

definition and_then :: "('cfg, error option) act \<Rightarrow> ('cfg, error option) act \<Rightarrow> ('cfg, error option) act" where
  "and_then m n = do {
     r \<leftarrow> m;
     (case r of Some e \<Rightarrow> State_Monad.return (Some e) | None \<Rightarrow> n) }"

text \<open>
  \<^verbatim>\<open>NewServerWithOptions\<close>: an error means that there is no server. With deferred recovery the
  gate stays closed under the status \<^verbatim>\<open>starting\<close> until \<open>deferred_recovery\<close>.
\<close>

definition start_server :: "'cfg environment \<Rightarrow> ('cfg, error option) act" where
  "start_server env = do {
     updates (new_process env);
     r \<leftarrow> and_then (ensure_baseline_revision env) (and_then (maintain env) (and_then (load_state env)
            (and_then (build_runtime env) (and_then (recover_transactions env) (build_runtime env)))));
     (case r of
        Some e \<Rightarrow> do { updates (\<lambda>s. s\<lparr>sv_alive := False\<rparr>); State_Monad.return (Some e) }
      | None \<Rightarrow>
          (if ev_defer_recovery env
           then do {
             active_id \<leftarrow> reads sv_active_revision;
             updates (\<lambda>s. s\<lparr>sv_deferred := True\<rparr>);
             set_recovery_status env (recovery_of ''starting'' [] [] (no_target\<lparr>rt_revision_id := active_id\<rparr>) []);
             State_Monad.return None }
           else do { recover_and_assign env; State_Monad.return None })) }"

text \<open>\<^verbatim>\<open>StartScheduler\<close> of a server whose recovery was deferred; it runs once.\<close>

definition deferred_recovery :: "'cfg environment \<Rightarrow> ('cfg, unit) act" where
  "deferred_recovery env = do {
     deferred \<leftarrow> reads sv_deferred;
     (if \<not> deferred then State_Monad.return ()
      else do { updates (\<lambda>s. s\<lparr>sv_deferred := False\<rparr>); recover_and_assign env }) }"

end
