(* ===== verification/Tx_Logic.thy ===== *)
theory Tx_Logic
  imports Tx_Recovery
begin

text \<open>
  A small crash logic for the programs of \<^verbatim>\<open>Tx_Server\<close>. \<open>safely C m Q s\<close> says that from the
  state \<open>s\<close> the program \<open>m\<close> either ends with its result and a live state in \<open>Q\<close>, or the
  process died on the way and the store and the log satisfy \<open>C\<close>. A program is \<open>quiet\<close> when it
  has no effect once the process is dead; that makes the logic sequential.
\<close>

definition safely ::
    "('cfg durable \<Rightarrow> 'cfg event list \<Rightarrow> bool) \<Rightarrow> ('cfg, 'a) act \<Rightarrow> ('a \<Rightarrow> 'cfg server \<Rightarrow> bool) \<Rightarrow>
       'cfg server \<Rightarrow> bool" where
  "safely C m Q s =
     (case run_state m s of (a, s') \<Rightarrow>
        if sv_alive s' then Q a s' else C (sv_durable s') (sv_log s'))"

definition quiet :: "('cfg, 'a) act \<Rightarrow> bool" where
  "quiet m \<longleftrightarrow>
     (\<forall>s. \<not> sv_alive s \<longrightarrow>
       (case run_state m s of (a, s') \<Rightarrow>
          \<not> sv_alive s' \<and> sv_durable s' = sv_durable s \<and> sv_log s' = sv_log s))"

named_theorems quiet_intros "programs without effect after a crash"

section \<open>Quiet programs\<close>

lemma quietI:
  assumes "\<And>s a s'. \<not> sv_alive s \<Longrightarrow> run_state m s = (a, s') \<Longrightarrow>
    \<not> sv_alive s' \<and> sv_durable s' = sv_durable s \<and> sv_log s' = sv_log s"
  shows "quiet m"
  unfolding quiet_def
proof (intro allI impI)
  fix s :: "'a server" assume dead: "\<not> sv_alive s"
  obtain a s' where run: "run_state m s = (a, s')" by (rule prod.exhaust)
  show "case run_state m s of (a, s') \<Rightarrow>
      \<not> sv_alive s' \<and> sv_durable s' = sv_durable s \<and> sv_log s' = sv_log s"
    unfolding run prod.case by (rule assms [OF dead run])
qed

lemma quietD:
  assumes q: "quiet m" and dead: "\<not> sv_alive s" and run: "run_state m s = (a, s')"
  shows "\<not> sv_alive s' \<and> sv_durable s' = sv_durable s \<and> sv_log s' = sv_log s"
  using q [unfolded quiet_def, rule_format, OF dead] unfolding run prod.case .

lemma quiet_return [quiet_intros]: "quiet (State_Monad.return a)"
  by (rule quietI) simp

lemma quiet_bind [quiet_intros]:
  assumes "quiet m" "\<And>a. quiet (f a)"
  shows "quiet (State_Monad.bind m f)"
proof (rule quietI)
  fix s a s'
  assume dead: "\<not> sv_alive s" and "run_state (State_Monad.bind m f) s = (a, s')"
  then obtain b t where "run_state m s = (b, t)" "run_state (f b) t = (a, s')"
    by (auto split: prod.splits)
  with quietD [OF assms(1) dead] quietD [OF assms(2)]
  show "\<not> sv_alive s' \<and> sv_durable s' = sv_durable s \<and> sv_log s' = sv_log s" by metis
qed

lemma quiet_if [quiet_intros]: "quiet m \<Longrightarrow> quiet n \<Longrightarrow> quiet (if c then m else n)"
  by simp

lemma quiet_option [quiet_intros]:
  "quiet m \<Longrightarrow> (\<And>a. quiet (f a)) \<Longrightarrow> quiet (case x of None \<Rightarrow> m | Some a \<Rightarrow> f a)"
  by (cases x) auto

lemma quiet_sum [quiet_intros]:
  "(\<And>a. quiet (f a)) \<Longrightarrow> (\<And>b. quiet (g b)) \<Longrightarrow> quiet (case x of Inl a \<Rightarrow> f a | Inr b \<Rightarrow> g b)"
  by (cases x) auto

lemma quiet_prod [quiet_intros]: "(\<And>a b. quiet (f a b)) \<Longrightarrow> quiet (case x of (a, b) \<Rightarrow> f a b)"
  by (cases x) auto

lemma quiet_let [quiet_intros]: "(\<And>a. quiet (f a)) \<Longrightarrow> quiet (let x = e in f x)"
  by simp

lemma quiet_file [quiet_intros]:
  "(\<And>e. quiet (f e)) \<Longrightarrow> quiet m \<Longrightarrow> (\<And>c. quiet (g c)) \<Longrightarrow>
     quiet (case x of File_error e \<Rightarrow> f e | File_invalid \<Rightarrow> m | File_config c \<Rightarrow> g c)"
  by (cases x) auto

lemma quiet_guard [quiet_intros]:
  "quiet a \<Longrightarrow> quiet b \<Longrightarrow> quiet m \<Longrightarrow>
     quiet (case x of Bound_clearer \<Rightarrow> a | Unbound_clearer \<Rightarrow> b | No_clearer \<Rightarrow> m)"
  by (cases x) auto

lemma quiet_action [quiet_intros]:
  "quiet v \<Longrightarrow> (\<And>m. quiet (a m)) \<Longrightarrow> (\<And>m. quiet (c m)) \<Longrightarrow> quiet r \<Longrightarrow> quiet d \<Longrightarrow>
     quiet (case x of Do_validate \<Rightarrow> v | Do_apply m \<Rightarrow> a m | Do_confirm m \<Rightarrow> c m | Do_rollback \<Rightarrow> r | Do_delete \<Rightarrow> d)"
  by (cases x) auto

lemma quiet_reads [quiet_intros]: "quiet (reads f)"
  by (rule quietI) (simp add: reads_def)

text \<open>A change of the memory only.\<close>

lemma quiet_updates [quiet_intros]:
  "(\<And>s. sv_alive (f s) = sv_alive s \<and> sv_durable (f s) = sv_durable s \<and> sv_log (f s) = sv_log s) \<Longrightarrow>
     quiet (updates f)"
  by (rule quietI) (auto simp: updates_def)

lemma quiet_instant [quiet_intros]: "quiet (instant env)"
  by (rule quietI) (auto simp: instant_def)

lemma quiet_now [quiet_intros]: "quiet (now env)"
  unfolding now_def by (intro quiet_intros)

lemma quiet_ask [quiet_intros]: "quiet (ask env f)"
  unfolding ask_def by (intro quiet_intros)

lemma quiet_load [quiet_intros]: "quiet (load env b k)"
  unfolding load_def by (intro quiet_intros)

lemma quiet_save_entries [quiet_intros]: "quiet (save_entries env es)"
  by (rule quietI) (auto simp: save_entries_def instant_def reads_def updates_def)

lemma quiet_delete_entry [quiet_intros]: "quiet (delete_entry env k)"
  by (rule quietI) (auto simp: delete_entry_def instant_def reads_def updates_def)

lemma quiet_adapter [quiet_intros]: "quiet (adapter env c)"
  by (rule quietI) (auto simp: adapter_def instant_def reads_def updates_def Let_def)

lemma quiet_maintain [quiet_intros]: "quiet (maintain env)"
  by (rule quietI) (auto simp: maintain_def now_def instant_def reads_def updates_def)

lemma quiet_set_change [quiet_intros]: "quiet (set_change cs)"
  unfolding set_change_def by (intro quiet_intros) simp

lemma quiet_cancel_expiry [quiet_intros]: "quiet (cancel_expiry k)"
  unfolding cancel_expiry_def by (intro quiet_intros) simp

lemma quiet_schedule_expiry [quiet_intros]: "quiet (schedule_expiry cs)"
  unfolding schedule_expiry_def by (intro quiet_intros) simp

lemma quiet_set_recovery_status [quiet_intros]: "quiet (set_recovery_status env st)"
  unfolding set_recovery_status_def by (intro quiet_intros) simp_all

lemma quiet_mark [quiet_intros]: "quiet (mark_recovery_required env tg code reason ph)"
  unfolding mark_recovery_required_def by (intro quiet_intros)

lemma quiet_lease [quiet_intros]: "quiet acquire_mutation_lease"
  unfolding acquire_mutation_lease_def by (intro quiet_intros)

lemma quiet_save_progress [quiet_intros]: "quiet (save_progress env cs tx n)"
  unfolding save_progress_def by (intro quiet_intros)

lemma quiet_save_change [quiet_intros]: "quiet (save_change env cs n)"
  unfolding save_change_def by (intro quiet_intros)

lemma quiet_load_transaction [quiet_intros]: "quiet (load_transaction env cs)"
  unfolding load_transaction_def by (intro quiet_intros)

lemma quiet_capability [quiet_intros]: "quiet (capability_matches env tx)"
  unfolding capability_matches_def by (intro quiet_intros)

lemma quiet_load_candidate [quiet_intros]: "quiet (load_verified_candidate env cs tx)"
  unfolding load_verified_candidate_def by (intro quiet_intros)

lemma quiet_load_verified [quiet_intros]: "quiet (load_verified_transaction env cs)"
  unfolding load_verified_transaction_def by (intro quiet_intros)

lemma quiet_active_transaction [quiet_intros]: "quiet (active_transaction i)"
  unfolding active_transaction_def by (intro quiet_intros)

lemma quiet_cleanup [quiet_intros]:
  "quiet (cleanup_step env w a fs)" "quiet (cleanup_proof env tx fs)" "quiet (save_cleanup_status env tx fs)"
  unfolding cleanup_step_def cleanup_proof_def save_cleanup_status_def by (intro quiet_intros)+

lemma quiet_cleanup_rolled_back [quiet_intros]: "quiet (cleanup_rolled_back env tx)"
  unfolding cleanup_rolled_back_def by (intro quiet_intros)

lemma quiet_finish_rollback [quiet_intros]: "quiet (finish_rollback env cs tx r f w)"
  unfolding finish_rollback_def by (intro quiet_intros)

lemma quiet_rollback_locked [quiet_intros]: "quiet (rollback_locked env cs tx f w)"
  unfolding rollback_locked_def by (intro quiet_intros)

lemma quiet_rollback_change_set [quiet_intros]: "quiet (rollback_change_set env cs e)"
  unfolding rollback_change_set_def by (intro quiet_intros)

lemma quiet_new_transaction [quiet_intros]: "quiet (new_transaction env a b c d e)"
  unfolding new_transaction_def by (intro quiet_intros)

lemma quiet_retire_after [quiet_intros]: "quiet (retire_after env tx e)"
  unfolding retire_after_def by (intro quiet_intros)

lemma quiet_prepare_candidate [quiet_intros]: "quiet (prepare_candidate env tx c)"
  unfolding prepare_candidate_def by (intro quiet_intros)

lemma quiet_validate [quiet_intros]:
  "quiet (validate_new env cs c d v)" "quiet (validate_noop env cs r v)"
  unfolding validate_new_def validate_noop_def by (intro quiet_intros)+

lemma quiet_validate_change_set [quiet_intros]: "quiet (validate_change_set env cs)"
  unfolding validate_change_set_def by (intro quiet_intros) simp

lemma quiet_refresh [quiet_intros]: "quiet (refresh_rollback_window env cs tx n)"
  unfolding refresh_rollback_window_def by (intro quiet_intros)

lemma quiet_management [quiet_intros]:
  "quiet (prepare_management_proof env m cs)" "quiet (verify_management_confirmation env m cs)"
  unfolding prepare_management_proof_def verify_management_confirmation_def by (intro quiet_intros)+

lemma quiet_noop [quiet_intros]: "quiet (save_committed_noop env cs st)"
  unfolding save_committed_noop_def by (intro quiet_intros)

lemma quiet_apply_noop [quiet_intros]: "quiet (apply_noop_change_set env cs)"
  unfolding apply_noop_change_set_def by (intro quiet_intros)

lemma quiet_finish_step [quiet_intros]: "quiet (finish_step env ap cs tx r)"
  unfolding finish_step_def by (intro quiet_intros)

lemma quiet_apply_step [quiet_intros]: "quiet (apply_step env i ap cs tx st)"
  unfolding apply_step_def by (intro quiet_intros)

lemma quiet_apply_steps [quiet_intros]: "quiet (apply_steps env i ap cs tx sts)"
  by (induction env i ap cs tx sts rule: apply_steps.induct) (auto intro!: quiet_intros)

lemma quiet_require_device [quiet_intros]: "quiet (require_device env cs tx)"
  unfolding require_device_def by (intro quiet_intros)

lemma quiet_apply_transaction [quiet_intros]: "quiet (apply_transaction env cs tx)"
  unfolding apply_transaction_def by (intro quiet_intros)

lemma quiet_apply_change_set [quiet_intros]: "quiet (apply_change_set env cs)"
  unfolding apply_change_set_def by (intro quiet_intros)

lemma quiet_clear_boot_guard [quiet_intros]: "quiet (clear_boot_guard env tx)"
  unfolding clear_boot_guard_def by (intro quiet_intros)

lemma quiet_cleanup_committed [quiet_intros]: "quiet (cleanup_committed_resources env tx p)"
  unfolding cleanup_committed_resources_def by (intro quiet_intros)

lemma quiet_activate_memory [quiet_intros]: "quiet (activate_memory cs tx c)"
  unfolding activate_memory_def by (intro quiet_intros) simp

lemma quiet_finish_commit [quiet_intros]: "quiet (finish_commit env cs tx c p)"
  unfolding finish_commit_def by (intro quiet_intros)

lemma quiet_finalize_split [quiet_intros]: "quiet (finalize_split env cs tx c p)"
  unfolding finalize_split_def by (intro quiet_intros)

lemma quiet_control_plane [quiet_intros]: "quiet (commit_control_plane env cs tx c p)"
  unfolding commit_control_plane_def by (intro quiet_intros)

lemma quiet_commit [quiet_intros]: "quiet (commit_split env cs tx c p)" "quiet (commit_legacy env cs tx c p)"
  unfolding commit_split_def commit_legacy_def by (intro quiet_intros)+

lemma quiet_confirm_transaction [quiet_intros]: "quiet (confirm_transaction env cs tx p)"
  unfolding confirm_transaction_def by (intro quiet_intros)

lemma quiet_previous_revision [quiet_intros]: "quiet (previous_revision env)"
  unfolding previous_revision_def by (intro quiet_intros)

lemma quiet_confirm_change_set [quiet_intros]: "quiet (confirm_change_set env cs)"
  unfolding confirm_change_set_def by (intro quiet_intros)

lemma quiet_create [quiet_intros]: "quiet (create_draft_change env a b c d e)"
  unfolding create_draft_change_def by (intro quiet_intros) simp

lemma quiet_delete_change [quiet_intros]: "quiet (delete_change env cs)"
  unfolding delete_change_def by (intro quiet_intros) simp

lemma quiet_finalize_recovered [quiet_intros]: "quiet (finalize_recovered_commit env cs tx)"
  unfolding finalize_recovered_commit_def by (intro quiet_intros)

lemma quiet_recovery_stop [quiet_intros]: "quiet (recovery_stop env tx a b c d)"
  unfolding recovery_stop_def by (intro quiet_intros)

lemma quiet_recover [quiet_intros]:
  "quiet (recover_finalized env cs tx)" "quiet (recover_uncommitted env cs tx ph mt)"
  unfolding recover_finalized_def recover_uncommitted_def by (intro quiet_intros)+

lemma quiet_recover_pending [quiet_intros]: "quiet (recover_pending env cs tx ph)"
  unfolding recover_pending_def by (intro quiet_intros)

lemma quiet_recover_decide [quiet_intros]: "quiet (recover_decide env cs tx ph mt a)"
  unfolding recover_decide_def by (intro quiet_intros)

lemma quiet_recover_change [quiet_intros]: "quiet (recover_change env k)"
  unfolding recover_change_def by (intro quiet_intros)

lemma quiet_recover_changes [quiet_intros]: "quiet (recover_changes env ks)"
  by (induction ks) (auto intro!: quiet_intros)

lemma quiet_recover_transactions [quiet_intros]: "quiet (recover_transactions env)"
  unfolding recover_transactions_def by (intro quiet_intros)

lemma quiet_reconcile_attempts [quiet_intros]: "quiet (reconcile_attempts env n tg)"
  by (induction n) (auto intro!: quiet_intros)

lemma quiet_recover_adapter [quiet_intros]: "quiet (recover_adapter env tg)"
  unfolding recover_adapter_def reconcile_committed_target_def by (intro quiet_intros)

lemma quiet_recover_revision [quiet_intros]: "quiet (recover_revision env rv i a)"
  unfolding recover_revision_def by (intro quiet_intros)

lemma quiet_recover_baseline [quiet_intros]: "quiet (recover_baseline env rv i a)"
  unfolding recover_baseline_def by (intro quiet_intros)

lemma quiet_active_recovery [quiet_intros]: "quiet (active_recovery_status env)"
  unfolding active_recovery_status_def by (intro quiet_intros)

lemma quiet_recover_committed [quiet_intros]: "quiet (recover_committed_dataplane env)"
  unfolding recover_committed_dataplane_def by (intro quiet_intros)

lemma quiet_recover_and_assign [quiet_intros]: "quiet (recover_and_assign env)"
  unfolding recover_and_assign_def by (intro quiet_intros)

lemma quiet_start_parts [quiet_intros]:
  "quiet (ensure_baseline_revision env)" "quiet (load_state env)" "quiet (build_runtime env)"
  unfolding ensure_baseline_revision_def load_state_def build_runtime_def
  by (intro quiet_intros; simp)+

lemma quiet_and_then [quiet_intros]: "quiet m \<Longrightarrow> quiet n \<Longrightarrow> quiet (and_then m n)"
  unfolding and_then_def by (intro quiet_intros)

section \<open>The logic\<close>

lemma safely_return: "sv_alive s \<Longrightarrow> Q a s \<Longrightarrow> safely C (State_Monad.return a) Q s"
  by (simp add: safely_def)

lemma safely_bind:
  assumes "safely C m (\<lambda>a. safely C (f a) Q) s" "\<And>a. quiet (f a)"
  shows "safely C (State_Monad.bind m f) Q s"
proof -
  obtain a s1 where m: "run_state m s = (a, s1)" by fastforce
  obtain b s2 where f: "run_state (f a) s1 = (b, s2)" by fastforce
  show ?thesis
    using assms(1) m f quietD [OF assms(2) _ f]
    by (cases "sv_alive s1") (auto simp: safely_def)
qed

lemma safely_weaken:
  "safely C m Q s \<Longrightarrow> (\<And>a s'. sv_alive s' \<Longrightarrow> Q a s' \<Longrightarrow> R a s') \<Longrightarrow> safely C m R s"
  by (auto simp: safely_def split: prod.splits if_splits)

lemma safely_reads: "sv_alive s \<Longrightarrow> Q (f s) s \<Longrightarrow> safely C (reads f) Q s"
  by (simp add: safely_def reads_def)

lemma safely_updates: "sv_alive (f s) \<Longrightarrow> Q () (f s) \<Longrightarrow> safely C (updates f) Q s"
  by (simp add: safely_def updates_def)

lemma safely_instant:
  "C (sv_durable s) (sv_log s) \<Longrightarrow> sv_alive s \<Longrightarrow> (\<And>t. Q (sv_clock s) (s\<lparr>sv_clock := t\<rparr>)) \<Longrightarrow>
     safely C (instant env) Q s"
  by (cases s) (simp add: safely_def instant_def)

lemma safely_ask:
  "C (sv_durable s) (sv_log s) \<Longrightarrow> sv_alive s \<Longrightarrow> (\<And>t. Q (f (sv_clock s)) (s\<lparr>sv_clock := t\<rparr>)) \<Longrightarrow>
     safely C (ask env f) Q s"
  unfolding ask_def
  by (intro safely_bind quiet_intros safely_instant safely_return) auto

lemma safely_now:
  "C (sv_durable s) (sv_log s) \<Longrightarrow> sv_alive s \<Longrightarrow> (\<And>x t. Q x (s\<lparr>sv_clock := t\<rparr>)) \<Longrightarrow> safely C (now env) Q s"
  unfolding now_def
  by (intro safely_bind quiet_intros safely_instant safely_return) auto

lemma safely_load:
  assumes "C (sv_durable s) (sv_log s)" "sv_alive s"
    "\<And>e t. Q (Inl e) (s\<lparr>sv_clock := t\<rparr>)"
    "\<And>v t. map_of (b (sv_durable s)) k = Some v \<Longrightarrow> Q (Inr v) (s\<lparr>sv_clock := t\<rparr>)"
  shows "safely C (load env b k) Q s"
  unfolding load_def using assms
  by (intro safely_bind quiet_intros safely_instant safely_reads safely_return)
    (auto split: option.splits)

text \<open>A write happens whole or not at all; a failed one is an error.\<close>

lemma safely_save_entries:
  assumes "C (sv_durable s) (sv_log s)" "sv_alive s"
    "\<And>e t. Q (Some e) (s\<lparr>sv_clock := t\<rparr>)"
    "\<And>t. \<not> list_ex entry_key_missing es \<Longrightarrow>
       Q None (s\<lparr>sv_clock := t, sv_durable := write_entries es (sv_durable s), sv_log := Wrote es # sv_log s\<rparr>)"
  shows "safely C (save_entries env es) Q s"
  using assms
  by (cases s) (auto simp: safely_def save_entries_def instant_def reads_def updates_def split: option.splits)

lemma safely_adapter:
  assumes "C (sv_durable s) (sv_log s)" "sv_alive s"
    "\<And>r t. Q r (s\<lparr>sv_clock := t, sv_log := Called c r # sv_log s\<rparr>)"
  shows "safely C (adapter env c) Q s"
  using assms
  by (cases s) (auto simp: safely_def adapter_def instant_def reads_def updates_def Let_def)

end
