(* ===== verification/Tx_Safety.thy ===== *)
theory Tx_Safety
  imports Tx_Logic
begin

text \<open>
  The safety of the transaction protocol. Ghost functions read the log: the last durable version of
  each change, the changes whose candidate was made durable as the active configuration, and whether
  a roll back was ever asked for after that. \<open>change_step\<close> is the abstract life of a change; every
  durable update of every run refines it.
\<close>

section \<open>What a log says\<close>

fun entry_change :: "string \<Rightarrow> 'cfg tx_entry list \<Rightarrow> change option" where
  "entry_change c [] = None"
| "entry_change c (e # es) =
     (case entry_change c es of
        Some cs \<Rightarrow> Some cs
      | None \<Rightarrow> (case e of Change_entry k cs \<Rightarrow> if k = c then Some cs else None | _ \<Rightarrow> None))"

fun entry_transaction :: "string \<Rightarrow> 'cfg tx_entry list \<Rightarrow> transaction_record option" where
  "entry_transaction k [] = None"
| "entry_transaction k (e # es) =
     (case entry_transaction k es of
        Some r \<Rightarrow> Some r
      | None \<Rightarrow> (case e of Transaction_entry k' r \<Rightarrow> if k' = k then Some r else None | _ \<Rightarrow> None))"

fun entry_activates :: "'cfg tx_entry list \<Rightarrow> bool" where
  "entry_activates [] = False"
| "entry_activates (e # es) = ((case e of Active_revision r \<Rightarrow> True | _ \<Rightarrow> False) \<or> entry_activates es)"

text \<open>The last version of a change that became durable.\<close>

fun last_change :: "'cfg event list \<Rightarrow> string \<Rightarrow> change option" where
  "last_change [] c = None"
| "last_change (Wrote es # lg) c =
     (case entry_change c es of Some cs \<Rightarrow> Some cs | None \<Rightarrow> last_change lg c)"
| "last_change (Called a r # lg) c = last_change lg c"

text \<open>The candidate of the change became the durable active configuration.\<close>

fun activated :: "'cfg event list \<Rightarrow> string \<Rightarrow> bool" where
  "activated [] c = False"
| "activated (Wrote es # lg) c = (entry_activates es \<and> entry_change c es \<noteq> None \<or> activated lg c)"
| "activated (Called a r # lg) c = activated lg c"

fun rollback_safe :: "'cfg event list \<Rightarrow> bool" where
  "rollback_safe [] = True"
| "rollback_safe (Wrote es # lg) = rollback_safe lg"
| "rollback_safe (Called a r # lg) =
     (rollback_safe lg \<and> (case a of Rollback tx \<Rightarrow> \<not> activated lg (tx_change_id tx) | _ \<Rightarrow> True))"

section \<open>The life of a change\<close>

definition stoppable :: "string set" where
  "stoppable = {''rolling_back'', ''rollback_failed''}"

definition next_states :: "string \<Rightarrow> string set" where
  "next_states st =
     (if st = ''draft'' then {''draft'', ''validated''}
      else if st = ''validated'' then {''validated'', ''prepared'', ''requires_device'', ''committed''} \<union> stoppable
      else if st = ''prepared'' then {''prepared'', ''applying'', ''requires_device''} \<union> stoppable
      else if st = ''applying'' then {''applying'', ''verifying'', ''requires_device''} \<union> stoppable
      else if st = ''verifying''
      then {''verifying'', ''awaiting_confirmation'', ''requires_device''} \<union> stoppable
      else if st = ''awaiting_confirmation'' then {''awaiting_confirmation'', ''committing''} \<union> stoppable
      else if st = ''committing'' then {''committing'', ''committed''} \<union> stoppable
      else if st = ''rolling_back''
      then {''rolled_back'', ''expired'', ''failed'', ''requires_device''} \<union> stoppable
      else if st = ''failed'' \<or> st = ''requires_device'' then insert st stoppable
      else {st})"

definition both_verified :: "change \<Rightarrow> bool" where
  "both_verified cs \<longleftrightarrow> ch_management_verified cs \<and> ch_data_plane_verified cs"

definition verified_states :: "string set" where
  "verified_states = {''awaiting_confirmation'', ''committing'', ''committed''}"

definition same_candidate :: "change \<Rightarrow> change \<Rightarrow> bool" where
  "same_candidate a b \<longleftrightarrow>
     ch_transaction_id b = ch_transaction_id a \<and> ch_revision_id b = ch_revision_id a \<and>
     ch_candidate_hash b = ch_candidate_hash a \<and> ch_candidate_version b = ch_candidate_version a \<and>
     ch_artifact_manifest_hash b = ch_artifact_manifest_hash a \<and> ch_noop b = ch_noop a"

text \<open>
  One durable update: the version counts it; the state follows \<open>next_states\<close>; once validated the
  candidate is fixed; only a no-op skips the protocol; and from the confirmation window on both
  verifications have succeeded.
\<close>

definition change_step :: "change option \<Rightarrow> change \<Rightarrow> bool" where
  "change_step old new =
     (case old of
        None \<Rightarrow> ch_state new = ''draft'' \<and> ch_version new = 1
      | Some a \<Rightarrow>
          ch_version new = ch_version a + 1 \<and> ch_state new \<in> next_states (ch_state a) \<and>
          ch_base_version new = ch_base_version a \<and>
          (ch_state a = ''draft'' \<or> same_candidate a new) \<and>
          (ch_state a = ''validated'' \<and> ch_state new = ''committed'' \<longrightarrow> ch_noop new) \<and>
          (ch_state new \<in> verified_states \<longrightarrow> both_verified new))"

fun lifecycle_ok :: "'cfg event list \<Rightarrow> bool" where
  "lifecycle_ok [] \<longleftrightarrow> True"
| "lifecycle_ok (Wrote es # lg) \<longleftrightarrow>
     lifecycle_ok lg \<and>
     (\<forall>c cs. entry_change c es = Some cs \<longrightarrow> ch_id cs = c \<and> change_step (last_change lg c) cs)"
| "lifecycle_ok (Called a r # lg) \<longleftrightarrow> lifecycle_ok lg"

lemma last_change_id: "lifecycle_ok lg \<Longrightarrow> last_change lg c = Some cs \<Longrightarrow> ch_id cs = c"
  by (induction lg c rule: last_change.induct) (auto split: option.splits)

lemma draft_unverified: "''draft'' \<notin> verified_states"
  by (simp add: verified_states_def)

lemma change_step_verified: "change_step old x \<Longrightarrow> ch_state x \<in> verified_states \<Longrightarrow> both_verified x"
  using draft_unverified by (cases old) (auto simp: change_step_def)

lemma last_change_verified:
  "lifecycle_ok lg \<Longrightarrow> last_change lg c = Some cs \<Longrightarrow> ch_state cs \<in> verified_states \<Longrightarrow> both_verified cs"
  by (induction lg c rule: last_change.induct) (auto split: option.splits dest: change_step_verified)

section \<open>The durable invariant\<close>

definition exclusive_states :: "string set" where
  "exclusive_states = {''prepared'', ''applying'', ''verifying'', ''awaiting_confirmation'', ''committing''}"

text \<open>An activated change is committed, or its record tells recovery that it must not be rolled back.\<close>

definition settled :: "'cfg durable \<Rightarrow> string \<Rightarrow> change \<Rightarrow> bool" where
  "settled d c cs \<longleftrightarrow>
     ch_state cs = ''committed'' \<or>
     ch_state cs = ''committing'' \<and>
       (\<exists>r. map_of (du_transactions d) (ch_transaction_id cs) = Some r \<and>
         tx_change_id (tr_transaction r) = c \<and> control_committed (tr_commit_phase r) \<and>
         tr_state r \<notin> set terminal_states)"

definition exclusive_in :: "'cfg durable \<Rightarrow> string \<Rightarrow> bool" where
  "exclusive_in d c \<longleftrightarrow> (\<exists>cs. map_of (du_changes d) c = Some cs \<and> ch_state cs \<in> exclusive_states)"

text \<open>The keys of a bucket ascend, as bbolt keeps them.\<close>

definition ordered :: "'v bucket \<Rightarrow> bool" where
  "ordered b \<longleftrightarrow> sorted_wrt (<) (map fst b)"

definition consistent :: "'cfg durable \<Rightarrow> 'cfg event list \<Rightarrow> bool" where
  "consistent d lg \<longleftrightarrow>
     lifecycle_ok lg \<and> rollback_safe lg \<and> last_change lg [] = None \<and>
     ordered (du_changes d) \<and> ordered (du_transactions d) \<and>
     (\<forall>c cs. map_of (du_changes d) c = Some cs \<longrightarrow> last_change lg c = Some cs) \<and>
     (\<forall>k r. map_of (du_transactions d) k = Some r \<longrightarrow> tx_id (tr_transaction r) = k) \<and>
     (\<forall>c cs. activated lg c \<longrightarrow> map_of (du_changes d) c = Some cs \<longrightarrow> settled d c cs) \<and>
     (\<forall>c1 c2. exclusive_in d c1 \<longrightarrow> exclusive_in d c2 \<longrightarrow> c1 = c2)"

lemma written_changes:
  "map_of (du_changes (write_entries es d)) c =
     (case entry_change c es of Some cs \<Rightarrow> Some cs | None \<Rightarrow> map_of (du_changes d) c)"
proof (induction es arbitrary: d)
  case (Cons e es)
  then show ?case
    by (cases e) (auto simp: write_entries_def map_of_bucket_put split: option.splits)
qed (simp add: write_entries_def)

lemma written_transactions:
  "map_of (du_transactions (write_entries es d)) k =
     (case entry_transaction k es of Some r \<Rightarrow> Some r | None \<Rightarrow> map_of (du_transactions d) k)"
proof (induction es arbitrary: d)
  case (Cons e es)
  then show ?case
    by (cases e) (auto simp: write_entries_def map_of_bucket_put split: option.splits)
qed (simp add: write_entries_def)

lemma ordered_put: "ordered b \<Longrightarrow> ordered (bucket_put k v b)"
  unfolding ordered_def by (rule bucket_put_sorted)

lemma written_ordered:
  "ordered (du_changes d) \<Longrightarrow> ordered (du_transactions d) \<Longrightarrow>
     ordered (du_changes (write_entries es d)) \<and> ordered (du_transactions (write_entries es d))"
proof (induction es arbitrary: d)
  case (Cons e es)
  then show ?case by (cases e) (auto simp: write_entries_def ordered_put)
qed (simp add: write_entries_def)

lemma consistent_called:
  "consistent d lg \<Longrightarrow> (\<And>tx. a = Rollback tx \<Longrightarrow> \<not> activated lg (tx_change_id tx)) \<Longrightarrow>
     consistent d (Called a r # lg)"
  unfolding consistent_def by (cases a) auto

text \<open>A write about one change \<open>c\<close>, whose transaction records are its own.\<close>

lemma consistent_write:
  assumes con: "consistent d lg"
    and change: "\<And>c' x. entry_change c' es = Some x \<Longrightarrow> c' = c \<and> ch_id x = c \<and> change_step (last_change lg c) x"
    and txs: "\<And>k r. entry_transaction k es = Some r \<Longrightarrow> tx_id (tr_transaction r) = k \<and>
      (\<forall>r'. map_of (du_transactions d) k = Some r' \<longrightarrow> tx_change_id (tr_transaction r') = c)"
    and settle: "\<And>x. activated (Wrote es # lg) c \<Longrightarrow>
      map_of (du_changes (write_entries es d)) c = Some x \<Longrightarrow> settled (write_entries es d) c x"
    and key: "entry_change c es \<noteq> None \<Longrightarrow> c \<noteq> []"
    and excl: "\<And>x c'. entry_change c es = Some x \<Longrightarrow> ch_state x \<in> exclusive_states \<Longrightarrow> exclusive_in d c' \<Longrightarrow> c' = c"
  shows "consistent (write_entries es d) (Wrote es # lg)"
proof -
  let ?d = "write_entries es d"
  note c = con [unfolded consistent_def]
  have none: "c' \<noteq> c \<Longrightarrow> entry_change c' es = None" for c' using change by (cases "entry_change c' es") auto
  have other: "settled ?d c' x" if "c' \<noteq> c" "activated (Wrote es # lg) c'" "map_of (du_changes ?d) c' = Some x" for c' x
  proof -
    from that none have "activated lg c'" "map_of (du_changes d) c' = Some x"
      by (auto simp: written_changes)
    with c have "settled d c' x" by blast
    then show ?thesis
      using txs that(1) by (fastforce simp: settled_def written_transactions split: option.split)
  qed
  have ex: "exclusive_in ?d c' \<Longrightarrow> exclusive_in d c' \<or>
      c' = c \<and> (\<exists>x. entry_change c es = Some x \<and> ch_state x \<in> exclusive_states)" for c'
    using none [of c'] by (cases "c' = c") (auto simp: exclusive_in_def written_changes split: option.splits)
  have "c1 = c2" if "exclusive_in ?d c1" "exclusive_in ?d c2" for c1 c2
    using ex [OF that(1)] ex [OF that(2)] c excl by blast
  moreover have "settled ?d c' x" if "activated (Wrote es # lg) c'" "map_of (du_changes ?d) c' = Some x" for c' x
    using other settle that by (cases "c' = c") auto
  moreover have "lifecycle_ok (Wrote es # lg)" using c change by auto
  moreover have "map_of (du_changes ?d) c' = Some x \<Longrightarrow> last_change (Wrote es # lg) c' = Some x" for c' x
    using c by (auto simp: written_changes split: option.splits)
  moreover have "map_of (du_transactions ?d) k = Some r \<Longrightarrow> tx_id (tr_transaction r) = k" for k r
    using c txs by (auto simp: written_transactions split: option.splits)
  moreover have "last_change (Wrote es # lg) [] = None"
    using c none [of "[]"] key by (cases "entry_change [] es") auto
  ultimately show ?thesis using c written_ordered [of d es] unfolding consistent_def by auto
qed

end
