(* ===== verification/Tx_Effects.thy ===== *)
theory Tx_Effects
  imports Tx_Safety
begin

text \<open>
  The invariant of a running server and what the effects of the protocol do to it: the memory holds
  every change as it was last made durable, unless the recovery fence is up. Most of a program only
  reads or writes what the invariant does not mention; \<open>background\<close> collects that.
\<close>

section \<open>Memory and store\<close>

text \<open>A change as its operation holds it: the fields that the life cycle constrains are the durable ones.\<close>

definition same_change :: "change \<Rightarrow> change \<Rightarrow> bool" where
  "same_change a b \<longleftrightarrow>
     ch_id b = ch_id a \<and> ch_state b = ch_state a \<and> ch_version b = ch_version a \<and>
     ch_base_version b = ch_base_version a \<and> same_candidate a b"

definition same_flags :: "change \<Rightarrow> change \<Rightarrow> bool" where
  "same_flags a b \<longleftrightarrow>
     ch_management_verified b = ch_management_verified a \<and> ch_data_plane_verified b = ch_data_plane_verified a"

text \<open>
  What the memory says of one change. While recovery runs (\<open>b\<close>) an activated change may still be
  committing; otherwise it is committed.
\<close>

definition tracked :: "bool \<Rightarrow> 'cfg durable \<Rightarrow> 'cfg event list \<Rightarrow> change bucket \<Rightarrow> string \<Rightarrow> bool" where
  "tracked b d lg m c \<longleftrightarrow>
     (exclusive_in d c \<longrightarrow> map_of m c \<noteq> None) \<and>
     (\<forall>cs. map_of m c = Some cs \<longrightarrow>
        (\<exists>l. last_change lg c = Some l \<and> same_change l cs \<and> same_flags l cs) \<and>
        (ch_state cs \<in> exclusive_states \<longrightarrow> map_of (du_changes d) c \<noteq> None) \<and>
        (activated lg c \<longrightarrow> ch_state cs = ''committed'' \<or> b \<and> ch_state cs = ''committing''))"

definition memory_ok :: "bool \<Rightarrow> 'cfg server \<Rightarrow> bool" where
  "memory_ok b s \<longleftrightarrow> (\<forall>c. tracked b (sv_durable s) (sv_log s) (sv_changes s) c)"

definition consistent_server :: "'cfg server \<Rightarrow> bool" where
  "consistent_server s \<longleftrightarrow> consistent (sv_durable s) (sv_log s)"

text \<open>Between operations: the memory is faithful or the fence is up for good.\<close>

definition op_ok :: "bool \<Rightarrow> 'cfg server \<Rightarrow> bool" where
  "op_ok b s \<longleftrightarrow> consistent_server s \<and> \<not> sv_deferred s \<and>
     (memory_ok b s \<or> \<not> recovery_allows_mutation (sv_recovery s))"

definition server_ok :: "'cfg server \<Rightarrow> bool" where
  "server_ok s \<longleftrightarrow> consistent_server s \<and>
     (sv_alive s \<longrightarrow>
        (sv_deferred s \<longrightarrow> memory_ok False s \<and> \<not> recovery_allows_mutation (sv_recovery s)) \<and>
        (memory_ok False s \<or> \<not> recovery_allows_mutation (sv_recovery s)))"

section \<open>Effects the invariant does not see\<close>

definition similar :: "'cfg server \<Rightarrow> 'cfg server \<Rightarrow> bool" where
  "similar s s' \<longleftrightarrow>
     sv_changes s' = sv_changes s \<and> sv_deferred s' = sv_deferred s \<and> sv_recovery s' = sv_recovery s \<and>
     du_changes (sv_durable s') = du_changes (sv_durable s) \<and>
     du_transactions (sv_durable s') = du_transactions (sv_durable s) \<and>
     last_change (sv_log s') = last_change (sv_log s) \<and> activated (sv_log s') = activated (sv_log s) \<and>
     lifecycle_ok (sv_log s') = lifecycle_ok (sv_log s) \<and> rollback_safe (sv_log s') = rollback_safe (sv_log s)"

definition background :: "('cfg, 'a) act \<Rightarrow> bool" where
  "background m \<longleftrightarrow> (\<forall>s. similar s (snd (run_state m s)) \<and> (sv_alive (snd (run_state m s)) \<longrightarrow> sv_alive s))"

named_theorems background_intros "programs the invariant does not see"

lemma similar_refl [simp]: "similar s s"
  by (simp add: similar_def)

lemma similar_trans: "similar s t \<Longrightarrow> similar t u \<Longrightarrow> similar s u"
  by (simp add: similar_def)

lemma similar_settled:
  "du_transactions d' = du_transactions d \<Longrightarrow> settled d' c cs = settled d c cs"
  by (simp add: settled_def)

lemma similar_exclusive: "du_changes d' = du_changes d \<Longrightarrow> exclusive_in d' c = exclusive_in d c"
  by (simp add: exclusive_in_def)

lemma similar_consistent: "similar s s' \<Longrightarrow> consistent_server s' = consistent_server s"
  unfolding consistent_server_def consistent_def similar_def exclusive_in_def settled_def by simp

lemma similar_memory: "similar s s' \<Longrightarrow> memory_ok b s' = memory_ok b s"
  unfolding memory_ok_def tracked_def similar_def exclusive_in_def by simp

lemma similar_op: "similar s s' \<Longrightarrow> op_ok b s' = op_ok b s"
  using similar_consistent [of s s'] similar_memory [of s s' b] by (simp add: op_ok_def similar_def)

lemma backgroundI:
  "(\<And>s a s'. run_state m s = (a, s') \<Longrightarrow> similar s s' \<and> (sv_alive s' \<longrightarrow> sv_alive s)) \<Longrightarrow> background m"
  unfolding background_def by (metis prod.collapse)

lemma background_return [background_intros]: "background (State_Monad.return a)"
  by (simp add: background_def)

lemma background_bind [background_intros]:
  assumes "background m" "\<And>a. background (f a)"
  shows "background (State_Monad.bind m f)"
  unfolding background_def
proof (intro allI)
  fix s
  obtain a t where t: "run_state m s = (a, t)" by fastforce
  show "similar s (snd (run_state (State_Monad.bind m f) s)) \<and>
      (sv_alive (snd (run_state (State_Monad.bind m f) s)) \<longrightarrow> sv_alive s)"
    using assms(1) [unfolded background_def, rule_format, of s] t
      assms(2) [of a, unfolded background_def, rule_format, of t] similar_trans
    by (auto simp: split_beta)
qed

lemma background_if [background_intros]: "background m \<Longrightarrow> background n \<Longrightarrow> background (if c then m else n)"
  by simp

lemma background_option [background_intros]:
  "background m \<Longrightarrow> (\<And>a. background (f a)) \<Longrightarrow> background (case x of None \<Rightarrow> m | Some a \<Rightarrow> f a)"
  by (cases x) auto

lemma background_sum [background_intros]:
  "(\<And>a. background (f a)) \<Longrightarrow> (\<And>b. background (g b)) \<Longrightarrow> background (case x of Inl a \<Rightarrow> f a | Inr b \<Rightarrow> g b)"
  by (cases x) auto

lemma background_prod [background_intros]: "(\<And>a b. background (f a b)) \<Longrightarrow> background (case x of (a, b) \<Rightarrow> f a b)"
  by (cases x) auto

lemma background_let [background_intros]: "(\<And>x. background (f x)) \<Longrightarrow> background (let x = e in f x)"
  by simp

lemma background_file [background_intros]:
  "(\<And>e. background (f e)) \<Longrightarrow> background m \<Longrightarrow> (\<And>c. background (g c)) \<Longrightarrow>
     background (case x of File_error e \<Rightarrow> f e | File_invalid \<Rightarrow> m | File_config c \<Rightarrow> g c)"
  by (cases x) auto

lemma background_guard [background_intros]:
  "background a \<Longrightarrow> background b \<Longrightarrow> background m \<Longrightarrow>
     background (case x of Bound_clearer \<Rightarrow> a | Unbound_clearer \<Rightarrow> b | No_clearer \<Rightarrow> m)"
  by (cases x) auto

lemma background_reads [background_intros]: "background (reads f)"
  by (simp add: background_def reads_def)

lemma background_instant [background_intros]: "background (instant env)"
  by (simp add: background_def instant_def similar_def)

lemma background_now [background_intros]: "background (now env)"
  unfolding now_def by (intro background_intros)

lemma background_ask [background_intros]: "background (ask env f)"
  unfolding ask_def by (intro background_intros)

lemma background_load [background_intros]: "background (load env b k)"
  unfolding load_def by (intro background_intros)

lemma background_updates:
  "(\<And>s. similar s (f s)) \<Longrightarrow> (\<And>s. sv_alive (f s) = sv_alive s) \<Longrightarrow> background (updates f)"
  by (simp add: background_def updates_def)

text \<open>Entries that are neither changes nor transactions.\<close>

definition neutral :: "'cfg tx_entry list \<Rightarrow> bool" where
  "neutral es \<longleftrightarrow> (\<forall>c. entry_change c es = None) \<and> (\<forall>k. entry_transaction k es = None)"

lemma neutral_similar:
  assumes "neutral es" "du_changes (write_entries es d) = du_changes d"
    "du_transactions (write_entries es d) = du_transactions d"
  shows "similar s (s\<lparr>sv_log := Wrote es # sv_log s\<rparr>)"
  using assms by (auto simp: similar_def neutral_def fun_eq_iff)

lemma background_save:
  assumes "neutral es" "\<And>d. du_changes (write_entries es d) = du_changes d"
    "\<And>d. du_transactions (write_entries es d) = du_transactions d"
  shows "background (save_entries env es)"
  using assms
  by (auto intro!: backgroundI
      simp: save_entries_def instant_def reads_def updates_def similar_def neutral_def fun_eq_iff
      split: if_splits option.splits)

lemma background_adapter [background_intros]:
  "(\<And>tx. c \<noteq> Rollback tx) \<Longrightarrow> background (adapter env c)"
  by (cases c) (auto intro!: backgroundI
      simp: adapter_def instant_def reads_def updates_def similar_def fun_eq_iff Let_def split: if_splits)

lemma background_schedule [background_intros]: "background (schedule_expiry cs)"
  by (auto simp: schedule_expiry_def similar_def intro: background_intros background_updates)

lemma background_cancel [background_intros]: "background (cancel_expiry k)"
  by (auto simp: cancel_expiry_def similar_def intro: background_updates)

lemma background_cleanup [background_intros]:
  "background (cleanup_step env w a fs)" "background (cleanup_proof env tx fs)"
  "background (save_cleanup_status env tx fs)"
  unfolding cleanup_step_def cleanup_proof_def save_cleanup_status_def
  by (intro background_intros background_save; simp add: neutral_def write_entries_def)+

lemma background_cleanup_rolled_back [background_intros]: "background (cleanup_rolled_back env tx)"
  unfolding cleanup_rolled_back_def by (intro background_intros)

lemma background_cleanup_committed [background_intros]: "background (cleanup_committed_resources env tx p)"
  unfolding cleanup_committed_resources_def by (intro background_intros)

lemma background_load_transaction [background_intros]: "background (load_transaction env cs)"
  unfolding load_transaction_def by (intro background_intros)

lemma background_capability [background_intros]: "background (capability_matches env tx)"
  unfolding capability_matches_def by (intro background_intros)

lemma background_load_candidate [background_intros]: "background (load_verified_candidate env cs tx)"
  unfolding load_verified_candidate_def Let_def by (intro background_intros)

lemma background_load_verified [background_intros]: "background (load_verified_transaction env cs)"
  unfolding load_verified_transaction_def by (intro background_intros)

lemma background_boot_guard [background_intros]: "background (clear_boot_guard env tx)"
  unfolding clear_boot_guard_def by (intro background_intros) auto

lemma background_previous [background_intros]: "background (previous_revision env)"
  unfolding previous_revision_def by (intro background_intros)

lemma background_new_transaction [background_intros]: "background (new_transaction env a b c d e)"
  unfolding new_transaction_def Let_def by (intro background_intros)

lemma background_retire [background_intros]: "background (retire_after env tx e)"
  unfolding retire_after_def by (intro background_intros)

lemma background_prepare [background_intros]: "background (prepare_candidate env tx c)"
  unfolding prepare_candidate_def Let_def by (intro background_intros)

lemma background_lease [background_intros]: "background acquire_mutation_lease"
  unfolding acquire_mutation_lease_def by (intro background_intros)

lemma background_active [background_intros]: "background (active_transaction c)"
  unfolding active_transaction_def by (intro background_intros)

lemma safely_read: "safely C (f (g s)) Q s \<Longrightarrow> safely C (State_Monad.bind (reads g) f) Q s"
  by (simp add: safely_def reads_def)

text \<open>Case distinctions, and the rule for a background program in front.\<close>

lemma safely_if:
  "(c \<Longrightarrow> safely C m Q s) \<Longrightarrow> (\<not> c \<Longrightarrow> safely C n Q s) \<Longrightarrow> safely C (if c then m else n) Q s"
  by simp

lemma safely_option:
  "(x = None \<Longrightarrow> safely C m Q s) \<Longrightarrow> (\<And>a. x = Some a \<Longrightarrow> safely C (f a) Q s) \<Longrightarrow>
     safely C (case x of None \<Rightarrow> m | Some a \<Rightarrow> f a) Q s"
  by (cases x) auto

lemma safely_sum:
  "(\<And>a. x = Inl a \<Longrightarrow> safely C (f a) Q s) \<Longrightarrow> (\<And>b. x = Inr b \<Longrightarrow> safely C (g b) Q s) \<Longrightarrow>
     safely C (case x of Inl a \<Rightarrow> f a | Inr b \<Rightarrow> g b) Q s"
  by (cases x) auto

lemma safely_background:
  assumes "background m" "consistent_server s" "sv_alive s"
    "\<And>a s'. similar s s' \<Longrightarrow> sv_alive s' \<Longrightarrow> Q a s'"
  shows "safely consistent m Q s"
proof -
  obtain a t where t: "run_state m s = (a, t)" by fastforce
  have sim: "similar s t" using assms(1) t by (auto simp: background_def dest: spec [of _ s])
  show ?thesis
    using assms(2-4) sim similar_consistent [OF sim] by (auto simp: safely_def t consistent_server_def)
qed

lemma safely_after:
  assumes "background m" "\<And>a. quiet (f a)" "consistent_server s" "sv_alive s"
    "\<And>a s'. similar s s' \<Longrightarrow> sv_alive s' \<Longrightarrow> safely consistent (f a) Q s'"
  shows "safely consistent (State_Monad.bind m f) Q s"
  by (rule safely_bind [OF safely_background [OF assms(1,3,4)]]) (use assms(2,5) in auto)

section \<open>The fence\<close>

definition fenced :: "'cfg server \<Rightarrow> bool" where
  "fenced s \<longleftrightarrow> consistent_server s \<and> \<not> sv_deferred s \<and> \<not> recovery_allows_mutation (sv_recovery s)"

lemma fenced_op: "fenced s \<Longrightarrow> op_ok b s"
  by (simp add: fenced_def op_ok_def)

lemma refused: "rs_status r \<noteq> ''ok'' \<Longrightarrow> rs_status r \<noteq> ''not_required'' \<Longrightarrow> \<not> recovery_allows_mutation r"
  by (simp add: recovery_allows_mutation_def)

lemma required_refused: "\<not> recovery_allows_mutation (recovery_required code reason target ph)"
  by (simp add: recovery_required_def recovery_of_def refused)

lemma set_status_safe:
  assumes s: "consistent_server s" "sv_alive s"
    and Q: "\<And>r s'. sv_alive s' \<Longrightarrow> similar (s\<lparr>sv_recovery := sv_recovery s'\<rparr>) s' \<Longrightarrow>
      sv_recovery s' = status \<or> \<not> recovery_allows_mutation (sv_recovery s') \<Longrightarrow> Q r s'"
  shows "safely consistent (set_recovery_status env status) Q s"
  unfolding set_recovery_status_def
  using s
  by (intro safely_bind safely_updates quiet_intros safely_save_entries)
    (auto intro!: safely_bind safely_updates safely_return quiet_intros Q
      simp: consistent_server_def similar_def refused write_entries_def fun_eq_iff)

lemma mark_safe:
  assumes s: "consistent_server s" "sv_alive s" "\<not> sv_deferred s"
    and Q: "\<And>s'. sv_alive s' \<Longrightarrow> fenced s' \<Longrightarrow> Q () s'"
  shows "safely consistent (mark_recovery_required env target code reason ph) Q s"
  unfolding mark_recovery_required_def
proof (intro safely_bind set_status_safe safely_return quiet_intros Q s)
  fix s' r
  assume sim: "similar (s\<lparr>sv_recovery := sv_recovery s'\<rparr>) s'"
    and st: "sv_recovery s' = recovery_required code reason target ph \<or> \<not> recovery_allows_mutation (sv_recovery s')"
  have "consistent_server s'" using similar_consistent [OF sim] s(1) by (simp add: consistent_server_def)
  moreover have "\<not> recovery_allows_mutation (sv_recovery s')"
    using st by (auto simp: required_refused)
  ultimately show "fenced s'" using sim s(3) by (simp add: fenced_def similar_def)
qed

end
