(* ===== verification/Tx_Saves.thy ===== *)
theory Tx_Saves
  imports Tx_Effects
begin

text \<open>
  The writes of the protocol: the one entry point of each, what it needs of the change it writes and
  of the transaction it names, and what it leaves.
\<close>

section \<open>The state inside an operation\<close>

text \<open>\<open>x\<close>: no other change holds the data plane.\<close>

definition holding :: "bool \<Rightarrow> bool \<Rightarrow> change \<Rightarrow> 'cfg server \<Rightarrow> bool" where
  "holding b x cs s \<longleftrightarrow>
     consistent_server s \<and> \<not> sv_deferred s \<and>
     (\<forall>c. c \<noteq> ch_id cs \<longrightarrow> tracked b (sv_durable s) (sv_log s) (sv_changes s) c) \<and>
     (\<exists>l. last_change (sv_log s) (ch_id cs) = Some l \<and> same_change l cs) \<and>
     (x \<longrightarrow> (\<forall>c. exclusive_in (sv_durable s) c \<longrightarrow> c = ch_id cs))"

definition owns :: "transaction \<Rightarrow> string \<Rightarrow> 'cfg server \<Rightarrow> bool" where
  "owns tx c s \<longleftrightarrow> tx_change_id tx = c \<and>
     (\<forall>r. map_of (du_transactions (sv_durable s)) (tx_id tx) = Some r \<longrightarrow> tx_change_id (tr_transaction r) = c)"

definition saved :: "change \<Rightarrow> 'cfg server \<Rightarrow> bool" where
  "saved cs s \<longleftrightarrow> last_change (sv_log s) (ch_id cs) = Some cs \<and>
     map_of (du_changes (sv_durable s)) (ch_id cs) = Some cs"

definition working :: "bool \<Rightarrow> bool \<Rightarrow> transaction \<Rightarrow> change \<Rightarrow> 'cfg server \<Rightarrow> bool" where
  "working b x tx cs s \<longleftrightarrow>
     holding b x cs s \<and> tracked b (sv_durable s) (sv_log s) (sv_changes s) (ch_id cs) \<and>
     \<not> activated (sv_log s) (ch_id cs) \<and> owns tx (ch_id cs) s \<and> tx_id tx = ch_transaction_id cs"

lemma similar_holding: "similar s s' \<Longrightarrow> holding b x cs s' = holding b x cs s"
  using similar_consistent [of s s']
  by (simp add: holding_def similar_def tracked_def exclusive_in_def)

lemma similar_owns: "similar s s' \<Longrightarrow> owns tx c s' = owns tx c s"
  by (simp add: owns_def similar_def)

lemma similar_saved: "similar s s' \<Longrightarrow> saved cs s' = saved cs s"
  by (simp add: saved_def similar_def)

lemma similar_working: "similar s s' \<Longrightarrow> working b x tx cs s' = working b x tx cs s"
  using similar_holding [of s s' b x cs] similar_owns [of s s' tx "ch_id cs"]
  by (simp add: working_def similar_def tracked_def exclusive_in_def)

lemma same_change_refl [simp]: "same_change cs cs"
  by (simp add: same_change_def same_candidate_def)

lemma working_op: "working b x tx cs s \<Longrightarrow> op_ok b s"
  unfolding working_def holding_def op_ok_def memory_ok_def by metis

lemma working_memory: "working b x tx cs s \<Longrightarrow> memory_ok b s"
  unfolding working_def holding_def memory_ok_def by metis

lemma working_consistent: "working b x tx cs s \<Longrightarrow> consistent_server s \<and> \<not> sv_deferred s"
  by (simp add: working_def holding_def)

text \<open>Fields the life cycle does not constrain may change between two writes.\<close>

lemma working_same: "working b x tx cs s \<Longrightarrow> same_change cs cs' \<Longrightarrow> working b x tx cs' s"
  by (auto simp: working_def holding_def same_change_def same_candidate_def)

lemma change_step_same: "same_change l cs \<Longrightarrow> change_step (Some cs) x \<Longrightarrow> change_step (Some l) x"
  by (auto simp: change_step_def same_change_def same_candidate_def)

lemma change_step_id: "same_change cs cs' \<Longrightarrow> ch_id cs' = ch_id cs"
  by (simp add: same_change_def)

section \<open>A write\<close>

lemma write_safe:
  assumes h: "holding b x cs s" and id: "ch_id cs' = ch_id cs"
    and step: "change_step (Some cs) cs'"
    and changes: "\<And>c. entry_change c es = (if c = ch_id cs then Some cs' else None)"
    and txs: "\<And>k r. entry_transaction k es = Some r \<Longrightarrow>
      k = tx_id (tr_transaction r) \<and> owns (tr_transaction r) (ch_id cs) s"
    and settle: "activated (Wrote es # sv_log s) (ch_id cs) \<Longrightarrow> ch_state cs' = ''committed'' \<or>
      ch_state cs' = ''committing'' \<and> (\<exists>r. entry_transaction (ch_transaction_id cs') es = Some r \<and>
        control_committed (tr_commit_phase r) \<and> tr_state r \<notin> set terminal_states)"
    and excl: "ch_state cs' \<in> exclusive_states \<Longrightarrow> x"
    and s': "sv_durable s' = write_entries es (sv_durable s)" "sv_log s' = Wrote es # sv_log s"
      "sv_changes s' = sv_changes s" "sv_deferred s' = sv_deferred s"
  shows "holding b x cs' s'" and "saved cs' s'"
proof -
  let ?c = "ch_id cs" and ?d = "write_entries es (sv_durable s)"
  note h' = h [unfolded holding_def]
  from h' obtain l where l: "last_change (sv_log s) ?c = Some l" "same_change l cs" by blast
  have con: "consistent (sv_durable s) (sv_log s)" using h' by (simp add: consistent_server_def)
  have "consistent ?d (Wrote es # sv_log s)"
  proof (rule consistent_write [OF con, where c = ?c])
    show "c' = ?c \<and> ch_id y = ?c \<and> change_step (last_change (sv_log s) ?c) y"
      if "entry_change c' es = Some y" for c' y
      using that change_step_same [OF l(2) step] l(1) id by (auto simp: changes split: if_splits)
    show "tx_id (tr_transaction r) = k \<and>
        (\<forall>r'. map_of (du_transactions (sv_durable s)) k = Some r' \<longrightarrow> tx_change_id (tr_transaction r') = ?c)"
      if "entry_transaction k es = Some r" for k r
      using txs [OF that] by (auto simp: owns_def)
    show "settled ?d ?c y"
      if "activated (Wrote es # sv_log s) ?c" "map_of (du_changes ?d) ?c = Some y" for y
      using settle [OF that(1)] that(2) txs
      by (auto simp: written_changes changes settled_def written_transactions owns_def)
    show "c' = ?c"
      if "entry_change ?c es = Some y" "ch_state y \<in> exclusive_states" "exclusive_in (sv_durable s) c'" for y c'
      using that excl h' by (auto simp: changes)
    show "?c \<noteq> []" using con l(1) by (auto simp: consistent_def)
  qed
  then have con': "consistent_server s'" by (simp add: consistent_server_def s')
  have other: "tracked b ?d (Wrote es # sv_log s) (sv_changes s) c" if "c \<noteq> ?c" for c
    using h' that by (auto simp: tracked_def exclusive_in_def written_changes changes)
  have "exclusive_in ?d c \<Longrightarrow> c = ?c" if x for c
    using h' that excl by (auto simp: exclusive_in_def written_changes changes split: if_splits)
  with con' other h' show "holding b x cs' s'"
    by (auto simp: holding_def s' id changes)
  show "saved cs' s'" by (simp add: saved_def s' id changes written_changes)
qed

lemma owns_after:
  assumes "owns tx c s" "\<And>k r. entry_transaction k es = Some r \<Longrightarrow> tx_change_id (tr_transaction r) = c"
    "sv_durable s' = write_entries es (sv_durable s)"
  shows "owns tx c s'"
  using assms by (auto simp: owns_def written_transactions split: option.splits)

text \<open>The change that was written goes to the memory.\<close>

lemma set_change_tracked:
  assumes h: "holding b x cs s" and sv: "saved cs s"
    and settle: "activated (sv_log s) (ch_id cs) \<Longrightarrow> ch_state cs = ''committed'' \<or> b \<and> ch_state cs = ''committing''"
    and s': "sv_durable s' = sv_durable s" "sv_log s' = sv_log s" "sv_deferred s' = sv_deferred s"
      "sv_changes s' = bucket_put (ch_id cs) cs (sv_changes s)"
  shows "holding b x cs s'" and "tracked b (sv_durable s') (sv_log s') (sv_changes s') (ch_id cs)"
    and "memory_ok b s'" and "saved cs s'"
proof -
  show t: "tracked b (sv_durable s') (sv_log s') (sv_changes s') (ch_id cs)"
    using sv settle by (auto simp: tracked_def s' map_of_bucket_put saved_def same_flags_def)
  have o: "tracked b (sv_durable s') (sv_log s') (sv_changes s') c" if "c \<noteq> ch_id cs" for c
    using h that by (auto simp: holding_def tracked_def s' map_of_bucket_put)
  from o h show "holding b x cs s'" by (auto simp: holding_def s' consistent_server_def)
  from o t show "memory_ok b s'" unfolding memory_ok_def by metis
  show "saved cs s'" using sv by (simp add: saved_def s')
qed

section \<open>Saving progress\<close>

definition advanced :: "change \<Rightarrow> string \<Rightarrow> change \<Rightarrow> bool" where
  "advanced cs st cs' \<longleftrightarrow>
     (\<exists>v u. cs' = cs\<lparr>ch_state := st, ch_version := v, ch_updated_at := u\<rparr>)"

definition others_same :: "string \<Rightarrow> 'cfg server \<Rightarrow> 'cfg server \<Rightarrow> bool" where
  "others_same c s s' \<longleftrightarrow> (\<forall>k. k \<noteq> c \<longrightarrow> map_of (sv_changes s') k = map_of (sv_changes s) k)"

lemma others_same_refl [simp]: "others_same c s s"
  by (simp add: others_same_def)

lemma others_same_trans: "others_same c s t \<Longrightarrow> others_same c t u \<Longrightarrow> others_same c s u"
  by (simp add: others_same_def)

lemma similar_others: "similar s s' \<Longrightarrow> others_same c s s'"
  by (simp add: similar_def others_same_def)

lemma safely_set_change:
  "sv_alive s \<Longrightarrow> Q () (s\<lparr>sv_changes := bucket_put (ch_id cs) cs (sv_changes s)\<rparr>) \<Longrightarrow>
     safely C (set_change cs) Q s"
  unfolding set_change_def by (rule safely_updates) simp_all

lemma save_progress_safe:
  assumes w: "working b x tx cs s" and live: "sv_alive s"
    and st: "st \<in> next_states (ch_state cs)" "st \<noteq> ''committed''"
      "st \<in> verified_states \<Longrightarrow> both_verified cs" "st \<in> exclusive_states \<Longrightarrow> x"
    and fail: "\<And>e cs' s'. sv_alive s' \<Longrightarrow> working b x tx cs s' \<Longrightarrow> sv_changes s' = sv_changes s \<Longrightarrow>
      Q (Some e, cs') s'"
    and ok: "\<And>cs' s'. sv_alive s' \<Longrightarrow> working b x tx cs' s' \<Longrightarrow> advanced cs st cs' \<Longrightarrow>
      others_same (ch_id cs) s s' \<Longrightarrow> map_of (sv_changes s') (ch_id cs) = Some cs' \<Longrightarrow> Q (None, cs') s'"
  shows "safely consistent (save_progress env cs tx st) Q s"
proof (cases "validate_transaction_binding cs tx")
  case None
  let ?new = "\<lambda>t. cs\<lparr>ch_state := st, ch_version := ch_version cs + 1, ch_updated_at := time_truncate t second\<rparr>"
  let ?es = "\<lambda>t1 t2. [Transaction_entry (tx_id tx) \<lparr>tr_transaction = tx, tr_state = st,
       tr_commit_phase = ch_commit_phase cs, tr_steps = ch_steps cs, tr_updated_at = t2,
       tr_completed_at = (if is_terminal_state st then Some t2 else None)\<rparr>,
     Change_entry (ch_id (?new t1)) (?new t1)]"
  let ?after = "\<lambda>t1 r. case r of Some e \<Rightarrow> State_Monad.return (Some e, ?new t1)
       | None \<Rightarrow> do { set_change (?new t1); State_Monad.return (None, ?new t1) }"
  have good: "safely consistent (?after t1 r) Q s'"
    if pre: "similar s u" "sv_alive u"
      and r: "r \<noteq> None \<and> s' = u\<lparr>sv_clock := k\<rparr> \<or> r = None \<and> s' = u\<lparr>sv_clock := k,
        sv_durable := write_entries (?es t1 t2) (sv_durable u), sv_log := Wrote (?es t1 t2) # sv_log u\<rparr>"
    for r u s' t1 t2 k
  proof (cases r)
    case (Some e)
    have "similar s s'" using pre(1) r Some by (simp add: similar_def)
    then show ?thesis
      using Some r pre(2) w
      by (auto intro!: safely_return fail simp: similar_working) (simp add: similar_def)
  next
    case None
    have wu: "working b x tx cs u" using similar_working [OF pre(1)] w by simp
    note wu' = wu [unfolded working_def]
    have s': "s' = u\<lparr>sv_clock := k, sv_durable := write_entries (?es t1 t2) (sv_durable u),
        sv_log := Wrote (?es t1 t2) # sv_log u\<rparr>" using r None by simp
    have step: "change_step (Some cs) (?new t1)"
      using st by (auto simp: change_step_def same_candidate_def both_verified_def)
    have H: "holding b x (?new t1) s'" "saved (?new t1) s'"
      by (rule write_safe [where es = "?es t1 t2", OF wu' [THEN conjunct1] _ step];
          use wu' st in \<open>auto simp: s' split: if_splits\<close>)+
    have act: "\<not> activated (sv_log s') (ch_id cs)" using wu' by (simp add: s')
    let ?t = "s'\<lparr>sv_changes := bucket_put (ch_id (?new t1)) (?new t1) (sv_changes s')\<rparr>"
    have own: "owns tx (ch_id cs) s'"
      by (rule owns_after [where s = u and es = "?es t1 t2"]) (use wu' in \<open>auto simp: s' owns_def split: if_splits\<close>)
    have T: "holding b x (?new t1) ?t" "tracked b (sv_durable ?t) (sv_log ?t) (sv_changes ?t) (ch_id (?new t1))"
      by (rule set_change_tracked [OF H, where s' = ?t]; use act in simp)+
    have W: "working b x tx (?new t1) ?t"
      using T act own wu' by (simp add: working_def owns_def)
    have "Q (None, ?new t1) ?t"
      using pre by (intro ok [OF _ W])
        (auto simp: s' advanced_def others_same_def map_of_bucket_put similar_def)
    then show ?thesis
      unfolding None option.case using pre(2)
      by (intro safely_bind safely_set_change safely_return quiet_intros) (simp_all add: s')
  qed
  have "safely consistent (State_Monad.bind (save_entries env (?es t1 t2)) (?after t1)) Q u"
    if "similar s u" "sv_alive u" for t1 t2 u
  proof (rule safely_bind [OF safely_save_entries])
    show "consistent (sv_durable u) (sv_log u)"
      using working_consistent [OF w] similar_consistent [OF that(1)] by (simp add: consistent_server_def)
    show "sv_alive u" by (rule that)
    show "safely consistent (?after t1 (Some e)) Q (u\<lparr>sv_clock := k\<rparr>)" for e k
      by (rule good [OF that]) auto
    show "safely consistent (?after t1 None) Q (u\<lparr>sv_clock := k,
        sv_durable := write_entries (?es t1 t2) (sv_durable u), sv_log := Wrote (?es t1 t2) # sv_log u\<rparr>)" for k
      by (rule good [OF that]) auto
  qed (auto intro!: quiet_intros)
  then show ?thesis
    unfolding save_progress_def None option.case Let_def
    using w live similar_consistent working_consistent similar_trans
    by (intro safely_after [OF background_now] quiet_intros) blast+
next
  case (Some f)
  with w live show ?thesis by (auto simp: save_progress_def intro!: safely_return fail)
qed

end
