(* ===== verification/Tx_Invariant.thy ===== *)
theory Tx_Invariant
  imports Tx_Saves
begin

text \<open>
  Every operation keeps the invariant: whatever the environment answers and wherever the process
  dies, the store and the log stay consistent, and an operation that ends leaves a faithful memory or
  a raised fence.
\<close>

section \<open>Roll back\<close>

definition final_states :: "string set" where
  "final_states = {''rolled_back'', ''expired'', ''failed'', ''requires_device''}"

definition rollback_from :: "string set" where
  "rollback_from = set rollback_states \<union> {''rolling_back''}"

lemma rollback_from_next:
  "st \<in> rollback_from \<Longrightarrow> ''rolling_back'' \<in> next_states st \<and> ''rollback_failed'' \<in> next_states st"
  by (auto simp: rollback_from_def rollback_states_def next_states_def stoppable_def)

lemma final_states_next: "st \<in> final_states \<Longrightarrow> st \<in> next_states ''rolling_back''"
  by (auto simp: final_states_def next_states_def stoppable_def)

lemma final_states_plain:
  "st \<in> final_states \<union> {''rolling_back'', ''rollback_failed''} \<Longrightarrow>
     st \<notin> verified_states \<and> st \<notin> exclusive_states \<and> st \<noteq> ''committed''"
  by (auto simp: final_states_def verified_states_def exclusive_states_def)

text \<open>What a roll back leaves: with no failure the change is in its final state.\<close>

definition rolled :: "bool \<Rightarrow> string \<Rightarrow> string \<Rightarrow> 'cfg server \<Rightarrow> outcome \<Rightarrow> 'cfg server \<Rightarrow> bool" where
  "rolled b c st s out s' \<longleftrightarrow> op_ok b s' \<and>
     (snd out = None \<longrightarrow> memory_ok b s' \<and> others_same c s s' \<and>
       (\<exists>cs. map_of (sv_changes s') c = Some cs \<and> ch_state cs = st))"

lemma rolled_failed: "op_ok b s' \<Longrightarrow> rolled b c st s (cs, Some f) s'"
  by (simp add: rolled_def)

lemma rolled_similar: "similar s' s'' \<Longrightarrow> rolled b c st s out s' \<Longrightarrow> rolled b c st s out s''"
  using similar_op [of s' s'' b] similar_memory [of s' s'' b]
  by (auto simp: rolled_def similar_def others_same_def)

lemma finish_tail_safe:
  assumes "working b x tx cs s'" "sv_alive s'" "others_same c s s'"
    "map_of (sv_changes s') c = Some cs" "ch_state cs = st"
  shows "safely consistent (do {
      cancel_expiry (ch_id cs); cleanup_rolled_back env tx; State_Monad.return (cs, None) }) (rolled b c st s) s'"
proof -
  have "rolled b c st s (cs, None) s'"
    using assms working_op [OF assms(1)] working_memory [OF assms(1)] by (auto simp: rolled_def)
  then show ?thesis
    using assms(2) working_consistent [OF assms(1)]
    by (intro safely_after background_intros quiet_intros safely_return)
      (auto simp: similar_consistent intro: rolled_similar)
qed

lemma save_plain_safe:
  assumes w: "working b x tx cs s" and live: "sv_alive s" and nx: "st \<in> next_states (ch_state cs)"
    and st: "st \<in> final_states \<union> {''rolling_back'', ''rollback_failed''}"
    and fail: "\<And>e cs' s'. sv_alive s' \<Longrightarrow> working b x tx cs s' \<Longrightarrow> sv_changes s' = sv_changes s \<Longrightarrow>
      Q (Some e, cs') s'"
    and ok: "\<And>cs' s'. sv_alive s' \<Longrightarrow> working b x tx cs' s' \<Longrightarrow> advanced cs st cs' \<Longrightarrow>
      others_same (ch_id cs) s s' \<Longrightarrow> map_of (sv_changes s') (ch_id cs) = Some cs' \<Longrightarrow> Q (None, cs') s'"
  shows "safely consistent (save_progress env cs tx st) Q s"
  by (rule save_progress_safe [OF w live nx]) (use final_states_plain [OF st] fail ok in auto)

lemma mark_out_safe:
  assumes "working b x tx cs s" "sv_alive s" "\<And>s'. sv_alive s' \<Longrightarrow> op_ok b s' \<Longrightarrow> Q out s'"
  shows "safely consistent (do {
      mark_recovery_required env tg code reason ph; State_Monad.return out }) Q s"
  using assms working_consistent [OF assms(1)] fenced_op
  by (intro safely_bind mark_safe safely_return quiet_intros) auto

lemma finish_rollback_safe:
  assumes w: "working b x tx cs s" and live: "sv_alive s" and st: "ch_state cs = ''rolling_back''"
    and final: "final \<in> final_states"
  shows "safely consistent (finish_rollback env cs tx result final reason) (rolled b (ch_id cs) final s) s"
proof -
  have failed: "''rollback_failed'' \<in> next_states (ch_state cs)"
    using rollback_from_next [of "ch_state cs"] by (simp add: st rollback_from_def)
  let ?cs = "cs\<lparr>ch_management_verified := False, ch_data_plane_verified := False,
    ch_validation := ch_validation cs @
      [\<lparr>vd_level = ''info'', vd_code = reason, vd_message = ''adapter rollback completed''\<rparr>]\<rparr>"
  have w': "working b x tx ?cs s"
    by (rule working_same [OF w]) (simp add: same_change_def same_candidate_def)
  have nxt: "final \<in> next_states (ch_state ?cs)" using final_states_next [OF final] by (simp add: st)
  show ?thesis
  proof (cases "rollback_error result tx")
    case (Some e)
    show ?thesis
      unfolding finish_rollback_def Some option.case
      by (intro safely_bind [OF save_plain_safe [OF w live failed]] quiet_intros)
        (auto simp: Let_def intro: mark_out_safe rolled_failed)
  next
    case ok: None
    show ?thesis
    proof (cases "step_ok result")
      case False
      then show ?thesis
        unfolding finish_rollback_def ok option.case if_not_P [OF False] if_P
        by (simp, intro safely_bind [OF save_plain_safe [OF w live failed]] quiet_intros)
          (auto intro!: safely_return rolled_failed dest: working_op)
    next
      case True
      show ?thesis
        unfolding finish_rollback_def ok option.case Let_def
        by (simp add: True, intro safely_bind [OF save_plain_safe [OF w' live nxt]] quiet_intros)
          (auto intro!: finish_tail_safe quiet_intros intro: mark_out_safe rolled_failed simp: advanced_def final)
    qed
  qed
qed

lemma rolled_others: "rolled b c st t out s' \<Longrightarrow> others_same c s t \<Longrightarrow> rolled b c st s out s'"
  by (auto simp: rolled_def intro: others_same_trans)

text \<open>The adapter is asked to roll back a change that was never activated.\<close>

lemma rollback_call_safe:
  assumes w: "working b x tx cs s" and live: "sv_alive s"
    and Q: "\<And>r s'. sv_alive s' \<Longrightarrow> similar s s' \<Longrightarrow> Q r s'"
  shows "safely consistent (adapter env (Rollback tx)) Q s"
proof (rule safely_adapter [OF _ live])
  have "\<not> activated (sv_log s) (tx_change_id tx)" using w by (auto simp: working_def owns_def)
  then show "Q r (s\<lparr>sv_clock := t, sv_log := Called (Rollback tx) r # sv_log s\<rparr>)" for r t
    using live by (intro Q) (auto simp: similar_def fun_eq_iff)
qed (use working_consistent [OF w] in \<open>simp add: consistent_server_def\<close>)

lemma rollback_locked_safe:
  assumes w: "working b x tx cs s" and live: "sv_alive s" and st: "ch_state cs \<in> rollback_from"
    and final: "final \<in> final_states"
  shows "safely consistent (rollback_locked env cs tx final reason) (rolled b (ch_id cs) final s) s"
proof -
  have go: "safely consistent (do {
        result \<leftarrow> adapter env (Rollback tx);
        finish_rollback env (cs'\<lparr>ch_steps := ch_steps cs' @ [result], ch_adapter_status := sr_status result\<rparr>)
          tx result final reason }) (rolled b (ch_id cs) final s) s'"
    if W: "working b x tx cs' s'" "sv_alive s'" "advanced cs ''rolling_back'' cs'" "others_same (ch_id cs) s s'"
    for cs' s'
  proof (intro safely_bind rollback_call_safe [OF W(1,2)] quiet_intros)
    fix r u assume u: "sv_alive u" "similar s' u"
    let ?cs = "cs'\<lparr>ch_steps := ch_steps cs' @ [r], ch_adapter_status := sr_status r\<rparr>"
    have wu: "working b x tx ?cs u"
      using working_same [OF W(1), of ?cs] similar_working [OF u(2)]
      by (simp add: same_change_def same_candidate_def)
    have "ch_state ?cs = ''rolling_back''" "ch_id ?cs = ch_id cs" using W(3) by (auto simp: advanced_def)
    from safely_weaken [OF finish_rollback_safe [OF wu u(1) this(1) final]] this(2)
    show "safely consistent (finish_rollback env ?cs tx r final reason) (rolled b (ch_id cs) final s) u"
      using rolled_others [of b "ch_id cs" final u _ _ s] others_same_trans [OF W(4) similar_others [OF u(2)]]
      by simp
  qed
  show ?thesis
    unfolding rollback_locked_def
    using go rollback_from_next [OF st] w live
    by (intro safely_bind save_plain_safe [OF w live] quiet_intros)
      (auto intro!: safely_return rolled_failed quiet_intros dest: working_op)
qed

section \<open>The start of an operation\<close>

definition current :: "change \<Rightarrow> 'cfg server \<Rightarrow> bool" where
  "current cs s \<longleftrightarrow> map_of (sv_changes s) (ch_id cs) = Some cs"

lemma similar_current: "similar s s' \<Longrightarrow> current cs s' = current cs s"
  by (simp add: current_def similar_def)

lemma current_holding:
  assumes "consistent_server s" "\<not> sv_deferred s" "memory_ok b s" "current cs s"
  shows "holding b (ch_state cs \<in> exclusive_states) cs s"
    and "tracked b (sv_durable s) (sv_log s) (sv_changes s) (ch_id cs)"
proof -
  show t: "tracked b (sv_durable s) (sv_log s) (sv_changes s) (ch_id cs)"
    using assms(3) by (simp add: memory_ok_def)
  with assms(4) obtain l where l: "last_change (sv_log s) (ch_id cs) = Some l" "same_change l cs"
    by (auto simp: tracked_def current_def)
  have "exclusive_in (sv_durable s) (ch_id cs)" if "ch_state cs \<in> exclusive_states"
  proof -
    from that t assms(4) obtain d where "map_of (du_changes (sv_durable s)) (ch_id cs) = Some d"
      by (auto simp: tracked_def current_def)
    with assms(1) l that show ?thesis
      by (auto simp: exclusive_in_def consistent_server_def consistent_def same_change_def)
  qed
  with assms l show "holding b (ch_state cs \<in> exclusive_states) cs s"
    by (auto simp: holding_def memory_ok_def consistent_server_def consistent_def)
qed

lemma current_working:
  assumes "consistent_server s" "\<not> sv_deferred s" "memory_ok b s" "current cs s"
    "ch_state cs \<noteq> ''committed''" "b \<Longrightarrow> ch_state cs = ''committing'' \<Longrightarrow> \<not> activated (sv_log s) (ch_id cs)"
    "owns tx (ch_id cs) s" "tx_id tx = ch_transaction_id cs"
  shows "working b (ch_state cs \<in> exclusive_states) tx cs s"
  using current_holding [OF assms(1-4)] assms(4-8)
  by (auto simp: working_def tracked_def current_def)

lemma binding_ok:
  assumes "validate_transaction_binding cs tx = None"
  shows "tx_id tx = ch_transaction_id cs" "tx_change_id tx = ch_id cs" "tx_revision_id tx = ch_revision_id cs"
  using assms by (auto simp: validate_transaction_binding_def split: if_splits)

lemma load_transaction_safe:
  assumes s: "consistent_server s" "sv_alive s"
    and fail: "\<And>f s'. sv_alive s' \<Longrightarrow> similar s s' \<Longrightarrow> Q (Inl f) s'"
    and ok: "\<And>tx s'. sv_alive s' \<Longrightarrow> similar s s' \<Longrightarrow> owns tx (ch_id cs) s' \<Longrightarrow>
      tx_id tx = ch_transaction_id cs \<Longrightarrow> Q (Inr tx) s'"
  shows "safely consistent (load_transaction env cs) Q s"
  unfolding load_transaction_def
proof (intro safely_bind safely_load safely_return quiet_intros)
  fix v t assume v: "map_of (du_transactions (sv_durable s)) (ch_transaction_id cs) = Some v"
  have sim: "similar s (s\<lparr>sv_clock := t\<rparr>)" by (simp add: similar_def)
  show "Q (case Inr v of Inl e \<Rightarrow> Inl (internal_failure e)
      | Inr record \<Rightarrow> (case validate_transaction_binding cs (tr_transaction record) of
          None \<Rightarrow> Inr (tr_transaction record) | Some f \<Rightarrow> Inl f)) (s\<lparr>sv_clock := t\<rparr>)"
    using s(2) sim v binding_ok [of cs "tr_transaction v"]
    by (auto intro!: fail ok simp: owns_def split: option.split)
qed (use s in \<open>auto intro!: fail simp: consistent_server_def similar_def\<close>)

lemma load_verified_safe:
  assumes s: "consistent_server s" "sv_alive s"
    and fail: "\<And>f s'. sv_alive s' \<Longrightarrow> similar s s' \<Longrightarrow> Q (Inl f) s'"
    and ok: "\<And>tx s'. sv_alive s' \<Longrightarrow> similar s s' \<Longrightarrow> owns tx (ch_id cs) s' \<Longrightarrow>
      tx_id tx = ch_transaction_id cs \<Longrightarrow> Q (Inr tx) s'"
  shows "safely consistent (load_verified_transaction env cs) Q s"
  unfolding load_verified_transaction_def
proof (intro safely_bind load_transaction_safe quiet_intros s; simp)
  fix tx u assume u: "sv_alive u" "similar s u" "owns tx (ch_id cs) u" "tx_id tx = ch_transaction_id cs"
  have con: "similar u v \<Longrightarrow> consistent_server v" for v
    using s(1) u(2) similar_consistent similar_trans by blast
  show "safely consistent (do {
      c \<leftarrow> load_verified_candidate env cs tx;
      (case c of Inl f \<Rightarrow> State_Monad.return (Inl f)
       | Inr config \<Rightarrow> do {
           valid \<leftarrow> capability_matches env tx;
           State_Monad.return (if \<not> valid
             then Inl (conflict ''rollback_token_invalid'' ''stored rollback token failed verification'')
             else Inr tx) }) }) Q u"
  proof (intro safely_after [OF background_load_candidate] quiet_intros con u similar_refl)
    fix c v assume v: "similar u v" "sv_alive v"
    show "safely consistent (case c of Inl f \<Rightarrow> State_Monad.return (Inl f)
       | Inr config \<Rightarrow> do {
           valid \<leftarrow> capability_matches env tx;
           State_Monad.return (if \<not> valid
             then Inl (conflict ''rollback_token_invalid'' ''stored rollback token failed verification'')
             else Inr tx) }) Q v"
      using u v con [OF v(1)] similar_trans [OF similar_trans [OF u(2) v(1)]]
      by (cases c) (auto intro!: safely_return safely_after background_intros quiet_intros fail ok
          simp: similar_owns intro: similar_trans [OF u(2) v(1)])
  qed
qed (rule safely_return; use fail in auto)+

text \<open>A granted lease means that the memory is faithful.\<close>

lemma lease_safe:
  assumes op: "op_ok b s" and live: "sv_alive s"
    and fail: "\<And>f. safely consistent (g (Some f)) Q s"
    and ok: "memory_ok b s \<Longrightarrow> consistent_server s \<Longrightarrow> \<not> sv_deferred s \<Longrightarrow> safely consistent (g None) Q s"
    and q: "\<And>x. quiet (g x)"
  shows "safely consistent (State_Monad.bind acquire_mutation_lease g) Q s"
  unfolding acquire_mutation_lease_def
proof (intro safely_bind safely_reads live q)
  show "safely consistent (g (mutation_failure (sv_recovery s))) Q s"
    using op fail ok by (cases "mutation_failure (sv_recovery s)") (auto simp: op_ok_def mutation_failure_def split: if_splits)
qed

lemma rollback_states_from: "st \<in> set rollback_states \<Longrightarrow> st \<in> rollback_from \<and> st \<noteq> ''committed''"
  by (auto simp: rollback_from_def rollback_states_def)

lemma rolled_op: "rolled b c st s out s' \<Longrightarrow> op_ok b s'"
  by (simp add: rolled_def)

lemma rollback_loaded_safe:
  assumes m: "memory_ok False s" "consistent_server s" "\<not> sv_deferred s" and live: "sv_alive s"
    and cs: "current cs s" and st: "ch_state cs \<in> set rollback_states" and final: "final \<in> final_states"
    and own: "owns tx (ch_id cs) s" "tx_id tx = ch_transaction_id cs"
  shows "safely consistent (do {
      ok \<leftarrow> capability_matches env tx;
      (if \<not> ok
       then do {
         (r, cs) \<leftarrow> save_progress env cs tx ''rollback_failed'';
         State_Monad.return (cs, Some (f r)) }
       else rollback_locked env cs tx final reason) }) (\<lambda>_. op_ok False) s"
proof (rule safely_after [OF background_capability _ m(2) live])
  fix ok u assume u: "similar s u" "sv_alive u"
  note st' = rollback_states_from [OF st]
  have w: "working False (ch_state cs \<in> exclusive_states) tx cs u"
    using current_working [OF m(2,3,1) cs _ _ own] st' similar_working [OF u(1)] by simp
  show "safely consistent (if \<not> ok
       then do {
         (r, cs) \<leftarrow> save_progress env cs tx ''rollback_failed'';
         State_Monad.return (cs, Some (f r)) }
       else rollback_locked env cs tx final reason) (\<lambda>_. op_ok False) u"
    using st' rollback_from_next [of "ch_state cs"]
    by (auto intro!: safely_bind save_plain_safe [OF w u(2)] safely_return quiet_intros
        safely_weaken [OF rollback_locked_safe [OF w u(2) _ final]] dest: working_op rolled_op)
qed (intro quiet_intros)

lemma rollback_change_set_safe:
  assumes op: "op_ok False s" and live: "sv_alive s" and cs: "memory_ok False s \<Longrightarrow> current cs s"
  shows "safely consistent (rollback_change_set env cs expired) (\<lambda>_. op_ok False) s"
proof -
  have go: "safely consistent (case r of Inl f \<Rightarrow> State_Monad.return (cs, Some f) | Inr tx \<Rightarrow> do {
        ok \<leftarrow> capability_matches env tx;
        (if \<not> ok
         then do {
           (r, cs) \<leftarrow> save_progress env cs tx ''rollback_failed'';
           State_Monad.return (cs, Some (case r of
               Some e \<Rightarrow> internal_failure e
             | None \<Rightarrow> \<lparr>af_status = 403, af_code = ''rollback_capability_invalid'',
                 af_message = ''stored rollback capability failed verification''\<rparr>)) }
         else rollback_locked env cs tx (if expired then ''expired'' else ''rolled_back'') ''rollback_requested'') })
      (\<lambda>_. op_ok False) u"
    if "memory_ok False s" "consistent_server s" "\<not> sv_deferred s"
      and "sv_alive u" "similar s u" "ch_state cs \<in> set rollback_states"
      and "\<And>tx. r = Inr tx \<Longrightarrow> owns tx (ch_id cs) u \<and> tx_id tx = ch_transaction_id cs" for r u
    using that op similar_op [OF that(5)] similar_memory [OF that(5)] similar_consistent [OF that(5)]
      similar_current [OF that(5)] cs
    by (cases r) (auto intro!: safely_return rollback_loaded_safe simp: final_states_def similar_def)
  show ?thesis
    unfolding rollback_change_set_def
  proof (rule lease_safe [OF op live], goal_cases)
    case 2
    show ?case
    proof (cases "ch_state cs \<in> set rollback_states")
      case True
      then have n: "\<not> (ch_state cs = ''rolled_back'' \<or> ch_state cs = ''expired'')"
        by (auto simp: rollback_states_def)
      show ?thesis
        unfolding option.case if_not_P [OF n] by (simp only: True not_True_eq_False if_False,
            intro safely_bind [OF load_transaction_safe [OF 2(2) live]] go 2 True quiet_intros) auto
    qed (use op live in \<open>auto intro!: safely_return\<close>)
  qed (auto intro!: safely_return op live quiet_intros)
qed

end
