(* ===== verification/Tx_Apply_Safe.thy ===== *)
theory Tx_Apply_Safe
  imports Tx_Invariant
begin

text \<open>Applying a change keeps the invariant: the adapter steps, the no-op, the confirmation window.\<close>

section \<open>One adapter step\<close>

definition stages :: "string set" where
  "stages = {''validated'', ''prepared'', ''applying'', ''verifying''}"

lemma stages_next:
  assumes "st \<in> stages"
  shows "st \<in> next_states st" "''requires_device'' \<in> next_states st" "st \<in> rollback_from"
    "st \<notin> verified_states" "st \<noteq> ''committed''"
  using assms
  by (auto simp: stages_def next_states_def stoppable_def rollback_from_def rollback_states_def verified_states_def)

text \<open>What a step leaves: the operation has ended, or it goes on with its change in the state \<open>st\<close>.\<close>

definition stepped ::
    "transaction \<Rightarrow> string \<Rightarrow> string \<Rightarrow> outcome + change \<times> bool \<Rightarrow> 'cfg server \<Rightarrow> bool" where
  "stepped tx c st r s \<longleftrightarrow>
     (case r of Inl out \<Rightarrow> op_ok False s
      | Inr (cs, applied) \<Rightarrow> working False True tx cs s \<and> ch_id cs = c \<and> ch_state cs = st)"

lemma stepped_end: "op_ok False s \<Longrightarrow> stepped tx c st (Inl out) s"
  by (simp add: stepped_def)

lemma rollback_end_safe:
  assumes "working b x tx cs s" "sv_alive s" "ch_state cs \<in> rollback_from" "final \<in> final_states"
  shows "safely consistent (rollback_locked env cs tx final reason) (\<lambda>_. op_ok b) s"
  by (rule safely_weaken [OF rollback_locked_safe [OF assms]]) (rule rolled_op)

lemma rollback_step_safe:
  assumes "working False x tx cs s" "sv_alive s" "ch_state cs \<in> rollback_from" "final \<in> final_states"
  shows "safely consistent (do {
      out \<leftarrow> rollback_locked env cs tx final reason; State_Monad.return (Inl out) }) (stepped tx c st) s"
  by (intro safely_bind safely_weaken [OF rollback_end_safe [OF assms]] safely_return stepped_end quiet_intros)

lemma require_end_safe:
  assumes w: "working False x tx cs s" and live: "sv_alive s" and st: "ch_state cs \<in> stages"
    and Q: "\<And>out s'. sv_alive s' \<Longrightarrow> op_ok False s' \<Longrightarrow> safely consistent (g out) Q s'" "\<And>out. quiet (g out)"
  shows "safely consistent (State_Monad.bind (save_progress env cs tx ''requires_device'') g) Q s"
  by (intro safely_bind save_plain_safe [OF w live stages_next(2) [OF st]] Q)
    (auto simp: final_states_def dest: working_op)

lemma finish_step_safe:
  assumes w: "working False True tx cs s" and live: "sv_alive s" and st: "ch_state cs \<in> stages"
    and st': "step_ok result \<Longrightarrow> st = ch_state cs"
  shows "safely consistent (finish_step env applied cs tx result) (stepped tx (ch_id cs) st) s"
proof -
  let ?off = "cs\<lparr>ch_management_verified := False, ch_data_plane_verified := False,
    ch_adapter_status := ''REQUIRES_DEVICE''\<rparr>"
  have off: "working False True tx ?off s"
    by (rule working_same [OF w]) (simp add: same_change_def same_candidate_def)
  note bk = stages_next(3) [OF st]
  show ?thesis
  proof (cases "step_ok result")
    case True
    with st' live show ?thesis
      unfolding finish_step_def
      by (auto intro!: rollback_step_safe [OF w live bk] safely_return working_same [OF w]
          simp: final_states_def stepped_def same_change_def same_candidate_def)
  next
    case False
    then show ?thesis
      unfolding finish_step_def Let_def using st bk
      by (auto intro!: rollback_step_safe [OF w live] rollback_step_safe [OF off live]
          require_end_safe [OF off live] safely_return stepped_end quiet_intros
          simp: final_states_def)
  qed
qed

section \<open>The sequence of steps\<close>

text \<open>The state that a save is about to overwrite does not matter.\<close>

lemma binding_state: "validate_transaction_binding (cs\<lparr>ch_state := q\<rparr>) tx = validate_transaction_binding cs tx"
  unfolding validate_transaction_binding_def by simp

lemma save_progress_state_safe:
  assumes w: "working b x tx cs s" and live: "sv_alive s"
    and st: "st \<in> next_states (ch_state cs)" "st \<in> stages" "st \<in> exclusive_states \<Longrightarrow> x"
    and fail: "\<And>e cs' s'. sv_alive s' \<Longrightarrow> working b x tx cs s' \<Longrightarrow> Q (Some e, cs') s'"
    and ok: "\<And>cs' s'. sv_alive s' \<Longrightarrow> working b x tx cs' s' \<Longrightarrow> advanced cs st cs' \<Longrightarrow> Q (None, cs') s'"
  shows "safely consistent (save_progress env (cs\<lparr>ch_state := q\<rparr>) tx st) Q s"
proof (cases "validate_transaction_binding cs tx")
  case None
  have "save_progress env (cs\<lparr>ch_state := q\<rparr>) tx st = save_progress env cs tx st"
    using None by (simp add: save_progress_def binding_state)
  then show ?thesis
    using save_progress_safe [OF w live st(1)] stages_next(4,5) [OF st(2)] st(3) fail ok by simp
next
  case (Some f)
  with w live show ?thesis
    by (auto simp: save_progress_def binding_state intro!: safely_return fail)
qed

lemma apply_step_safe:
  assumes w: "working False True tx cs s" and live: "sv_alive s"
    and p: "p = (if fst step = [] then ch_state cs else fst step)" "p \<in> stages"
      "p \<in> next_states (ch_state cs)"
    and first: "initial \<Longrightarrow> p = ''validated''"
    and call: "\<And>t. snd step tx \<noteq> Rollback t"
  shows "safely consistent (apply_step env initial applied cs tx step)
    (stepped tx (ch_id cs) (if initial then ''prepared'' else p)) s"
proof -
  let ?st = "if initial then ''prepared'' else p"
  let ?go = "\<lambda>cs'. do {
      result \<leftarrow> adapter env (snd step tx);
      let cs1 = cs'\<lparr>ch_steps := ch_steps cs' @ [result], ch_adapter_status := sr_status result,
        ch_state := (if initial \<and> step_ok result then ''prepared'' else ch_state cs')\<rparr>;
      (r1, cs2) \<leftarrow> save_progress env cs1 tx (ch_state cs1);
      (case r1 of
         Some e \<Rightarrow> State_Monad.return (Inl (cs2, Some (internal_failure e)))
       | None \<Rightarrow> finish_step env applied cs2 tx result) }"
  have call_safe: "safely consistent (?go cs') (stepped tx (ch_id cs) ?st) u"
    if u: "working False True tx cs' u" "sv_alive u" "ch_state cs' = p" "ch_id cs' = ch_id cs" for cs' u
  proof (intro safely_after [OF background_adapter [OF call]] quiet_intros)
    fix result v assume v: "similar u v" "sv_alive v"
    let ?q = "if initial \<and> step_ok result then ''prepared'' else p"
    let ?cs = "cs'\<lparr>ch_steps := ch_steps cs' @ [result], ch_adapter_status := sr_status result\<rparr>"
    have wv: "working False True tx ?cs v"
      using working_same [OF u(1), of ?cs] similar_working [OF v(1)]
      by (simp add: same_change_def same_candidate_def)
    have q: "?q \<in> next_states (ch_state ?cs)" "?q \<in> stages"
      using p(2) stages_next(1) [OF p(2)] first u(3) by (auto simp: stages_def next_states_def)
    show "safely consistent (let cs1 = cs'\<lparr>ch_steps := ch_steps cs' @ [result], ch_adapter_status := sr_status result,
        ch_state := (if initial \<and> step_ok result then ''prepared'' else ch_state cs')\<rparr> in do {
      (r1, cs2) \<leftarrow> save_progress env cs1 tx (ch_state cs1);
      (case r1 of
         Some e \<Rightarrow> State_Monad.return (Inl (cs2, Some (internal_failure e)))
       | None \<Rightarrow> finish_step env applied cs2 tx result) }) (stepped tx (ch_id cs) ?st) v"
    proof -
      have "safely consistent (do {
          (r1, cs2) \<leftarrow> save_progress env (?cs\<lparr>ch_state := ?q\<rparr>) tx ?q;
          (case r1 of
             Some e \<Rightarrow> State_Monad.return (Inl (cs2, Some (internal_failure e)))
           | None \<Rightarrow> finish_step env applied cs2 tx result) }) (stepped tx (ch_id cs) ?st) v"
      proof (intro safely_bind quiet_intros save_progress_state_safe [OF wv v(2) q])
        fix cs2 and t :: "'a server" assume t: "sv_alive t" "working False True tx cs2 t" "advanced ?cs ?q cs2"
        then have "ch_id cs2 = ch_id cs" "ch_state cs2 = ?q" by (auto simp: advanced_def u(4))
        then show "safely consistent (case (None, cs2) of (r1, cs2) \<Rightarrow> (case r1 of
             Some e \<Rightarrow> State_Monad.return (Inl (cs2, Some (internal_failure e)))
           | None \<Rightarrow> finish_step env applied cs2 tx result)) (stepped tx (ch_id cs) ?st) t"
          using finish_step_safe [OF t(2,1), where st = ?st and result = result] q(2) by auto
      qed (auto intro!: safely_return stepped_end working_op)
      then show ?thesis by (cases initial; cases "step_ok result") (simp_all add: Let_def u(3))
    qed
  qed (use u working_consistent [OF u(1)] in auto)
  have bound_safe: "safely consistent (case (r0, cs') of (r0, cs) \<Rightarrow> (case r0 of
        Some e \<Rightarrow> State_Monad.return (Inl (cs, Some (internal_failure e)))
      | None \<Rightarrow>
          (case validate_transaction_binding cs tx of
             Some f \<Rightarrow> State_Monad.return (Inl (cs, Some f))
           | None \<Rightarrow> ?go cs))) (stepped tx (ch_id cs) ?st) u"
    if "sv_alive u" "op_ok False u"
      "r0 = None \<Longrightarrow> working False True tx cs' u \<and> ch_state cs' = p \<and> ch_id cs' = ch_id cs" for r0 cs' u
    unfolding prod.case
  proof (cases r0)
    case None
    show "safely consistent (case r0 of
        Some e \<Rightarrow> State_Monad.return (Inl (cs', Some (internal_failure e)))
      | None \<Rightarrow>
          (case validate_transaction_binding cs' tx of
             Some f \<Rightarrow> State_Monad.return (Inl (cs', Some f))
           | None \<Rightarrow> ?go cs')) (stepped tx (ch_id cs) ?st) u"
      unfolding None option.case
    proof (cases "validate_transaction_binding cs' tx")
      case v: None
      show "safely consistent (case validate_transaction_binding cs' tx of
          Some f \<Rightarrow> State_Monad.return (Inl (cs', Some f)) | None \<Rightarrow> ?go cs') (stepped tx (ch_id cs) ?st) u"
        unfolding v option.case using that None by (intro call_safe) auto
    qed (use that in \<open>auto intro!: safely_return stepped_end\<close>)
  qed (use that in \<open>auto intro!: safely_return stepped_end\<close>)
  show ?thesis
  proof (cases "fst step \<noteq> [] \<and> ch_state cs \<noteq> fst step")
    case True
    with p have "p = fst step" by simp
    then show ?thesis
      unfolding apply_step_def if_P [OF True]
      using p(2,3) stages_next(4,5) [OF p(2)]
      by (intro safely_bind save_progress_safe [OF w live] bound_safe quiet_intros)
        (auto dest: working_op simp: advanced_def)
  next
    case False
    with p(1) have "ch_state cs = p" by auto
    then show ?thesis
      unfolding apply_step_def if_not_P [OF False]
      using w live by (intro safely_bind safely_return bound_safe quiet_intros) (auto dest: working_op)
  qed
qed

text \<open>The states a list of steps goes through.\<close>

fun walk :: "string \<Rightarrow> bool \<Rightarrow> (string \<times> (transaction \<Rightarrow> adapter_call)) list \<Rightarrow> string option" where
  "walk st initial [] = Some st"
| "walk st initial (step # rest) =
     (let p = (if fst step = [] then st else fst step) in
      if p \<in> stages \<and> p \<in> next_states st \<and> (initial \<longrightarrow> p = ''validated'') \<and>
         (\<forall>tx t. snd step tx \<noteq> Rollback t)
      then walk (if initial then ''prepared'' else p) False rest else None)"

lemma walk_adapter_steps: "walk ''validated'' True adapter_steps = Some ''verifying''"
  by (simp add: adapter_steps_def stages_def next_states_def Let_def)

lemma apply_steps_safe:
  assumes "working False True tx cs s" "sv_alive s" "walk (ch_state cs) initial steps = Some st"
  shows "safely consistent (apply_steps env initial applied cs tx steps)
    (\<lambda>r s'. case r of Inl out \<Rightarrow> op_ok False s'
       | Inr cs' \<Rightarrow> working False True tx cs' s' \<and> ch_id cs' = ch_id cs \<and> ch_state cs' = st) s"
  using assms
proof (induction steps arbitrary: initial applied cs s)
  case Nil
  then show ?case by (auto intro!: safely_return)
next
  case (Cons step rest)
  let ?p = "if fst step = [] then ch_state cs else fst step"
  let ?st = "if initial then ''prepared'' else ?p"
  from Cons.prems(3) have p: "?p \<in> stages" "?p \<in> next_states (ch_state cs)" "initial \<Longrightarrow> ?p = ''validated''"
      "\<And>t. snd step tx \<noteq> Rollback t" "walk ?st False rest = Some st"
    by (auto simp: Let_def split: if_splits)
  show ?case
    unfolding apply_steps.simps
  proof (intro safely_bind quiet_intros quiet_apply_steps
      safely_weaken [OF apply_step_safe [OF Cons.prems(1,2) refl p(1-4)]])
    fix r and s' :: "'a server" assume live: "sv_alive s'" and r: "stepped tx (ch_id cs) ?st r s'"
    show "safely consistent (case r of Inl out \<Rightarrow> State_Monad.return (Inl out)
        | Inr (cs, applied) \<Rightarrow> apply_steps env False applied cs tx rest)
      (\<lambda>r s'. case r of Inl out \<Rightarrow> op_ok False s'
       | Inr cs' \<Rightarrow> working False True tx cs' s' \<and> ch_id cs' = ch_id cs \<and> ch_state cs' = st) s'"
    proof (cases r)
      case (Inl out)
      with r live show ?thesis by (auto intro!: safely_return simp: stepped_def)
    next
      case (Inr q)
      obtain cs' applied' where q: "q = (cs', applied')" by fastforce
      from r Inr q have w: "working False True tx cs' s'" "ch_id cs' = ch_id cs" "ch_state cs' = ?st"
        by (auto simp: stepped_def)
      have "walk (ch_state cs') False rest = Some st" using p(5) unfolding w(3) .
      from Cons.IH [OF w(1) live this, of applied', unfolded w(2)] show ?thesis
        by (simp add: Inr q)
    qed
  qed
qed

lemma apply_transaction_safe:
  assumes w: "working False True tx cs s" and live: "sv_alive s" and st: "ch_state cs = ''validated''"
  shows "safely consistent (apply_transaction env cs tx) (\<lambda>_. op_ok False) s"
proof -
  let ?after = "\<lambda>cs'. if \<not> ch_management_verified cs' \<or> \<not> ch_data_plane_verified cs'
        then rollback_locked env cs' tx ''rolled_back'' ''verification_flags_missing''
        else do {
          (r, cs) \<leftarrow> save_progress env (cs'\<lparr>ch_adapter_status := ''OK''\<rparr>) tx ''awaiting_confirmation'';
          (case r of
             Some e \<Rightarrow> State_Monad.return (cs, Some (internal_failure e))
           | None \<Rightarrow> do { schedule_expiry cs; State_Monad.return (cs, None) }) }"
  have after: "safely consistent (?after cs') (\<lambda>_. op_ok False) u"
    if W: "working False True tx cs' u" "sv_alive u" "ch_state cs' = ''verifying''" for cs' u
  proof (cases "both_verified cs'")
    case True
    have w': "working False True tx (cs'\<lparr>ch_adapter_status := ''OK''\<rparr>) u"
      by (rule working_same [OF W(1)]) (simp add: same_change_def same_candidate_def)
    have "safely consistent (do {
          (r, cs) \<leftarrow> save_progress env (cs'\<lparr>ch_adapter_status := ''OK''\<rparr>) tx ''awaiting_confirmation'';
          (case r of
             Some e \<Rightarrow> State_Monad.return (cs, Some (internal_failure e))
           | None \<Rightarrow> do { schedule_expiry cs; State_Monad.return (cs, None) }) }) (\<lambda>_. op_ok False) u"
    proof (intro safely_bind save_progress_safe [OF w' W(2)] quiet_intros)
      fix cs2 and t :: "'a server" assume t: "sv_alive t" "working False True tx cs2 t"
      then show "safely consistent (case (None, cs2) of (r, cs) \<Rightarrow> (case r of
             Some e \<Rightarrow> State_Monad.return (cs, Some (internal_failure e))
           | None \<Rightarrow> do { schedule_expiry cs; State_Monad.return (cs, None) })) (\<lambda>_. op_ok False) t"
        using working_consistent [OF t(2)] working_op [OF t(2)]
        by (auto intro!: safely_after background_intros quiet_intros safely_return simp: similar_op)
    qed (use True W(3) in \<open>auto intro!: safely_return dest: working_op
        simp: next_states_def both_verified_def\<close>)
    with True show ?thesis by (simp add: both_verified_def)
  next
    case False
    with W show ?thesis
      by (auto simp: both_verified_def final_states_def
          intro!: rollback_end_safe [OF W(1,2) stages_next(3)] simp: stages_def)
  qed
  show ?thesis
    unfolding apply_transaction_def
  proof (intro safely_bind safely_weaken [OF apply_steps_safe [OF w live walk_adapter_steps [folded st]]] quiet_intros)
    fix r :: "outcome + change" and u :: "'a server" assume u: "sv_alive u" and r: "case r of Inl out \<Rightarrow> op_ok False u
      | Inr cs' \<Rightarrow> working False True tx cs' u \<and> ch_id cs' = ch_id cs \<and> ch_state cs' = ''verifying''"
    show "safely consistent (case r of Inl out \<Rightarrow> State_Monad.return out | Inr cs' \<Rightarrow> ?after cs')
        (\<lambda>_. op_ok False) u"
    proof (cases r)
      case (Inl out)
      with r u show ?thesis by (auto intro!: safely_return)
    next
      case (Inr cs')
      with r u show ?thesis unfolding Inr sum.case by (intro after) auto
    qed
  qed
qed

section \<open>A write of the change alone\<close>

text \<open>No transaction is at stake: a draft, a no-op.\<close>

lemma save_alone_safe:
  assumes h: "holding b x cs s" and t: "\<not> activated (sv_log s) (ch_id cs)" and op: "op_ok b s"
    and live: "sv_alive s" and id: "ch_id cs' = ch_id cs" and step: "change_step (Some cs) cs'"
    and st: "ch_state cs' \<notin> exclusive_states"
  shows "safely consistent (do {
      r \<leftarrow> save_entries env [Change_entry (ch_id cs') cs'];
      (case r of
         Some e \<Rightarrow> State_Monad.return (f e)
       | None \<Rightarrow> do { set_change cs'; State_Monad.return g }) }) (\<lambda>_. op_ok b) s"
proof (rule safely_bind [OF safely_save_entries])
  let ?es = "[Change_entry (ch_id cs') cs']"
  show "consistent (sv_durable s) (sv_log s)" using op by (simp add: op_ok_def consistent_server_def)
  show "sv_alive s" by (rule live)
  show "safely consistent (case Some e of
         Some e \<Rightarrow> State_Monad.return (f e)
       | None \<Rightarrow> do { set_change cs'; State_Monad.return g }) (\<lambda>_. op_ok b) (s\<lparr>sv_clock := k\<rparr>)" for e k
    using op live similar_op [of s "s\<lparr>sv_clock := k\<rparr>" b] by (auto intro!: safely_return simp: similar_def)
  show "safely consistent (case None of
         Some e \<Rightarrow> State_Monad.return (f e)
       | None \<Rightarrow> do { set_change cs'; State_Monad.return g }) (\<lambda>_. op_ok b)
      (s\<lparr>sv_clock := k, sv_durable := write_entries ?es (sv_durable s), sv_log := Wrote ?es # sv_log s\<rparr>)" for k
  proof -
    let ?s = "s\<lparr>sv_clock := k, sv_durable := write_entries ?es (sv_durable s), sv_log := Wrote ?es # sv_log s\<rparr>"
    let ?t = "?s\<lparr>sv_changes := bucket_put (ch_id cs') cs' (sv_changes ?s)\<rparr>"
    have H: "holding b x cs' ?s" "saved cs' ?s"
      by (rule write_safe [where es = ?es, OF h id step]; use t st id in \<open>auto split: if_splits\<close>)+
    have "memory_ok b ?t" "holding b x cs' ?t"
      by (rule set_change_tracked [OF H, where s' = ?t]; use t id in simp)+
    then have "op_ok b ?t" by (simp add: op_ok_def holding_def)
    then show ?thesis
      unfolding option.case using live by (intro safely_bind safely_set_change safely_return quiet_intros) simp_all
  qed
qed (auto intro!: quiet_intros)

lemma current_idle:
  assumes "consistent_server s" "\<not> sv_deferred s" "memory_ok False s" "current cs s" "ch_state cs \<noteq> ''committed''"
  shows "holding False (ch_state cs \<in> exclusive_states) cs s" "\<not> activated (sv_log s) (ch_id cs)" "op_ok False s"
  using current_holding [OF assms(1-4)] assms by (auto simp: tracked_def current_def op_ok_def)

lemma committed_noop_safe:
  assumes "consistent_server s" "\<not> sv_deferred s" "memory_ok False s" "current cs s" "sv_alive s"
    and st: "ch_state cs = ''validated''" "ch_noop cs"
  shows "safely consistent (save_committed_noop env cs steps) (\<lambda>_. op_ok False) s"
  unfolding save_committed_noop_def Let_def
proof (intro safely_after [OF background_now] quiet_intros assms)
  fix t u assume u: "similar s u" "sv_alive u"
  have a: "consistent_server u" "\<not> sv_deferred u" "memory_ok False u" "current cs u"
    using assms(1-4) u(1) similar_consistent [OF u(1)] similar_memory [OF u(1)] similar_current [OF u(1)]
    by (auto simp: similar_def)
  have "ch_state cs \<noteq> ''committed''" using st by simp
  note idle = current_idle [OF a this]
  let ?cs = "cs\<lparr>ch_state := ''committed'', ch_adapter_status := ''NOOP'', ch_management_verified := True,
    ch_data_plane_verified := True, ch_steps := ch_steps cs @ steps, ch_version := ch_version cs + 1,
    ch_updated_at := time_truncate t second\<rparr>"
  show "safely consistent (do {
      r \<leftarrow> save_entries env [Change_entry (ch_id ?cs) ?cs];
      (case r of
         Some e \<Rightarrow> State_Monad.return (?cs, Some (internal_failure e))
       | None \<Rightarrow> do { set_change ?cs; State_Monad.return (?cs, None) }) }) (\<lambda>_. op_ok False) u"
    by (rule save_alone_safe [OF idle u(2)])
      (use st in \<open>auto simp: change_step_def same_candidate_def next_states_def both_verified_def exclusive_states_def\<close>)
qed

text \<open>The facts at the start of an operation survive what the invariant does not see.\<close>

definition started :: "change \<Rightarrow> 'cfg server \<Rightarrow> bool" where
  "started cs s \<longleftrightarrow> consistent_server s \<and> \<not> sv_deferred s \<and> memory_ok False s \<and> current cs s"

lemma similar_started: "similar s s' \<Longrightarrow> started cs s' = started cs s"
  using similar_consistent [of s s'] similar_memory [of s s' False] similar_current [of s s' cs]
  by (simp add: started_def similar_def)

lemma started_op: "started cs s \<Longrightarrow> op_ok False s"
  by (simp add: started_def op_ok_def)

lemma started_return: "started cs s \<Longrightarrow> sv_alive s \<Longrightarrow> safely consistent (State_Monad.return a) (\<lambda>_. op_ok False) s"
  by (auto intro!: safely_return started_op)

lemma started_after:
  assumes "background m" "\<And>a. quiet (f a)" "started cs s" "sv_alive s"
    "\<And>a s'. started cs s' \<Longrightarrow> sv_alive s' \<Longrightarrow> safely consistent (f a) Q s'"
  shows "safely consistent (State_Monad.bind m f) Q s"
proof (rule safely_after [OF assms(1,2) _ assms(4)])
  show "consistent_server s" using assms(3) by (simp add: started_def)
  show "similar s s' \<Longrightarrow> sv_alive s' \<Longrightarrow> safely consistent (f a) Q s'" for a s'
    using assms(3) similar_started [of s s' cs] by (intro assms(5)) simp_all
qed

lemma apply_noop_safe:
  assumes "started cs s" "sv_alive s" "ch_state cs = ''validated''" "ch_noop cs"
  shows "safely consistent (apply_noop_change_set env cs) (\<lambda>_. op_ok False) s"
proof -
  have save: "started cs u \<Longrightarrow> sv_alive u \<Longrightarrow> safely consistent (save_committed_noop env cs sts) (\<lambda>_. op_ok False) u"
    for sts u using committed_noop_safe [of u cs env sts] assms(3,4) by (simp add: started_def)
  show ?thesis
    unfolding apply_noop_change_set_def
    by (intro started_after [where cs = cs] background_intros quiet_intros assms)
      (auto intro!: started_return save started_after [where cs = cs] background_intros quiet_intros
        split: option.split)
qed

section \<open>Apply\<close>

lemma started_working:
  assumes "started cs s" "ch_state cs \<noteq> ''committed''" "owns tx (ch_id cs) s" "tx_id tx = ch_transaction_id cs"
  shows "working False (ch_state cs \<in> exclusive_states) tx cs s"
  using assms by (auto simp: started_def intro!: current_working)

lemma exclusive_active: "st \<in> exclusive_states \<Longrightarrow> st \<in> set active_states"
  by (auto simp: exclusive_states_def active_states_def)

text \<open>No other active change in the memory: no other change holds the data plane.\<close>

lemma alone:
  assumes s: "started cs s"
    and none: "List.find (\<lambda>(k, c). k \<noteq> ch_id cs \<and> ch_state c \<in> set active_states) (sv_changes s) = None"
    and c: "exclusive_in (sv_durable s) c"
  shows "c = ch_id cs"
proof (rule ccontr)
  assume ne: "c \<noteq> ch_id cs"
  have t: "tracked False (sv_durable s) (sv_log s) (sv_changes s) c"
    using s by (simp add: started_def memory_ok_def)
  with c obtain m l where m: "map_of (sv_changes s) c = Some m" "last_change (sv_log s) c = Some l" "same_change l m"
    by (auto simp: tracked_def)
  from c s m(2) have "ch_state l \<in> exclusive_states"
    by (auto simp: exclusive_in_def started_def consistent_server_def consistent_def)
  with m(3) have "ch_state m \<in> set active_states" by (auto simp: same_change_def intro: exclusive_active)
  with none ne map_of_SomeD [OF m(1)] show False by (auto simp: find_None_iff)
qed

lemma working_alone:
  assumes "working b x tx cs s" "\<And>c. exclusive_in (sv_durable s) c \<Longrightarrow> c = ch_id cs"
  shows "working b True tx cs s"
  using assms by (auto simp: working_def holding_def)

lemma require_device_safe:
  assumes "working False x tx cs s" "sv_alive s" "ch_state cs \<in> stages"
  shows "safely consistent (require_device env cs tx) (\<lambda>_. op_ok False) s"
  unfolding require_device_def
  by (rule require_end_safe [OF assms]) (auto intro!: safely_return quiet_intros)

lemma apply_loaded_safe:
  assumes w: "working False True tx cs s" and live: "sv_alive s" and st: "ch_state cs = ''validated''"
  shows "safely consistent (do {
     p \<leftarrow> ask env (\<lambda>t. ev_automatic_proof env t tx);
     (case p of
        Some f \<Rightarrow> State_Monad.return (cs, Some f)
      | None \<Rightarrow>
          (if \<not> tx_artifacts_ready tx
           then require_device env (cs\<lparr>ch_adapter_status := ''REQUIRES_DEVICE''\<rparr>) tx
           else if tx_artifacts_simulation tx \<and> \<not> ev_development env
           then require_device env (cs\<lparr>ch_adapter_status := ''REQUIRES_DEVICE'',
             ch_validation := ch_validation cs @ [v]\<rparr>) tx
           else apply_transaction env cs tx)) }) (\<lambda>_. op_ok False) s"
proof (rule safely_after [OF background_ask])
  fix p u assume u: "similar s u" "sv_alive u"
  have W: "working False True tx (cs\<lparr>ch_adapter_status := a\<rparr>) u"
      "working False True tx (cs\<lparr>ch_adapter_status := a, ch_validation := b\<rparr>) u"
      "working False True tx cs u" for a b
    using working_same [OF w] similar_working [OF u(1)] w by (auto simp: same_change_def same_candidate_def)
  show "safely consistent (case p of
        Some f \<Rightarrow> State_Monad.return (cs, Some f)
      | None \<Rightarrow>
          (if \<not> tx_artifacts_ready tx
           then require_device env (cs\<lparr>ch_adapter_status := ''REQUIRES_DEVICE''\<rparr>) tx
           else if tx_artifacts_simulation tx \<and> \<not> ev_development env
           then require_device env (cs\<lparr>ch_adapter_status := ''REQUIRES_DEVICE'',
             ch_validation := ch_validation cs @ [v]\<rparr>) tx
           else apply_transaction env cs tx)) (\<lambda>_. op_ok False) u"
    using st W u(2) working_op [OF W(3)]
    by (auto intro!: safely_return require_device_safe apply_transaction_safe simp: stages_def split: option.split)
qed (use w live working_consistent [OF w] in \<open>auto intro!: quiet_intros\<close>)

text \<open>What holds between the checks and the protocol.\<close>

definition ready :: "transaction \<Rightarrow> change \<Rightarrow> 'cfg server \<Rightarrow> bool" where
  "ready tx cs s \<longleftrightarrow> started cs s \<and> working False True tx cs s"

lemma ready_after:
  assumes "background m" "\<And>a. quiet (f a)" "ready tx cs s" "sv_alive s"
    "\<And>a s'. ready tx cs s' \<Longrightarrow> sv_alive s' \<Longrightarrow> safely consistent (f a) Q s'"
  shows "safely consistent (State_Monad.bind m f) Q s"
proof (rule safely_after [OF assms(1,2) _ assms(4)])
  show "consistent_server s" using assms(3) by (simp add: ready_def started_def)
  show "similar s s' \<Longrightarrow> sv_alive s' \<Longrightarrow> safely consistent (f a) Q s'" for a s'
    using assms(3) similar_started [of s s' cs] similar_working [of s s' False True tx cs]
    by (intro assms(5)) (simp_all add: ready_def)
qed

lemma ready_return: "ready tx cs s \<Longrightarrow> sv_alive s \<Longrightarrow> safely consistent (State_Monad.return a) (\<lambda>_. op_ok False) s"
  by (auto intro: started_return simp: ready_def)

lemma checked_safe:
  assumes s: "started cs s" and live: "sv_alive s" and st: "ch_state cs = ''validated''"
    and free: "\<And>c. exclusive_in (sv_durable s) c \<Longrightarrow> c = ch_id cs"
    and k: "\<And>tx u. ready tx cs u \<Longrightarrow> sv_alive u \<Longrightarrow> safely consistent (k tx) (\<lambda>_. op_ok False) u"
    and q: "\<And>tx. quiet (k tx)"
  shows "safely consistent (do {
     l \<leftarrow> load_verified_transaction env cs;
     (case l of
        Inl f \<Rightarrow> State_Monad.return (cs, Some f)
      | Inr tx \<Rightarrow> do {
          c \<leftarrow> load_verified_candidate env cs tx;
          (case c of
             Inl f \<Rightarrow> State_Monad.return (cs, Some f)
           | Inr candidate \<Rightarrow> do {
               vs \<leftarrow> ask env (h candidate);
               (if has_validation_error vs then State_Monad.return (cs, Some g) else k tx) }) }) })
    (\<lambda>_. op_ok False) s"
proof (intro safely_bind [OF load_verified_safe] quiet_intros q)
  fix f and u :: "'a server" assume "sv_alive u" "similar s u"
  with s similar_started [of s u cs] show "safely consistent (case Inl f of Inl f \<Rightarrow> State_Monad.return (cs, Some f)
      | Inr tx \<Rightarrow> do {
          c \<leftarrow> load_verified_candidate env cs tx;
          (case c of
             Inl f \<Rightarrow> State_Monad.return (cs, Some f)
           | Inr candidate \<Rightarrow> do {
               vs \<leftarrow> ask env (h candidate);
               (if has_validation_error vs then State_Monad.return (cs, Some g) else k tx) }) })
      (\<lambda>_. op_ok False) u" by (auto intro!: started_return)
next
  fix tx and u :: "'a server"
  assume u: "sv_alive u" "similar s u" "owns tx (ch_id cs) u" "tx_id tx = ch_transaction_id cs"
  have su: "started cs u" using similar_started [OF u(2)] s by simp
  have "ch_state cs \<noteq> ''committed''" using st by simp
  from working_alone [OF started_working [OF su this u(3,4)]] free u(2)
  have w: "ready tx cs u" using su by (simp add: ready_def similar_def exclusive_in_def)
  show "safely consistent (case Inr tx of Inl f \<Rightarrow> State_Monad.return (cs, Some f)
      | Inr tx \<Rightarrow> do {
          c \<leftarrow> load_verified_candidate env cs tx;
          (case c of
             Inl f \<Rightarrow> State_Monad.return (cs, Some f)
           | Inr candidate \<Rightarrow> do {
               vs \<leftarrow> ask env (h candidate);
               (if has_validation_error vs then State_Monad.return (cs, Some g) else k tx) }) })
      (\<lambda>_. op_ok False) u"
    unfolding sum.case
    by (rule ready_after [OF background_load_candidate _ w u(1)])
      (auto intro!: ready_return ready_after [OF background_ask] k q quiet_intros split: sum.split)
qed (use s live in \<open>auto simp: started_def\<close>)

lemma apply_change_set_safe:
  assumes op: "op_ok False s" and live: "sv_alive s" and cs: "memory_ok False s \<Longrightarrow> current cs s"
  shows "safely consistent (apply_change_set env cs) (\<lambda>_. op_ok False) s"
proof -
  have end_ok: "safely consistent (State_Monad.return a) (\<lambda>_. op_ok False) s" for a :: outcome
    using op live by (intro safely_return)
  have loaded: "safely consistent (do {
     p \<leftarrow> ask env (\<lambda>t. ev_automatic_proof env t tx);
     (case p of
        Some f \<Rightarrow> State_Monad.return (cs, Some f)
      | None \<Rightarrow>
          (if \<not> tx_artifacts_ready tx
           then require_device env (cs\<lparr>ch_adapter_status := ''REQUIRES_DEVICE''\<rparr>) tx
           else if tx_artifacts_simulation tx \<and> \<not> ev_development env
           then require_device env (cs\<lparr>ch_adapter_status := ''REQUIRES_DEVICE'',
             ch_validation := ch_validation cs @ [v]\<rparr>) tx
           else apply_transaction env cs tx)) }) (\<lambda>_. op_ok False) u"
    if "ready tx cs u" "sv_alive u" "ch_state cs = ''validated''" for tx u v
    using apply_loaded_safe [OF _ that(2,3)] that(1) by (simp add: ready_def)
  show ?thesis
    unfolding apply_change_set_def
  proof (rule lease_safe [OF op live], goal_cases)
    case 1
    show ?case
      unfolding active_transaction_def
      by (intro safely_bind safely_reads quiet_intros live) (simp add: end_ok)
  next
    case 2
    then have st: "started cs s" using cs by (simp add: started_def)
    show ?case
      unfolding active_transaction_def
    proof (intro safely_bind safely_reads quiet_intros live, goal_cases)
      case 1
      show ?case
      proof (cases "ch_state cs = ''validated'' \<and> List.find (\<lambda>(k, cs'). k \<noteq> ch_id cs \<and> ch_state cs' \<in> set active_states)
           (sv_changes s) = None")
        case True
        with alone [OF st] have free: "\<And>c. exclusive_in (sv_durable s) c \<Longrightarrow> c = ch_id cs" by simp
        from True show ?thesis
          by (auto intro!: end_ok apply_noop_safe [OF st live] checked_safe [OF st live _ free] loaded quiet_intros)
      qed (auto simp: end_ok split: option.split)
    qed
  qed (intro quiet_intros)
qed

end
