(* ===== verification/Tx_Commit_Safe.thy ===== *)
theory Tx_Commit_Safe
  imports Tx_Apply_Safe
begin

text \<open>
  Committing keeps the invariant: from the durable activation on the change is either durably
  committed when the operation ends, or the recovery fence is up and the change stays out of reach of
  any roll back.
\<close>

section \<open>Writes and stops\<close>

lemma save_write_safe:
  assumes h: "holding b x cs s" and live: "sv_alive s" and id: "ch_id cs' = ch_id cs"
    and step: "change_step (Some cs) cs'"
    and changes: "\<And>c. entry_change c es = (if c = ch_id cs then Some cs' else None)"
    and txs: "\<And>k r. entry_transaction k es = Some r \<Longrightarrow>
      k = tx_id (tr_transaction r) \<and> owns (tr_transaction r) (ch_id cs) s"
    and settle: "activated (Wrote es # sv_log s) (ch_id cs) \<Longrightarrow> ch_state cs' = ''committed'' \<or>
      ch_state cs' = ''committing'' \<and> (\<exists>r. entry_transaction (ch_transaction_id cs') es = Some r \<and>
        control_committed (tr_commit_phase r) \<and> tr_state r \<notin> set terminal_states)"
    and excl: "ch_state cs' \<in> exclusive_states \<Longrightarrow> x"
    and fail: "\<And>e u. similar s u \<Longrightarrow> sv_alive u \<Longrightarrow> Q (Some e) u"
    and ok: "\<And>u. sv_alive u \<Longrightarrow> holding b x cs' u \<Longrightarrow> saved cs' u \<Longrightarrow> sv_changes u = sv_changes s \<Longrightarrow>
      (\<And>tx. owns tx (ch_id cs) s \<Longrightarrow> owns tx (ch_id cs) u) \<Longrightarrow>
      sv_log u = Wrote es # sv_log s \<Longrightarrow> Q None u"
  shows "safely consistent (save_entries env es) Q s"
proof (rule safely_save_entries)
  show "consistent (sv_durable s) (sv_log s)" using h by (simp add: holding_def consistent_server_def)
  show "Q (Some e) (s\<lparr>sv_clock := t\<rparr>)" for e t using live by (intro fail) (auto simp: similar_def)
  show "Q None (s\<lparr>sv_clock := t, sv_durable := write_entries es (sv_durable s), sv_log := Wrote es # sv_log s\<rparr>)" for t
  proof (rule ok)
    let ?u = "s\<lparr>sv_clock := t, sv_durable := write_entries es (sv_durable s), sv_log := Wrote es # sv_log s\<rparr>"
    show "holding b x cs' ?u" "saved cs' ?u"
      by (rule write_safe [OF h id step changes txs settle excl]; simp)+
    show "owns tx (ch_id cs) ?u" if "owns tx (ch_id cs) s" for tx
      by (rule owns_after [OF that, of es]) (use txs in \<open>auto simp: owns_def\<close>)
  qed (use live in simp_all)
qed (rule live)

lemma mark_end_safe:
  assumes "consistent_server s" "\<not> sv_deferred s" "sv_alive s"
  shows "safely consistent (do {
      mark_recovery_required env tg code reason ph; State_Monad.return out }) (\<lambda>_. op_ok b) s"
  using assms by (intro safely_bind mark_safe safely_return quiet_intros) (auto intro: fenced_op)

lemma holding_mark:
  assumes "holding b' x cs s" "sv_alive s"
  shows "safely consistent (do {
      mark_recovery_required env tg code reason ph; State_Monad.return out }) (\<lambda>_. op_ok b) s"
  using assms by (intro mark_end_safe) (auto simp: holding_def)

lemma holding_after:
  assumes "background m" "\<And>a. quiet (f a)" "holding b x cs s" "sv_alive s"
    "\<And>a s'. similar s s' \<Longrightarrow> holding b x cs s' \<Longrightarrow> sv_alive s' \<Longrightarrow> safely consistent (f a) Q s'"
  shows "safely consistent (State_Monad.bind m f) Q s"
proof (rule safely_after [OF assms(1,2) _ assms(4)])
  show "consistent_server s" using assms(3) by (simp add: holding_def)
  show "similar s s' \<Longrightarrow> sv_alive s' \<Longrightarrow> safely consistent (f a) Q s'" for a s'
    using assms(3) similar_holding [of s s' b x cs] by (intro assms(5)) simp_all
qed

lemma holding_same: "holding b x cs s \<Longrightarrow> same_change cs cs' \<Longrightarrow> holding b x cs' s"
  by (auto simp: holding_def same_change_def same_candidate_def)

section \<open>The end of a commit\<close>

lemma activate_memory_safe:
  assumes h: "holding b x cs s" and sv: "saved cs s" and live: "sv_alive s"
    and Q: "\<And>u. sv_alive u \<Longrightarrow> holding b x cs u \<Longrightarrow> saved cs u \<Longrightarrow>
      sv_changes u = bucket_put (ch_id cs) cs (sv_changes s) \<Longrightarrow>
      sv_durable u = sv_durable s \<Longrightarrow> sv_log u = sv_log s \<Longrightarrow> Q () u"
  shows "safely consistent (activate_memory cs tx c) Q s"
  unfolding activate_memory_def
proof (intro safely_bind safely_updates safely_set_change quiet_intros)
  let ?u = "s\<lparr>sv_active_config := c, sv_active_revision := tx_revision_id tx,
    sv_config_version := tx_candidate_version tx\<rparr>"
  let ?t = "?u\<lparr>sv_changes := bucket_put (ch_id cs) cs (sv_changes ?u)\<rparr>"
  have "tracked b (sv_durable ?t) (sv_log ?t) (sv_changes ?t) k" if "k \<noteq> ch_id cs" for k
    using h that by (auto simp: holding_def tracked_def map_of_bucket_put)
  with h have "holding b x cs ?t" by (auto simp: holding_def consistent_server_def)
  then show "Q () ?t" using sv live by (intro Q) (auto simp: saved_def)
qed (use live in simp_all)

lemma committed_memory:
  assumes "holding b x cs s" "saved cs s" "map_of (sv_changes s) (ch_id cs) = Some cs" "ch_state cs = ''committed''"
  shows "memory_ok b s"
proof -
  have "tracked b (sv_durable s) (sv_log s) (sv_changes s) (ch_id cs)"
    using assms by (auto simp: tracked_def saved_def same_flags_def)
  with assms(1) show ?thesis unfolding memory_ok_def holding_def by metis
qed

text \<open>The last step of every commit: the memory takes the committed change over.\<close>

lemma commit_tail_safe:
  assumes h: "holding b x cs s" and sv: "saved cs s" and live: "sv_alive s" and st: "ch_state cs = ''committed''"
    and Q: "\<And>u. sv_alive u \<Longrightarrow> memory_ok b u \<Longrightarrow> op_ok b u \<Longrightarrow> others_same (ch_id cs) s u \<Longrightarrow>
      map_of (sv_changes u) (ch_id cs) = Some cs \<Longrightarrow> Q out u"
  shows "safely consistent (do {
      activate_memory cs tx c;
      cancel_expiry k;
      cleanup_committed_resources env tx previous;
      State_Monad.return out }) Q s"
proof (intro safely_bind [OF activate_memory_safe [OF h sv live]] quiet_intros)
  fix u :: "'a server"
  assume u: "sv_alive u" "holding b x cs u" "saved cs u" "sv_changes u = bucket_put (ch_id cs) cs (sv_changes s)"
  have m: "memory_ok b u"
    using u st by (intro committed_memory [OF u(2,3)]) (auto simp: map_of_bucket_put)
  have o: "op_ok b u" using m u(2) by (simp add: op_ok_def holding_def)
  show "safely consistent (do {
      cancel_expiry k;
      cleanup_committed_resources env tx previous;
      State_Monad.return out }) Q u"
  proof (intro safely_after background_intros quiet_intros u)
    fix v w :: "'a server" assume v: "similar u v" "similar v w" "sv_alive w"
    have sim: "similar u w" by (rule similar_trans [OF v(1,2)])
    show "safely consistent (State_Monad.return out) Q w"
      using v(3) m o similar_memory [OF sim] similar_op [OF sim] sim u(4)
      by (intro safely_return Q) (auto simp: similar_def others_same_def map_of_bucket_put)
  qed (use u in \<open>auto simp: holding_def similar_consistent\<close>)
qed

lemma finish_commit_safe:
  assumes "holding b x cs s" "saved cs s" "sv_alive s" "ch_state cs = ''committed''"
  shows "safely consistent (finish_commit env cs tx candidate previous) (\<lambda>_. op_ok b) s"
  unfolding finish_commit_def by (rule commit_tail_safe [OF assms])

section \<open>After the activation\<close>

text \<open>The record of an activated change may be rewritten as long as it keeps recovery from rolling back.\<close>

lemma save_record_safe:
  assumes h: "holding b x cs s" and live: "sv_alive s" and own: "owns tx (ch_id cs) s"
    and st: "ch_state cs = ''committing''" "tx_id tx = ch_transaction_id cs"
    and r: "tr_transaction r = tx" "control_committed (tr_commit_phase r)" "tr_state r \<notin> set terminal_states"
    and Q: "\<And>e u. sv_alive u \<Longrightarrow> consistent_server u \<Longrightarrow> \<not> sv_deferred u \<Longrightarrow> Q e u"
  shows "safely consistent (save_entries env [Transaction_entry (tx_id tx) r]) Q s"
proof (rule safely_save_entries)
  let ?es = "[Transaction_entry (tx_id tx) r]"
  have con: "consistent (sv_durable s) (sv_log s)" using h by (simp add: holding_def consistent_server_def)
  show "consistent (sv_durable s) (sv_log s)" by (rule con)
  show "Q (Some e) (s\<lparr>sv_clock := t\<rparr>)" for e t
    using h live by (intro Q) (auto simp: holding_def consistent_server_def)
  have "consistent (write_entries ?es (sv_durable s)) (Wrote ?es # sv_log s)"
  proof (rule consistent_write [OF con, where c = "ch_id cs"])
    show "settled (write_entries ?es (sv_durable s)) (ch_id cs) y"
      if "activated (Wrote ?es # sv_log s) (ch_id cs)" "map_of (du_changes (write_entries ?es (sv_durable s))) (ch_id cs) = Some y"
      for y
    proof -
      have "map_of (du_changes (sv_durable s)) (ch_id cs) = Some y" using that(2) by (simp add: written_changes)
      with con have "last_change (sv_log s) (ch_id cs) = Some y" by (simp add: consistent_def)
      with h have "same_change y cs" by (auto simp: holding_def)
      then show ?thesis
        using st r own by (auto simp: settled_def written_transactions same_change_def same_candidate_def owns_def)
    qed
  qed (use own r in \<open>auto simp: owns_def split: if_splits\<close>)
  then show "Q None (s\<lparr>sv_clock := t, sv_durable := write_entries ?es (sv_durable s),
      sv_log := Wrote ?es # sv_log s\<rparr>)" for t
    using h live by (intro Q) (auto simp: holding_def consistent_server_def)
qed (rule live)

text \<open>A change that was activated and is still committing, in the hands of its operation.\<close>

definition activating :: "bool \<Rightarrow> transaction \<Rightarrow> change \<Rightarrow> 'cfg server \<Rightarrow> bool" where
  "activating b tx cs s \<longleftrightarrow>
     holding b True cs s \<and> owns tx (ch_id cs) s \<and> tx_id tx = ch_transaction_id cs \<and>
     ch_state cs = ''committing'' \<and> both_verified cs"

lemma activating_holding: "activating b tx cs s \<Longrightarrow> holding b True cs s"
  by (simp add: activating_def)

lemma similar_activating: "similar s s' \<Longrightarrow> activating b tx cs s' = activating b tx cs s"
  using similar_holding [of s s'] similar_owns [of s s'] by (simp add: activating_def)

lemma activating_same:
  "activating b tx cs s \<Longrightarrow> same_change cs cs' \<Longrightarrow> same_flags cs cs' \<Longrightarrow> activating b tx cs' s"
  using holding_same [of b True cs s cs']
  by (auto simp: activating_def same_change_def same_candidate_def same_flags_def both_verified_def)

lemma activating_after:
  assumes "background m" "\<And>a. quiet (f a)" "activating b tx cs s" "sv_alive s"
    "\<And>a s'. activating b tx cs s' \<Longrightarrow> sv_alive s' \<Longrightarrow> safely consistent (f a) Q s'"
  shows "safely consistent (State_Monad.bind m f) Q s"
proof (rule safely_after [OF assms(1,2) _ assms(4)])
  show "consistent_server s" using assms(3) by (simp add: activating_def holding_def)
  show "similar s s' \<Longrightarrow> sv_alive s' \<Longrightarrow> safely consistent (f a) Q s'" for a s'
    using assms(3) similar_activating [of s s' b tx cs] by (intro assms(5)) simp_all
qed

lemma terminal_not: "''control_plane_committed'' \<notin> set terminal_states"
  by (simp add: terminal_states_def)

lemma activating_done:
  assumes a: "activating b tx cs s" and live: "sv_alive s"
    and cs': "ch_id cs' = ch_id cs" "ch_state cs' = ''committed''" "ch_version cs' = ch_version cs + 1"
      "ch_base_version cs' = ch_base_version cs" "same_candidate cs cs'" "same_flags cs cs'"
    and es: "\<And>c. entry_change c es = (if c = ch_id cs then Some cs' else None)"
      "\<And>k r. entry_transaction k es = Some r \<Longrightarrow> k = tx_id tx \<and> tr_transaction r = tx"
    and fail: "\<And>e u. sv_alive u \<Longrightarrow> holding b True cs u \<Longrightarrow> Q (Some e) u"
    and ok: "\<And>u. sv_alive u \<Longrightarrow> holding b True cs' u \<Longrightarrow> saved cs' u \<Longrightarrow> sv_changes u = sv_changes s \<Longrightarrow> Q None u"
  shows "safely consistent (save_entries env es) Q s"
proof (rule save_write_safe [where cs = cs and cs' = cs' and x = True and b = b])
  show "holding b True cs s" by (rule activating_holding [OF a])
  show "change_step (Some cs) cs'"
    using a cs' by (auto simp: change_step_def activating_def next_states_def both_verified_def same_flags_def)
  show "k = tx_id (tr_transaction r) \<and> owns (tr_transaction r) (ch_id cs) s"
    if "entry_transaction k es = Some r" for k r using es(2) [OF that] a by (auto simp: activating_def)
  show "Q (Some e) u" if "similar s u" "sv_alive u" for e u
    using that activating_holding [OF a] similar_holding [OF that(1)] by (intro fail) simp_all
  show "Q None u" if "sv_alive u" "holding b True cs' u" "saved cs' u" "sv_changes u = sv_changes s" for u
    using that by (rule ok)
qed (use live cs' es in auto)

text \<open>The boot guard is cleared, or the fence goes up.\<close>

lemma guarded_finish_safe:
  assumes h: "holding b x cs s" and sv: "saved cs s" and live: "sv_alive s" and st: "ch_state cs = ''committed''"
  shows "safely consistent (do {
     g \<leftarrow> clear_boot_guard env tx;
     (case g of
        Some f \<Rightarrow> do {
          mark_recovery_required env (recovery_target_of tx) ''boot_guard_clear_failed'' (af_message f) ph;
          State_Monad.return (cs, Some f) }
      | None \<Rightarrow> finish_commit env cs tx candidate previous) }) (\<lambda>_. op_ok b) s"
proof (rule holding_after [OF background_boot_guard _ h live], goal_cases)
  case (2 g u)
  then show ?case
    using similar_saved [OF 2(1)] sv st
    by (cases g) (auto intro!: finish_commit_safe holding_mark)
qed (intro quiet_intros)

lemma finalize_split_safe:
  assumes a: "activating False tx cs s" and live: "sv_alive s"
  shows "safely consistent (finalize_split env cs tx candidate previous) (\<lambda>_. op_ok False) s"
  unfolding finalize_split_def Let_def
proof (rule activating_after [OF background_adapter _ a live], goal_cases)
  case (3 finalized u)
  let ?cs1 = "cs\<lparr>ch_steps := ch_steps cs @ [finalized], ch_adapter_status := sr_status finalized\<rparr>"
  show ?case
  proof (cases "validate_finalized_commit finalized tx")
    case (Some e)
    let ?amb = "?cs1\<lparr>ch_commit_phase := ''finalize_ambiguous''\<rparr>"
    have W: "activating False tx ?amb u"
      by (rule activating_same [OF 3(1)]) (auto simp: same_change_def same_candidate_def same_flags_def)
    show ?thesis
      unfolding Some option.case
    proof (rule activating_after [OF background_now _ W 3(2)], goal_cases)
      case (2 t v)
      then show ?case
        by (intro safely_bind [OF save_record_safe [where cs = ?amb]] mark_end_safe quiet_intros)
          (auto simp: activating_def record_of_def control_committed_def terminal_not)
    qed (intro quiet_intros)
  next
    case None
    show ?thesis
      unfolding None option.case
    proof (rule activating_after [OF background_now _ 3], goal_cases)
      case (2 t v)
      let ?cs2 = "?cs1\<lparr>ch_commit_phase := ''adapter_finalized'', ch_state := ''committed'',
            ch_version := ch_version ?cs1 + 1, ch_updated_at := time_truncate t second\<rparr>"
      show ?case
      proof (intro safely_bind [OF activating_done [OF 2, where cs' = ?cs2]] quiet_intros, goal_cases)
        case (9 e w)
        then show ?case by (auto intro!: holding_mark)
      next
        case (10 w)
        then show ?case unfolding option.case by (intro guarded_finish_safe) auto
      qed (auto simp: same_candidate_def same_flags_def record_of_def split: if_splits)
    qed (intro quiet_intros)
  qed
qed (intro quiet_intros | simp)+

section \<open>The two protocols\<close>

lemma working_after:
  assumes "background m" "\<And>a. quiet (f a)" "working b x tx cs s" "sv_alive s"
    "\<And>a s'. working b x tx cs s' \<Longrightarrow> sv_alive s' \<Longrightarrow> safely consistent (f a) Q s'"
  shows "safely consistent (State_Monad.bind m f) Q s"
proof (rule safely_after [OF assms(1,2) _ assms(4)])
  show "consistent_server s" using working_consistent [OF assms(3)] by simp
  show "similar s s' \<Longrightarrow> sv_alive s' \<Longrightarrow> safely consistent (f a) Q s'" for a s'
    using assms(3) similar_working [of s s' b x tx cs] by (intro assms(5)) simp_all
qed

lemma working_holding: "working b x tx cs s \<Longrightarrow> holding b x cs s"
  by (simp add: working_def)

text \<open>A change that is committing, before its activation.\<close>

definition deciding :: "transaction \<Rightarrow> change \<Rightarrow> 'cfg server \<Rightarrow> bool" where
  "deciding tx cs s \<longleftrightarrow> working False True tx cs s \<and> ch_state cs = ''committing'' \<and> both_verified cs"

lemma deciding_same:
  "deciding tx cs s \<Longrightarrow> same_change cs cs' \<Longrightarrow> same_flags cs cs' \<Longrightarrow> deciding tx cs' s"
  using working_same [of False True tx cs s cs']
  by (auto simp: deciding_def same_change_def same_flags_def both_verified_def)

lemma deciding_after:
  assumes "background m" "\<And>a. quiet (f a)" "deciding tx cs s" "sv_alive s"
    "\<And>a s'. deciding tx cs s' \<Longrightarrow> sv_alive s' \<Longrightarrow> safely consistent (f a) Q s'"
  shows "safely consistent (State_Monad.bind m f) Q s"
  by (rule working_after [OF assms(1,2) _ assms(4)]) (use assms(3,5) in \<open>auto simp: deciding_def\<close>)

lemma deciding_mark:
  assumes "working b x tx cs s" "sv_alive s"
  shows "safely consistent (do {
      mark_recovery_required env tg code reason ph; State_Monad.return out }) (\<lambda>_. op_ok b') s"
  using holding_mark [OF working_holding [OF assms(1)] assms(2)] .

lemma deciding_save:
  assumes d: "deciding tx cs s" and live: "sv_alive s"
    and fail: "\<And>e cs' s'. sv_alive s' \<Longrightarrow> deciding tx cs s' \<Longrightarrow> Q (Some e, cs') s'"
    and ok: "\<And>cs' s'. sv_alive s' \<Longrightarrow> deciding tx cs' s' \<Longrightarrow> Q (None, cs') s'"
  shows "safely consistent (save_progress env cs tx ''committing'') Q s"
proof (rule save_progress_safe [where cs = cs and x = True and b = False])
  show "working False True tx cs s" using d by (simp add: deciding_def)
  show "''committing'' \<in> next_states (ch_state cs)" using d by (simp add: deciding_def next_states_def)
  show "Q (None, cs') s'" if "sv_alive s'" "working False True tx cs' s'" "advanced cs ''committing'' cs'" for cs' s'
    using that d by (intro ok) (auto simp: deciding_def advanced_def both_verified_def)
qed (use d live fail in \<open>auto simp: deciding_def\<close>)

lemma commit_control_plane_safe:
  assumes d: "deciding tx cs s" and live: "sv_alive s"
  shows "safely consistent (commit_control_plane env cs tx candidate previous) (\<lambda>_. op_ok False) s"
  unfolding commit_control_plane_def Let_def
proof (rule deciding_after [OF background_now _ d live], goal_cases)
  case (2 t u)
  let ?cs = "cs\<lparr>ch_version := ch_version cs + 1, ch_updated_at := time_truncate t second,
    ch_commit_phase := ''control_plane_committed''\<rparr>"
  have h: "holding False True cs u" using 2(1) by (auto simp: deciding_def dest: working_holding)
  have step: "change_step (Some cs) ?cs"
    using 2(1) by (simp add: change_step_def deciding_def next_states_def same_candidate_def both_verified_def)
  have own: "owns tx (ch_id cs) u" "tx_id tx = ch_transaction_id cs" using 2(1) by (simp_all add: deciding_def working_def)
  show ?case
  proof (intro safely_bind [OF save_write_safe [OF h 2(2) _ step]] quiet_intros, goal_cases)
    case (6 e v)
    then show ?case using similar_holding [OF 6(1)] h by (auto intro!: holding_mark)
  next
    case (7 v)
    have act: "activating False tx ?cs w"
      if "holding False True ?cs w" "sv_durable w = sv_durable v" for w :: "'a server"
      using that own 7(5) [OF own(1)] 2(1) by (simp add: activating_def deciding_def both_verified_def owns_def)
    show ?case
      unfolding option.case
      by (intro safely_bind activate_memory_safe [OF 7(2,3,1)] finalize_split_safe act quiet_intros)
  qed (use own 2(1) in \<open>auto simp: activation_entries_def record_of_def control_committed_def terminal_not
      deciding_def split: if_splits\<close>)
qed (intro quiet_intros)

lemma commit_split_safe:
  assumes d: "deciding tx cs s" and live: "sv_alive s"
  shows "safely consistent (commit_split env cs tx candidate previous) (\<lambda>_. op_ok False) s"
  unfolding commit_split_def Let_def
proof (rule deciding_after [OF background_adapter _ d live], goal_cases)
  case (3 prepared u)
  have D: "deciding tx (cs\<lparr>ch_steps := ch_steps cs @ [prepared], ch_adapter_status := sr_status prepared,
      ch_commit_phase := ph\<rparr>) u" for ph
    by (rule deciding_same [OF 3(1)]) (auto simp: same_change_def same_candidate_def same_flags_def)
  show ?case
    by (cases "validate_prepared_commit prepared tx")
      (auto intro!: safely_bind deciding_save [OF D 3(2)] deciding_mark commit_control_plane_safe quiet_intros
        simp: deciding_def)
qed (intro quiet_intros | simp)+

lemma committing_back: "''committing'' \<in> rollback_from" "''awaiting_confirmation'' \<in> rollback_from"
  by (simp_all add: rollback_from_def rollback_states_def)

lemma deciding_back:
  assumes "deciding tx cs s" "sv_alive s"
  shows "safely consistent (rollback_locked env cs tx ''failed'' reason) (\<lambda>_. op_ok False) s"
  using assms committing_back by (intro rollback_end_safe [where tx = tx and x = True])
    (auto simp: deciding_def final_states_def)

lemma deciding_done:
  assumes d: "deciding tx cs s" and live: "sv_alive s"
    and cs': "ch_id cs' = ch_id cs" "ch_state cs' = ''committed''" "ch_version cs' = ch_version cs + 1"
      "ch_base_version cs' = ch_base_version cs" "same_candidate cs cs'" "same_flags cs cs'"
    and es: "\<And>c. entry_change c es = (if c = ch_id cs then Some cs' else None)"
      "\<And>k r. entry_transaction k es = Some r \<Longrightarrow> k = tx_id tx \<and> tr_transaction r = tx"
    and fail: "\<And>e u. sv_alive u \<Longrightarrow> holding False True cs u \<Longrightarrow> Q (Some e) u"
    and ok: "\<And>u. sv_alive u \<Longrightarrow> holding False True cs' u \<Longrightarrow> saved cs' u \<Longrightarrow> Q None u"
  shows "safely consistent (save_entries env es) Q s"
proof (rule activating_done [where tx = tx and cs = cs and cs' = cs' and b = False])
  show "activating False tx cs s"
    using d by (auto simp: activating_def deciding_def working_def)
qed (use assms in auto)

lemma commit_legacy_safe:
  assumes d: "deciding tx cs s" and live: "sv_alive s"
  shows "safely consistent (commit_legacy env cs tx candidate previous) (\<lambda>_. op_ok False) s"
  unfolding commit_legacy_def Let_def
proof (rule deciding_after [OF background_adapter _ d live], goal_cases)
  case (3 result u)
  let ?cs1 = "cs\<lparr>ch_steps := ch_steps cs @ [result], ch_adapter_status := sr_status result\<rparr>"
  have D: "deciding tx ?cs1 u"
    by (rule deciding_same [OF 3(1)]) (auto simp: same_change_def same_candidate_def same_flags_def)
  have committed: "safely consistent (do {
       t \<leftarrow> now env;
       w \<leftarrow> save_entries env (activation_entries
         (cs2\<lparr>ch_state := ''committed'', ch_version := ch_version cs2 + 1, ch_updated_at := time_truncate t second\<rparr>)
         tx candidate
         (revision_of (cs2\<lparr>ch_state := ''committed'', ch_version := ch_version cs2 + 1,
           ch_updated_at := time_truncate t second\<rparr>) tx ''committed'' (Some t))
         (record_of (cs2\<lparr>ch_state := ''committed'', ch_version := ch_version cs2 + 1,
           ch_updated_at := time_truncate t second\<rparr>) tx ''committed'' ''legacy_committed'' t (Some t)));
       (case w of
          Some e \<Rightarrow> do {
            mark_recovery_required env (recovery_target_of tx) ''legacy_commit_persist_failed'' e ''legacy_committed'';
            State_Monad.return (cs2\<lparr>ch_state := ''committed'', ch_version := ch_version cs2 + 1,
              ch_updated_at := time_truncate t second\<rparr>, Some (recovery_failure
              ''adapter committed but active revision persistence is ambiguous'')) }
        | None \<Rightarrow> do {
            g \<leftarrow> clear_boot_guard env tx;
            (case g of
               Some f \<Rightarrow> do {
                 mark_recovery_required env (recovery_target_of tx) ''boot_guard_clear_failed''
                   (af_message f) ''legacy_committed'';
                 State_Monad.return (cs2\<lparr>ch_state := ''committed'', ch_version := ch_version cs2 + 1,
                   ch_updated_at := time_truncate t second\<rparr>, Some f) }
             | None \<Rightarrow> finish_commit env (cs2\<lparr>ch_state := ''committed'', ch_version := ch_version cs2 + 1,
                 ch_updated_at := time_truncate t second\<rparr>) tx candidate previous) }) }) (\<lambda>_. op_ok False) v"
    if v: "deciding tx cs2 v" "sv_alive v" for cs2 v
  proof (rule deciding_after [OF background_now _ v], goal_cases)
    case (2 t w)
    let ?cs3 = "cs2\<lparr>ch_state := ''committed'', ch_version := ch_version cs2 + 1,
      ch_updated_at := time_truncate t second\<rparr>"
    show ?case
    proof (intro safely_bind [OF deciding_done [OF 2, where cs' = ?cs3]] quiet_intros, goal_cases)
      case (9 e w)
      then show ?case by (auto intro!: holding_mark)
    next
      case (10 w)
      then show ?case unfolding option.case by (intro guarded_finish_safe) auto
    qed (auto simp: same_candidate_def same_flags_def record_of_def activation_entries_def split: if_splits)
  qed (intro quiet_intros)
  show ?case
  proof (cases "(sr_operation result \<noteq> [] \<or> sr_protocol_version result \<noteq> 0) \<and>
      validate_binding result ''commit'' tx \<noteq> None")
    case True
    then show ?thesis
      unfolding if_P [OF True] by (intro deciding_back [OF D 3(2)])
  next
    case False
    show ?thesis
      unfolding if_not_P [OF False]
    proof (intro safely_bind deciding_save [OF D 3(2)] quiet_intros, goal_cases)
      case (1 e cs' v)
      then show ?case by (auto intro!: deciding_mark simp: deciding_def)
    next
      case (2 cs' v)
      then show ?case
        unfolding prod.case option.case
        by (cases "step_ok result") (simp_all only: not_True_eq_False not_False_eq_True if_True if_False
            committed deciding_back)
    qed
  qed
qed (intro quiet_intros | simp)+

section \<open>Confirmation\<close>

lemma confirm_tail_safe:
  assumes w: "working False True tx cs s" and live: "sv_alive s"
    and st: "ch_state cs = ''awaiting_confirmation''" "both_verified cs"
  shows "safely consistent (do {
     c \<leftarrow> load_verified_candidate env cs tx;
     (case c of
        Inl f \<Rightarrow> rollback_locked env cs tx ''failed'' ''candidate_recheck_failed''
      | Inr candidate \<Rightarrow> do {
          a \<leftarrow> ask env (\<lambda>t. ev_adaptive_runtime env t candidate);
          (case a of
             Some e \<Rightarrow> rollback_locked env cs tx ''failed'' ''adaptive_runtime_invalid''
           | None \<Rightarrow> do {
               (r, cs) \<leftarrow> save_progress env cs tx ''committing'';
               (case r of
                  Some e \<Rightarrow> State_Monad.return (cs, Some (internal_failure e))
                | None \<Rightarrow>
                    (if ev_split_commit env then commit_split env cs tx candidate previous
                     else commit_legacy env cs tx candidate previous)) }) }) }) (\<lambda>_. op_ok False) s"
proof (rule working_after [OF background_load_candidate _ w live], goal_cases)
  case (2 c u)
  have undo: "working False True tx cs v \<Longrightarrow> sv_alive v \<Longrightarrow>
      safely consistent (rollback_locked env cs tx ''failed'' reason) (\<lambda>_. op_ok False) v" for v reason
    using committing_back st by (intro rollback_end_safe) (auto simp: final_states_def)
  show ?case
  proof (cases c)
    case (Inr candidate)
    show ?thesis
      unfolding Inr sum.case
    proof (rule working_after [OF background_ask _ 2], goal_cases)
      case (2 a v)
      show ?case
      proof (cases a)
        case None
        show ?thesis
          unfolding None option.case
        proof (intro safely_bind save_progress_safe [OF 2] quiet_intros, goal_cases)
          case (6 cs' t)
          then have "deciding tx cs' t" using st by (auto simp: deciding_def advanced_def both_verified_def)
          with 6(1) show ?case by (auto intro!: commit_split_safe commit_legacy_safe)
        qed (use st in \<open>auto simp: next_states_def intro!: safely_return dest: working_op\<close>)
      qed (use undo [OF 2] in auto)
    qed (intro quiet_intros)
  qed (use undo [OF 2] in auto)
qed (intro quiet_intros)

lemma confirm_transaction_safe:
  assumes w: "working False True tx cs s" and live: "sv_alive s"
    and st: "ch_state cs = ''awaiting_confirmation''" "both_verified cs"
  shows "safely consistent (confirm_transaction env cs tx previous) (\<lambda>_. op_ok False) s"
  unfolding confirm_transaction_def Let_def
proof (rule working_after [OF background_now _ w live], goal_cases)
  case (2 t u)
  show ?case
  proof (cases "tx_expires_at tx < t")
    case True
    show ?thesis
      unfolding if_P [OF True]
      using committing_back st
      by (intro safely_bind safely_weaken [OF rollback_end_safe [OF 2]] quiet_intros)
        (auto intro!: safely_return simp: final_states_def)
  next
    case False
    show ?thesis
      unfolding if_not_P [OF False]
    proof (rule working_after [OF background_adapter _ 2], goal_cases)
      case (3 status v)
      let ?cs = "cs\<lparr>ch_steps := ch_steps cs @ [status]\<rparr>"
      have W: "working False True tx ?cs v"
        by (rule working_same [OF 3(1)]) (auto simp: same_change_def same_candidate_def)
      show ?case
        using confirm_tail_safe [OF W 3(2)] st rollback_end_safe [OF W 3(2), where final = "''failed''"] committing_back
        by (auto simp: both_verified_def final_states_def)
    qed (intro quiet_intros | simp)+
  qed
qed (intro quiet_intros)

lemma confirm_change_set_safe:
  assumes op: "op_ok False s" and live: "sv_alive s" and cs: "memory_ok False s \<Longrightarrow> current cs s"
  shows "safely consistent (confirm_change_set env cs) (\<lambda>_. op_ok False) s"
  unfolding confirm_change_set_def
proof (rule lease_safe [OF op live], goal_cases)
  case 2
  then have st: "started cs s" using cs by (simp add: started_def)
  show ?case
  proof (cases "ch_state cs = ''awaiting_confirmation'' \<and> both_verified cs")
    case True
    then have go: "safely consistent (do {
        previous \<leftarrow> previous_revision env;
        l \<leftarrow> load_verified_transaction env cs;
        (case l of
           Inl f \<Rightarrow> State_Monad.return (cs, Some f)
         | Inr tx \<Rightarrow> confirm_transaction env cs tx previous) }) (\<lambda>_. op_ok False) s"
    proof (intro started_after [OF background_previous _ st live] quiet_intros, goal_cases)
      case (1 previous u)
      then show ?case
      proof (intro safely_bind [OF load_verified_safe] quiet_intros, goal_cases)
        case (3 f v)
        then show ?case using similar_started [of u v cs] by (auto intro!: started_return)
      next
        case (4 tx v)
        then have sv: "started cs v" using similar_started [of u v cs] by simp
        have "working False (ch_state cs \<in> exclusive_states) tx cs v"
          using 4 by (intro started_working [OF sv]) auto
        then have "working False True tx cs v" using 4(1) by (simp add: exclusive_states_def)
        with 4 show ?case unfolding sum.case by (intro confirm_transaction_safe) auto
      qed (auto simp: started_def)
    qed
    with True show ?thesis by (simp add: both_verified_def)
  qed (use op live in \<open>auto intro!: safely_return simp: both_verified_def\<close>)
qed (auto intro!: safely_return quiet_intros op live)

end
