(* ===== verification/Tx_Request_Safe.thy ===== *)
theory Tx_Request_Safe
  imports Tx_Commit_Safe
begin

text \<open>
  The other requests keep the invariant: creating, validating and deleting a change, the rollback
  window, the dispatch of a request. A request that finds the fence up changes nothing.
\<close>

section \<open>What the environment must keep\<close>

text \<open>
  The identifiers it draws are new, and binding the adaptive profiles rewrites only the manifest hash
  of the transaction.
\<close>

definition sound :: "'cfg environment \<Rightarrow> 'cfg server \<Rightarrow> bool" where
  "sound env s \<longleftrightarrow>
     (\<forall>i n hex. ev_random env i n = Inr hex \<longrightarrow>
        last_change (sv_log s) (''chg_'' @ hex) = None \<and>
        map_of (du_transactions (sv_durable s)) (''tx_'' @ hex) = None) \<and>
     (\<forall>i tx c tx'. ev_bind_adaptive env i tx c = Inr tx' \<longrightarrow>
        tx_id tx' = tx_id tx \<and> tx_change_id tx' = tx_change_id tx)"

lemma similar_sound: "similar s s' \<Longrightarrow> sound env s' = sound env s"
  by (simp add: sound_def similar_def)

lemma sound_ids:
  assumes "sound env s" "ev_random env i n = Inr hex"
  shows "last_change (sv_log s) (''chg_'' @ hex) = None"
    and "map_of (du_transactions (sv_durable s)) (''tx_'' @ hex) = None"
  using assms unfolding sound_def by blast+

section \<open>Create\<close>

lemma activated_last: "activated lg c \<Longrightarrow> last_change lg c \<noteq> None"
  by (induction lg c rule: activated.induct) (auto split: option.split)

lemma tracked_map: "map_of m' c = map_of m c \<Longrightarrow> tracked b d lg m' c = tracked b d lg m c"
  by (simp add: tracked_def)

lemma consistent_new_change:
  assumes con: "consistent d lg" and fresh: "last_change lg (ch_id cs) = None"
    and cs: "ch_id cs \<noteq> []" "ch_state cs = ''draft''" "ch_version cs = 1"
  shows "consistent (write_entries [Change_entry (ch_id cs) cs] d) (Wrote [Change_entry (ch_id cs) cs] # lg)"
proof (rule consistent_write [OF con, where c = "ch_id cs"])
  show "settled (write_entries [Change_entry (ch_id cs) cs] d) (ch_id cs) x"
    if "activated (Wrote [Change_entry (ch_id cs) cs] # lg) (ch_id cs)" for x
    using that fresh activated_last [of lg "ch_id cs"] by simp
qed (use cs fresh in \<open>auto simp: change_step_def exclusive_states_def split: if_splits\<close>)

lemma new_change_memory:
  assumes m: "memory_ok False s" and con: "consistent_server s" and fresh: "last_change (sv_log s) (ch_id cs) = None"
    and st: "ch_state cs = ''draft''"
    and s': "sv_durable s' = write_entries [Change_entry (ch_id cs) cs] (sv_durable s)"
      "sv_log s' = Wrote [Change_entry (ch_id cs) cs] # sv_log s"
      "\<And>c. map_of (sv_changes s') c = ((map_of (sv_changes s))(ch_id cs \<mapsto> cs)) c"
  shows "memory_ok False s'"
  unfolding memory_ok_def
proof
  fix c
  have "\<not> activated (sv_log s) (ch_id cs)" using activated_last fresh by metis
  then show "tracked False (sv_durable s') (sv_log s') (sv_changes s') c"
    using m st by (cases "c = ch_id cs")
      (auto simp: memory_ok_def tracked_def s' written_changes exclusive_in_def same_flags_def exclusive_states_def)
qed

lemma fresh_memory:
  assumes "memory_ok False s" "last_change (sv_log s) c = None"
  shows "map_of (sv_changes s) c = None"
proof -
  have "tracked False (sv_durable s) (sv_log s) (sv_changes s) c" using assms(1) by (simp add: memory_ok_def)
  with assms(2) show ?thesis by (cases "map_of (sv_changes s) c") (auto simp: tracked_def)
qed

lemma safely_ask_after:
  assumes "consistent_server s" "sv_alive s" "\<And>a. quiet (k a)"
    "\<And>t s'. similar s s' \<Longrightarrow> sv_alive s' \<Longrightarrow> safely consistent (k (f t)) Q s'"
  shows "safely consistent (State_Monad.bind (ask env f) k) Q s"
  using assms by (intro safely_bind safely_ask) (auto simp: consistent_server_def similar_def)

lemma create_write_safe:
  assumes m: "memory_ok False s" "consistent_server s" "\<not> sv_deferred s" and live: "sv_alive s"
    and fresh: "last_change (sv_log s) (ch_id cs) = None"
    and cs: "ch_id cs \<noteq> []" "ch_state cs = ''draft''" "ch_version cs = 1"
  shows "safely consistent (do {
      set_change cs;
      w \<leftarrow> save_entries env [Change_entry (ch_id cs) cs];
      (case w of
         Some e \<Rightarrow> do {
           updates (\<lambda>s. s\<lparr>sv_changes := bucket_delete (ch_id cs) (sv_changes s)\<rparr>);
           State_Monad.return (f e) }
       | None \<Rightarrow> State_Monad.return g) }) (\<lambda>_. op_ok False) s"
proof (intro safely_bind [OF safely_set_change] safely_bind [OF safely_save_entries] live, goal_cases)
  let ?s = "s\<lparr>sv_changes := bucket_put (ch_id cs) cs (sv_changes s)\<rparr>"
  {
    case 1
    then show ?case using m(2) by (simp add: consistent_server_def)
  next
    case 2
    then show ?case using live by simp
  next
    case (3 e t)
    let ?t = "?s\<lparr>sv_clock := t, sv_changes := bucket_delete (ch_id cs) (sv_changes ?s)\<rparr>"
    have same: "map_of (bucket_delete (ch_id cs) (bucket_put (ch_id cs) cs (sv_changes s))) c =
        map_of (sv_changes s) c" for c
      using fresh_memory [OF m(1) fresh] by (simp add: map_of_bucket_put map_of_bucket_delete)
    then have "memory_ok False ?t"
      using m(1) by (simp add: memory_ok_def tracked_map [OF same])
    then have "op_ok False ?t" using m(2,3) by (simp add: op_ok_def consistent_server_def)
    then show ?case using live by (auto intro!: safely_bind safely_updates safely_return quiet_intros)
  next
    case (4 t)
    let ?t = "?s\<lparr>sv_clock := t, sv_durable := write_entries [Change_entry (ch_id cs) cs] (sv_durable ?s),
      sv_log := Wrote [Change_entry (ch_id cs) cs] # sv_log ?s\<rparr>"
    have "memory_ok False ?t"
      by (rule new_change_memory [OF m(1,2) fresh cs(2)]) (simp_all add: map_of_bucket_put)
    moreover have "consistent_server ?t"
      using consistent_new_change [OF _ fresh cs] m(2) by (simp add: consistent_server_def)
    ultimately have "op_ok False ?t" using m(3) by (simp add: op_ok_def)
    then show ?case using live by (auto intro!: safely_return)
  }
qed (intro quiet_intros | simp)+

lemma create_change_safe:
  assumes op: "op_ok False s" and live: "sv_alive s" and env: "sound env s"
  shows "safely consistent (create_draft_change env title descr base ops author) (\<lambda>_. op_ok False) s"
  unfolding create_draft_change_def Let_def
proof (rule lease_safe [OF op live], goal_cases)
  case 1
  show ?case by (intro safely_bind safely_reads quiet_intros live) (auto intro!: safely_return live op)
next
  case 2
  note m = this
  show ?case
  proof (intro safely_bind [OF safely_reads] live, goal_cases)
    case 1
    show ?case
    proof (cases "base = sv_config_version s")
      case True
      show ?thesis
        unfolding option.case if_not_P [OF not_not [THEN iffD2, OF True]]
      proof (rule safely_after [OF background_now _ m(2) live], goal_cases)
        case (2 t u)
        have cu: "consistent_server u" using similar_consistent [OF 2(1)] m(2) by simp
        show ?case
        proof (rule safely_ask_after [OF cu 2(2)], goal_cases)
          case (2 i v)
          have sim: "similar s v" using similar_trans [OF \<open>similar s u\<close> 2(1)] .
          show ?case
          proof (cases "ev_random env i 8")
            case (Inl e)
            then show ?thesis using similar_op [OF sim] op 2(2) by (auto intro!: safely_return)
          next
            case (Inr hex)
            have fresh: "last_change (sv_log v) (''chg_'' @ hex) = None"
              using env Inr similar_sound [OF sim] sound_ids(1) by blast
            show ?thesis
              unfolding Inr sum.case
              by (rule create_write_safe)
                (use m sim similar_memory [OF sim] similar_consistent [OF sim] fresh 2(2) in
                  \<open>simp_all add: similar_def\<close>)
          qed
        qed (intro quiet_intros; simp)
      qed (intro quiet_intros; simp)
    qed (use op live in \<open>auto intro!: safely_return\<close>)
  qed (intro quiet_intros; simp)+
qed (intro quiet_intros; simp)+

section \<open>Validate\<close>

text \<open>A change that no activation touched, in the hands of an operation.\<close>

definition idle :: "change \<Rightarrow> 'cfg server \<Rightarrow> bool" where
  "idle cs s \<longleftrightarrow> holding False False cs s \<and> \<not> activated (sv_log s) (ch_id cs) \<and> op_ok False s"

lemma similar_idle: "similar s s' \<Longrightarrow> idle cs s' = idle cs s"
  using similar_holding [of s s' False False cs] similar_op [of s s' False] by (simp add: idle_def similar_def)

lemma idle_same: "idle cs s \<Longrightarrow> same_change cs cs' \<Longrightarrow> idle cs' s"
  using holding_same [of False False cs s cs'] by (auto simp: idle_def same_change_def)

lemma idle_consistent: "idle cs s \<Longrightarrow> consistent_server s"
  by (simp add: idle_def holding_def)

lemma holding_weaken: "holding b x cs s \<Longrightarrow> holding b False cs s"
  by (simp add: holding_def)

lemma started_idle: "started cs s \<Longrightarrow> ch_state cs \<noteq> ''committed'' \<Longrightarrow> idle cs s"
  using current_idle [of s cs] by (auto simp: started_def idle_def intro: holding_weaken)

lemma idle_after:
  assumes "background m" "\<And>a. quiet (f a)" "idle cs s" "sv_alive s"
    "\<And>a s'. idle cs s' \<Longrightarrow> sv_alive s' \<Longrightarrow> safely consistent (f a) Q s'"
  shows "safely consistent (State_Monad.bind m f) Q s"
proof (rule safely_after [OF assms(1,2) _ assms(4)])
  show "consistent_server s" by (rule idle_consistent [OF assms(3)])
  show "similar s s' \<Longrightarrow> sv_alive s' \<Longrightarrow> safely consistent (f a) Q s'" for a s'
    using assms(3) similar_idle [of s s' cs] by (intro assms(5)) simp_all
qed

lemma idle_return: "idle cs s \<Longrightarrow> sv_alive s \<Longrightarrow> safely consistent (State_Monad.return a) (\<lambda>_. op_ok False) s"
  by (auto intro!: safely_return simp: idle_def)

lemma idle_save:
  assumes i: "idle cs s" and live: "sv_alive s" and id: "ch_id cs' = ch_id cs"
    and step: "change_step (Some cs) cs'" and st: "ch_state cs' \<notin> exclusive_states"
  shows "safely consistent (do {
      r \<leftarrow> save_entries env [Change_entry (ch_id cs') cs'];
      (case r of
         Some e \<Rightarrow> State_Monad.return (f e)
       | None \<Rightarrow> do { set_change cs'; State_Monad.return g }) }) (\<lambda>_. op_ok False) s"
  by (rule save_alone_safe [where cs = cs and x = False]) (use assms in \<open>auto simp: idle_def\<close>)

lemma draft_steps:
  assumes "ch_state cs = ''draft''" "ch_version cs' = ch_version cs + 1" "ch_base_version cs' = ch_base_version cs"
    "ch_state cs' \<in> {''draft'', ''validated''}"
  shows "change_step (Some cs) cs'" "ch_state cs' \<notin> exclusive_states"
  using assms by (auto simp: change_step_def next_states_def verified_states_def exclusive_states_def)

lemma save_draft_safe:
  assumes i: "idle cs s" and live: "sv_alive s" and st: "ch_state cs = ''draft''"
  shows "safely consistent (save_change env cs ''draft'') (\<lambda>_. op_ok False) s"
  unfolding save_change_def Let_def
  by (rule idle_after [OF background_now _ i live]; (intro quiet_intros)?)
    (rule idle_save [where cs = cs]; (rule draft_steps [OF st])?; simp)

lemma validate_noop_safe:
  assumes i: "idle cs s" and live: "sv_alive s" and st: "ch_state cs = ''draft''"
  shows "safely consistent (validate_noop env cs revision v) (\<lambda>_. op_ok False) s"
  unfolding validate_noop_def Let_def
  by (rule idle_after [OF background_now _ i live]; (intro quiet_intros)?)
    (rule idle_save [where cs = cs]; (rule draft_steps [OF st])?; simp)

lemma safely_background_run:
  assumes "background m" "consistent_server s" "sv_alive s"
    "\<And>a s'. run_state m s = (a, s') \<Longrightarrow> similar s s' \<Longrightarrow> sv_alive s' \<Longrightarrow> Q a s'"
  shows "safely consistent m Q s"
proof -
  obtain a t where t: "run_state m s = (a, t)" by fastforce
  have sim: "similar s t" using assms(1) t by (auto simp: background_def dest: spec [of _ s])
  show ?thesis
    using assms(2-4) sim t similar_consistent [OF sim] by (auto simp: safely_def consistent_server_def)
qed

lemma new_transaction_fresh:
  assumes "run_state (new_transaction env cid rid base v c) s = (Inr tx, s')" "sound env s0"
  shows "tx_change_id tx = cid" "map_of (du_transactions (sv_durable s0)) (tx_id tx) = None"
proof -
  from assms(1) obtain i n hex where "ev_random env i n = Inr hex" "tx_id tx = ''tx_'' @ hex" "tx_change_id tx = cid"
    by (auto simp: new_transaction_def ask_def now_def instant_def Let_def split: sum.splits)
  with sound_ids(2) [OF assms(2)] show "tx_change_id tx = cid"
    "map_of (du_transactions (sv_durable s0)) (tx_id tx) = None" by auto
qed

lemma prepare_candidate_ids:
  assumes "run_state (prepare_candidate env tx c) s = (Inr (tx', mf, g), s')" "sound env s0"
  shows "tx_id tx' = tx_id tx" "tx_change_id tx' = tx_change_id tx"
proof -
  from assms(1) obtain i tx1 where "ev_bind_adaptive env i tx1 c = Inr tx'" "tx_id tx1 = tx_id tx"
      "tx_change_id tx1 = tx_change_id tx"
    by (auto simp: prepare_candidate_def ask_def now_def instant_def Let_def retire_after_def
        split: sum.splits option.splits prod.splits)
  with assms(2) show "tx_id tx' = tx_id tx" "tx_change_id tx' = tx_change_id tx" by (auto simp: sound_def)
qed

lemma validate_write_safe:
  assumes i: "idle cs s" and live: "sv_alive s" and st: "ch_state cs = ''draft''"
    and own: "owns tx (ch_id cs) s" and r: "tr_transaction record = tx"
    and cs': "ch_id cs' = ch_id cs" "ch_state cs' = ''validated''" "ch_version cs' = ch_version cs + 1"
      "ch_base_version cs' = ch_base_version cs"
  shows "safely consistent (do {
      r \<leftarrow> save_entries env [Candidate_entry (ch_id cs) candidate, Transaction_entry (tx_id tx) record,
        Revision_entry rid revision, Change_entry (ch_id cs) cs'];
      (case r of
         Some e \<Rightarrow> State_Monad.return (f e)
       | None \<Rightarrow> do { set_change cs'; State_Monad.return g }) }) (\<lambda>_. op_ok False) s"
proof (intro safely_bind [OF save_write_safe [where cs = cs and cs' = cs' and b = False and x = False]], goal_cases)
  case (9 e u)
  then show ?case using i similar_op [OF 9(1)] by (auto intro!: safely_return simp: idle_def)
next
  case (10 u)
  let ?t = "u\<lparr>sv_changes := bucket_put (ch_id cs') cs' (sv_changes u)\<rparr>"
  have "memory_ok False ?t"
    by (rule set_change_tracked(3) [OF 10(2,3)]) (use i 10(6) cs'(1) in \<open>simp_all add: idle_def\<close>)
  then have "op_ok False ?t" using 10(2) by (simp add: op_ok_def holding_def consistent_server_def)
  then show ?case unfolding option.case using 10(1) by (auto intro!: safely_bind safely_set_change safely_return quiet_intros)
qed (use i live st own r cs' draft_steps [OF st] in
    \<open>auto simp: idle_def owns_def exclusive_states_def split: if_splits intro!: quiet_intros\<close>)

lemma validate_new_safe:
  assumes i: "idle cs s" and live: "sv_alive s" and st: "ch_state cs = ''draft''" and env: "sound env s"
  shows "safely consistent (validate_new env cs candidate diff version) (\<lambda>_. op_ok False) s"
  unfolding validate_new_def Let_def
proof (rule safely_after [OF background_ask _ idle_consistent [OF i] live], goal_cases)
  case (2 rnd u)
  have iu: "idle cs u" and eu: "sound env u" using i env similar_idle [OF 2(1)] similar_sound [OF 2(1)] by simp_all
  show ?case
  proof (cases rnd)
    case (Inl e)
    then show ?thesis using iu 2(2) by (auto intro!: idle_return)
  next
    case (Inr hex)
    show ?thesis
      unfolding Inr sum.case
    proof (rule safely_bind [OF safely_background_run [OF background_new_transaction idle_consistent [OF iu] 2(2)]], goal_cases)
      case (1 n v)
      have iv: "idle cs v" and ev: "sound env v"
        using iu eu similar_idle [OF 1(2)] similar_sound [OF 1(2)] by simp_all
      show ?case
      proof (cases n)
        case (Inl e)
        then show ?thesis using iv 1(3) by (auto intro!: idle_return)
      next
        case n: (Inr tx0)
        have tx0: "tx_change_id tx0 = ch_id cs" "map_of (du_transactions (sv_durable v)) (tx_id tx0) = None"
          using new_transaction_fresh [OF 1(1) [unfolded n] ev] by simp_all
        show ?thesis
          unfolding n sum.case
        proof (rule safely_bind [OF safely_background_run [OF background_prepare idle_consistent [OF iv] 1(3)]], goal_cases)
          case (1 p w)
          have iw: "idle cs w" using iv similar_idle [OF 1(2)] by simp
          show ?case
          proof (cases p)
            case (Inl f)
            then show ?thesis using iw 1(3) by (auto intro!: idle_return)
          next
            case p: (Inr q)
            obtain tx mf g where q: "q = (tx, mf, g)" by (cases q)
            have tx: "tx_id tx = tx_id tx0" "tx_change_id tx = tx_change_id tx0"
              using prepare_candidate_ids [OF 1(1) [unfolded p q] ev] by simp_all
            have ow: "similar w z \<Longrightarrow> owns tx (ch_id cs) z" for z
              using tx tx0 1(2) by (simp add: owns_def similar_def)
            show ?thesis
              unfolding p q sum.case prod.case
            proof (rule safely_after [OF background_now _ idle_consistent [OF iw] 1(3)], goal_cases)
              case (2 t x)
              have ix: "idle cs x" using iw similar_idle [OF 2(1)] by simp
              show ?case
              proof (rule safely_after [OF background_now _ idle_consistent [OF ix] 2(2)], goal_cases)
                case (2 t2 y)
                have "idle cs y" "owns tx (ch_id cs) y"
                  using ix similar_idle [OF 2(1)] ow [OF similar_trans [OF \<open>similar w x\<close> 2(1)]] by simp_all
                then show ?case
                  by (intro validate_write_safe [OF _ 2(2) st]) (simp_all add: validated_change_def)
              qed (intro quiet_intros)
            qed (intro quiet_intros)
          qed
        qed (intro quiet_intros)
      qed
    qed (intro quiet_intros)
  qed
qed (intro quiet_intros)

text \<open>The build rewrites operations of the change in memory; the life cycle does not see them.\<close>

lemma rewrite_memory:
  assumes s: "started cs s"
    and s': "s' = s\<lparr>sv_changes := (case map_of (sv_changes s) (ch_id cs) of None \<Rightarrow> sv_changes s
      | Some m \<Rightarrow> bucket_put (ch_id cs) (m\<lparr>ch_operations := ops\<rparr>) (sv_changes s))\<rparr>"
  shows "started (cs\<lparr>ch_operations := ops\<rparr>) s'"
proof -
  have cs: "map_of (sv_changes s) (ch_id cs) = Some cs" using s by (simp add: started_def current_def)
  have m: "tracked False (sv_durable s) (sv_log s) (sv_changes s) c" for c
    using s by (simp add: started_def memory_ok_def)
  have "tracked False (sv_durable s') (sv_log s') (sv_changes s') c" for c
    using m [of c] cs by (cases "c = ch_id cs")
      (auto simp: tracked_def s' map_of_bucket_put same_change_def same_candidate_def same_flags_def)
  then show ?thesis
    using s cs by (auto simp: started_def memory_ok_def current_def s' map_of_bucket_put consistent_server_def)
qed

lemma validate_built_safe:
  assumes i: "idle cs s" and live: "sv_alive s" and st: "ch_state cs = ''draft''" and env: "sound env s"
  shows "safely consistent (if bad
      then do {
        (r, cs) \<leftarrow> save_change env cs ''draft'';
        State_Monad.return (cs, Some (f r)) }
      else case candidate of
        None \<Rightarrow> State_Monad.return (cs, Some g)
      | Some candidate \<Rightarrow>
          (if diff = [] \<and> active_id \<noteq> []
           then do {
             r \<leftarrow> load env du_revisions active_id;
             (case r of
                Inr revision \<Rightarrow>
                  (if rv_state revision = ''committed'' \<and> rv_candidate_hash revision = ev_hash env candidate
                   then validate_noop env cs revision version
                   else validate_new env cs candidate diff version)
              | Inl e \<Rightarrow> validate_new env cs candidate diff version) }
           else validate_new env cs candidate diff version)) (\<lambda>_. op_ok False) s"
proof -
  let ?loaded = "\<lambda>c. do {
             r \<leftarrow> load env du_revisions active_id;
             (case r of
                Inr revision \<Rightarrow>
                  (if rv_state revision = ''committed'' \<and> rv_candidate_hash revision = ev_hash env c
                   then validate_noop env cs revision version
                   else validate_new env cs c diff version)
              | Inl e \<Rightarrow> validate_new env cs c diff version) }"
  have loaded: "safely consistent (?loaded c) (\<lambda>_. op_ok False) s" for c
  proof (rule safely_after [OF background_load _ idle_consistent [OF i] live], goal_cases)
    case (2 r u)
    have u: "idle cs u" "sound env u" using i env similar_idle [OF 2(1)] similar_sound [OF 2(1)] by simp_all
    show ?case
      by (cases r) (auto intro!: validate_noop_safe validate_new_safe u 2(2) st)
  qed (intro quiet_intros)
  show ?thesis
  proof (cases bad)
    case True
    have "safely consistent (do {
        (r, cs) \<leftarrow> save_change env cs ''draft'';
        State_Monad.return (cs, Some (f r)) }) (\<lambda>_. op_ok False) s"
      by (intro safely_bind safely_weaken [OF save_draft_safe [OF i live st]] quiet_intros)
        (auto intro!: safely_return)
    with True show ?thesis by (simp only: if_True)
  next
    case ok: False
    show ?thesis
    proof (cases candidate)
      case None
      then show ?thesis using ok by (auto intro!: idle_return [OF i live])
    next
      case (Some c)
      show ?thesis
      proof (cases "diff = [] \<and> active_id \<noteq> []")
        case True
        show ?thesis
          unfolding if_not_P [OF ok] Some option.case if_P [OF True] by (rule loaded)
      next
        case False
        show ?thesis
          unfolding if_not_P [OF ok] Some option.case if_not_P [OF False]
          by (rule validate_new_safe [OF i live st env])
      qed
    qed
  qed
qed

lemma validate_change_set_safe:
  assumes op: "op_ok False s" and live: "sv_alive s" and cs: "memory_ok False s \<Longrightarrow> current cs s"
    and env: "sound env s"
  shows "safely consistent (validate_change_set env cs) (\<lambda>_. op_ok False) s"
  unfolding validate_change_set_def Let_def
proof (rule lease_safe [OF op live], goal_cases)
  case 1
  show ?case by (intro safely_bind safely_reads quiet_intros live) (auto intro!: safely_return live op)
next
  case 2
  then have st: "started cs s" using cs by (simp add: started_def)
  show ?case
  proof (intro safely_bind [OF safely_reads] live, goal_cases)
    case 1
    show ?case
    proof (cases "ch_state cs = ''draft'' \<and> ch_base_version cs = sv_config_version s")
      case True
      then have n: "\<not> (ch_state cs \<noteq> ''draft'')" "\<not> (ch_base_version cs \<noteq> sv_config_version s)" by simp_all
      let ?b = "build_candidate (ev_to_json env) (ev_of_json env) (ev_config_error env)
        (Some (sv_active_config s)) (ch_operations cs)"
      let ?u = "s\<lparr>sv_changes := (case map_of (sv_changes s) (ch_id cs) of None \<Rightarrow> sv_changes s
        | Some m \<Rightarrow> bucket_put (ch_id cs) (m\<lparr>ch_operations := br_operations ?b\<rparr>) (sv_changes s))\<rparr>"
      have su: "started (cs\<lparr>ch_operations := br_operations ?b\<rparr>) ?u" by (rule rewrite_memory [OF st refl])
      have eu: "sound env ?u" using env by (simp add: sound_def)
      show ?thesis
        unfolding option.case if_not_P [OF n(1)] if_not_P [OF n(2)]
      proof (intro safely_bind [OF safely_updates], goal_cases)
        case 2
        show ?case
        proof (rule safely_after, goal_cases)
          case (5 extra v)
          have sv: "started (cs\<lparr>ch_operations := br_operations ?b\<rparr>) v" and ev: "sound env v"
            using su eu similar_started [OF 5(1)] similar_sound [OF 5(1)] by simp_all
          let ?vs = "relax_noop (br_diff ?b) (br_validations ?b @ extra)"
          let ?cs = "cs\<lparr>ch_operations := br_operations ?b, ch_validation := ?vs\<rparr>"
          have i: "idle ?cs v"
            by (rule idle_same [OF started_idle [OF sv]])
              (use True in \<open>simp_all add: same_change_def same_candidate_def\<close>)
          show ?case
            by (rule validate_built_safe [OF i 5(2) _ ev]) (use True in simp_all)
        next
          case 3
          then show ?case using su by (simp add: started_def)
        next
          case 1
          then show ?case by (intro background_intros)
        next
          case 2
          then show ?case by (intro quiet_intros)
        next
          case 4
          then show ?case using live by simp
        qed
      next
        case 3
        then show ?case by (intro quiet_intros)
      qed (use live in simp)
    next
      case False
      then show ?thesis using op live by (auto intro!: safely_return)
    qed
  qed (intro quiet_intros; simp)+
qed (intro quiet_intros; simp)+

section \<open>Delete\<close>

lemma ordered_delete: "ordered b \<Longrightarrow> ordered (bucket_delete k b)"
  unfolding ordered_def bucket_delete_def by (rule bucket_filter_sorted)

lemma consistent_delete:
  assumes "consistent d lg"
  shows "consistent (d\<lparr>du_changes := bucket_delete k (du_changes d)\<rparr>) lg"
  using assms
  by (auto simp: consistent_def map_of_bucket_delete exclusive_in_def settled_def ordered_delete)

lemma deletable_plain: "st \<in> set deletable_states \<Longrightarrow> st \<notin> exclusive_states"
  by (auto simp: deletable_states_def exclusive_states_def)

lemma forget_memory:
  assumes s: "started cs s" and st: "ch_state cs \<in> set deletable_states"
    and m': "sv_changes s' = bucket_delete (ch_id cs) (sv_changes s)" "sv_log s' = sv_log s"
      "sv_durable s' = sv_durable s \<or>
        sv_durable s' = (sv_durable s)\<lparr>du_changes := bucket_delete (ch_id cs) (du_changes (sv_durable s))\<rparr>"
  shows "memory_ok False s'"
  unfolding memory_ok_def
proof
  fix c
  have t: "tracked False (sv_durable s) (sv_log s) (sv_changes s) c" for c
    using s by (simp add: started_def memory_ok_def)
  have cs: "map_of (sv_changes s) (ch_id cs) = Some cs" using s by (simp add: started_def current_def)
  have "\<not> exclusive_in (sv_durable s) (ch_id cs)"
    using t [of "ch_id cs"] cs s deletable_plain [OF st]
    by (auto simp: exclusive_in_def tracked_def started_def consistent_server_def consistent_def same_change_def)
  then show "tracked False (sv_durable s') (sv_log s') (sv_changes s') c"
    using t [of c] m' by (cases "c = ch_id cs") (auto simp: tracked_def map_of_bucket_delete exclusive_in_def)
qed

lemma delete_change_safe:
  assumes op: "op_ok False s" and live: "sv_alive s" and cs: "memory_ok False s \<Longrightarrow> current cs s"
  shows "safely consistent (delete_change env cs) (\<lambda>_. op_ok False) s"
proof (cases "ch_state cs \<in> set deletable_states")
  case True
  then have n: "\<not> (ch_state cs \<notin> set deletable_states)" by simp
  show ?thesis
    unfolding delete_change_def if_not_P [OF n]
  proof (rule lease_safe [OF op live], goal_cases)
    case 2
    then have st: "started cs s" using cs by (simp add: started_def)
    have memory: "memory_ok False u" if "sv_changes u = bucket_delete (ch_id cs) (sv_changes s)" "sv_log u = sv_log s"
      "sv_durable u = sv_durable s \<or>
        sv_durable u = (sv_durable s)\<lparr>du_changes := bucket_delete (ch_id cs) (du_changes (sv_durable s))\<rparr>"
      for u :: "'a server" by (rule forget_memory [OF st True that])
    show ?case
      unfolding option.case
    proof (intro safely_bind [OF safely_updates], goal_cases)
      case 2
      have con: "consistent (sv_durable s) (sv_log s)" using st by (simp add: started_def consistent_server_def)
      show ?case
        using live con st consistent_delete [OF con, of "ch_id cs"]
        by (cases s) (auto simp: safely_def delete_entry_def instant_def reads_def updates_def op_ok_def
            started_def consistent_server_def intro!: memory split: option.splits)
    qed (use live in \<open>auto intro!: quiet_intros\<close>)
  qed (auto intro!: safely_return op live quiet_intros)
qed (use op live in \<open>auto simp: delete_change_def intro!: safely_return\<close>)

section \<open>The rollback window\<close>

lemma started_flags:
  assumes "started cs s"
  shows "ch_state cs \<in> verified_states \<Longrightarrow> both_verified cs"
    and "ch_id cs \<noteq> []"
    and "activated (sv_log s) (ch_id cs) \<Longrightarrow> ch_state cs = ''committed''"
proof -
  have "tracked False (sv_durable s) (sv_log s) (sv_changes s) (ch_id cs)" "current cs s"
    using assms by (simp_all add: started_def memory_ok_def)
  then obtain l where l: "last_change (sv_log s) (ch_id cs) = Some l" "same_change l cs" "same_flags l cs"
    and a: "activated (sv_log s) (ch_id cs) \<Longrightarrow> ch_state cs = ''committed''"
    by (auto simp: tracked_def current_def)
  have con: "consistent (sv_durable s) (sv_log s)" using assms by (simp add: started_def consistent_server_def)
  show "ch_state cs \<in> verified_states \<Longrightarrow> both_verified cs"
    using l con last_change_verified [of "sv_log s" "ch_id cs" l]
    by (auto simp: consistent_def same_change_def same_flags_def both_verified_def)
  show "ch_id cs \<noteq> []" using l con by (auto simp: consistent_def)
  show "activated (sv_log s) (ch_id cs) \<Longrightarrow> ch_state cs = ''committed''" by (rule a)
qed

lemma self_next: "st \<in> next_states st"
  by (simp add: next_states_def stoppable_def)

lemma rewrite_save_safe:
  assumes s: "started cs s" and live: "sv_alive s"
    and cs': "ch_id cs' = ch_id cs" "ch_state cs' = ch_state cs" "ch_version cs' = ch_version cs + 1"
      "ch_base_version cs' = ch_base_version cs" "same_candidate cs cs'" "same_flags cs cs'"
    and own: "owns tx (ch_id cs) s" and r: "tr_transaction record = tx"
    and fail: "\<And>e u. sv_alive u \<Longrightarrow> op_ok False u \<Longrightarrow> safely consistent (f e) Q u"
    and ok: "\<And>u. sv_alive u \<Longrightarrow> started cs' u \<Longrightarrow> Q g u"
    and q: "\<And>e. quiet (f e)"
  shows "safely consistent (do {
      w \<leftarrow> save_entries env [Transaction_entry (tx_id tx) record, Change_entry (ch_id cs') cs'];
      (case w of Some e \<Rightarrow> f e | None \<Rightarrow> do { set_change cs'; State_Monad.return g }) }) Q s"
proof -
  note fl = started_flags [OF s]
  have h: "holding False (ch_state cs \<in> exclusive_states) cs s"
    using s current_holding(1) by (auto simp: started_def)
  have step: "change_step (Some cs) cs'"
    using cs' fl(1) self_next [of "ch_state cs"]
    by (auto simp: change_step_def both_verified_def same_flags_def)
  show ?thesis
  proof (intro safely_bind [OF save_write_safe [OF h live cs'(1) step]], goal_cases)
    case (5 e u)
    then show ?case using similar_op [OF 5(1)] started_op [OF s] by (auto intro!: fail)
  next
    case (6 u)
    let ?t = "u\<lparr>sv_changes := bucket_put (ch_id cs') cs' (sv_changes u)\<rparr>"
    have "memory_ok False ?t"
      by (rule set_change_tracked(3) [OF 6(2,3)]) (use fl(3) 6(6) cs'(1,2) in simp_all)
    then have "started cs' ?t"
      using 6(2) by (simp add: started_def holding_def consistent_server_def current_def map_of_bucket_put)
    then show ?case
      unfolding option.case using 6(1) by (intro safely_bind safely_set_change safely_return quiet_intros ok) simp_all
  qed (use own r cs' fl(3) q in \<open>auto simp: split: if_splits intro!: quiet_intros\<close>)
qed

definition kept :: "change \<Rightarrow> action_failure option \<Rightarrow> 'cfg server \<Rightarrow> bool" where
  "kept cs f s \<longleftrightarrow> op_ok False s \<and> (f = None \<longrightarrow> started cs s)"

lemma kept_started: "started cs s \<Longrightarrow> kept cs f s"
  by (simp add: kept_def started_op)

lemma kept_failed: "op_ok False s \<Longrightarrow> kept cs (Some f) s"
  by (simp add: kept_def)

lemma refresh_safe:
  assumes s: "started cs s" and live: "sv_alive s" and own: "owns tx (ch_id cs) s"
  shows "safely consistent (refresh_rollback_window env cs tx secs) (\<lambda>(cs', tx', f). kept cs' f) s"
proof (cases "secs < 1 \<or> 3600 < secs")
  case True
  then show ?thesis
    using s live by (auto simp: refresh_rollback_window_def intro!: safely_return kept_started)
next
  case False
  show ?thesis
    unfolding refresh_rollback_window_def if_not_P [OF False] Let_def
  proof (rule safely_after [OF background_now _ _ live], goal_cases)
    case (3 t u)
    let ?tx = "tx\<lparr>tx_rollback_timeout_seconds := secs, tx_expires_at := t + seconds secs\<rparr>"
    let ?cs = "cs\<lparr>ch_expires_at := time_truncate (tx_expires_at ?tx) second, ch_version := ch_version cs + 1,
      ch_updated_at := time_truncate t second\<rparr>"
    have su: "started cs u" "owns ?tx (ch_id cs) u"
      using s own 3(1) similar_started [OF 3(1)] by (simp_all add: owns_def similar_def)
    show ?case
    proof (rule safely_after [OF background_ask], goal_cases)
      case (4 p v)
      have sv: "started cs v" "owns ?tx (ch_id cs) v"
        using su similar_started [OF 4(1)] similar_owns [OF 4(1)] by simp_all
      show ?case
      proof (cases p)
        case None
        show ?thesis
          unfolding None option.case
        proof (rule safely_after [OF background_load], goal_cases)
          case (4 r w)
          have sw: "started cs w" "owns ?tx (ch_id cs) w"
            using sv similar_started [OF 4(1)] similar_owns [OF 4(1)] by simp_all
          show ?case
          proof (cases r)
            case (Inr rec)
            have tx: "tx_id tx = tx_id ?tx" by simp
            show ?thesis
              unfolding Inr sum.case
              by (rule rewrite_save_safe [OF sw(1) 4(2) _ _ _ _ _ _ sw(2)])
                (auto intro!: safely_return quiet_intros intro: kept_failed kept_started
                  simp: same_candidate_def same_flags_def)
          qed (use sw 4(2) in \<open>auto intro!: safely_return kept_started\<close>)
        qed (use sv 4(2) in \<open>auto simp: started_def intro!: quiet_intros\<close>)
      qed (use sv 4(2) in \<open>auto intro!: safely_return kept_started\<close>)
    qed (use su 3(2) in \<open>auto simp: started_def intro!: quiet_intros\<close>)
  qed (use s in \<open>auto simp: started_def intro!: quiet_intros\<close>)
qed

section \<open>Management proof\<close>

lemma window_then_safe:
  assumes s: "started cs s" and live: "sv_alive s" and own: "owns tx (ch_id cs) s"
    and k: "\<And>cs' tx' f u. sv_alive u \<Longrightarrow> kept cs' f u \<Longrightarrow> safely consistent (k cs' tx' f) (\<lambda>(cs', f). kept cs' f) u"
    and q: "\<And>cs' tx' f. quiet (k cs' tx' f)"
  shows "safely consistent (do {
      (cs', tx', f) \<leftarrow> refresh_rollback_window env cs tx secs; k cs' tx' f }) (\<lambda>(cs', f). kept cs' f) s"
  by (intro safely_bind safely_weaken [OF refresh_safe [OF s live own]] quiet_intros q) (auto intro!: k)

lemma window_return_safe:
  assumes s: "started cs s" and live: "sv_alive s" and own: "owns tx (ch_id cs) s"
  shows "safely consistent (do {
      (cs', tx', f) \<leftarrow> refresh_rollback_window env cs tx secs; State_Monad.return (cs', f) })
    (\<lambda>(cs', f). kept cs' f) s"
  by (rule window_then_safe [OF assms]) (auto intro!: safely_return quiet_intros)

lemma kept_similar: "similar s s' \<Longrightarrow> kept cs f s \<Longrightarrow> kept cs f s'"
  using similar_op [of s s' False] similar_started [of s s' cs] by (simp add: kept_def)

lemma prepare_management_safe:
  assumes op: "op_ok False s" and live: "sv_alive s" and cs: "memory_ok False s \<Longrightarrow> current cs s"
  shows "safely consistent (prepare_management_proof env mode cs) (\<lambda>(cs', f). kept cs' f) s"
  unfolding prepare_management_proof_def
proof (rule lease_safe [OF op live], goal_cases)
  case (1 f)
  then show ?case using op live by (auto intro!: safely_return kept_failed)
next
  case 2
  then have st: "started cs s" using cs by (simp add: started_def)
  show ?case
    unfolding option.case
  proof (rule safely_bind [OF load_verified_safe [OF 2(2) live]], goal_cases)
    case (1 f u)
    then show ?case using similar_started [OF 1(2)] st by (auto intro!: safely_return kept_started)
  next
    case (2 tx u)
    have su: "started cs u" using similar_started [OF 2(2)] st by simp
    have lan: "safely consistent (do {
        (cs, tx, f) \<leftarrow> refresh_rollback_window env cs tx secs;
        (case f of
           Some f \<Rightarrow> State_Monad.return (cs, Some f)
         | None \<Rightarrow> do {
             i \<leftarrow> ask env (\<lambda>t. ev_issue_lan env t tx secs);
             State_Monad.return (cs, case i of None \<Rightarrow> None
               | Some e \<Rightarrow> Some (conflict ''management_proof_unavailable'' e)) }) }) (\<lambda>(cs', f). kept cs' f) u" for secs
    proof (rule window_then_safe [OF su 2(1,3)], goal_cases)
      case (1 cs' tx' f v)
      show ?case
      proof (cases f)
        case None
        show ?thesis
          unfolding None option.case
          by (rule safely_after [OF background_ask])
            (use 1 None in \<open>auto intro!: safely_return quiet_intros kept_started
              dest: similar_started [of _ _ cs'] simp: kept_def started_def\<close>)
      qed (use 1 in \<open>auto intro!: safely_return\<close>)
    qed (intro quiet_intros)
    show ?case
      unfolding sum.case Let_def
    proof (intro safely_if lan, goal_cases)
      case 1
      show ?case
      proof (rule safely_after [OF background_ask], goal_cases)
        case (4 v w)
        have sw: "started cs w" "owns tx (ch_id cs) w"
          using su 2(3) similar_started [OF 4(1)] similar_owns [OF 4(1)] by simp_all
        show ?case
          by (intro safely_sum safely_if window_return_safe [OF sw(1) 4(2) sw(2)])
            (use sw 4(2) in \<open>auto intro!: safely_return kept_started\<close>)
      qed (use su 2(1) in \<open>auto simp: started_def intro!: quiet_intros\<close>)
    next
      case 2
      then show ?case using su \<open>sv_alive u\<close> by (auto intro!: safely_return kept_started)
    qed
  next
    case 3
    show ?case by (intro quiet_intros)
  qed
qed (intro quiet_intros)

section \<open>Requests\<close>

lemma lease_refused:
  assumes c: "\<not> recovery_allows_mutation (sv_recovery s)" and s: "consistent_server s" "sv_alive s"
    and g: "\<And>f. background (g (Some f))" and q: "\<And>x. quiet (g x)"
  shows "safely consistent (State_Monad.bind acquire_mutation_lease g) (\<lambda>_. similar s) s"
proof -
  obtain f where f: "mutation_failure (sv_recovery s) = Some f" using c by (auto simp: mutation_failure_def)
  show ?thesis
    unfolding acquire_mutation_lease_def
    using s f by (intro safely_bind safely_reads q) (auto intro!: safely_background g)
qed

lemma refused_safe:
  assumes c: "\<not> recovery_allows_mutation (sv_recovery s)" and s: "consistent_server s" "sv_alive s"
  shows "safely consistent (validate_change_set env cs) (\<lambda>_. similar s) s"
    and "safely consistent (apply_change_set env cs) (\<lambda>_. similar s) s"
    and "safely consistent (confirm_change_set env cs) (\<lambda>_. similar s) s"
    and "safely consistent (rollback_change_set env cs expired) (\<lambda>_. similar s) s"
    and "safely consistent (create_draft_change env title descr base ops author) (\<lambda>_. similar s) s"
proof -
  note lease = lease_refused [OF c s]
  show "safely consistent (validate_change_set env cs) (\<lambda>_. similar s) s"
    using quiet_validate_change_set [of env cs] unfolding validate_change_set_def
    by (intro lease) (auto intro!: background_intros quiet_intros)
  show "safely consistent (apply_change_set env cs) (\<lambda>_. similar s) s"
    unfolding apply_change_set_def by (intro lease) (auto intro!: background_intros quiet_intros)
  show "safely consistent (confirm_change_set env cs) (\<lambda>_. similar s) s"
    unfolding confirm_change_set_def by (intro lease) (auto intro!: background_intros quiet_intros)
  show "safely consistent (rollback_change_set env cs expired) (\<lambda>_. similar s) s"
    unfolding rollback_change_set_def by (intro lease) (auto intro!: background_intros quiet_intros)
  show "safely consistent (create_draft_change env title descr base ops author) (\<lambda>_. similar s) s"
    unfolding create_draft_change_def by (intro lease) (auto intro!: background_intros quiet_intros)
qed

lemma refused_more_safe:
  assumes c: "\<not> recovery_allows_mutation (sv_recovery s)" and s: "consistent_server s" "sv_alive s"
  shows "safely consistent (prepare_management_proof env mode cs) (\<lambda>_. similar s) s"
    and "safely consistent (delete_change env cs) (\<lambda>_. similar s) s"
proof -
  note lease = lease_refused [OF c s]
  show "safely consistent (prepare_management_proof env mode cs) (\<lambda>_. similar s) s"
    unfolding prepare_management_proof_def by (intro lease) (auto intro!: background_intros quiet_intros)
  show "safely consistent (delete_change env cs) (\<lambda>_. similar s) s"
    unfolding delete_change_def
    using s by (intro safely_if safely_return lease) (auto intro!: background_intros quiet_intros)
qed

text \<open>A program that changes nothing the invariant sees while the fence is up.\<close>

definition harmless :: "('cfg, 'a) act \<Rightarrow> bool" where
  "harmless m \<longleftrightarrow> (\<forall>s. \<not> recovery_allows_mutation (sv_recovery s) \<longrightarrow> consistent_server s \<longrightarrow> sv_alive s \<longrightarrow>
     safely consistent m (\<lambda>_. similar s) s)"

named_theorems harmless_intros "programs that respect the fence"

lemma harmless_background: "background m \<Longrightarrow> harmless m"
  by (auto simp: harmless_def intro: safely_background)

lemma harmless_bind [harmless_intros]:
  assumes m: "harmless m" and f: "\<And>a. harmless (f a)" and q: "\<And>a. quiet (f a)"
  shows "harmless (State_Monad.bind m f)"
  unfolding harmless_def
proof (intro allI impI)
  fix s :: "'a server"
  assume s: "\<not> recovery_allows_mutation (sv_recovery s)" "consistent_server s" "sv_alive s"
  show "safely consistent (State_Monad.bind m f) (\<lambda>_. similar s) s"
  proof (intro safely_bind safely_weaken [OF m [unfolded harmless_def, rule_format, OF s]] q)
    fix a u assume u: "sv_alive u" "similar s u"
    have c: "\<not> recovery_allows_mutation (sv_recovery u)" "consistent_server u"
      using s u(2) similar_consistent [OF u(2)] by (simp_all add: similar_def)
    show "safely consistent (f a) (\<lambda>_. similar s) u"
      by (rule safely_weaken [OF f [unfolded harmless_def, rule_format, OF c u(1)]])
        (rule similar_trans [OF u(2)])
  qed
qed

lemma harmless_if [harmless_intros]: "harmless m \<Longrightarrow> harmless n \<Longrightarrow> harmless (if c then m else n)"
  by simp

lemma harmless_option [harmless_intros]:
  "harmless m \<Longrightarrow> (\<And>a. harmless (f a)) \<Longrightarrow> harmless (case x of None \<Rightarrow> m | Some a \<Rightarrow> f a)"
  by (cases x) auto

lemma harmless_prod [harmless_intros]: "(\<And>a b. harmless (f a b)) \<Longrightarrow> harmless (case x of (a, b) \<Rightarrow> f a b)"
  by (cases x) auto

lemma harmless_action [harmless_intros]:
  "harmless v \<Longrightarrow> (\<And>m. harmless (a m)) \<Longrightarrow> (\<And>m. harmless (c m)) \<Longrightarrow> harmless r \<Longrightarrow> harmless d \<Longrightarrow>
     harmless (case x of Do_validate \<Rightarrow> v | Do_apply m \<Rightarrow> a m | Do_confirm m \<Rightarrow> c m | Do_rollback \<Rightarrow> r | Do_delete \<Rightarrow> d)"
  by (cases x) auto

lemma harmless_return [harmless_intros]: "harmless (State_Monad.return a)"
  by (intro harmless_background background_intros)

lemma harmless_reads [harmless_intros]: "harmless (reads f)"
  by (intro harmless_background background_intros)

lemma harmless_requests [harmless_intros]:
  "harmless (validate_change_set env cs)" "harmless (apply_change_set env cs)" "harmless (confirm_change_set env cs)"
  "harmless (rollback_change_set env cs expired)" "harmless (delete_change env cs)"
  "harmless (prepare_management_proof env mode cs)"
  unfolding harmless_def by (intro allI impI refused_safe refused_more_safe; assumption)+

lemma background_verify [background_intros]: "background (verify_management_confirmation env mode cs)"
  unfolding verify_management_confirmation_def by (intro background_intros)

lemma op_server: "op_ok False s \<Longrightarrow> server_ok s"
  by (auto simp: op_ok_def server_ok_def)

lemma similar_server: "similar s s' \<Longrightarrow> sv_alive s \<Longrightarrow> server_ok s \<Longrightarrow> server_ok s'"
  using similar_consistent [of s s'] similar_memory [of s s' False] by (auto simp: server_ok_def similar_def)

lemma server_started:
  assumes "server_ok s" "sv_alive s" "recovery_allows_mutation (sv_recovery s)"
  shows "op_ok False s" "memory_ok False s" "consistent_server s" "\<not> sv_deferred s"
  using assms by (auto simp: server_ok_def op_ok_def)

lemma memory_current:
  assumes "memory_ok False s" "consistent_server s" "map_of (sv_changes s) cid = Some cs"
  shows "current cs s"
proof -
  have "tracked False (sv_durable s) (sv_log s) (sv_changes s) cid" using assms(1) by (simp add: memory_ok_def)
  with assms(3) obtain l where "last_change (sv_log s) cid = Some l" "same_change l cs" by (auto simp: tracked_def)
  with assms(2) have "ch_id cs = cid"
    using last_change_id [of "sv_log s" cid l]
    by (auto simp: consistent_server_def consistent_def same_change_def)
  with assms(3) show ?thesis by (simp add: current_def)
qed

text \<open>A request for a change that is in the memory.\<close>

lemma apply_request_safe:
  assumes op: "op_ok False s" and live: "sv_alive s" and cs: "memory_ok False s \<Longrightarrow> current cs s"
  shows "safely consistent (do {
      (cs, f) \<leftarrow> (if p then prepare_management_proof env mode cs else State_Monad.return (cs, None));
      (case f of
         Some f \<Rightarrow> State_Monad.return (Some f)
       | None \<Rightarrow> do { (cs, f) \<leftarrow> apply_change_set env cs; State_Monad.return f }) }) (\<lambda>_. op_ok False) s"
proof -
  have go: "safely consistent (case f of
         Some f \<Rightarrow> State_Monad.return (Some f)
       | None \<Rightarrow> do { (cs, f) \<leftarrow> apply_change_set env cs'; State_Monad.return f }) (\<lambda>_. op_ok False) u"
    if "sv_alive u" "op_ok False u" "f = None \<Longrightarrow> memory_ok False u \<Longrightarrow> current cs' u" for cs' f u
    using that
    by (intro safely_option safely_bind safely_weaken [OF apply_change_set_safe] quiet_intros)
      (auto intro!: safely_return)
  show ?thesis
  proof (cases p)
    case True
    show ?thesis
      unfolding if_P [OF True]
      by (intro safely_bind safely_weaken [OF prepare_management_safe [OF op live cs]] quiet_intros)
        (auto intro!: go simp: kept_def started_def)
  next
    case False
    show ?thesis
      unfolding if_not_P [OF False]
      using go [of s None cs] op live cs by (intro safely_bind safely_return quiet_intros) auto
  qed
qed

lemma confirm_request_safe:
  assumes op: "op_ok False s" and live: "sv_alive s" and cs: "memory_ok False s \<Longrightarrow> current cs s"
  shows "safely consistent (do {
      f \<leftarrow> (if p then verify_management_confirmation env mode cs else State_Monad.return None);
      (case f of
         Some f \<Rightarrow> State_Monad.return (Some f)
       | None \<Rightarrow> do { (cs, f) \<leftarrow> confirm_change_set env cs; State_Monad.return f }) }) (\<lambda>_. op_ok False) s"
proof (rule safely_after, goal_cases)
  case (5 f u)
  have "op_ok False u" "memory_ok False u \<Longrightarrow> current cs u"
    using op cs similar_op [OF 5(1)] similar_memory [OF 5(1)] similar_current [OF 5(1)] by simp_all
  with 5(2) show ?case
    by (intro safely_option safely_bind safely_weaken [OF confirm_change_set_safe] quiet_intros)
      (auto intro!: safely_return)
next
  case 1
  show ?case by (intro background_intros)
next
  case 2
  show ?case by (intro quiet_intros)
qed (use op live in \<open>auto simp: op_ok_def\<close>)

lemma safely_action:
  "safely C v Q s \<Longrightarrow> (\<And>m. safely C (a m) Q s) \<Longrightarrow> (\<And>m. safely C (c m) Q s) \<Longrightarrow> safely C r Q s \<Longrightarrow>
     safely C d Q s \<Longrightarrow>
     safely C (case x of Do_validate \<Rightarrow> v | Do_apply m \<Rightarrow> a m | Do_confirm m \<Rightarrow> c m | Do_rollback \<Rightarrow> r | Do_delete \<Rightarrow> d) Q s"
  by (cases x) auto

lemma handle_change_safe:
  assumes inv: "server_ok s" and live: "sv_alive s" and env: "sound env s"
  shows "safely consistent (handle_change env cid version action) (\<lambda>_. server_ok) s"
proof (cases "recovery_allows_mutation (sv_recovery s)")
  case True
  note st = server_started [OF inv live True]
  have "safely consistent (handle_change env cid version action) (\<lambda>_. op_ok False) s"
    unfolding handle_change_def
  proof (intro safely_bind [OF safely_reads [OF live]] safely_option, goal_cases)
    case (2 cs)
    then have cs: "current cs s" by (intro memory_current [OF st(2,3)])
    have out: "safely consistent (do { (cs, f) \<leftarrow> m; State_Monad.return f }) (\<lambda>_. op_ok False) s"
      if "safely consistent m (\<lambda>_. op_ok False) s" for m :: "('a, outcome) act"
      by (intro safely_bind safely_weaken [OF that] quiet_intros) (auto intro!: safely_return)
    show ?case
      by (intro safely_if safely_return safely_action live st out validate_change_set_safe rollback_change_set_safe
          delete_change_safe apply_request_safe confirm_request_safe cs env)
  qed (auto intro!: safely_return live st quiet_intros)
  then show ?thesis by (rule safely_weaken) (rule op_server)
next
  case False
  have con: "consistent_server s" using inv by (simp add: server_ok_def)
  have "harmless (handle_change env cid version action)"
    unfolding handle_change_def
    by (intro harmless_intros quiet_intros harmless_background [OF background_verify])
  then have "safely consistent (handle_change env cid version action) (\<lambda>_. similar s) s"
    using False con live by (simp add: harmless_def)
  then show ?thesis
    by (rule safely_weaken) (rule similar_server [OF _ live inv])
qed

section \<open>Timers\<close>

lemma expire_change_safe:
  assumes inv: "server_ok s" and live: "sv_alive s"
  shows "safely consistent (expire_change env cid) (\<lambda>_. server_ok) s"
proof (cases "recovery_allows_mutation (sv_recovery s)")
  case True
  note st = server_started [OF inv live True]
  have "safely consistent (expire_change env cid) (\<lambda>_. op_ok False) s"
    unfolding expire_change_def
  proof (intro safely_bind [OF safely_reads [OF live]] safely_option, goal_cases)
    case (2 timer)
    show ?case
    proof (rule safely_after [OF background_cancel _ st(3) live], goal_cases)
      case (2 a u)
      have u: "op_ok False u" "memory_ok False u" "consistent_server u"
        using st similar_op [OF 2(1)] similar_memory [OF 2(1)] similar_consistent [OF 2(1)] by simp_all
      show ?case
      proof (intro safely_option safely_if safely_return u 2(2), goal_cases)
        case (1 c)
        then have "map_of (sv_changes u) cid = Some c" using 2(1) by (simp add: similar_def)
        from memory_current [OF u(2,3) this] show ?case
          by (intro safely_bind safely_weaken [OF rollback_change_set_safe [OF u(1) 2(2)]] quiet_intros)
            (use u 2(2) in \<open>auto intro!: safely_return\<close>)
      qed
    qed (intro quiet_intros)
  qed (auto intro!: safely_return live st quiet_intros)
  then show ?thesis by (rule safely_weaken) (rule op_server)
next
  case False
  have con: "consistent_server s" using inv by (simp add: server_ok_def)
  have "harmless (expire_change env cid)"
    unfolding expire_change_def
    by (intro harmless_intros quiet_intros harmless_background [OF background_cancel])
  then have "safely consistent (expire_change env cid) (\<lambda>_. similar s) s"
    using False con live by (simp add: harmless_def)
  then show ?thesis
    by (rule safely_weaken) (rule similar_server [OF _ live inv])
qed

end
