(* ===== verification/Tx_Recovery_Safe.thy ===== *)
theory Tx_Recovery_Safe
  imports Tx_Request_Safe
begin

text \<open>
  Retention and recovery keep the invariant: what a crash left in the store is loaded, each change
  that was active is decided, and the gate opens only over a faithful memory.
\<close>

section \<open>Retention\<close>

lemma without_expired_filter:
  assumes "\<And>v. jv_object vw v"
  shows "without_expired vw cutoff fs b =
    filter (\<lambda>(k, v). \<not> value_deletable vw cutoff fs (Some terminal_states) v) b"
  using assms by (auto simp: without_expired_def delete_expired_def list_ex_iff Let_def)

lemma ordered_distinct: "ordered b \<Longrightarrow> distinct (map fst b)"
  by (simp add: ordered_def strict_sorted_iff)

lemma map_of_filter_distinct:
  assumes "distinct (map fst b)"
  shows "map_of (filter P b) k = (case map_of b k of None \<Rightarrow> None | Some v \<Rightarrow> if P (k, v) then Some v else None)"
  using assms
proof (induction b)
  case (Cons e b)
  then show ?case
    by (cases e) (auto simp: map_of_eq_None_iff image_iff split: option.splits if_splits)
qed simp

lemma without_expired_map:
  assumes "ordered b" "\<And>v. jv_object vw v"
  shows "map_of (without_expired vw cutoff fs b) k =
    (case map_of b k of None \<Rightarrow> None
     | Some v \<Rightarrow> if value_deletable vw cutoff fs (Some terminal_states) v then None else Some v)"
  unfolding without_expired_filter [OF assms(2)]
  using map_of_filter_distinct [OF ordered_distinct [OF assms(1)]] by (auto split: option.split)

lemma without_expired_ordered:
  assumes "ordered b" "\<And>v. jv_object vw v"
  shows "ordered (without_expired vw cutoff fs b)"
  using assms(1) bucket_filter_sorted unfolding without_expired_filter [OF assms(2)] ordered_def by blast

lemma deletable_terminal:
  "value_deletable vw cutoff fs (Some terminal_states) v \<Longrightarrow> jv_state vw v \<in> set terminal_states"
  by (simp add: value_deletable_def state_selected_def)

lemma views [simp]: "jv_object change_view c" "jv_object transaction_view r"
    "jv_state change_view = ch_state" "jv_state transaction_view = tr_state"
  by (simp_all add: change_view_def transaction_view_def)

lemma retain_changes:
  assumes "ordered (du_changes d)"
  shows "map_of (du_changes (retain env t d)) c = Some cs \<Longrightarrow> map_of (du_changes d) c = Some cs"
    and "map_of (du_changes d) c = Some cs \<Longrightarrow> ch_state cs \<notin> set terminal_states \<Longrightarrow>
      map_of (du_changes (retain env t d)) c = Some cs"
  using assms
  by (auto simp: retain_def Let_def without_expired_map dest: deletable_terminal split: option.splits if_splits)

lemma retain_transactions:
  assumes "ordered (du_transactions d)"
  shows "map_of (du_transactions (retain env t d)) k = Some r \<Longrightarrow> map_of (du_transactions d) k = Some r"
    and "map_of (du_transactions d) k = Some r \<Longrightarrow> tr_state r \<notin> set terminal_states \<Longrightarrow>
      map_of (du_transactions (retain env t d)) k = Some r"
  using assms
  by (auto simp: retain_def Let_def without_expired_map dest: deletable_terminal split: option.splits if_splits)

lemma consistent_retain:
  assumes con: "consistent d lg"
  shows "consistent (retain env t d) lg"
proof -
  note c = con [unfolded consistent_def]
  have o: "ordered (du_changes d)" "ordered (du_transactions d)" using c by simp_all
  have "ordered (du_changes (retain env t d))" "ordered (du_transactions (retain env t d))"
    using o by (simp_all add: retain_def Let_def without_expired_ordered)
  moreover have "settled (retain env t d) k cs"
    if "activated lg k" "map_of (du_changes (retain env t d)) k = Some cs" for k cs
  proof -
    have "settled d k cs" using c that retain_changes(1) [OF o(1)] by blast
    then show ?thesis using retain_transactions(2) [OF o(2)] by (auto simp: settled_def)
  qed
  moreover have "exclusive_in (retain env t d) k \<Longrightarrow> exclusive_in d k" for k
    using retain_changes(1) [OF o(1)] by (auto simp: exclusive_in_def)
  ultimately show ?thesis
    using c retain_changes(1) [OF o(1)] retain_transactions(1) [OF o(2)] unfolding consistent_def by blast
qed

lemma exclusive_lasting: "st \<in> exclusive_states \<Longrightarrow> st \<notin> set terminal_states"
  by (auto simp: exclusive_states_def terminal_states_def)

lemma retain_memory:
  assumes con: "consistent_server s" and m: "memory_ok b s"
    and s': "sv_durable s' = retain env t (sv_durable s)" "sv_log s' = sv_log s" "sv_changes s' = sv_changes s"
  shows "memory_ok b s'"
  unfolding memory_ok_def
proof
  fix c
  let ?d = "sv_durable s"
  have k: "consistent ?d (sv_log s)" using con by (simp add: consistent_server_def)
  then have o: "ordered (du_changes ?d)" by (simp add: consistent_def)
  have t: "tracked b ?d (sv_log s) (sv_changes s) c" using m by (simp add: memory_ok_def)
  have "map_of (du_changes (retain env t ?d)) c \<noteq> None"
    if "map_of (sv_changes s) c = Some cs" "ch_state cs \<in> exclusive_states" for cs
  proof -
    from t that obtain x l where "map_of (du_changes ?d) c = Some x" "last_change (sv_log s) c = Some l" "same_change l cs"
      by (auto simp: tracked_def)
    then show ?thesis
      using k that(2) retain_changes(2) [OF o, of c x] exclusive_lasting
      by (auto simp: consistent_def same_change_def)
  qed
  then show "tracked b (sv_durable s') (sv_log s') (sv_changes s') c"
    using t retain_changes(1) [OF o] by (auto simp: tracked_def s' exclusive_in_def)
qed

lemma quiet_maintain_part:
  "quiet (do {
     i \<leftarrow> instant env;
     live \<leftarrow> reads sv_alive;
     d \<leftarrow> reads sv_durable;
     (if \<not> live then State_Monad.return (Some ''process stopped'')
      else if \<not> retention_needed env i t d then State_Monad.return None
      else case ev_write_error env i of
        Some e \<Rightarrow> State_Monad.return (Some e)
      | None \<Rightarrow> do {
          updates (\<lambda>s. s\<lparr>sv_durable := retain env t (sv_durable s)\<rparr>);
          State_Monad.return None }) })"
  by (rule quietI) (auto simp: instant_def reads_def updates_def)

lemma maintain_safe:
  assumes s: "consistent_server s" "sv_alive s"
    and Q: "\<And>r s'. sv_alive s' \<Longrightarrow> consistent_server s' \<Longrightarrow> sv_deferred s' = sv_deferred s \<Longrightarrow>
      sv_recovery s' = sv_recovery s \<Longrightarrow> (\<And>b. memory_ok b s \<Longrightarrow> memory_ok b s') \<Longrightarrow> Q r s'"
  shows "safely consistent (maintain env) Q s"
  unfolding maintain_def
proof (intro safely_after [OF background_now _ s] safely_bind [OF safely_instant], goal_cases)
  case (2 t u)
  then show ?case using similar_consistent [OF 2(1)] s(1) by (simp add: consistent_server_def)
next
  case (4 t u k)
  let ?u = "u\<lparr>sv_clock := k\<rparr>"
  have sim: "similar s ?u" using 4(1) by (simp add: similar_def)
  have con: "consistent_server ?u" using similar_consistent [OF sim] s(1) by simp
  have keep: "Q r ?u" for r
    using 4 sim con similar_memory [OF sim] by (intro Q) (auto simp: similar_def)
  have final: "safely consistent (do {
      updates (\<lambda>s. s\<lparr>sv_durable := retain env t (sv_durable s)\<rparr>); State_Monad.return None }) Q ?u"
  proof (intro safely_bind [OF safely_updates] safely_return quiet_intros)
    let ?v = "?u\<lparr>sv_durable := retain env t (sv_durable ?u)\<rparr>"
    show "Q None ?v"
    proof (rule Q)
      show "consistent_server ?v"
        using con consistent_retain [of "sv_durable ?u" "sv_log ?u"] by (simp add: consistent_server_def)
      show "memory_ok b ?v" if "memory_ok b s" for b
        by (rule retain_memory [OF con, of b]) (use that similar_memory [OF sim] in simp_all)
    qed (use 4 sim in \<open>simp_all add: similar_def\<close>)
  qed (use 4 in simp_all)
  show ?case
    using 4 by (intro safely_read safely_if safely_option safely_return keep final) simp_all
next
  case (5 t u)
  show ?case
    by (rule quietI) (auto simp: reads_def updates_def split: if_splits option.splits)
qed (auto intro!: quiet_maintain_part)

section \<open>One interrupted change\<close>

text \<open>What recovery of one change leaves: an error stops the start; else the change is settled.\<close>

definition recovered :: "string \<Rightarrow> change bucket \<Rightarrow> error option \<Rightarrow> 'cfg server \<Rightarrow> bool" where
  "recovered c m r s \<longleftrightarrow> consistent_server s \<and> \<not> sv_deferred s \<and>
     (r = None \<longrightarrow> memory_ok True s \<and> (\<forall>k. k \<noteq> c \<longrightarrow> map_of (sv_changes s) k = map_of m k) \<and>
       (\<exists>cs. map_of (sv_changes s) c = Some cs \<and>
         (ch_state cs \<in> set active_states \<longrightarrow> ch_state cs = ''awaiting_confirmation'')))"

lemma recovered_stop: "consistent_server s \<Longrightarrow> \<not> sv_deferred s \<Longrightarrow> recovered c m (Some e) s"
  by (simp add: recovered_def)

lemma recovered_holding: "holding b x cs s \<Longrightarrow> recovered c m (Some e) s"
  by (simp add: recovered_def holding_def)

text \<open>A change that is committing when recovery meets it, activated or not.\<close>

definition finishing :: "change bucket \<Rightarrow> transaction \<Rightarrow> change \<Rightarrow> 'cfg server \<Rightarrow> bool" where
  "finishing m tx cs s \<longleftrightarrow> activating True tx cs s \<and> sv_changes s = m"

lemma finishing_after:
  assumes "background p" "\<And>a. quiet (f a)" "finishing m tx cs s" "sv_alive s"
    "\<And>a s'. finishing m tx cs s' \<Longrightarrow> sv_alive s' \<Longrightarrow> safely consistent (f a) Q s'"
  shows "safely consistent (State_Monad.bind p f) Q s"
proof (rule safely_after [OF assms(1,2) _ assms(4)])
  show "consistent_server s" using assms(3) by (simp add: finishing_def activating_def holding_def)
  show "similar s s' \<Longrightarrow> sv_alive s' \<Longrightarrow> safely consistent (f a) Q s'" for a s'
    using assms(3) similar_activating [of s s' True tx cs]
    by (intro assms(5)) (simp_all add: finishing_def similar_def)
qed

lemma finishing_recovered: "finishing m tx cs s \<Longrightarrow> recovered c m (Some e) s"
  by (auto simp: finishing_def activating_def intro: recovered_holding)

lemma finishing_same:
  "finishing m tx cs s \<Longrightarrow> same_change cs cs' \<Longrightarrow> same_flags cs cs' \<Longrightarrow> finishing m tx cs' s"
  using activating_same [of True tx cs s cs'] by (simp add: finishing_def)

lemma recovery_stop_safe:
  assumes "consistent_server s" "sv_alive s" "\<not> sv_deferred s"
  shows "safely consistent (recovery_stop env tx code reason ph message) (recovered c m) s"
  unfolding recovery_stop_def
  by (intro safely_bind mark_safe assms safely_return quiet_intros) (auto simp: recovered_def fenced_def)

lemma committed_recovered:
  assumes "memory_ok True u" "op_ok True u" "others_same (ch_id cs) s u" "map_of (sv_changes u) (ch_id cs) = Some cs"
    "ch_state cs = ''committed''" "sv_changes s = m"
  shows "recovered (ch_id cs) m None u"
  using assms by (auto simp: recovered_def op_ok_def others_same_def active_states_def)

lemma finalize_recovered_safe:
  assumes f: "finishing m tx cs s" and live: "sv_alive s"
  shows "safely consistent (finalize_recovered_commit env cs tx) (\<lambda>(r, cs'). recovered (ch_id cs) m r) s"
  unfolding finalize_recovered_commit_def
proof (intro finishing_after [OF background_previous _ f live], goal_cases)
  case (2 previous u)
  show ?case
  proof (intro finishing_after [OF background_load_candidate _ 2], goal_cases)
    case (2 c v)
    show ?case
    proof (intro safely_sum, goal_cases)
      case (1 e)
      then show ?case using 2 by (auto intro!: safely_return finishing_recovered)
    next
      case (2 candidate)
      show ?case
        unfolding Let_def
      proof (intro finishing_after [OF background_now _ \<open>finishing m tx cs v\<close> \<open>sv_alive v\<close>], goal_cases)
        case (2 t w)
        let ?cs = "cs\<lparr>ch_state := ''committed'', ch_version := ch_version cs + 1,
          ch_updated_at := time_truncate t second, ch_commit_phase := ''adapter_finalized''\<rparr>"
        have a: "activating True tx cs w" "sv_changes w = m" using 2(1) by (simp_all add: finishing_def)
        show ?case
        proof (intro safely_bind [OF activating_done [OF a(1) 2(2), where cs' = ?cs]] quiet_intros, goal_cases)
          case (9 e x)
          then show ?case by (auto intro!: safely_return recovered_holding)
        next
          case (10 x)
          show ?case
            unfolding option.case
          proof (rule holding_after [OF background_boot_guard _ 10(2,1)], goal_cases)
            case (2 g y)
            have y: "saved ?cs y" "sv_changes y = m"
              using 10(3,4) a(2) similar_saved [OF 2(1)] 2(1) by (simp_all add: similar_def)
            show ?case
            proof (intro safely_option, goal_cases)
              case 1
              show ?case
              proof (rule commit_tail_safe [OF 2(2) y(1) 2(3)], goal_cases)
                case (2 u)
                show ?case
                  unfolding prod.case
                  using committed_recovered [OF 2(2,3,4,5) _ y(2)] by simp
              qed simp
            next
              case (2 f)
              then show ?case
                using \<open>holding True True _ y\<close> \<open>sv_alive y\<close> by (auto intro!: safely_return recovered_holding)
            qed
          qed (intro quiet_intros)
        qed (auto simp: same_candidate_def same_flags_def record_of_def activation_entries_def split: if_splits)
      qed (intro quiet_intros)
    qed
  qed (intro quiet_intros)
qed (intro quiet_intros)

lemma recover_finalized_safe:
  assumes f: "finishing m tx cs s" and live: "sv_alive s"
  shows "safely consistent (recover_finalized env cs tx) (recovered (ch_id cs) m) s"
proof -
  let ?cs = "cs\<lparr>ch_commit_phase := ''adapter_finalized''\<rparr>"
  have W: "finishing m tx ?cs s"
    by (rule finishing_same [OF f]) (simp_all add: same_change_def same_candidate_def same_flags_def)
  have id: "ch_id ?cs = ch_id cs" by simp
  show ?thesis
    unfolding recover_finalized_def
  proof (intro safely_bind safely_weaken [OF finalize_recovered_safe [OF W live]] quiet_intros, goal_cases)
    case (1 a u)
    obtain r cs' where a: "a = (r, cs')" by fastforce
    have R: "recovered (ch_id cs) m r u" using 1(2) by (simp add: a)
    show ?case
      unfolding a prod.case
    proof (intro safely_option, goal_cases)
      case 1
      with R \<open>sv_alive u\<close> show ?case by (auto intro!: safely_return)
    next
      case (2 e)
      with R \<open>sv_alive u\<close> show ?case by (intro recovery_stop_safe) (simp_all add: recovered_def)
    qed
  qed
qed

lemma finishing_stop_safe:
  assumes "finishing m tx cs s" "sv_alive s"
  shows "safely consistent (recovery_stop env tx code reason ph message) (recovered c m') s"
  using assms by (intro recovery_stop_safe) (simp_all add: finishing_def activating_def holding_def)

lemma recover_pending_safe:
  assumes f: "finishing m tx cs s" and live: "sv_alive s"
  shows "safely consistent (recover_pending env cs tx ph) (recovered (ch_id cs) m) s"
  unfolding recover_pending_def
proof (intro safely_if finishing_stop_safe [OF f live] finishing_after [OF background_adapter _ f live], goal_cases)
  case (3 finalized u)
  have W: "finishing m tx (cs\<lparr>ch_steps := ch_steps cs @ [finalized]\<rparr>) u"
    by (rule finishing_same [OF 3(2)]) (simp_all add: same_change_def same_candidate_def same_flags_def)
  show ?case
    using recover_finalized_safe [OF W 3(3)]
    by (intro safely_option finishing_stop_safe [OF 3(2,3)]) simp_all
qed (intro quiet_intros | simp)+

text \<open>What recovery knows when it looks at a change.\<close>

definition met :: "change bucket \<Rightarrow> transaction \<Rightarrow> change \<Rightarrow> 'cfg server \<Rightarrow> bool" where
  "met m tx cs s \<longleftrightarrow> memory_ok True s \<and> consistent_server s \<and> \<not> sv_deferred s \<and> current cs s \<and>
     ch_state cs \<in> set active_states \<and> owns tx (ch_id cs) s \<and> tx_id tx = ch_transaction_id cs \<and> sv_changes s = m"

lemma similar_met: "similar s s' \<Longrightarrow> met m tx cs s' = met m tx cs s"
  using similar_memory [of s s' True] similar_consistent [of s s'] similar_current [of s s' cs]
    similar_owns [of s s' tx "ch_id cs"]
  by (simp add: met_def similar_def)

lemma met_finishing:
  assumes "met m tx cs s" "ch_state cs = ''committing''"
  shows "finishing m tx cs s"
proof -
  have h: "holding True True cs s"
    using assms current_holding(1) [of s True cs] by (simp add: met_def exclusive_states_def)
  have m: "memory_ok True s" "current cs s" "consistent_server s" using assms by (simp_all add: met_def)
  then have "tracked True (sv_durable s) (sv_log s) (sv_changes s) (ch_id cs)" "consistent (sv_durable s) (sv_log s)"
    by (simp_all add: memory_ok_def consistent_server_def)
  with m(2) have "both_verified cs"
    using assms(2) last_change_verified [of "sv_log s" "ch_id cs"]
    by (fastforce simp: tracked_def current_def same_change_def same_flags_def both_verified_def
        consistent_def verified_states_def)
  with h assms show ?thesis by (simp add: finishing_def activating_def met_def)
qed

lemma met_stop_safe:
  assumes "met m tx cs s" "sv_alive s"
  shows "safely consistent (recovery_stop env tx code reason ph message) (recovered c m') s"
  using assms by (intro recovery_stop_safe) (simp_all add: met_def)

lemma active_back: "st \<in> set active_states \<Longrightarrow> st \<in> rollback_from \<and> st \<noteq> ''committed''"
  by (auto simp: active_states_def rollback_from_def rollback_states_def)

lemma final_inactive: "st \<in> final_states \<Longrightarrow> st \<notin> set active_states"
  by (auto simp: final_states_def active_states_def)

lemma recover_rollback_safe:
  assumes met: "met m tx cs s" and live: "sv_alive s" and final: "final \<in> final_states"
    and act: "\<not> activated (sv_log s) (ch_id cs)"
  shows "safely consistent (do {
      (cs, f) \<leftarrow> rollback_locked env cs tx final reason;
      State_Monad.return (map_option af_message f) }) (recovered (ch_id cs) m) s"
proof -
  have st: "ch_state cs \<in> rollback_from" "ch_state cs \<noteq> ''committed''"
    using met active_back by (auto simp: met_def)
  have w: "working True (ch_state cs \<in> exclusive_states) tx cs s"
    using met st act by (intro current_working) (auto simp: met_def)
  show ?thesis
  proof (intro safely_bind safely_weaken [OF rollback_locked_safe [OF w live st(1) final]] quiet_intros, goal_cases)
    case (1 out u)
    obtain cs' f where out: "out = (cs', f)" by fastforce
    have "recovered (ch_id cs) m (map_option af_message f) u"
      using 1(2) met final_inactive [OF final]
      by (cases f) (auto simp: out rolled_def recovered_def op_ok_def others_same_def met_def)
    with 1(1) show ?case by (auto simp: out intro!: safely_return)
  qed
qed

lemma recover_uncommitted_safe:
  assumes met: "met m tx cs s" and live: "sv_alive s"
    and act: "activated (sv_log s) (ch_id cs) \<Longrightarrow> ch_state cs = ''committing'' \<and> control_committed ph"
  shows "safely consistent (recover_uncommitted env cs tx ph matches) (recovered (ch_id cs) m) s"
  unfolding recover_uncommitted_def
proof (intro safely_after [OF background_now _ _ live], goal_cases)
  case (3 t u)
  have mu: "met m tx cs u" using met similar_met [OF 3(1)] by simp
  show ?case
  proof (intro safely_if met_stop_safe [OF mu 3(2)], goal_cases)
    case 1
    show ?case
    proof (intro safely_after [OF background_schedule] safely_return, goal_cases)
      case (5 a v)
      have "met m tx cs v" using mu similar_met [OF 5(1)] by simp
      with 1 5(2) show ?case by (auto simp: recovered_def met_def current_def)
    qed (use mu 3(2) in \<open>auto simp: met_def intro!: quiet_intros\<close>)
  next
    case 2
    show ?case
    proof (rule safely_after [OF background_now], goal_cases)
      case (4 t2 v)
      have mv: "met m tx cs v" using mu similar_met [OF 4(1)] by simp
      have "\<not> activated (sv_log v) (ch_id cs)"
        using act 2 3(1) 4(1) by (auto simp: similar_def)
      with mv 4(2) show ?case by (intro recover_rollback_safe) (auto simp: final_states_def)
    qed (use mu 3(2) in \<open>auto simp: met_def intro!: quiet_intros\<close>)
  qed
qed (use met in \<open>auto simp: met_def intro!: quiet_intros\<close>)

lemma recover_decide_safe:
  assumes met: "met m tx cs s" and live: "sv_alive s"
    and act: "activated (sv_log s) (ch_id cs) \<Longrightarrow> ch_state cs = ''committing'' \<and> control_committed ph"
  shows "safely consistent (recover_decide env cs tx ph matches ast) (recovered (ch_id cs) m) s"
proof -
  have undecided: "safely consistent (recover_uncommitted env cs tx ph matches) (recovered (ch_id cs) m) s"
    by (rule recover_uncommitted_safe [OF met live act])
  show ?thesis
  proof (cases "ch_state cs = ''committing'' \<and> matches")
    case True
    then have f: "finishing m tx cs s" by (intro met_finishing [OF met]) simp
    have finish: "safely consistent (do { (r, cs) \<leftarrow> finalize_recovered_commit env cs tx; State_Monad.return r })
        (recovered (ch_id cs) m) s"
      by (intro safely_bind safely_weaken [OF finalize_recovered_safe [OF f live]] quiet_intros)
        (auto intro!: safely_return)
    show ?thesis
      unfolding recover_decide_def if_P [OF True]
      by (intro safely_if finish undecided recover_pending_safe [OF f live] recover_finalized_safe [OF f live]
          met_stop_safe [OF met live])
  next
    case False
    show ?thesis
      unfolding recover_decide_def if_not_P [OF False] by (rule undecided)
  qed
qed

lemma met_activated:
  assumes met: "met m tx cs s" and act: "activated (sv_log s) (ch_id cs)"
  shows "ch_state cs = ''committing''"
    and "map_of (du_transactions (sv_durable s)) (tx_id tx) = Some r \<Longrightarrow> control_committed (tr_commit_phase r)"
proof -
  have m: "memory_ok True s" "current cs s" "consistent_server s" "ch_state cs \<noteq> ''committed''"
      "tx_id tx = ch_transaction_id cs"
    using met active_back by (auto simp: met_def)
  then have t: "tracked True (sv_durable s) (sv_log s) (sv_changes s) (ch_id cs)"
    and k: "consistent (sv_durable s) (sv_log s)"
    by (simp_all add: memory_ok_def consistent_server_def)
  from t m(2,4) act show st: "ch_state cs = ''committing''" by (auto simp: tracked_def current_def)
  from t m(2) st obtain l where l: "last_change (sv_log s) (ch_id cs) = Some l" "same_change l cs"
      "map_of (du_changes (sv_durable s)) (ch_id cs) \<noteq> None"
    by (auto simp: tracked_def current_def exclusive_states_def)
  with k have "map_of (du_changes (sv_durable s)) (ch_id cs) = Some l" by (auto simp: consistent_def)
  with k act have "settled (sv_durable s) (ch_id cs) l" by (auto simp: consistent_def)
  with l(2) st m(5) show "control_committed (tr_commit_phase r)"
    if "map_of (du_transactions (sv_durable s)) (tx_id tx) = Some r"
    using that by (auto simp: settled_def same_change_def same_candidate_def)
qed

lemma recover_change_safe:
  assumes m: "memory_ok True s" "consistent_server s" "\<not> sv_deferred s" and live: "sv_alive s"
    and cs: "map_of (sv_changes s) cid = Some cs" "ch_state cs \<in> set active_states"
  shows "safely consistent (recover_change env cid) (recovered cid (sv_changes s)) s"
proof -
  have "tracked True (sv_durable s) (sv_log s) (sv_changes s) cid" using m(1) by (simp add: memory_ok_def)
  with cs(1) obtain l where "last_change (sv_log s) cid = Some l" "same_change l cs" by (auto simp: tracked_def)
  with m(2) have id: "ch_id cs = cid"
    using last_change_id [of "sv_log s" cid l] by (auto simp: consistent_server_def consistent_def same_change_def)
  have stop: "sv_alive u \<Longrightarrow> similar s u \<Longrightarrow>
      safely consistent (State_Monad.return (Some e)) (recovered cid (sv_changes s)) u" for e u
    using m similar_consistent [of s u] by (auto intro!: safely_return recovered_stop simp: similar_def)
  show ?thesis
    unfolding recover_change_def
  proof (intro safely_read, unfold cs option.case, intro safely_bind [OF load_transaction_safe [OF m(2) live]], goal_cases)
    case (1 f u)
    then show ?case by (auto intro!: stop)
  next
    case (2 tx u)
    have mu: "met (sv_changes s) tx cs u"
      using 2 m cs similar_memory [OF 2(2)] similar_consistent [OF 2(2)]
      by (simp add: met_def similar_def current_def id)
    show ?case
      unfolding sum.case
    proof (intro safely_bind [OF safely_load] safely_sum, goal_cases)
      case 1
      then show ?case using mu by (simp add: met_def consistent_server_def)
    next
      case (3 e t a)
      then show ?case
        using 2(1) stop [of "u\<lparr>sv_clock := t\<rparr>"] 2(2) by (simp add: similar_def)
    next
      case (6 v t r)
      then have v: "map_of (du_transactions (sv_durable u)) (tx_id tx) = Some r" by simp
      let ?u = "u\<lparr>sv_clock := t\<rparr>"
      have sim: "similar u ?u" by (simp add: similar_def)
      show ?case
      proof (rule safely_after [OF background_adapter], goal_cases)
        case (5 status w)
        have s': "similar u w" by (rule similar_trans [OF sim 5(1)])
        have mw: "met (sv_changes s) tx cs w" using mu similar_met [OF s'] by simp
        have "map_of (du_transactions (sv_durable w)) (tx_id tx) = Some r" using v s' by (simp add: similar_def)
        with met_activated [OF mw] show ?case
          using recover_decide_safe [OF mw 5(2)] by (simp add: id)
      qed (use mu 2(1) sim similar_met [OF sim] in \<open>auto simp: met_def intro!: quiet_intros\<close>)
    qed (use 2(1) in \<open>auto intro!: quiet_intros\<close>)
  qed (intro quiet_intros)
qed

text \<open>All of them: when none stops the start, every active change awaits its confirmation.\<close>

lemma recover_changes_safe:
  assumes "memory_ok True s" "consistent_server s" "\<not> sv_deferred s" "sv_alive s" "distinct ids"
    and "\<And>c. c \<in> set ids \<Longrightarrow> \<exists>cs. map_of (sv_changes s) c = Some cs \<and> ch_state cs \<in> set active_states"
  shows "safely consistent (recover_changes env ids) (\<lambda>r s'. consistent_server s' \<and> \<not> sv_deferred s' \<and>
    (r = None \<longrightarrow> memory_ok True s' \<and>
      (\<forall>k. k \<notin> set ids \<longrightarrow> map_of (sv_changes s') k = map_of (sv_changes s) k) \<and>
      (\<forall>k\<in>set ids. \<forall>cs. map_of (sv_changes s') k = Some cs \<longrightarrow> ch_state cs \<in> set active_states \<longrightarrow>
        ch_state cs = ''awaiting_confirmation''))) s"
  using assms
proof (induction ids arbitrary: s)
  case Nil
  then show ?case by (auto intro!: safely_return)
next
  case (Cons c ids)
  from Cons.prems(6) obtain cs where cs: "map_of (sv_changes s) c = Some cs" "ch_state cs \<in> set active_states"
    by auto
  show ?case
    unfolding recover_changes.simps
  proof (intro safely_bind safely_weaken [OF recover_change_safe [OF Cons.prems(1-4) cs]] quiet_intros
      quiet_recover_changes, goal_cases)
    case (1 r u)
    show ?case
    proof (intro safely_option, goal_cases)
      case 1
      with \<open>recovered c (sv_changes s) r u\<close> have u: "memory_ok True u" "consistent_server u" "\<not> sv_deferred u"
          "\<And>k. k \<noteq> c \<Longrightarrow> map_of (sv_changes u) k = map_of (sv_changes s) k"
        and cu: "\<And>cs. map_of (sv_changes u) c = Some cs \<Longrightarrow> ch_state cs \<in> set active_states \<Longrightarrow>
          ch_state cs = ''awaiting_confirmation''"
        by (auto simp: recovered_def)
      have ids: "\<exists>cs. map_of (sv_changes u) k = Some cs \<and> ch_state cs \<in> set active_states" if "k \<in> set ids" for k
        using Cons.prems(5,6) u(4) [of k] that by (metis distinct.simps(2) list.set_intros(2))
      have d: "distinct ids" using Cons.prems(5) by simp
      show ?case
        by (rule safely_weaken [OF Cons.IH [OF u(1-3) \<open>sv_alive u\<close> d ids]])
          (use u(4) cu Cons.prems(5) in auto)
    next
      case (2 e)
      with \<open>recovered c (sv_changes s) r u\<close> \<open>sv_alive u\<close> show ?case
        by (auto intro!: safely_return simp: recovered_def)
    qed
  qed
qed

lemma recover_transactions_safe:
  assumes s: "memory_ok True s" "consistent_server s" "\<not> sv_deferred s" "sv_alive s" and o: "ordered (sv_changes s)"
  shows "safely consistent (recover_transactions env) (\<lambda>r s'. consistent_server s' \<and> \<not> sv_deferred s' \<and>
    (r = None \<longrightarrow> memory_ok True s' \<and>
      (\<forall>k cs. map_of (sv_changes s') k = Some cs \<longrightarrow> ch_state cs \<in> set active_states \<longrightarrow>
        ch_state cs = ''awaiting_confirmation''))) s"
proof -
  let ?ids = "active_change_ids (sv_changes s)"
  have d: "distinct (map fst (sv_changes s))" by (rule ordered_distinct [OF o])
  have di: "distinct ?ids" using d unfolding active_change_ids_def by (rule distinct_map_filter)
  have ids: "c \<in> set ?ids \<longleftrightarrow> (\<exists>cs. map_of (sv_changes s) c = Some cs \<and> ch_state cs \<in> set active_states)" for c
    using d by (auto simp: active_change_ids_def map_of_eq_Some_iff image_iff)
  have ex: "c \<in> set ?ids \<Longrightarrow> \<exists>cs. map_of (sv_changes s) c = Some cs \<and> ch_state cs \<in> set active_states" for c
    using ids by simp
  show ?thesis
    unfolding recover_transactions_def
  proof (intro safely_read safely_weaken [OF recover_changes_safe [OF s di ex]], goal_cases)
    case (2 r u)
    have "ch_state cs = ''awaiting_confirmation''"
      if "r = None" "map_of (sv_changes u) k = Some cs" "ch_state cs \<in> set active_states" for k cs
    proof (cases "k \<in> set ?ids")
      case False
      with 2(2) that(1,2) have "map_of (sv_changes s) k = Some cs" by simp
      with False that(3) ids show ?thesis by blast
    qed (use 2(2) that in blast)
    with 2(2) show ?case by blast
  qed assumption
qed

section \<open>Loading the store\<close>

lemma persisted_fold:
  assumes "distinct (map fst b)" "ordered m" "\<And>k cs. (k, cs) \<in> set b \<Longrightarrow> ch_id cs = k \<and> k \<noteq> []"
  shows "ordered (foldl (\<lambda>m (k, cs). if ch_id cs = [] then m else bucket_put (ch_id cs) cs m) m b) \<and>
    map_of (foldl (\<lambda>m (k, cs). if ch_id cs = [] then m else bucket_put (ch_id cs) cs m) m b) c =
      (case map_of b c of None \<Rightarrow> map_of m c | Some cs \<Rightarrow> Some cs)"
  using assms
proof (induction b arbitrary: m)
  case (Cons e b)
  obtain k cs where e: "e = (k, cs)" by fastforce
  have "(k, cs) \<in> set (e # b)" unfolding e by simp
  from Cons.prems(3) [OF this] have id: "ch_id cs = k" "k \<noteq> []" by blast+
  have new: "map_of b k = None" "distinct (map fst b)" using Cons.prems(1) e by (simp_all add: map_of_eq_None_iff)
  have b: "ch_id cs' = k' \<and> k' \<noteq> []" if "(k', cs') \<in> set b" for k' cs'
    by (rule Cons.prems(3)) (rule list.set_intros(2) [OF that])
  have o: "ordered (bucket_put k cs m)" using Cons.prems(2) by (rule ordered_put)
  let ?f = "\<lambda>m (k, cs). if ch_id cs = [] then m else bucket_put (ch_id cs) cs m"
  have fold: "foldl ?f m (e # b) = foldl ?f (bucket_put k cs m) b"
    unfolding e foldl.simps prod.case id(1) if_not_P [OF id(2)] ..
  have "map_of (e # b) c = (if c = k then Some cs else map_of b c)" unfolding e by simp
  with Cons.IH [OF new(2) o b] new(1) show ?case
    unfolding fold map_of_bucket_put by (auto split: option.split)
qed simp

lemma persisted_changes_map:
  assumes "consistent d lg"
  shows "ordered (persisted_changes (du_changes d))"
    and "map_of (persisted_changes (du_changes d)) c = map_of (du_changes d) c"
proof -
  have o: "ordered (du_changes d)" using assms by (simp add: consistent_def)
  have ids: "ch_id cs = k \<and> k \<noteq> []" if "(k, cs) \<in> set (du_changes d)" for k cs
  proof -
    have "map_of (du_changes d) k = Some cs" using that ordered_distinct [OF o] by simp
    with assms have "last_change lg k = Some cs" "lifecycle_ok lg" "last_change lg [] = None"
      by (simp_all add: consistent_def)
    then show ?thesis using last_change_id by auto
  qed
  have e: "ordered []" by (simp add: ordered_def)
  from persisted_fold [OF ordered_distinct [OF o] e ids]
  show "ordered (persisted_changes (du_changes d))"
    "map_of (persisted_changes (du_changes d)) c = map_of (du_changes d) c"
    by (simp_all add: persisted_changes_def split: option.split)
qed

lemma loaded_memory:
  assumes con: "consistent_server s" and m: "sv_changes s = persisted_changes (du_changes (sv_durable s))"
  shows "memory_ok True s"
  unfolding memory_ok_def
proof
  fix c
  have k: "consistent (sv_durable s) (sv_log s)" using con by (simp add: consistent_server_def)
  have "map_of (sv_changes s) c = map_of (du_changes (sv_durable s)) c"
    using persisted_changes_map(2) [OF k] m by simp
  then show "tracked True (sv_durable s) (sv_log s) (sv_changes s) c"
    using k by (auto simp: tracked_def exclusive_in_def consistent_def settled_def same_flags_def)
qed

lemma load_state_safe:
  assumes s: "consistent_server s" "sv_alive s" "\<not> sv_deferred s"
    and fail: "\<And>e s'. sv_alive s' \<Longrightarrow> consistent_server s' \<Longrightarrow> Q (Some e) s'"
    and ok: "\<And>s'. sv_alive s' \<Longrightarrow> consistent_server s' \<Longrightarrow> \<not> sv_deferred s' \<Longrightarrow> memory_ok True s' \<Longrightarrow>
      ordered (sv_changes s') \<Longrightarrow> Q None s'"
  shows "safely consistent (load_state env) Q s"
  unfolding load_state_def
proof (intro safely_bind [OF safely_instant], goal_cases)
  case (3 t)
  let ?s = "s\<lparr>sv_clock := t\<rparr>"
  have con: "consistent_server ?s" using s(1) by (simp add: consistent_server_def)
  have k: "consistent (sv_durable s) (sv_log s)" using s(1) by (simp add: consistent_server_def)
  have loaded: "Q None (?s\<lparr>sv_changes := persisted_changes (du_changes (sv_durable ?s)), sv_config_version := v,
      sv_active_config := c, sv_active_revision := r\<rparr>)" for v c r
  proof (rule ok)
    let ?u = "?s\<lparr>sv_changes := persisted_changes (du_changes (sv_durable ?s)), sv_config_version := v,
      sv_active_config := c, sv_active_revision := r\<rparr>"
    show cu: "consistent_server ?u" using con by (simp add: consistent_server_def)
    show "memory_ok True ?u" by (rule loaded_memory [OF cu]) simp
    show "ordered (sv_changes ?u)" using persisted_changes_map(1) [OF k] by simp
  qed (use s in simp_all)
  show ?case
    by (intro safely_read safely_option safely_return fail)
      (use s con loaded in \<open>auto intro!: safely_bind [OF safely_updates] safely_return quiet_intros\<close>)
qed (use s in \<open>auto simp: consistent_server_def intro!: quiet_intros\<close>)

section \<open>Opening the gate\<close>

lemma background_reconcile [background_intros]: "background (reconcile_attempts env n tg)"
  by (induction n) (auto intro!: background_intros)

lemma background_recover_adapter [background_intros]: "background (recover_adapter env tg)"
  unfolding recover_adapter_def reconcile_committed_target_def by (intro background_intros | simp)+

lemma background_recover_revision [background_intros]: "background (recover_revision env rv i a)"
  unfolding recover_revision_def Let_def by (intro background_intros)

lemma background_recover_baseline [background_intros]: "background (recover_baseline env rv i a)"
  unfolding recover_baseline_def Let_def by (intro background_intros | simp)+

lemma background_active_recovery [background_intros]: "background (active_recovery_status env)"
  unfolding active_recovery_status_def by (intro background_intros)

definition opened :: "change bucket \<Rightarrow> 'cfg server \<Rightarrow> bool" where
  "opened m s \<longleftrightarrow> consistent_server s \<and> \<not> sv_deferred s \<and> memory_ok False s \<and> sv_changes s = m"

lemma opened_server: "opened m s \<Longrightarrow> server_ok s"
  by (simp add: opened_def server_ok_def)

lemma similar_opened: "similar s s' \<Longrightarrow> opened m s' = opened m s"
  using similar_consistent [of s s'] similar_memory [of s s' False] by (simp add: opened_def similar_def)

lemma opened_status:
  assumes o: "opened m s" and live: "sv_alive s"
    and Q: "\<And>r u. sv_alive u \<Longrightarrow> opened m u \<Longrightarrow> Q r u"
  shows "safely consistent (set_recovery_status env st) Q s"
proof (rule set_status_safe [OF _ live])
  fix r u assume u: "sv_alive u" "similar (s\<lparr>sv_recovery := sv_recovery u\<rparr>) u"
  have "opened m (s\<lparr>sv_recovery := x\<rparr>)" for x
    using o by (auto simp: opened_def consistent_server_def memory_ok_def)
  then show "Q r u" using similar_opened [OF u(2)] u(1) by (intro Q) simp_all
qed (use o in \<open>simp add: opened_def\<close>)

lemma opened_after:
  assumes "background p" "\<And>a. quiet (f a)" "opened m s" "sv_alive s"
    "\<And>a s'. opened m s' \<Longrightarrow> sv_alive s' \<Longrightarrow> safely consistent (f a) Q s'"
  shows "safely consistent (State_Monad.bind p f) Q s"
proof (rule safely_after [OF assms(1,2) _ assms(4)])
  show "consistent_server s" using assms(3) by (simp add: opened_def)
  show "similar s s' \<Longrightarrow> sv_alive s' \<Longrightarrow> safely consistent (f a) Q s'" for a s'
    using assms(3) similar_opened [of s s' m] by (intro assms(5)) simp_all
qed

lemma recover_and_assign_safe:
  assumes "opened m s" "sv_alive s"
  shows "safely consistent (recover_and_assign env) (\<lambda>_. opened m) s"
  unfolding recover_and_assign_def recover_committed_dataplane_def
  using assms
  by (intro safely_bind opened_after [where m = m] opened_status [where m = m] safely_if safely_option safely_return
      background_intros quiet_intros)

end
