(* ===== verification/Tx_Run.thy ===== *)
theory Tx_Run
  imports Tx_Recovery_Safe
begin

text \<open>
  Every run of the server: starts, requests, expiring timers, retention and deferred recovery in any
  order, each in an environment of its own, and a crash at any effect of any of them. The invariant
  of the earlier theories holds in all of them, and the safety properties of the protocol follow.
\<close>

section \<open>Start\<close>

lemma safely_and_then:
  assumes "safely C m (\<lambda>r s'. case r of Some e \<Rightarrow> Q (Some e) s' | None \<Rightarrow> safely C n Q s') s" "quiet n"
  shows "safely C (and_then m n) Q s"
  unfolding and_then_def
proof (intro safely_bind [OF safely_weaken [OF assms(1)]], goal_cases)
  case (1 r u)
  then show ?case by (cases r) (auto intro: safely_return)
qed (intro quiet_intros assms(2))

lemma background_baseline [background_intros]: "background (ensure_baseline_revision env)"
  unfolding ensure_baseline_revision_def Let_def
  by (intro background_intros background_save) (auto simp: neutral_def write_entries_def)

lemma background_build [background_intros]: "background (build_runtime env)"
  unfolding build_runtime_def by (intro background_intros)

definition awaiting_only :: "change bucket \<Rightarrow> bool" where
  "awaiting_only m \<longleftrightarrow> (\<forall>k cs. map_of m k = Some cs \<longrightarrow> ch_state cs \<in> set active_states \<longrightarrow>
     ch_state cs = ''awaiting_confirmation'')"

lemma awaiting_memory:
  assumes "memory_ok True s" "awaiting_only (sv_changes s)"
  shows "memory_ok False s"
  using assms by (fastforce simp: memory_ok_def tracked_def awaiting_only_def active_states_def)

text \<open>What the construction of a server yields: an error, or a memory ready to be opened.\<close>

definition built :: "error option \<Rightarrow> 'cfg server \<Rightarrow> bool" where
  "built r s \<longleftrightarrow> consistent_server s \<and>
     (r = None \<longrightarrow> opened (sv_changes s) s \<and> awaiting_only (sv_changes s))"

lemma built_error [simp]: "built (Some e) s = consistent_server s"
  by (simp add: built_def)

lemma similar_built: "similar s s' \<Longrightarrow> built r s' = built r s"
  using similar_opened [of s s' "sv_changes s"] similar_consistent [of s s']
  by (simp add: built_def similar_def)

lemma recover_then_build_safe:
  assumes s: "memory_ok True s" "consistent_server s" "\<not> sv_deferred s" "sv_alive s" "ordered (sv_changes s)"
  shows "safely consistent (and_then (recover_transactions env) (build_runtime env)) built s"
proof (intro safely_and_then safely_weaken [OF recover_transactions_safe [OF s]] quiet_intros, goal_cases)
  case (1 r u)
  show ?case
  proof (cases r)
    case None
    have "awaiting_only (sv_changes u)" "memory_ok True u" using 1 None by (auto simp: awaiting_only_def)
    then have b: "built r' u" for r'
      using awaiting_memory [of u] 1 by (simp add: built_def opened_def)
    have "safely consistent (build_runtime env) built u"
      by (rule safely_background [OF background_build]) (use 1 b similar_built in auto)
    with None show ?thesis by simp
  qed (use 1 in simp)
qed

lemma construct_safe:
  assumes s: "consistent_server s" "sv_alive s" "\<not> sv_deferred s"
  shows "safely consistent (and_then (ensure_baseline_revision env) (and_then (maintain env)
    (and_then (load_state env) (and_then (build_runtime env)
      (and_then (recover_transactions env) (build_runtime env)))))) built s"
proof (intro safely_and_then safely_background [OF background_baseline] s quiet_intros, goal_cases)
  case (1 r u)
  have u: "consistent_server u" "\<not> sv_deferred u"
    using similar_consistent [OF 1(1)] s 1(1) by (simp_all add: similar_def)
  have go: "safely consistent (and_then (maintain env) (and_then (load_state env) (and_then (build_runtime env)
      (and_then (recover_transactions env) (build_runtime env))))) built u"
  proof (intro safely_and_then maintain_safe [OF u(1) 1(2)] quiet_intros, goal_cases)
    case (1 r v)
    have go: "safely consistent (and_then (load_state env) (and_then (build_runtime env)
        (and_then (recover_transactions env) (build_runtime env)))) built v"
    proof (intro safely_and_then load_state_safe quiet_intros, goal_cases)
      case (5 w)
      have "safely consistent (and_then (build_runtime env)
          (and_then (recover_transactions env) (build_runtime env))) built w"
      proof (intro safely_and_then safely_background [OF background_build] quiet_intros, goal_cases)
        case (3 q x)
        have x: "memory_ok True x" "consistent_server x" "\<not> sv_deferred x" "ordered (sv_changes x)"
          using 5 similar_consistent [OF 3(1)] similar_memory [OF 3(1)] 3(1) by (simp_all add: similar_def)
        with recover_then_build_safe [OF x(1-3) 3(2) x(4)] show ?case by (auto split: option.split)
      qed (use 5 in simp_all)
      then show ?case by simp
    qed (use 1 u in simp_all)
    with 1 show ?case by (auto split: option.split)
  qed
  with u show ?case by (auto split: option.split)
qed

lemma quiet_stop: "quiet (updates (\<lambda>s. s\<lparr>sv_alive := False\<rparr>))"
  by (rule quietI) (auto simp: updates_def)

text \<open>A started server satisfies its invariant, and its open changes wait for a confirmation.\<close>

lemma start_server_safe:
  assumes "consistent_server s"
  shows "safely consistent (start_server env)
    (\<lambda>r s'. r = None \<and> server_ok s' \<and> awaiting_only (sv_changes s')) s"
  unfolding start_server_def
proof (rule safely_bind [OF safely_updates], goal_cases)
  case 2
  let ?s = "new_process env s"
  have s: "consistent_server ?s" "sv_alive ?s" "\<not> sv_deferred ?s"
    using assms by (simp_all add: new_process_def consistent_server_def)
  show ?case
  proof (rule safely_bind [OF safely_weaken [OF construct_safe [OF s]]], goal_cases)
    case (1 r u)
    show ?case
    proof (cases r)
      case (Some e)
      with 1 show ?thesis
        by (simp add: safely_def updates_def consistent_server_def)
    next
      case None
      let ?m = "sv_changes u"
      have o: "opened ?m u" "awaiting_only ?m" using 1 None by (simp_all add: built_def)
      show ?thesis
        unfolding None option.case
      proof (rule safely_if, goal_cases)
        case 1
        show ?case
        proof (intro safely_read safely_bind [OF safely_updates] safely_bind [OF set_status_safe], goal_cases)
          case (4 r v)
          have "consistent_server v" "memory_ok False v" "sv_changes v = ?m" "\<not> recovery_allows_mutation (sv_recovery v)"
            using similar_consistent [OF 4(2)] similar_memory [OF 4(2), of False] 4(2,3) o(1)
            by (auto simp: opened_def consistent_server_def memory_ok_def similar_def recovery_of_def refused)
          with o(2) 4(1) show ?case by (intro safely_return) (simp_all add: server_ok_def)
        qed (use o \<open>sv_alive u\<close> in \<open>auto simp: opened_def consistent_server_def intro!: quiet_intros\<close>)
      next
        case 2
        show ?case
          using o \<open>sv_alive u\<close>
          by (intro safely_bind safely_weaken [OF recover_and_assign_safe [OF o(1)]] quiet_intros)
            (auto intro!: safely_return simp: opened_server, simp_all add: opened_def)
      qed
    qed
  next
    case (2 r)
    show ?case by (intro quiet_stop quiet_intros | simp)+
  qed
next
  case (3 a)
  show ?case by (intro quiet_stop quiet_intros | simp)+
qed (simp add: new_process_def)

lemma deferred_recovery_safe:
  assumes inv: "server_ok s" and live: "sv_alive s"
  shows "safely consistent (deferred_recovery env) (\<lambda>_. server_ok) s"
  unfolding deferred_recovery_def
proof (intro safely_read safely_if, goal_cases)
  case 1
  with live inv show ?case by (intro safely_return) simp_all
next
  case 2
  have "opened (sv_changes s) (s\<lparr>sv_deferred := False\<rparr>)"
    using 2 inv live by (simp add: server_ok_def opened_def consistent_server_def memory_ok_def)
  then show ?case
    using live
    by (intro safely_bind safely_updates safely_weaken [OF recover_and_assign_safe] quiet_intros)
      (auto simp: opened_server)
qed

lemma maintain_server_safe:
  assumes inv: "server_ok s" and live: "sv_alive s"
  shows "safely consistent (maintain env) (\<lambda>_. server_ok) s"
  by (rule maintain_safe) (use assms in \<open>auto simp: server_ok_def\<close>)

lemma create_server_safe:
  assumes inv: "server_ok s" and live: "sv_alive s" and env: "sound env s"
  shows "safely consistent (create_draft_change env title descr base ops author) (\<lambda>_. server_ok) s"
proof (cases "recovery_allows_mutation (sv_recovery s)")
  case True
  from server_started(1) [OF inv live True] show ?thesis
    by (rule safely_weaken [OF create_change_safe [OF _ live env]]) (rule op_server)
next
  case False
  have con: "consistent_server s" using inv by (simp add: server_ok_def)
  show ?thesis
    by (rule safely_weaken [OF refused_safe(5) [OF False con live]]) (rule similar_server [OF _ live inv])
qed

section \<open>Runs\<close>

datatype move =
    Create string string int "change_op list" string
  | Request string int change_action
  | Expire string
  | Maintain
  | Recover_deferred

fun move_act :: "'cfg environment \<Rightarrow> move \<Rightarrow> ('cfg, unit) act" where
  "move_act env (Create title description version ops author) =
     do { create_draft_change env title description version ops author; State_Monad.return () }"
| "move_act env (Request cid version action) = do { handle_change env cid version action; State_Monad.return () }"
| "move_act env (Expire cid) = expire_change env cid"
| "move_act env Maintain = do { maintain env; State_Monad.return () }"
| "move_act env Recover_deferred = deferred_recovery env"

text \<open>
  A living server makes one move after the other (the change locks and the transaction lock order them), or dies between
  two; a dead one is started again. Each step has its own environment, which may make it die within.
\<close>

inductive server_step :: "'cfg server \<Rightarrow> 'cfg server \<Rightarrow> bool" where
  move: "sv_alive s \<Longrightarrow> sound env s \<Longrightarrow> server_step s (snd (run_state (move_act env m) s))"
| start: "\<not> sv_alive s \<Longrightarrow> server_step s (snd (run_state (start_server env) s))"
| die: "server_step s (s\<lparr>sv_alive := False\<rparr>)"

definition empty_durable :: "'cfg durable" where
  "empty_durable = \<lparr>du_active_config = None, du_active_revision = None, du_config_version = None,
     du_recovery_status = None, du_cleanup_result = None, du_candidates = [], du_transactions = [],
     du_revisions = [], du_changes = []\<rparr>"

inductive reachable :: "'cfg server \<Rightarrow> bool" where
  install: "\<not> sv_alive s \<Longrightarrow> sv_durable s = empty_durable \<Longrightarrow> sv_log s = [] \<Longrightarrow> reachable s"
| advance: "reachable s \<Longrightarrow> server_step s s' \<Longrightarrow> reachable s'"

lemma safely_outcome:
  assumes "safely consistent m (\<lambda>_. server_ok) s"
  shows "server_ok (snd (run_state m s))"
  using assms by (auto simp: safely_def server_ok_def consistent_server_def split: prod.splits if_splits)

lemma move_safe:
  assumes "server_ok s" "sv_alive s" "sound env s"
  shows "safely consistent (move_act env m) (\<lambda>_. server_ok) s"
proof -
  note parts = create_server_safe [OF assms] handle_change_safe [OF assms]
    maintain_server_safe [OF assms(1,2)]
  show ?thesis
    by (cases m) (auto intro!: safely_bind safely_weaken [OF parts(1)] safely_weaken [OF parts(2)]
      safely_weaken [OF parts(3)] safely_return quiet_intros
      expire_change_safe deferred_recovery_safe assms(1,2))
qed

lemma server_step_ok: "server_step s s' \<Longrightarrow> server_ok s \<Longrightarrow> server_ok s'"
proof (induction rule: server_step.induct)
  case (move s env m)
  then show ?case by (intro safely_outcome move_safe)
next
  case (start s env)
  have "safely consistent (start_server env) (\<lambda>_. server_ok) s"
    using start(2) by (intro safely_weaken [OF start_server_safe]) (auto simp: server_ok_def)
  then show ?case by (rule safely_outcome)
next
  case (die s)
  then show ?case by (simp add: server_ok_def consistent_server_def)
qed

lemma empty_consistent: "consistent empty_durable []"
  by (simp add: consistent_def empty_durable_def ordered_def exclusive_in_def)

lemma reachable_ok: "reachable s \<Longrightarrow> server_ok s"
proof (induction rule: reachable.induct)
  case (install s)
  then show ?case by (simp add: server_ok_def consistent_server_def empty_consistent)
qed (rule server_step_ok)

end
