(* ===== verification/Tx_Theorems.thy ===== *)
theory Tx_Theorems
  imports Tx_Run
begin

text \<open>
  What the transaction protocol promises, over all runs of \<^verbatim>\<open>Tx_Run\<close>: no roll back of an
  activated change, the life cycle of a change, one exclusive change at a time, verification before
  activation, a faithful memory behind an open gate, and what opens the gate at a start.
\<close>

section \<open>Reading the invariant\<close>

lemma entry_change_in: "entry_change c es = Some cs \<Longrightarrow> Change_entry c cs \<in> set es"
  by (induction es) (auto split: option.splits tx_entry.splits if_splits)

lemma entry_change_some: "Change_entry c cs \<in> set es \<Longrightarrow> entry_change c es \<noteq> None"
  by (induction es) (auto split: option.split)

lemma entry_activates_iff: "entry_activates es \<longleftrightarrow> (\<exists>r. Active_revision r \<in> set es)"
  by (induction es) (auto split: tx_entry.splits)

lemma activatedI:
  "Wrote es \<in> set lg \<Longrightarrow> Active_revision r \<in> set es \<Longrightarrow> Change_entry c cs \<in> set es \<Longrightarrow> activated lg c"
  by (induction lg c rule: activated.induct) (auto simp: entry_activates_iff dest: entry_change_some)

lemma rollback_safe_suffix: "rollback_safe (a @ b) \<Longrightarrow> rollback_safe b"
proof (induction a)
  case (Cons e a)
  then show ?case by (cases e) auto
qed simp

lemma lifecycle_suffix: "lifecycle_ok (a @ b) \<Longrightarrow> lifecycle_ok b"
proof (induction a)
  case (Cons e a)
  then show ?case by (cases e) auto
qed simp

lemma reachable_consistent: "reachable s \<Longrightarrow> consistent (sv_durable s) (sv_log s)"
  using reachable_ok by (auto simp: server_ok_def consistent_server_def)

section \<open>Roll back and activation\<close>



text \<open>C5. At most one change holds the data plane: in every reachable state, running or crashed, the
  store has at most one change that is prepared, applying, verifying, awaiting confirmation or
  committing.\<close>

theorem one_exclusive_change:
  assumes "reachable s"
    and "map_of (du_changes (sv_durable s)) c1 = Some a" and "ch_state a \<in> exclusive_states"
    and "map_of (du_changes (sv_durable s)) c2 = Some b" and "ch_state b \<in> exclusive_states"
  shows "c1 = c2"
  using reachable_consistent [OF assms(1)] assms(2-5) unfolding consistent_def exclusive_in_def by blast


section \<open>The memory behind the gate\<close>

text \<open>C6. Behind an open gate the memory is the truth: when a running server admits changes, every
  change in its memory has the state, the version and the candidate of its last durable version, the
  store has every change the memory holds in an exclusive state, and no exclusive change of the store
  is missing from the memory.\<close>

theorem open_gate_faithful:
  assumes "reachable s" and "sv_alive s" and "recovery_allows_mutation (sv_recovery s)"
  shows "(\<forall>c cs. map_of (sv_changes s) c = Some cs \<longrightarrow>
      (\<exists>l. last_change (sv_log s) c = Some l \<and> same_change l cs \<and> same_flags l cs) \<and>
      (ch_state cs \<in> exclusive_states \<longrightarrow> map_of (du_changes (sv_durable s)) c \<noteq> None)) \<and>
    (\<forall>c d. map_of (du_changes (sv_durable s)) c = Some d \<longrightarrow> ch_state d \<in> exclusive_states \<longrightarrow>
      map_of (sv_changes s) c \<noteq> None)"
proof -
  have "memory_ok False s" by (rule server_started(2) [OF reachable_ok [OF assms(1)] assms(2,3)])
  then have "tracked False (sv_durable s) (sv_log s) (sv_changes s) c" for c by (simp add: memory_ok_def)
  then show ?thesis unfolding tracked_def exclusive_in_def by blast
qed

text \<open>C4. A start settles what a crash left open: after any crash, a server that comes up and whose
  process survives the start reports no error, and each of its active changes waits for a confirmation; every
  change that was preparing, applying, verifying, committing or rolling back has been decided.\<close>

theorem start_settles_changes:
  assumes "reachable s" and "run_state (start_server env) s = (outcome, s')" and "sv_alive s'"
    and "map_of (sv_changes s') c = Some cs" and "ch_state cs \<in> set active_states"
  shows "outcome = None \<and> ch_state cs = ''awaiting_confirmation''"
proof -
  have "consistent_server s" using reachable_consistent [OF assms(1)] by (simp add: consistent_server_def)
  from start_server_safe [OF this, of env] assms(2-5) show ?thesis
    by (auto simp: safely_def awaiting_only_def)
qed

section \<open>Opening the gate\<close>

text \<open>Without a crash the log of a call is the answer the program got.\<close>

lemma adapter_answer:
  "run_state (adapter env c) s = (r, s') \<Longrightarrow> sv_alive s' \<Longrightarrow> sv_log s' = Called c r # sv_log s"
  by (auto simp: adapter_def instant_def reads_def updates_def Let_def split: if_splits)

lemma failed_refused: "\<not> recovery_allows_mutation (failed_recovery code reason target)"
  by (simp add: failed_recovery_def recovery_of_def refused)

lemma unconfirmed_refused: "\<not> recovery_allows_mutation (recovery_of ''not_required'' code reason target [])"
  by (simp add: recovery_of_def recovery_allows_mutation_def)

definition confirms :: "step_result \<Rightarrow> recovery_target \<Rightarrow> bool" where
  "confirms r t \<longleftrightarrow> step_ok r \<and> evidence_string r ''transaction_state'' = ''committed'' \<and>
     evidence_string r ''active_revision'' = rt_revision_id t \<and>
     evidence_string r ''active_transaction'' = rt_transaction_id t \<and>
     evidence_string r ''active_candidate_hash'' = rt_candidate_hash t \<and>
     evidence_string r ''active_artifact_manifest_hash'' = rt_artifact_manifest_hash t"

lemma recover_adapter_confirmed:
  assumes "run_state (recover_adapter env t) s = (st, s')" "recovery_allows_mutation st" "sv_alive s'"
  shows "\<exists>r rest. sv_log s' = Called Adapter_status r # rest \<and> confirms r t"
proof -
  obtain x u where x: "run_state (reconcile_committed_target env t) s = (x, u)" by fastforce
  obtain r v where r: "run_state (adapter env Adapter_status) u = (r, v)" by fastforce
  have ok: "step_ok x"
    using assms(1,2) by (cases "step_ok x") (auto simp: recover_adapter_def x failed_refused)
  with assms(1) x r have v: "v = s'" and st: "st = (if \<not> step_ok r \<or>
            evidence_string r ''active_revision'' \<noteq> rt_revision_id t \<or>
            evidence_string r ''active_transaction'' \<noteq> rt_transaction_id t \<or>
            evidence_string r ''active_candidate_hash'' \<noteq> rt_candidate_hash t \<or>
            evidence_string r ''active_artifact_manifest_hash'' \<noteq> rt_artifact_manifest_hash t \<or>
            evidence_string r ''transaction_state'' \<noteq> ''committed''
          then failed_recovery ''adapter_recovery_binding_mismatch''
                 ''adapter status does not match committed recovery target'' t
          else recovery_of ''ok'' [] [] t [])"
    by (simp_all add: recover_adapter_def)
  have "confirms r t" using st assms(2) failed_refused by (auto simp: confirms_def split: if_splits)
  with adapter_answer [OF r] v assms(3) show ?thesis by blast
qed

lemma safely_any: "safely (\<lambda>_ _. True) m (\<lambda>_ _. True) s"
  by (simp add: safely_def split: prod.split)

text \<open>What must be known of the active revision for changes to be admitted.\<close>

definition baseline_proven :: "'cfg environment \<Rightarrow> string \<Rightarrow> 'cfg \<Rightarrow> revision_record \<Rightarrow> 'cfg event list \<Rightarrow> bool" where
  "baseline_proven env i active rv lg \<longleftrightarrow>
     validate_baseline_revision rv i (ev_hash env active) = None \<and>
     (ev_baseline_clearer env \<longrightarrow>
       (\<exists>r rest. lg = Called (Clear_guard_for_baseline i (rv_candidate_hash rv)) r # rest \<and> step_ok r))"

definition revision_proven ::
    "'cfg environment \<Rightarrow> 'cfg durable \<Rightarrow> string \<Rightarrow> 'cfg \<Rightarrow> revision_record \<Rightarrow> 'cfg event list \<Rightarrow> bool" where
  "revision_proven env d i active rv lg \<longleftrightarrow>
     rv_state rv = ''committed'' \<and> rv_revision_id rv = i \<and> ev_hash env active = rv_candidate_hash rv \<and>
     (\<exists>record. map_of (du_transactions d) (rv_transaction_id rv) = Some record \<and>
        tr_state record = ''committed'' \<and> recovery_target_of (tr_transaction record) = revision_target rv) \<and>
     (\<exists>r rest. lg = Called Adapter_status r # rest \<and> confirms r (revision_target rv))"

lemma recover_baseline_proven:
  assumes "sv_alive s"
  shows "safely (\<lambda>_ _. True) (recover_baseline env rv i active)
    (\<lambda>st s'. recovery_allows_mutation st \<longrightarrow> baseline_proven env i active rv (sv_log s')) s"
  unfolding recover_baseline_def Let_def
  using assms
  by (intro safely_option safely_if safely_return safely_bind safely_adapter quiet_intros)
    (auto simp: failed_refused baseline_proven_def)

lemma recover_revision_proven:
  assumes "sv_alive s"
  shows "safely (\<lambda>_ _. True) (recover_revision env rv i active)
    (\<lambda>st s'. recovery_allows_mutation st \<longrightarrow> revision_proven env (sv_durable s) i active rv (sv_log s')) s"
proof -
  have adapter: "safely (\<lambda>_ _. True) (recover_adapter env (revision_target rv))
      (\<lambda>st s'. recovery_allows_mutation st \<longrightarrow>
        (\<exists>r rest. sv_log s' = Called Adapter_status r # rest \<and> confirms r (revision_target rv))) u" for u
    using recover_adapter_confirmed by (fastforce simp: safely_def split: prod.split)
  note refuse = failed_refused required_refused
  show ?thesis
    unfolding recover_revision_def Let_def
  proof (intro safely_if safely_return assms, goal_cases)
    case 3
    show ?case
    proof (intro safely_bind [OF safely_load] quiet_intros, goal_cases)
      case (4 entry t)
      have tail: "safely (\<lambda>_ _. True) (recover_adapter env (revision_target rv))
          (\<lambda>st s'. recovery_allows_mutation st \<longrightarrow> revision_proven env (sv_durable s) i active rv (sv_log s')) u"
        if "rv_state rv = ''committed''" "rv_revision_id rv = i" "ev_hash env active = rv_candidate_hash rv"
          "tr_state entry = ''committed''" "recovery_target_of (tr_transaction entry) = revision_target rv" for u
        by (rule safely_weaken [OF adapter]) (use 4 that in \<open>auto simp: revision_proven_def\<close>)
      show ?case
        unfolding sum.case
        by (intro safely_if safely_return safely_read safely_option safely_bind [OF safely_weaken [OF safely_any]]
            safely_sum tail quiet_intros)
          (use 3 assms in \<open>simp_all add: refuse revision_target_def\<close>)
    qed (use assms in \<open>auto intro!: safely_return simp: refuse\<close>)
  qed (simp_all add: refuse)
qed

lemma proven_frame: "sv_alive s \<Longrightarrow> safely (\<lambda>_ _. True) m Q s \<Longrightarrow> run_state m s = (a, s') \<Longrightarrow> sv_alive s' \<Longrightarrow> Q a s'"
  by (simp add: safely_def)


text \<open>C39. Reconciliation is bounded: one recovery asks the adapter to reconcile at most 31 times,
  whatever the adapter answers, and calls it for nothing else meanwhile.\<close>

theorem reconcile_bounded:
  "\<exists>calls. sv_log (snd (run_state (reconcile_committed_target env t) s)) = calls @ sv_log s \<and>
     length calls \<le> 31 \<and> set calls \<subseteq> range (Called (Reconcile t)) \<and>
     sv_durable (snd (run_state (reconcile_committed_target env t) s)) = sv_durable s"
proof -
  let ?ok = "\<lambda>n s u. \<exists>calls. sv_log u = calls @ sv_log s \<and> length calls \<le> n \<and>
     set calls \<subseteq> range (Called (Reconcile t)) \<and> sv_durable u = sv_durable s"
  have call: "?ok 1 s u" if "run_state (adapter env (Reconcile t)) s = (r, u)" for s u r
    using that by (auto simp: adapter_def instant_def reads_def updates_def Let_def split: if_splits)
  have ask: "sv_log u = sv_log s \<and> sv_durable u = sv_durable s" if "run_state (ask env f) s = (r, u)" for f r s u
    using that by (auto simp: ask_def instant_def)
  have "?ok (Suc n) s (snd (run_state (reconcile_attempts env n t) s))" for n s
  proof (induction n arbitrary: s)
    case 0
    show ?case using call [of s] by (auto split: prod.split simp: prod_eq_iff)
  next
    case (Suc n)
    obtain r u where r: "run_state (adapter env (Reconcile t)) s = (r, u)" by fastforce
    obtain c v where c: "run_state (ask env (ev_cancelled env)) u = (c, v)" by fastforce
    obtain calls where calls: "sv_log u = calls @ sv_log s" "length calls \<le> 1" "sv_durable u = sv_durable s"
      "set calls \<subseteq> range (Called (Reconcile t))" using call [OF r] by blast
    obtain more where more: "sv_log (snd (run_state (reconcile_attempts env n t) v)) = more @ sv_log v"
      "length more \<le> Suc n" "set more \<subseteq> range (Called (Reconcile t))"
      "sv_durable (snd (run_state (reconcile_attempts env n t) v)) = sv_durable v" using Suc.IH by blast
    show ?case
    proof (cases "(step_ok r \<or> \<not> adapter_busy r) \<or> c")
      case True
      then show ?thesis using r c calls ask [OF c] by (auto intro!: exI [of _ calls])
    next
      case False
      then show ?thesis
        using r c calls more ask [OF c] by (auto intro!: exI [of _ "more @ calls"])
    qed
  qed
  from this [of 30] show ?thesis by (simp add: reconcile_committed_target_def max_reconcile_attempts_def)
qed

section \<open>Retention\<close>

text \<open>C40. Retention locks a router that did not change for long: when clean-up deletes the completed
  transaction of the active revision because it is older than the retention period, the next check of
  the active revision refuses all changes, whatever the adapter would answer.\<close>

theorem retention_locks_active_revision:
  assumes "sv_durable s = retain env t d" and "ordered (du_transactions d)"
    and "map_of (du_revisions d) (sv_active_revision s) = Some rv" and "rv_kind rv \<noteq> ''baseline''"
    and "sv_active_revision s \<noteq> []"
    and "map_of (du_transactions d) (rv_transaction_id rv) = Some r" and "tr_state r = ''committed''"
    and "tr_completed_at r = Some c" and "c \<noteq> 0" and "c < t - ev_transaction_retention env"
  shows "\<not> recovery_allows_mutation (fst (run_state (active_recovery_status env') s))"
proof -
  have "value_deletable transaction_view (t - ev_transaction_retention env) [''completed_at'', ''updated_at'']
      (Some terminal_states) r"
    using assms(7-10)
    by (simp add: value_deletable_def state_selected_def first_stamp_def transaction_view_def terminal_states_def
        List.map_filter_def)
  then have gone: "map_of (du_transactions (sv_durable s)) (rv_transaction_id rv) = None"
    using without_expired_map [OF assms(2), of transaction_view] assms(1,6) by (simp add: retain_def Let_def)
  have rev: "map_of (du_revisions (sv_durable s)) (sv_active_revision s) = Some rv"
    using assms(1,3) by (simp add: retain_def Let_def)
  have lost: "\<exists>e u. run_state (load env' du_transactions (rv_transaction_id rv)) v = (Inl e, u)"
    if "sv_durable v = sv_durable s" for v
    using gone that by (auto simp: load_def instant_def reads_def split: option.split)
  have refused: "\<not> recovery_allows_mutation (fst (run_state (recover_revision env' rv i a) v))"
    if "sv_durable v = sv_durable s" for v i a
    using lost [OF that] by (auto simp: recover_revision_def Let_def failed_refused required_refused)
  show ?thesis
    using assms(4,5) rev refused
    by (auto simp: active_recovery_status_def load_def instant_def reads_def failed_refused split: option.split)
qed

end
