(* ===== verification/Tx_Example.thy ===== *)
theory Tx_Example
  imports Tx_Theorems
begin

text \<open>
  Runs of the server on a concrete environment, which show that the hypotheses of the properties of
  \<^verbatim>\<open>Tx_Theorems\<close> hold in runs that matter: a change is created, validated and applied and fails its
  verification, or is confirmed and becomes active, or is interrupted by a crash.
\<close>

section \<open>An environment\<close>

definition demo_base :: json where
  "demo_base = J_obj [(''services'', J_obj [(''x'', J_num 1)])]"

definition demo_candidate :: json where
  "demo_candidate = J_obj [(''services'', J_obj [(''x'', J_num 2)])]"

definition demo_op :: change_op where
  "demo_op = \<lparr>op_type = ''set'', op_path = ''/services/x'', op_value = J_num 2, op_before = J_null\<rparr>"

text \<open>The binding of the only transaction of the runs.\<close>

definition demo_binding :: "(string \<times> evidence_value) list" where
  "demo_binding = [(''transaction_id'', Ev_string ''tx_b''), (''revision_id'', Ev_string ''rev_2_b''),
     (''candidate_hash'', Ev_string ''h2''), (''artifact_manifest_hash'', Ev_string ''m''),
     (''active_revision'', Ev_string ''rev_2_b''), (''active_transaction'', Ev_string ''tx_b''),
     (''active_candidate_hash'', Ev_string ''h2''), (''active_artifact_manifest_hash'', Ev_string ''m'')]"

definition demo_answer :: "string \<Rightarrow> string \<Rightarrow> bool \<Rightarrow> step_result" where
  "demo_answer step semantic ok = \<lparr>sr_protocol_version = 0, sr_request_id = [], sr_operation = [],
     sr_step = step, sr_status = (if ok then ''OK'' else ''FAILED''), sr_ok = ok,
     sr_management_verified = True, sr_data_plane_verified = True, sr_reason = [],
     sr_evidence = (''transaction_state'', Ev_string semantic) # demo_binding, sr_semantic_state = semantic,
     sr_committed = (semantic = ''committed''), sr_rollback_capable = True, sr_generation = []\<rparr>"

lemma demo_answer_fields [simp]:
  "sr_protocol_version (demo_answer st sem ok) = 0" "sr_operation (demo_answer st sem ok) = []"
  "sr_step (demo_answer st sem ok) = st" "sr_status (demo_answer st sem ok) = (if ok then ''OK'' else ''FAILED'')"
  "sr_ok (demo_answer st sem ok) = ok" "sr_management_verified (demo_answer st sem ok) = True"
  "sr_data_plane_verified (demo_answer st sem ok) = True" "sr_reason (demo_answer st sem ok) = []"
  "sr_semantic_state (demo_answer st sem ok) = sem" "sr_committed (demo_answer st sem ok) = (sem = ''committed'')"
  "sr_rollback_capable (demo_answer st sem ok) = True" "step_ok (demo_answer st sem ok) = ok"
  "sr_evidence (demo_answer st sem ok) = (''transaction_state'', Ev_string sem) # demo_binding"
  by (simp_all add: demo_answer_def step_ok_def)

lemma demo_evidence [simp]:
  "map_of demo_binding ''transaction_id'' = Some (Ev_string ''tx_b'')"
  "map_of demo_binding ''revision_id'' = Some (Ev_string ''rev_2_b'')"
  "map_of demo_binding ''candidate_hash'' = Some (Ev_string ''h2'')"
  "map_of demo_binding ''artifact_manifest_hash'' = Some (Ev_string ''m'')"
  "map_of demo_binding ''active_revision'' = Some (Ev_string ''rev_2_b'')"
  "map_of demo_binding ''active_transaction'' = Some (Ev_string ''tx_b'')"
  "map_of demo_binding ''active_candidate_hash'' = Some (Ev_string ''h2'')"
  "map_of demo_binding ''active_artifact_manifest_hash'' = Some (Ev_string ''m'')"
  "map_of demo_binding ''rollback_capable'' = None"
  by (simp_all add: demo_binding_def)

text \<open>An adapter whose verification of the data plane is \<open>good\<close> or not.\<close>

fun demo_adapter :: "bool \<Rightarrow> adapter_call \<Rightarrow> step_result" where
  "demo_adapter good (Apply_candidate tx) = demo_answer ''apply_candidate'' [] True"
| "demo_adapter good (Verify_management_path tx) = demo_answer ''verify_management_path'' [] True"
| "demo_adapter good (Verify_data_plane tx) = demo_answer ''verify_data_plane'' [] good"
| "demo_adapter good (Commit_prepared tx) = demo_answer [] ''adapter_activated'' True"
| "demo_adapter good (Finalize_commit tx) = demo_answer [] ''committed'' True"
| "demo_adapter good Adapter_status = demo_answer [] ''committed'' True"
| "demo_adapter good call = demo_answer [] [] True"

definition demo_manifest :: artifact_manifest where
  "demo_manifest = \<lparr>mf_deployment_ready = True, mf_block_reason = [], mf_simulation = False, mf_warnings = []\<rparr>"

text \<open>The environment of one step: the identifier it draws and the quality of the data plane.\<close>

definition demo_env :: "string \<Rightarrow> bool \<Rightarrow> json environment" where
  "demo_env hex good = \<lparr>
     ev_crash = (\<lambda>t. False), ev_now = (\<lambda>t. 1000000000000), ev_write_error = (\<lambda>t. None),
     ev_read_error = (\<lambda>t. None), ev_adapter = (\<lambda>t. demo_adapter good), ev_split_commit = True,
     ev_boot_guard = No_clearer, ev_baseline_clearer = False, ev_cleanup = (\<lambda>t a. None),
     ev_management_proofs = False, ev_require_proof = False, ev_automatic_proof = (\<lambda>t tx. None),
     ev_verify_proof = (\<lambda>t tx. Inl ''none''), ev_issue_lan = (\<lambda>t tx n. None), ev_verify_lan = (\<lambda>t tx. None),
     ev_loopback = False, ev_persist_binding = (\<lambda>t tx. None), ev_persist_capability = (\<lambda>t tx. None),
     ev_capability = (\<lambda>t tx. True), ev_write_candidate = (\<lambda>t tx c. None),
     ev_candidate_file = (\<lambda>t r x. File_config demo_candidate), ev_diagnostics = (\<lambda>t c. None),
     ev_generate = (\<lambda>t c tx. Inr (demo_manifest, ''m'')), ev_verify_artifacts = (\<lambda>t tx. Inr demo_manifest),
     ev_bind_adaptive = (\<lambda>t tx c. Inr tx), ev_adaptive_runtime = (\<lambda>t c. None), ev_smart_dns = (\<lambda>t a c. []),
     ev_random = (\<lambda>t n. Inr hex), ev_cancelled = (\<lambda>t. False), ev_route_assignments = (\<lambda>t. None),
     ev_other_data = (\<lambda>t. False), ev_other_expired = (\<lambda>t. False), ev_change_retention = 1000000,
     ev_transaction_retention = 1000000, ev_startup_config = demo_base, ev_defer_recovery = False,
     ev_rollback_seconds = 120, ev_state_dir = ''/s'', ev_token_hash = (\<lambda>s. s), ev_development = False,
     ev_to_json = (\<lambda>c. c), ev_of_json = Inr, ev_config_error = (\<lambda>c. None),
     ev_hash = (\<lambda>c. if c = demo_base then ''h1'' else ''h2'')\<rparr>"

lemma demo_env_fields [simp]:
  "ev_crash (demo_env hex good) = (\<lambda>t. False)"
  "ev_now (demo_env hex good) = (\<lambda>t. 1000000000000)"
  "ev_write_error (demo_env hex good) = (\<lambda>t. None)"
  "ev_read_error (demo_env hex good) = (\<lambda>t. None)"
  "ev_adapter (demo_env hex good) = (\<lambda>t. demo_adapter good)"
  "ev_split_commit (demo_env hex good) = True"
  "ev_boot_guard (demo_env hex good) = No_clearer"
  "ev_baseline_clearer (demo_env hex good) = False"
  "ev_cleanup (demo_env hex good) = (\<lambda>t a. None)"
  "ev_management_proofs (demo_env hex good) = False"
  "ev_require_proof (demo_env hex good) = False"
  "ev_automatic_proof (demo_env hex good) = (\<lambda>t tx. None)"
  "ev_verify_proof (demo_env hex good) = (\<lambda>t tx. Inl ''none'')"
  "ev_issue_lan (demo_env hex good) = (\<lambda>t tx n. None)"
  "ev_verify_lan (demo_env hex good) = (\<lambda>t tx. None)"
  "ev_loopback (demo_env hex good) = False"
  "ev_persist_binding (demo_env hex good) = (\<lambda>t tx. None)"
  "ev_persist_capability (demo_env hex good) = (\<lambda>t tx. None)"
  "ev_capability (demo_env hex good) = (\<lambda>t tx. True)"
  "ev_write_candidate (demo_env hex good) = (\<lambda>t tx c. None)"
  "ev_candidate_file (demo_env hex good) = (\<lambda>t r x. File_config demo_candidate)"
  "ev_diagnostics (demo_env hex good) = (\<lambda>t c. None)"
  "ev_generate (demo_env hex good) = (\<lambda>t c tx. Inr (demo_manifest, ''m''))"
  "ev_verify_artifacts (demo_env hex good) = (\<lambda>t tx. Inr demo_manifest)"
  "ev_bind_adaptive (demo_env hex good) = (\<lambda>t tx c. Inr tx)"
  "ev_adaptive_runtime (demo_env hex good) = (\<lambda>t c. None)"
  "ev_smart_dns (demo_env hex good) = (\<lambda>t a c. [])"
  "ev_random (demo_env hex good) = (\<lambda>t n. Inr hex)"
  "ev_cancelled (demo_env hex good) = (\<lambda>t. False)"
  "ev_route_assignments (demo_env hex good) = (\<lambda>t. None)"
  "ev_other_data (demo_env hex good) = (\<lambda>t. False)"
  "ev_other_expired (demo_env hex good) = (\<lambda>t. False)"
  "ev_change_retention (demo_env hex good) = 1000000"
  "ev_transaction_retention (demo_env hex good) = 1000000"
  "ev_startup_config (demo_env hex good) = demo_base"
  "ev_defer_recovery (demo_env hex good) = False"
  "ev_rollback_seconds (demo_env hex good) = 120"
  "ev_state_dir (demo_env hex good) = ''/s''"
  "ev_token_hash (demo_env hex good) = (\<lambda>s. s)"
  "ev_development (demo_env hex good) = False"
  "ev_to_json (demo_env hex good) = (\<lambda>c. c)"
  "ev_of_json (demo_env hex good) = Inr"
  "ev_config_error (demo_env hex good) = (\<lambda>c. None)"
  "ev_hash (demo_env hex good) = (\<lambda>c. if c = demo_base then ''h1'' else ''h2'')"
  by (simp_all add: demo_env_def)

definition demo_blank :: "json server" where
  "demo_blank = \<lparr>sv_durable = empty_durable, sv_alive = False, sv_clock = 0, sv_log = [], sv_changes = [],
     sv_active_config = demo_base, sv_active_revision = [], sv_config_version = 0, sv_recovery = no_recovery,
     sv_deferred = False, sv_timers = []\<rparr>"

definition demo_started :: "json server" where
  "demo_started = snd (run_state (start_server (demo_env ''a'' True)) demo_blank)"

definition demo_created :: "json server" where
  "demo_created = snd (run_state (move_act (demo_env ''a'' True) (Create ''t'' [] 1 [demo_op] ''me'')) demo_started)"

definition demo_validated :: "json server" where
  "demo_validated = snd (run_state (move_act (demo_env ''b'' True) (Request ''chg_a'' 0 Do_validate)) demo_created)"

definition demo_applied :: "bool \<Rightarrow> json server" where
  "demo_applied good = snd (run_state (move_act (demo_env ''c'' good) (Request ''chg_a'' 0 (Do_apply []))) demo_validated)"

definition demo_confirmed :: "json server" where
  "demo_confirmed = snd (run_state (move_act (demo_env ''c'' True) (Request ''chg_a'' 0 (Do_confirm []))) (demo_applied True))"

section \<open>Evaluation\<close>

text \<open>Programs are unfolded only where they run, so that nothing is rewritten under a binder.\<close>

lemma run_bind: "run_state (State_Monad.bind m f) s = (case run_state m s of (a, t) \<Rightarrow> run_state (f a) t)"
  by (simp add: split_beta)

lemma run_basic:
  "run_state (reads f) s = (f s, s)" "run_state (updates g) s = ((), g s)"
  "run_state (instant env) s = (sv_clock s,
     s\<lparr>sv_clock := Suc (sv_clock s), sv_alive := sv_alive s \<and> \<not> ev_crash env (sv_clock s)\<rparr>)"
  by (simp_all add: reads_def updates_def instant_def)

lemma run_effects:
  "run_state (now env) s = (case run_state (instant env) s of (t, u) \<Rightarrow> (ev_now env t, u))"
  "run_state (ask env f) s = (case run_state (instant env) s of (t, u) \<Rightarrow> (f t, u))"
  by (simp_all add: now_def ask_def instant_def)

lemma run_cases:
  "run_state (if c then m else n) s = (if c then run_state m s else run_state n s)"
  "run_state (let x = e in f x) s = (let x = e in run_state (f x) s)"
  "run_state (case p of (a, b) \<Rightarrow> h a b) s = (case p of (a, b) \<Rightarrow> run_state (h a b) s)"
  "run_state (case x of None \<Rightarrow> m | Some a \<Rightarrow> f' a) s = (case x of None \<Rightarrow> run_state m s | Some a \<Rightarrow> run_state (f' a) s)"
  "run_state (case y of Inl a \<Rightarrow> k a | Inr b \<Rightarrow> l b) s =
     (case y of Inl a \<Rightarrow> run_state (k a) s | Inr b \<Rightarrow> run_state (l b) s)"
  "run_state (case file of File_error e \<Rightarrow> fe e | File_invalid \<Rightarrow> m | File_config c \<Rightarrow> fc c) s =
     (case file of File_error e \<Rightarrow> run_state (fe e) s | File_invalid \<Rightarrow> run_state m s | File_config c \<Rightarrow> run_state (fc c) s)"
  "run_state (case guard of Bound_clearer \<Rightarrow> m | Unbound_clearer \<Rightarrow> n | No_clearer \<Rightarrow> m') s =
     (case guard of Bound_clearer \<Rightarrow> run_state m s | Unbound_clearer \<Rightarrow> run_state n s | No_clearer \<Rightarrow> run_state m' s)"
  "run_state (case action of Do_validate \<Rightarrow> m | Do_apply md \<Rightarrow> fa md | Do_confirm md \<Rightarrow> fc' md | Do_rollback \<Rightarrow> n
     | Do_delete \<Rightarrow> m') s = (case action of Do_validate \<Rightarrow> run_state m s | Do_apply md \<Rightarrow> run_state (fa md) s
     | Do_confirm md \<Rightarrow> run_state (fc' md) s | Do_rollback \<Rightarrow> run_state n s | Do_delete \<Rightarrow> run_state m' s)"
  by (simp_all split: prod.split option.split sum.split candidate_file.split boot_guard.split change_action.split)

lemma run_cong: "s = t \<Longrightarrow> run_state m s = run_state m t"
  by simp

lemmas run_programs =
  arg_cong [where f = "\<lambda>m. run_state m s" for s, OF save_entries_def]
  arg_cong [where f = "\<lambda>m. run_state m s" for s, OF load_def]
  arg_cong [where f = "\<lambda>m. run_state m s" for s, OF adapter_def]
  arg_cong [where f = "\<lambda>m. run_state m s" for s, OF set_change_def]
  arg_cong [where f = "\<lambda>m. run_state m s" for s, OF cancel_expiry_def]
  arg_cong [where f = "\<lambda>m. run_state m s" for s, OF set_recovery_status_def]
  arg_cong [where f = "\<lambda>m. run_state m s" for s, OF mark_recovery_required_def]
  arg_cong [where f = "\<lambda>m. run_state m s" for s, OF acquire_mutation_lease_def]
  arg_cong [where f = "\<lambda>m. run_state m s" for s, OF save_progress_def]
  arg_cong [where f = "\<lambda>m. run_state m s" for s, OF save_change_def]
  arg_cong [where f = "\<lambda>m. run_state m s" for s, OF load_transaction_def]
  arg_cong [where f = "\<lambda>m. run_state m s" for s, OF capability_matches_def]
  arg_cong [where f = "\<lambda>m. run_state m s" for s, OF load_verified_candidate_def]
  arg_cong [where f = "\<lambda>m. run_state m s" for s, OF load_verified_transaction_def]
  arg_cong [where f = "\<lambda>m. run_state m s" for s, OF active_transaction_def]
  arg_cong [where f = "\<lambda>m. run_state m s" for s, OF cleanup_step_def]
  arg_cong [where f = "\<lambda>m. run_state m s" for s, OF cleanup_proof_def]
  arg_cong [where f = "\<lambda>m. run_state m s" for s, OF save_cleanup_status_def]
  arg_cong [where f = "\<lambda>m. run_state m s" for s, OF cleanup_rolled_back_def]
  arg_cong [where f = "\<lambda>m. run_state m s" for s, OF finish_rollback_def]
  arg_cong [where f = "\<lambda>m. run_state m s" for s, OF rollback_locked_def]
  arg_cong [where f = "\<lambda>m. run_state m s" for s, OF rollback_change_set_def]
  arg_cong [where f = "\<lambda>m. run_state m s" for s, OF new_transaction_def]
  arg_cong [where f = "\<lambda>m. run_state m s" for s, OF retire_after_def]
  arg_cong [where f = "\<lambda>m. run_state m s" for s, OF prepare_candidate_def]
  arg_cong [where f = "\<lambda>m. run_state m s" for s, OF validate_new_def]
  arg_cong [where f = "\<lambda>m. run_state m s" for s, OF validate_change_set_def]
  arg_cong [where f = "\<lambda>m. run_state m s" for s, OF finish_step_def]
  arg_cong [where f = "\<lambda>m. run_state m s" for s, OF apply_step_def]
  arg_cong [where f = "\<lambda>m. run_state m s" for s, OF apply_transaction_def]
  arg_cong [where f = "\<lambda>m. run_state m s" for s, OF apply_change_set_def]
  arg_cong [where f = "\<lambda>m. run_state m s" for s, OF clear_boot_guard_def]
  arg_cong [where f = "\<lambda>m. run_state m s" for s, OF cleanup_committed_resources_def]
  arg_cong [where f = "\<lambda>m. run_state m s" for s, OF activate_memory_def]
  arg_cong [where f = "\<lambda>m. run_state m s" for s, OF finish_commit_def]
  arg_cong [where f = "\<lambda>m. run_state m s" for s, OF finalize_split_def]
  arg_cong [where f = "\<lambda>m. run_state m s" for s, OF commit_control_plane_def]
  arg_cong [where f = "\<lambda>m. run_state m s" for s, OF commit_split_def]
  arg_cong [where f = "\<lambda>m. run_state m s" for s, OF confirm_transaction_def]
  arg_cong [where f = "\<lambda>m. run_state m s" for s, OF previous_revision_def]
  arg_cong [where f = "\<lambda>m. run_state m s" for s, OF confirm_change_set_def]
  arg_cong [where f = "\<lambda>m. run_state m s" for s, OF create_draft_change_def]
  arg_cong [where f = "\<lambda>m. run_state m s" for s, OF handle_change_def]
  arg_cong [where f = "\<lambda>m. run_state m s" for s, OF ensure_baseline_revision_def]
  arg_cong [where f = "\<lambda>m. run_state m s" for s, OF load_state_def]
  arg_cong [where f = "\<lambda>m. run_state m s" for s, OF build_runtime_def]
  arg_cong [where f = "\<lambda>m. run_state m s" for s, OF and_then_def]
  arg_cong [where f = "\<lambda>m. run_state m s" for s, OF recover_transactions_def]
  arg_cong [where f = "\<lambda>m. run_state m s" for s, OF recover_change_def]
  arg_cong [where f = "\<lambda>m. run_state m s" for s, OF recover_decide_def]
  arg_cong [where f = "\<lambda>m. run_state m s" for s, OF recover_uncommitted_def]
  arg_cong [where f = "\<lambda>m. run_state m s" for s, OF recover_and_assign_def]
  arg_cong [where f = "\<lambda>m. run_state m s" for s, OF recover_committed_dataplane_def]
  arg_cong [where f = "\<lambda>m. run_state m s" for s, OF active_recovery_status_def]
  arg_cong [where f = "\<lambda>m. run_state m s" for s, OF recover_baseline_def]
  arg_cong [where f = "\<lambda>m. run_state m s" for s, OF maintain_def]
  arg_cong [where f = "\<lambda>m. run_state m s" for s, OF start_server_def]
  arg_cong [where f = "\<lambda>m. run_state m s" for s, OF schedule_expiry_def]
  arg_cong [where f = "\<lambda>m. run_state m s" for s, OF recover_revision_def]
  arg_cong [where f = "\<lambda>m. run_state m s" for s, OF recover_adapter_def]
  arg_cong [where f = "\<lambda>m. run_state m s" for s, OF reconcile_committed_target_def]
  move_act.simps [THEN arg_cong [where f = "\<lambda>m. run_state m s" for s]]

lemma run_lists:
  "run_state (apply_steps env i ap cs tx steps) s =
     (case steps of [] \<Rightarrow> (Inr cs, s)
      | step # rest \<Rightarrow> run_state (do {
          r \<leftarrow> apply_step env i ap cs tx step;
          (case r of Inl out \<Rightarrow> State_Monad.return (Inl out)
           | Inr (cs, ap) \<Rightarrow> apply_steps env False ap cs tx rest) }) s)"
  "run_state (recover_changes env ids) s =
     (case ids of [] \<Rightarrow> (None, s)
      | cid # rest \<Rightarrow> run_state (do {
          r \<leftarrow> recover_change env cid;
          (case r of Some e \<Rightarrow> State_Monad.return (Some e) | None \<Rightarrow> recover_changes env rest) }) s)"
  "run_state (reconcile_attempts env n target) s =
     (case n of 0 \<Rightarrow> run_state (adapter env (Reconcile target)) s
      | Suc k \<Rightarrow> run_state (do {
          result \<leftarrow> adapter env (Reconcile target);
          (if step_ok result \<or> \<not> adapter_busy result then State_Monad.return result
           else do {
             cancelled \<leftarrow> ask env (ev_cancelled env);
             (if cancelled then State_Monad.return result else reconcile_attempts env k target) }) }) s)"
  by (simp_all split: list.split nat.split)

declare apply_steps.simps [simp del] recover_changes.simps [simp del] reconcile_attempts.simps [simp del]

lemma demo_numbers: "int_dec 1 = ''1''" "int_dec 2 = ''2''"
  by code_simp+

lemma demo_seconds [simp]: "\<not> seconds 120 < 0" "0 < seconds 120"
  by code_simp+

lemma demo_expiry [simp]: "time_truncate (1000000000000 + seconds 120) second \<noteq> 0"
  by code_simp

lemma demo_paths: "safe_path_component ''tx_b''" "safe_path_component ''rev_2_b''"
  by code_simp+

lemmas run_data = demo_paths new_process_def empty_durable_def durable_empty_def no_recovery_def no_target_def recovery_of_def
  baseline_revision_def baseline_revision_id_def write_entries_def validate_baseline_revision_def
  retention_needed_def has_expired_def persisted_changes_def active_change_ids_def recovery_allows_mutation_def
  is_terminal_state_def mutation_failure_def Let_def validated_change_def has_validation_error_def
  relax_noop_def conflict_def internal_failure_def active_states_def check_manifest_def
  current_transaction_paths_def adapter_steps_def validate_transaction_binding_def
  step_ok_def artifact_evidence_matches_def evidence_string_def validate_prepared_commit_def
  validate_binding_def bound_evidence_fields_def validate_finalized_commit_def recovery_target_of_def
  status_matches_def activation_entries_def revision_of_def record_of_def
  demo_manifest_def rollback_error_def warning_def
  value_has_expired_def state_selected_def change_view_def transaction_view_def terminal_states_def control_committed_def
  max_reconcile_attempts_def revision_target_def

definition demo_result :: "json build_result" where
  "demo_result =
     \<lparr>br_candidate = Some demo_candidate,
      br_diff = [\<lparr>op_type = ''update'', op_path = ''/services/x'', op_value = J_num 2, op_before = J_num 1\<rparr>],
      br_validations = [\<lparr>vd_level = ''info'', vd_code = ''candidate_semantic_ok'',
        vd_message = ''all operations were applied and the full typed candidate validates''\<rparr>],
      br_operations = [demo_op]\<rparr>"

lemma demo_build: "build_candidate (\<lambda>c. c) Inr (\<lambda>c. None) (Some demo_base) [demo_op] = demo_result"
  unfolding demo_result_def demo_base_def demo_candidate_def demo_op_def by code_simp

lemma demo_differs [simp]: "demo_candidate \<noteq> demo_base"
  by (simp add: demo_base_def demo_candidate_def)

lemmas run_all = run_bind run_basic run_effects run_cases run_lists run_programs run_data demo_numbers

definition demo_tx :: "transaction" where
  "demo_tx = \<lparr>tx_id = ''tx_b'',
     tx_revision_id = ''rev_2_b'',
     tx_change_id = ''chg_a'',
     tx_base_version = 1,
     tx_candidate_version = 2,
     tx_candidate_hash = ''h2'',
     tx_candidate_path = ''/s/transactions/rev_2_b/tx_b/candidate.json'',
     tx_artifact_root = ''/s/transactions/rev_2_b/tx_b/generated'',
     tx_artifact_manifest_hash = ''m'',
     tx_artifacts_ready = True,
     tx_artifact_block_reason = [],
     tx_artifacts_simulation = False,
     tx_rollback_token_hash = ''b'',
     tx_capability_path = ''/s/transactions/rev_2_b/tx_b/rollback.cap'',
     tx_binding_path = ''/s/transactions/rev_2_b/tx_b/binding.env'',
     tx_created_at = 1000000000000,
     tx_expires_at = 1000000000000 + seconds 120,
     tx_rollback_timeout_seconds = 120\<rparr>"

lemma demo_tx_fields [simp]:
  "tx_id demo_tx = ''tx_b''"
  "tx_revision_id demo_tx = ''rev_2_b''"
  "tx_change_id demo_tx = ''chg_a''"
  "tx_base_version demo_tx = 1"
  "tx_candidate_version demo_tx = 2"
  "tx_candidate_hash demo_tx = ''h2''"
  "tx_candidate_path demo_tx = ''/s/transactions/rev_2_b/tx_b/candidate.json''"
  "tx_artifact_root demo_tx = ''/s/transactions/rev_2_b/tx_b/generated''"
  "tx_artifact_manifest_hash demo_tx = ''m''"
  "tx_artifacts_ready demo_tx = True"
  "tx_artifact_block_reason demo_tx = []"
  "tx_artifacts_simulation demo_tx = False"
  "tx_rollback_token_hash demo_tx = ''b''"
  "tx_capability_path demo_tx = ''/s/transactions/rev_2_b/tx_b/rollback.cap''"
  "tx_binding_path demo_tx = ''/s/transactions/rev_2_b/tx_b/binding.env''"
  "tx_created_at demo_tx = 1000000000000"
  "tx_expires_at demo_tx = 1000000000000 + seconds 120"
  "tx_rollback_timeout_seconds demo_tx = 120"
  by (simp_all add: demo_tx_def)

definition demo_change :: "change" where
  "demo_change = \<lparr>ch_id = ''chg_a'',
     ch_state = ''validated'',
     ch_title = ''t'',
     ch_description = [],
     ch_base_version = 1,
     ch_version = 2,
     ch_candidate_version = 2,
     ch_candidate_hash = ''h2'',
     ch_candidate_path = ''/s/transactions/rev_2_b/tx_b/candidate.json'',
     ch_artifact_manifest_hash = ''m'',
     ch_artifacts_ready = True,
     ch_artifact_block_reason = [],
     ch_artifacts_simulation = False,
     ch_revision_id = ''rev_2_b'',
     ch_transaction_id = ''tx_b'',
     ch_adapter_status = ''NOT_STARTED'',
     ch_commit_phase = [],
     ch_noop = False,
     ch_operations = [demo_op],
     ch_validation = br_validations demo_result,
     ch_diff = br_diff demo_result,
     ch_steps = [],
     ch_management_verified = False,
     ch_data_plane_verified = False,
     ch_updated_at = time_truncate 1000000000000 second,
     ch_expires_at = time_truncate (1000000000000 + seconds 120) second,
     ch_author = ''me''\<rparr>"

lemma demo_change_fields [simp]:
  "ch_id demo_change = ''chg_a''"
  "ch_state demo_change = ''validated''"
  "ch_title demo_change = ''t''"
  "ch_description demo_change = []"
  "ch_base_version demo_change = 1"
  "ch_version demo_change = 2"
  "ch_candidate_version demo_change = 2"
  "ch_candidate_hash demo_change = ''h2''"
  "ch_candidate_path demo_change = ''/s/transactions/rev_2_b/tx_b/candidate.json''"
  "ch_artifact_manifest_hash demo_change = ''m''"
  "ch_artifacts_ready demo_change = True"
  "ch_artifact_block_reason demo_change = []"
  "ch_artifacts_simulation demo_change = False"
  "ch_revision_id demo_change = ''rev_2_b''"
  "ch_transaction_id demo_change = ''tx_b''"
  "ch_adapter_status demo_change = ''NOT_STARTED''"
  "ch_commit_phase demo_change = []"
  "ch_noop demo_change = False"
  "ch_operations demo_change = [demo_op]"
  "ch_validation demo_change = br_validations demo_result"
  "ch_diff demo_change = br_diff demo_result"
  "ch_steps demo_change = []"
  "ch_management_verified demo_change = False"
  "ch_data_plane_verified demo_change = False"
  "ch_updated_at demo_change = time_truncate 1000000000000 second"
  "ch_expires_at demo_change = time_truncate (1000000000000 + seconds 120) second"
  "ch_author demo_change = ''me''"
  by (simp_all add: demo_change_def)

definition demo_record :: transaction_record where
  "demo_record = \<lparr>tr_transaction = demo_tx, tr_state = ''validated'', tr_commit_phase = [], tr_steps = [],
     tr_updated_at = 1000000000000, tr_completed_at = None\<rparr>"

definition demo_entry :: "json candidate_record" where
  "demo_entry = \<lparr>cr_change_id = ''chg_a'', cr_base_version = 1, cr_candidate_version = 2, cr_hash = ''h2'',
     cr_artifact_manifest_hash = ''m'', cr_artifacts_ready = True, cr_artifact_block_reason = [],
     cr_artifacts_simulation = False, cr_config = demo_candidate, cr_created_at = 1000000000000\<rparr>"

definition demo_draft :: change where
  "demo_draft = demo_change\<lparr>ch_state := ''draft'', ch_version := 1, ch_candidate_version := 0,
     ch_candidate_hash := [], ch_candidate_path := [], ch_artifact_manifest_hash := [], ch_artifacts_ready := False,
     ch_revision_id := [], ch_transaction_id := [], ch_adapter_status := [], ch_validation := [], ch_diff := [],
     ch_expires_at := 0\<rparr>"

definition demo_revision :: revision_record where
  "demo_revision = (revision_of demo_change demo_tx ''validated'' None)"

definition demo_baseline :: revision_record where
  "demo_baseline = baseline_revision ''h1'' 1000000000000"

definition demo_open :: recovery_status where
  "demo_open = recovery_of ''not_required'' [] [] (no_target\<lparr>rt_revision_id := ''rev_1_'', rt_candidate_hash := ''h1''\<rparr>)
     ''baseline_confirmed''"

definition demo_log0 :: "json event list" where
  "demo_log0 =
     [Wrote [Recovery_entry demo_open],
      Wrote [Active_config demo_base, Active_revision ''rev_1_'', Config_version 1,
        Revision_entry ''rev_1_'' demo_baseline]]"

definition demo_log :: "json event list" where
  "demo_log =
     [Wrote [Candidate_entry ''chg_a'' demo_entry, Transaction_entry ''tx_b'' demo_record,
        Revision_entry ''rev_2_b'' demo_revision, Change_entry ''chg_a'' demo_change],
      Wrote [Change_entry ''chg_a'' demo_draft]] @ demo_log0"

definition demo_durable0 :: "json durable" where
  "demo_durable0 = \<lparr>du_active_config = Some demo_base, du_active_revision = Some ''rev_1_'', du_config_version = Some 1,
     du_recovery_status = Some demo_open, du_cleanup_result = None, du_candidates = [], du_transactions = [],
     du_revisions = [(''rev_1_'', demo_baseline)], du_changes = []\<rparr>"

definition demo_durable :: "json durable" where
  "demo_durable = demo_durable0\<lparr>du_candidates := [(''chg_a'', demo_entry)],
     du_transactions := [(''tx_b'', demo_record)],
     du_revisions := [(''rev_1_'', demo_baseline), (''rev_2_b'', demo_revision)],
     du_changes := [(''chg_a'', demo_change)]\<rparr>"

definition demo_server :: "json durable \<Rightarrow> nat \<Rightarrow> json event list \<Rightarrow> change bucket \<Rightarrow> json server" where
  "demo_server d t lg m = \<lparr>sv_durable = d, sv_alive = True, sv_clock = t, sv_log = lg, sv_changes = m,
     sv_active_config = demo_base, sv_active_revision = ''rev_1_'', sv_config_version = 1,
     sv_recovery = demo_open, sv_deferred = False, sv_timers = []\<rparr>"

lemmas demo_stored = demo_result_def demo_change_def demo_draft_def demo_tx_def demo_record_def demo_entry_def
  demo_revision_def demo_open_def demo_log_def demo_durable_def demo_server_def

lemma demo_started_state: "demo_started = demo_server demo_durable0 11 demo_log0 []"
  by (simp cong: run_cong let_weak_cong
      add: run_all demo_started_def demo_blank_def demo_server_def demo_durable0_def demo_log0_def demo_open_def demo_baseline_def)

lemma demo_created_state:
  "demo_created = demo_server (demo_durable0\<lparr>du_changes := [(''chg_a'', demo_draft)]\<rparr>) 14
     (Wrote [Change_entry ''chg_a'' demo_draft] # demo_log0) [(''chg_a'', demo_draft)]"
  by (simp cong: run_cong let_weak_cong
      add: run_all demo_build demo_created_def demo_started_state demo_stored demo_durable0_def)

lemma demo_validated_state: "demo_validated = demo_server demo_durable 29 demo_log [(''chg_a'', demo_change)]"
  by (simp cong: run_cong let_weak_cong
      add: run_all demo_build demo_validated_def demo_created_state demo_stored demo_durable0_def)

lemma demo_baseline_fields [simp]:
  "rv_revision_id demo_baseline = ''rev_1_''" "rv_kind demo_baseline = ''baseline''" "rv_change_id demo_baseline = []"
  "rv_transaction_id demo_baseline = []" "rv_base_version demo_baseline = 0" "rv_version demo_baseline = 1"
  "rv_candidate_hash demo_baseline = ''h1''" "rv_artifact_manifest_hash demo_baseline = []"
  "rv_state demo_baseline = ''committed''" "rv_created_at demo_baseline = 1000000000000"
  "rv_committed_at demo_baseline = Some 1000000000000"
  by (simp_all add: demo_baseline_def baseline_revision_def baseline_revision_id_def)

lemma demo_more [simp]: "tr_transaction demo_record = demo_tx" "tr_steps demo_record = []"
  "cr_config demo_entry = demo_candidate" "cr_hash demo_entry = ''h2''" "cr_artifact_manifest_hash demo_entry = ''m''"
  "cr_artifacts_ready demo_entry" "cr_artifact_block_reason demo_entry = []" "\<not> cr_artifacts_simulation demo_entry"
  "rs_status demo_open = ''not_required''" "rs_commit_phase demo_open = ''baseline_confirmed''"
  "rs_revision_id demo_open = ''rev_1_''" "rs_candidate_hash demo_open = ''h1''"
  by (simp_all add: demo_record_def demo_open_def recovery_of_def no_target_def demo_entry_def)

lemmas demo_run = run_all demo_validated_state demo_server_def demo_durable_def demo_durable0_def

section \<open>The runs are reachable\<close>

lemma demo_sound:
  "last_change (sv_log s) (''chg_'' @ hex) = None \<Longrightarrow> map_of (du_transactions (sv_durable s)) (''tx_'' @ hex) = None \<Longrightarrow>
     sound (demo_env hex good) s"
  by (simp add: sound_def)

lemma demo_move:
  assumes "reachable s" "sv_alive s" "last_change (sv_log s) (''chg_'' @ hex) = None"
    "map_of (du_transactions (sv_durable s)) (''tx_'' @ hex) = None"
  shows "reachable (snd (run_state (move_act (demo_env hex good) m) s))"
  using assms by (intro reachable.advance [OF _ server_step.move] demo_sound)

lemma demo_started_reachable: "reachable demo_started"
proof -
  have "reachable demo_blank" by (rule reachable.install) (simp_all add: demo_blank_def)
  then show ?thesis
    unfolding demo_started_def by (rule reachable.advance) (rule server_step.start, simp add: demo_blank_def)
qed

lemma demo_created_reachable: "reachable demo_created"
  unfolding demo_created_def
  by (rule demo_move [OF demo_started_reachable])
    (simp_all add: demo_started_state demo_server_def demo_durable0_def demo_log0_def)

lemma demo_validated_reachable: "reachable demo_validated"
  unfolding demo_validated_def
  by (rule demo_move [OF demo_created_reachable])
    (simp_all add: demo_created_state demo_server_def demo_durable0_def demo_log0_def)

lemma demo_applied_reachable: "reachable (demo_applied good)"
  unfolding demo_applied_def
  by (rule demo_move [OF demo_validated_reachable])
    (simp_all add: demo_validated_state demo_server_def demo_durable_def demo_durable0_def demo_log_def demo_log0_def)

text \<open>The change that was applied with success waits for its confirmation.\<close>

definition demo_waiting :: change where
  "demo_waiting = demo_change\<lparr>ch_steps := [demo_answer [] [] True, demo_answer [] [] True, demo_answer [] [] True,
     demo_answer ''apply_candidate'' [] True, demo_answer ''verify_management_path'' [] True,
     demo_answer ''verify_data_plane'' [] True], ch_management_verified := True, ch_data_plane_verified := True,
     ch_adapter_status := ''OK'', ch_state := ''awaiting_confirmation'', ch_version := 11\<rparr>"

definition demo_waiting_record :: transaction_record where
  "demo_waiting_record = demo_record\<lparr>tr_state := ''awaiting_confirmation'', tr_steps := ch_steps demo_waiting\<rparr>"

definition demo_applied_log :: "json event list" where
  "demo_applied_log = sv_log (demo_applied True)"

lemma demo_applied_state:
  "demo_applied True = (demo_server (demo_durable\<lparr>du_transactions := [(''tx_b'', demo_waiting_record)],
      du_changes := [(''chg_a'', demo_waiting)]\<rparr>) 72 demo_applied_log [(''chg_a'', demo_waiting)])
     \<lparr>sv_timers := [(''chg_a'', demo_waiting)]\<rparr>"
  by (simp cong: run_cong let_weak_cong
      add: demo_run demo_applied_def demo_applied_log_def demo_waiting_record_def demo_waiting_def demo_record_def demo_change_def)

lemma demo_applied_fresh: "last_change demo_applied_log ''chg_c'' = None"
  by (simp cong: run_cong let_weak_cong
      add: demo_run demo_applied_def demo_applied_log_def demo_log_def demo_log0_def)

lemma demo_waiting_fields [simp]:
  "tr_transaction demo_waiting_record = demo_tx" "tr_state demo_waiting_record = ''awaiting_confirmation''"
  "tr_commit_phase demo_waiting_record = []"
  by (simp_all add: demo_waiting_record_def demo_record_def)

lemma demo_confirmed_reachable: "reachable demo_confirmed"
  unfolding demo_confirmed_def
  by (rule demo_move [OF demo_applied_reachable])
    (simp_all add: demo_applied_state demo_server_def demo_applied_fresh demo_durable_def demo_durable0_def)

lemmas demo_rerun = run_all demo_applied_state demo_server_def demo_durable_def demo_durable0_def demo_waiting_def

section \<open>The properties at these runs\<close>

text \<open>The verification of the data plane fails: the change is rolled back.\<close>

definition demo_rolled_back :: "json server \<Rightarrow> bool" where
  "demo_rolled_back s \<longleftrightarrow>
     (\<exists>answer earlier. dropWhile (\<lambda>e. case e of Called (Rollback tx) r \<Rightarrow> False | _ \<Rightarrow> True) (sv_log s) =
        Called (Rollback demo_tx) answer # earlier \<and> hd demo_log \<in> set earlier)"

lemma demo_failed_rolled_back: "demo_rolled_back (demo_applied False)"
  by (simp cong: run_cong let_weak_cong add: demo_run demo_applied_def demo_rolled_back_def demo_log_def)



text \<open>While one change waits for its confirmation no other is exclusive.\<close>

theorem one_exclusive_change_witness:
  "\<exists>a. map_of (du_changes (sv_durable (demo_applied True))) ''chg_a'' = Some a \<and> ch_state a \<in> exclusive_states \<and>
     \<not> (\<exists>c b. map_of (du_changes (sv_durable (demo_applied True))) c = Some b \<and> ch_state b \<in> exclusive_states \<and>
       c \<noteq> ''chg_a'')"
proof -
  obtain a where a: "map_of (du_changes (sv_durable (demo_applied True))) ''chg_a'' = Some a"
    "ch_state a \<in> exclusive_states"
    by (simp add: demo_applied_state demo_server_def demo_waiting_def exclusive_states_def)
  then show ?thesis using one_exclusive_change [OF demo_applied_reachable _ _ a] by blast
qed

text \<open>The confirmed change is active.\<close>

definition demo_active :: "json server \<Rightarrow> bool" where
  "demo_active s \<longleftrightarrow> list_ex (\<lambda>e. case e of
      Wrote es \<Rightarrow> list_ex (\<lambda>x. x = Active_revision ''rev_2_b'') es \<and> entry_change ''chg_a'' es \<noteq> None
    | Called c r \<Rightarrow> False) (sv_log s) \<and> map_of (du_changes (sv_durable s)) ''chg_a'' \<noteq> None"

lemma demo_confirmed_active: "demo_active demo_confirmed"
  by (simp cong: run_cong let_weak_cong add: demo_rerun demo_confirmed_def demo_active_def)


theorem open_gate_faithful_witness:
  "\<exists>l. last_change (sv_log demo_validated) ''chg_a'' = Some l \<and> same_change l demo_change"
proof -
  have "sv_alive demo_validated" "recovery_allows_mutation (sv_recovery demo_validated)"
    "map_of (sv_changes demo_validated) ''chg_a'' = Some demo_change"
    by (simp_all add: demo_validated_state demo_server_def recovery_allows_mutation_def)
  with open_gate_faithful [OF demo_validated_reachable] show ?thesis by blast
qed

text \<open>The process dies while the change waits for its confirmation, and is started again.\<close>

definition demo_restarted :: "error option \<times> json server \<Rightarrow> bool" where
  "demo_restarted p \<longleftrightarrow> sv_alive (snd p) \<and>
     (\<exists>cs. map_of (sv_changes (snd p)) ''chg_a'' = Some cs \<and> ch_state cs \<in> set active_states)"

lemma demo_restart: "demo_restarted (run_state (start_server (demo_env ''d'' True)) ((demo_applied True)\<lparr>sv_alive := False\<rparr>))"
  by (simp cong: run_cong let_weak_cong add: demo_rerun demo_restarted_def)

theorem start_settles_changes_witness:
  "\<exists>s' cs. run_state (start_server (demo_env ''d'' True)) ((demo_applied True)\<lparr>sv_alive := False\<rparr>) = (None, s') \<and>
     map_of (sv_changes s') ''chg_a'' = Some cs \<and> ch_state cs = ''awaiting_confirmation''"
proof -
  let ?s = "(demo_applied True)\<lparr>sv_alive := False\<rparr>"
  have r: "reachable ?s" by (rule reachable.advance [OF demo_applied_reachable server_step.die])
  obtain r s' where run: "run_state (start_server (demo_env ''d'' True)) ?s = (r, s')" by fastforce
  with demo_restart obtain cs where "sv_alive s'" "map_of (sv_changes s') ''chg_a'' = Some cs"
    "ch_state cs \<in> set active_states" by (auto simp: demo_restarted_def)
  with start_settles_changes [OF r run] run show ?thesis by blast
qed

text \<open>The confirmed deployment is proven by the adapter.\<close>

definition demo_proven :: "recovery_status \<times> json server \<Rightarrow> bool" where
  "demo_proven p \<longleftrightarrow> recovery_allows_mutation (fst p) \<and> sv_alive (snd p)"

lemma demo_confirmed_proven: "demo_proven (run_state (active_recovery_status (demo_env ''d'' True)) demo_confirmed)"
  by (simp cong: run_cong let_weak_cong add: demo_rerun demo_confirmed_def demo_proven_def)

definition demo_alive :: "json server \<Rightarrow> bool" where
  "demo_alive s \<longleftrightarrow> sv_alive s \<and> sv_active_revision s = ''rev_2_b'' \<and>
     map_option rv_kind (map_of (du_revisions (sv_durable s)) ''rev_2_b'') = Some []"

lemma demo_confirmed_alive: "demo_alive demo_confirmed"
  by (simp cong: run_cong let_weak_cong add: demo_rerun demo_confirmed_def demo_alive_def)


text \<open>A committed transaction of long ago, and a server whose active revision it is.\<close>

definition demo_old :: "json durable" where
  "demo_old = demo_durable\<lparr>du_transactions := [(''tx_b'', demo_record\<lparr>tr_state := ''committed'', tr_completed_at := Some 1\<rparr>)]\<rparr>"

definition demo_old_server :: "json server" where
  "demo_old_server = (demo_server (retain (demo_env ''d'' True) 2000000 demo_old) 0 [] [])
     \<lparr>sv_active_revision := ''rev_2_b''\<rparr>"

theorem retention_locks_active_revision_witness:
  "\<not> recovery_allows_mutation (fst (run_state (active_recovery_status (demo_env ''d'' True)) demo_old_server))"
proof (rule retention_locks_active_revision [where d = demo_old and rv = demo_revision and env = "demo_env ''d'' True"
    and t = 2000000 and c = 1 and r = "demo_record\<lparr>tr_state := ''committed'', tr_completed_at := Some 1\<rparr>"])
  show "ordered (du_transactions demo_old)" by (simp add: demo_old_def ordered_def)
qed (simp_all add: demo_old_server_def demo_server_def demo_old_def demo_durable_def demo_durable0_def demo_revision_def
    revision_of_def)

end
